(* ===== verification/Prelude.thy ===== *)
theory Prelude
  imports Main "HOL-Library.AList" "HOL-Library.Char_ord" "HOL-Library.List_Lexorder"
begin

text \<open>
  Shared vocabulary of the development: Python dictionaries as insertion-ordered association
  lists, ASCII case folding, Python slices, error results and the generic lemmas on lists,
  options and finite sets the component theories use.
\<close>

named_theorems cis_simps \<open>laws of the case-insensitive collections\<close>
named_theorems dict_simps \<open>laws of insertion-ordered dictionaries\<close>
named_theorems gen_simps \<open>unfolding rules of the generator combinators\<close>

section \<open>Python dictionaries\<close>

text \<open>
  A \<^verbatim>\<open>dict\<close> is an association list with distinct keys. Assigning to an existing key keeps its
  position and assigning to a new key appends, which is what \<^const>\<open>AList.update\<close> does;
  \<^verbatim>\<open>pop\<close> removes the entry.
\<close>

type_synonym ('k, 'v) dict = "('k \<times> 'v) list"

abbreviation dict_get :: "('k, 'v) dict \<Rightarrow> 'k \<Rightarrow> 'v option" where
  "dict_get \<equiv> map_of"

abbreviation dict_set :: "'k \<Rightarrow> 'v \<Rightarrow> ('k, 'v) dict \<Rightarrow> ('k, 'v) dict" where
  "dict_set \<equiv> AList.update"

abbreviation dict_pop :: "'k \<Rightarrow> ('k, 'v) dict \<Rightarrow> ('k, 'v) dict" where
  "dict_pop \<equiv> AList.delete"

abbreviation dict_keys :: "('k, 'v) dict \<Rightarrow> 'k list" where
  "dict_keys \<equiv> map fst"

abbreviation dict_values :: "('k, 'v) dict \<Rightarrow> 'v list" where
  "dict_values \<equiv> map snd"

definition dict_has :: "('k, 'v) dict \<Rightarrow> 'k \<Rightarrow> bool" where
  "dict_has d k \<longleftrightarrow> k \<in> set (dict_keys d)"

definition dict_wf :: "('k, 'v) dict \<Rightarrow> bool" where
  "dict_wf d \<longleftrightarrow> distinct (dict_keys d)"

definition dict_get_default :: "('k, 'v) dict \<Rightarrow> 'k \<Rightarrow> 'v \<Rightarrow> 'v" where
  "dict_get_default d k v = (case dict_get d k of None \<Rightarrow> v | Some x \<Rightarrow> x)"

text \<open>\<^verbatim>\<open>d.update(other)\<close>: the entries of \<^verbatim>\<open>other\<close> are assigned in their order.\<close>

definition dict_update :: "('k, 'v) dict \<Rightarrow> ('k, 'v) dict \<Rightarrow> ('k, 'v) dict" where
  "dict_update d other = fold (\<lambda>(k, v). dict_set k v) other d"

text \<open>A dictionary display or comprehension: later pairs overwrite earlier ones.\<close>

definition dict_of :: "('k \<times> 'v) list \<Rightarrow> ('k, 'v) dict" where
  "dict_of ps = dict_update [] ps"

lemma dict_has_get [dict_simps]: "dict_has d k \<longleftrightarrow> dict_get d k \<noteq> None"
  by (simp add: dict_has_def map_of_eq_None_iff)

lemma dict_wf_Nil [simp]: "dict_wf []"
  by (simp add: dict_wf_def)

lemma dict_wf_set [dict_simps]: "dict_wf d \<Longrightarrow> dict_wf (dict_set k v d)"
  by (simp add: dict_wf_def distinct_update)

lemma dict_wf_pop [dict_simps]: "dict_wf d \<Longrightarrow> dict_wf (dict_pop k d)"
  by (simp add: dict_wf_def distinct_delete)

lemma dict_wf_filter [dict_simps]: "dict_wf d \<Longrightarrow> dict_wf (filter P d)"
  by (simp add: dict_wf_def distinct_map_filter)

lemma dict_keys_set [dict_simps]: "fst ` set (dict_set k v d) = insert k (fst ` set d)"
  by (simp add: dom_update)

lemma dict_keys_pop [dict_simps]: "fst ` set (dict_pop k d) = fst ` set d - {k}"
  by (induction d) auto

lemma dict_get_set [dict_simps]: "dict_get (dict_set k v d) = (dict_get d)(k \<mapsto> v)"
  by (simp add: update_conv')

lemma dict_get_pop [dict_simps]: "dict_get (dict_pop k d) = (dict_get d)(k := None)"
  by (simp add: delete_conv')

lemma dict_wf_update [dict_simps]: "dict_wf d \<Longrightarrow> dict_wf (dict_update d other)"
  unfolding dict_update_def by (induction other arbitrary: d) (auto simp: dict_wf_set)

lemma dict_get_update [dict_simps]: "dict_get (dict_update d other) = dict_get d ++ dict_get (rev other)"
proof (induction other arbitrary: d)
  case Nil
  then show ?case by (simp add: dict_update_def)
next
  case (Cons p ps)
  obtain k v where p: "p = (k, v)" by (cases p)
  have "dict_get (dict_update (dict_set k v d) ps) = dict_get (dict_set k v d) ++ dict_get (rev ps)"
    by (rule Cons.IH)
  then show ?case
    by (auto simp: dict_update_def p dict_get_set map_add_def fun_eq_iff map_of_append
        split: option.splits)
qed

lemma dict_wf_of [simp]: "dict_wf (dict_of ps)"
  by (simp add: dict_of_def dict_wf_update)

lemma dict_get_of [dict_simps]: "dict_get (dict_of ps) = dict_get (rev ps)"
  by (simp add: dict_of_def dict_get_update)

section \<open>Strings\<close>

text \<open>
  Strings are lists of 8-bit characters and hold ASCII text; \<open>lower\<close> folds the ASCII upper-case
  letters, as \<^verbatim>\<open>str.lower\<close> does on such text.
\<close>

definition lower_char :: "char \<Rightarrow> char" where
  "lower_char c = (let n = of_char c :: int in if 65 \<le> n \<and> n \<le> 90 then char_of (n + 32) else c)"

definition lower :: "string \<Rightarrow> string" where
  "lower s = map lower_char s"

lemma of_char_bounds: "0 \<le> (of_char c :: int)" "(of_char c :: int) < 256"
  by (metis of_char_mod_256 pos_mod_sign zero_less_numeral, metis of_char_mod_256 pos_mod_bound zero_less_numeral)

lemma lower_char_idem [simp]: "lower_char (lower_char c) = lower_char c"
  by (simp add: lower_char_def Let_def of_char_of)

lemma lower_idem [simp]: "lower (lower s) = lower s"
  by (simp add: lower_def)

lemma lower_Nil [simp]: "lower [] = []"
  by (simp add: lower_def)

lemma lower_append [simp]: "lower (s @ t) = lower s @ lower t"
  by (simp add: lower_def)

lemma lower_eq_Nil [simp]: "lower s = [] \<longleftrightarrow> s = []"
  by (simp add: lower_def)

section \<open>Errors\<close>

text \<open>The Python exceptions the modelled code raises or catches; results are \<open>py_error + 'a\<close>.\<close>

datatype py_error = KeyError | ValueError | TypeError | IndexError | AssertionError
  | AttributeError | OverflowError | ZeroDivisionError | RecursionError | PostgresException | SystemExit

definition try_except :: "py_error + 'a \<Rightarrow> py_error list \<Rightarrow> 'a \<Rightarrow> py_error + 'a" where
  "try_except r es d = (case r of Inr x \<Rightarrow> Inr x | Inl e \<Rightarrow> if e \<in> set es then Inr d else Inl e)"

section \<open>Python slices\<close>

text \<open>\<^verbatim>\<open>xs[:k]\<close>: a negative bound counts from the end.\<close>

definition py_take :: "int \<Rightarrow> 'a list \<Rightarrow> 'a list" where
  "py_take k xs = take (nat (if k < 0 then int (length xs) + k else k)) xs"

lemma set_py_take_subset: "set (py_take k xs) \<subseteq> set xs"
  by (auto simp: py_take_def dest: in_set_takeD)

lemma distinct_py_take [simp]: "distinct xs \<Longrightarrow> distinct (py_take k xs)"
  by (simp add: py_take_def)

lemma length_py_take_nonneg: "0 \<le> k \<Longrightarrow> length (py_take k xs) = min (length xs) (nat k)"
  by (simp add: py_take_def)

section \<open>Finite sets\<close>

lemma card_insert_int: "finite A \<Longrightarrow> int (card (insert a A)) = int (card A) + (if a \<in> A then 0 else 1)"
  by (simp add: card_insert_if)

text \<open>Two subsets of a finite set whose sizes add up to more than the whole meet.\<close>

lemma card_overlap:
  assumes "finite U" "A \<subseteq> U" "B \<subseteq> U" "card U < card A + card B"
  shows "A \<inter> B \<noteq> {}"
proof
  assume disj: "A \<inter> B = {}"
  have fin: "finite A" "finite B" using assms finite_subset by blast+
  have "card A + card B = card (A \<union> B)" using disj fin by (simp add: card_Un_disjoint)
  also have "\<dots> \<le> card U" using assms by (intro card_mono) auto
  finally show False using assms(4) by simp
qed

end
