(* ===== verification/PyValue.thy ===== *)
theory PyValue
  imports Prelude
begin

text \<open>
  The Python values a configuration, a tag or a decoded JSON document holds, with \<^verbatim>\<open>str\<close>, \<^verbatim>\<open>repr\<close>,
  \<^verbatim>\<open>bool\<close> and \<^verbatim>\<open>strip\<close>, and the two recursive dictionary helpers of \<^verbatim>\<open>patroni/utils.py\<close>,
  \<open>deep_compare\<close> and \<open>patch_config\<close>.
\<close>

section \<open>Values\<close>

text \<open>A float is carried by its \<^verbatim>\<open>repr\<close>, from which Python reads the same float back.\<close>

datatype pyval = PNone | PBool bool | PInt int | PFloat string | PStr string
  | PList "pyval list" | PDict "(string \<times> pyval) list"

type_synonym pydict = "(string, pyval) dict"

fun truthy :: "pyval \<Rightarrow> bool" where
  "truthy PNone = False"
| "truthy (PBool b) = b"
| "truthy (PInt n) = (n \<noteq> 0)"
| "truthy (PFloat r) = (r \<noteq> ''0.0'' \<and> r \<noteq> ''-0.0'')"
| "truthy (PStr s) = (s \<noteq> [])"
| "truthy (PList xs) = (xs \<noteq> [])"
| "truthy (PDict d) = (d \<noteq> [])"

text \<open>\<^verbatim>\<open>d.get(k)\<close>, with \<open>PNone\<close> for a missing key, and \<^verbatim>\<open>x or y\<close>.\<close>

definition pyget :: "pydict \<Rightarrow> string \<Rightarrow> pyval" where
  "pyget d k = dict_get_default d k PNone"

definition py_or :: "pyval \<Rightarrow> pyval \<Rightarrow> pyval" where
  "py_or x y = (if truthy x then x else y)"

section \<open>Decimal numbers\<close>

definition digit_char :: "int \<Rightarrow> char" where
  "digit_char d = char_of (48 + d)"

definition digit_val :: "char \<Rightarrow> int" where
  "digit_val c = of_char c - 48"

definition is_digit :: "char \<Rightarrow> bool" where
  "is_digit c \<longleftrightarrow> 48 \<le> (of_char c :: int) \<and> (of_char c :: int) \<le> 57"

function show_nat :: "int \<Rightarrow> string" where
  "show_nat n = (if n < 10 then [digit_char n] else show_nat (n div 10) @ [digit_char (n mod 10)])"
  by pat_completeness auto
termination by (relation "measure nat") auto

declare show_nat.simps [simp del]

definition show_int :: "int \<Rightarrow> string" where
  "show_int n = (if n < 0 then CHR ''-'' # show_nat (- n) else show_nat n)"

definition read_nat :: "string \<Rightarrow> int" where
  "read_nat s = foldl (\<lambda>n c. 10 * n + digit_val c) 0 s"

lemma digit_val_char [simp]: "0 \<le> d \<Longrightarrow> d < 10 \<Longrightarrow> digit_val (digit_char d) = d"
  by (simp add: digit_val_def digit_char_def of_char_of)

lemma is_digit_char [simp]: "0 \<le> d \<Longrightarrow> d < 10 \<Longrightarrow> is_digit (digit_char d)"
  by (simp add: is_digit_def digit_char_def of_char_of)

lemma read_nat_snoc [simp]: "read_nat (s @ [c]) = 10 * read_nat s + digit_val c"
  by (simp add: read_nat_def)

lemma read_show_nat [simp]: "0 \<le> n \<Longrightarrow> read_nat (show_nat n) = n"
proof (induction n rule: show_nat.induct)
  case (1 n)
  show ?case
  proof (cases "n < 10")
    case True
    then show ?thesis using 1 by (simp add: show_nat.simps [of n] read_nat_def)
  next
    case False
    then show ?thesis using 1 by (subst show_nat.simps) simp
  qed
qed

lemma show_nat_digits: "0 \<le> n \<Longrightarrow> list_all is_digit (show_nat n)"
  by (induction n rule: show_nat.induct) (subst show_nat.simps, auto)

lemma show_nat_nonempty [simp]: "show_nat n \<noteq> []"
  by (subst show_nat.simps) simp

lemma show_nat_inj: "0 \<le> m \<Longrightarrow> 0 \<le> n \<Longrightarrow> show_nat m = show_nat n \<Longrightarrow> m = n"
  by (metis read_show_nat)

text \<open>Only zero is printed with a leading zero.\<close>

lemma show_nat_hd: "0 < n \<Longrightarrow> hd (show_nat n) \<noteq> CHR ''0''"
proof (induction n rule: show_nat.induct)
  case (1 n)
  show ?case
  proof (cases "n < 10")
    case True
    have "CHR ''0'' = digit_char 0" by code_simp
    then have "digit_char n \<noteq> CHR ''0''" using 1(2) True
      by (metis digit_val_char less_imp_le less_irrefl order_refl zero_less_numeral)
    then show ?thesis using True by (subst show_nat.simps) simp
  next
    case False
    then show ?thesis using 1 by (subst show_nat.simps) simp
  qed
qed

section \<open>String representation\<close>

definition hex_char :: "nat \<Rightarrow> char" where
  "hex_char d = (if d < 10 then char_of (48 + d) else char_of (87 + d))"

definition repr_char :: "char \<Rightarrow> char \<Rightarrow> string" where
  "repr_char q c = (let n = of_char c :: nat in
     if c = q \<or> n = 92 then [char_of (92 :: nat), c]
     else if n = 10 then [char_of (92 :: nat), CHR ''n'']
     else if n = 13 then [char_of (92 :: nat), CHR ''r'']
     else if n = 9 then [char_of (92 :: nat), CHR ''t'']
     else if n < 32 \<or> 127 \<le> n then [char_of (92 :: nat), CHR ''x'', hex_char (n div 16), hex_char (n mod 16)]
     else [c])"

definition repr_str :: "string \<Rightarrow> string" where
  "repr_str s = (let sq = char_of (39 :: nat); dq = char_of (34 :: nat);
                     q = (if sq \<in> set s \<and> dq \<notin> set s then dq else sq)
                 in [q] @ concat (map (repr_char q) s) @ [q])"

fun join :: "string \<Rightarrow> string list \<Rightarrow> string" where
  "join sep [] = []"
| "join sep [x] = x"
| "join sep (x # y # ys) = x @ sep @ join sep (y # ys)"

fun py_repr :: "pyval \<Rightarrow> string" where
  "py_repr PNone = ''None''"
| "py_repr (PBool b) = (if b then ''True'' else ''False'')"
| "py_repr (PInt n) = show_int n"
| "py_repr (PFloat r) = r"
| "py_repr (PStr s) = repr_str s"
| "py_repr (PList xs) = ''['' @ join '', '' (map py_repr xs) @ '']''"
| "py_repr (PDict d) = ''{'' @ join '', '' (map (\<lambda>(k, v). repr_str k @ '': '' @ py_repr v) d) @ ''}''"

fun py_str :: "pyval \<Rightarrow> string" where
  "py_str (PStr s) = s"
| "py_str v = py_repr v"

definition is_space :: "char \<Rightarrow> bool" where
  "is_space c \<longleftrightarrow> (let n = of_char c :: int in 9 \<le> n \<and> n \<le> 13 \<or> 28 \<le> n \<and> n \<le> 32)"

definition lstrip :: "string \<Rightarrow> string" where
  "lstrip s = dropWhile is_space s"

definition strip :: "string \<Rightarrow> string" where
  "strip s = rev (dropWhile is_space (rev (lstrip s)))"

lemma digit_not_space [simp]: "is_digit c \<Longrightarrow> \<not> is_space c"
  by (auto simp: is_digit_def is_space_def Let_def)

lemma dropWhile_hd: "s \<noteq> [] \<Longrightarrow> \<not> P (hd s) \<Longrightarrow> dropWhile P s = s"
  by (cases s) auto

lemma strip_id: "s \<noteq> [] \<Longrightarrow> \<not> is_space (hd s) \<Longrightarrow> \<not> is_space (last s) \<Longrightarrow> strip s = s"
  by (simp add: strip_def lstrip_def dropWhile_hd hd_rev)

section \<open>deep_compare and patch_config\<close>

fun dc_items :: "pydict \<Rightarrow> pydict \<Rightarrow> bool" where
  "dc_items [] obj2 = True"
| "dc_items ((key, value) # rest) obj2 =
     ((case dict_get obj2 key of
         None \<Rightarrow> False
       | Some v2 \<Rightarrow> (case value of
            PDict d1 \<Rightarrow> (case v2 of
               PDict d2 \<Rightarrow> set (dict_keys d1) = set (dict_keys d2) \<and> dc_items d1 d2
             | _ \<Rightarrow> False)
          | _ \<Rightarrow> py_str value = py_str v2))
      \<and> dc_items rest obj2)"

definition deep_compare :: "pydict \<Rightarrow> pydict \<Rightarrow> bool" where
  "deep_compare obj1 obj2 \<longleftrightarrow> set (dict_keys obj1) = set (dict_keys obj2) \<and> dc_items obj1 obj2"

text \<open>
  \<open>patch_config\<close> returns the patched dictionary and the flag. The two arguments are taken not
  to share sub-dictionaries.
\<close>

fun patch_config :: "pydict \<Rightarrow> pydict \<Rightarrow> pydict \<times> bool" where
  "patch_config config [] = (config, False)"
| "patch_config config ((name, value) # data) =
     (let (config1, changed) =
        (case value of
           PNone \<Rightarrow> (dict_pop name config, dict_get config name \<notin> {None, Some PNone})
         | PDict d \<Rightarrow> (case dict_get config name of
              None \<Rightarrow> (dict_set name value config, True)
            | Some (PDict c) \<Rightarrow> (let (c', ch) = patch_config c d in (dict_set name (PDict c') config, ch))
            | Some _ \<Rightarrow> (dict_set name value config, True))
         | _ \<Rightarrow> (case dict_get config name of
              None \<Rightarrow> (dict_set name value config, True)
            | Some v \<Rightarrow> if py_str v \<noteq> py_str value then (dict_set name value config, True) else (config, False)));
          (config2, changed2) = patch_config config1 data
      in (config2, changed \<or> changed2))"

text \<open>Dictionaries whose keys are distinct at every level, as Python dictionaries have them.\<close>

fun wf_val :: "pyval \<Rightarrow> bool" where
  "wf_val (PDict d) = (distinct (dict_keys d) \<and> list_all (\<lambda>(k, v). wf_val v) d)"
| "wf_val (PList xs) = list_all wf_val xs"
| "wf_val v = True"

abbreviation wf_dict :: "pydict \<Rightarrow> bool" where
  "wf_dict d \<equiv> wf_val (PDict d)"

text \<open>What a patch does to the value of one key, and whether it reports a change there.\<close>

fun patch_val :: "pyval option \<Rightarrow> pyval \<Rightarrow> pyval option" where
  "patch_val x PNone = None"
| "patch_val None v = Some v"
| "patch_val (Some (PDict c)) (PDict d) = Some (PDict (fst (patch_config c d)))"
| "patch_val (Some x) (PDict d) = Some (PDict d)"
| "patch_val (Some x) v = (if py_str x \<noteq> py_str v then Some v else Some x)"

fun patch_reports :: "pyval option \<Rightarrow> pyval \<Rightarrow> bool" where
  "patch_reports x PNone = (x \<notin> {None, Some PNone})"
| "patch_reports None v = True"
| "patch_reports (Some (PDict c)) (PDict d) = snd (patch_config c d)"
| "patch_reports (Some x) (PDict d) = True"
| "patch_reports (Some x) v = (py_str x \<noteq> py_str v)"

text \<open>One step of the loop.\<close>

definition patch_step :: "pydict \<Rightarrow> string \<Rightarrow> pyval \<Rightarrow> pydict \<times> bool" where
  "patch_step config name value = (
     (case patch_val (dict_get config name) value of
        None \<Rightarrow> dict_pop name config
      | Some v \<Rightarrow> if dict_get config name = Some v then config else dict_set name v config),
     patch_reports (dict_get config name) value)"

lemma dict_set_same: "dict_get d k = Some v \<Longrightarrow> dict_set k v d = d"
  by (induction d) auto

lemma patch_config_Cons:
  "patch_config config ((name, value) # data) =
     (let (config1, ch) = patch_step config name value; (config2, ch2) = patch_config config1 data
      in (config2, ch \<or> ch2))"
  by (cases "value"; cases "dict_get config name")
    (auto simp: patch_step_def Let_def dict_set_same split: prod.splits pyval.splits)

declare patch_config.simps(2) [simp del]

lemma dict_get_patch_step:
  "dict_get (fst (patch_step config name value)) =
     (dict_get config)(name := patch_val (dict_get config name) value)"
  by (auto simp: patch_step_def dict_get_set dict_get_pop fun_eq_iff split: option.splits)

lemma patch_config_Cons_parts:
  "fst (patch_config c ((name, w) # d)) = fst (patch_config (fst (patch_step c name w)) d)"
  "snd (patch_config c ((name, w) # d)) \<longleftrightarrow>
     patch_reports (dict_get c name) w \<or> snd (patch_config (fst (patch_step c name w)) d)"
  by (simp_all add: patch_config_Cons Let_def split_beta) (simp add: patch_step_def)

lemma patch_config_get:
  assumes "distinct (dict_keys d)"
  shows "dict_get (fst (patch_config c d)) k =
    (case dict_get d k of None \<Rightarrow> dict_get c k | Some v \<Rightarrow> patch_val (dict_get c k) v)"
  using assms
proof (induction d arbitrary: c)
  case (Cons p d)
  obtain name w where p: "p = (name, w)" by (cases p)
  have "name \<notin> set (dict_keys d)" using Cons.prems p by simp
  then have "dict_get d name = None" by (simp add: map_of_eq_None_iff)
  then show ?case using Cons.IH [of "fst (patch_step c name w)"] Cons.prems
    by (cases "k = name"; cases "dict_get d k") (simp_all add: p patch_config_Cons_parts dict_get_patch_step)
qed simp

lemma ex_get_Cons:
  assumes "dict_get d n = None"
  shows "(\<exists>k v. dict_get ((n, w) # d) k = Some v \<and> P k v) \<longleftrightarrow> P n w \<or> (\<exists>k v. dict_get d k = Some v \<and> P k v)"
  using assms by (auto, metis option.distinct(1))

lemma patch_config_reports:
  assumes "distinct (dict_keys d)"
  shows "snd (patch_config c d) \<longleftrightarrow> (\<exists>k v. dict_get d k = Some v \<and> patch_reports (dict_get c k) v)"
  using assms
proof (induction d arbitrary: c)
  case (Cons p d)
  obtain name w where p: "p = (name, w)" by (cases p)
  let ?c = "fst (patch_step c name w)"
  have "name \<notin> set (dict_keys d)" using Cons.prems p by simp
  then have n: "dict_get d name = None" by (simp add: map_of_eq_None_iff)
  then have same: "dict_get ?c k = dict_get c k" if "dict_get d k = Some v" for k v
    using that by (auto simp: dict_get_patch_step)
  have "snd (patch_config ?c d) \<longleftrightarrow> (\<exists>k v. dict_get d k = Some v \<and> patch_reports (dict_get ?c k) v)"
    using Cons by simp
  also have "\<dots> \<longleftrightarrow> (\<exists>k v. dict_get d k = Some v \<and> patch_reports (dict_get c k) v)"
    using same by metis
  also have "patch_reports (dict_get c name) w \<or> \<dots> \<longleftrightarrow>
      (\<exists>k v. dict_get ((name, w) # d) k = Some v \<and> patch_reports (dict_get c k) v)"
    by (rule ex_get_Cons [OF n, symmetric])
  finally show ?case by (simp add: p patch_config_Cons_parts)
qed simp

lemma patch_scalar:
  assumes "v \<noteq> PNone" "\<And>d. v \<noteq> PDict d"
  shows "patch_val x v = (case x of None \<Rightarrow> Some v | Some y \<Rightarrow> if py_str y \<noteq> py_str v then Some v else Some y)"
    and "patch_reports x v = (case x of None \<Rightarrow> True | Some y \<Rightarrow> py_str y \<noteq> py_str v)"
  using assms by (cases v; cases x; simp)+

lemma patch_self: "wf_val v \<Longrightarrow> \<not> patch_reports (Some v) v"
proof (induction v)
  case (PDict d)
  have "\<not> patch_reports (dict_get d k) v" if "dict_get d k = Some v" for k v
    using PDict.IH [of "(k, v)" v] PDict.prems that map_of_SomeD [OF that] by (auto simp: list_all_iff)
  then show ?case using PDict.prems by (simp add: patch_config_reports)
qed simp_all

lemma patch_twice_scalar:
  assumes "v \<noteq> PNone" "\<And>d. v \<noteq> PDict d"
  shows "\<not> patch_reports (patch_val x v) v"
  by (cases x) (simp_all add: patch_scalar assms)

lemma patch_twice: "wf_val v \<Longrightarrow> \<not> patch_reports (patch_val x v) v"
proof (induction v arbitrary: x)
  case (PDict d)
  show ?case
  proof (cases "\<exists>c. x = Some (PDict c)")
    case True
    then obtain c where x: "x = Some (PDict c)" ..
    have "\<not> patch_reports (dict_get (fst (patch_config c d)) k) v" if "dict_get d k = Some v" for k v
      using PDict.IH [of "(k, v)" v] PDict.prems that map_of_SomeD [OF that]
      by (simp add: list_all_iff patch_config_get) fastforce
    then show ?thesis using PDict.prems by (simp add: x patch_config_reports)
  next
    case False
    then have "patch_val x (PDict d) = Some (PDict d)"
      by (cases x; simp; cases "the x"; simp)
    then show ?thesis using patch_self [OF PDict.prems] by simp
  qed
qed (simp, (rule patch_twice_scalar; simp)+)

section \<open>Properties\<close>

text \<open>
  what \<open>patch_config\<close> computes. Key by key, a \<^verbatim>\<open>None\<close> in the patch removes the key, a new key
  is added, a dictionary is merged recursively into a dictionary and any other value replaces
  the old one unless both print alike; all other keys keep their value. Applying the same patch
  again reports no change.
\<close>

theorem patch_config_correct:
  assumes "wf_dict d"
  shows "dict_get (fst (patch_config c d)) k =
      (case dict_get d k of None \<Rightarrow> dict_get c k | Some v \<Rightarrow> patch_val (dict_get c k) v)
    \<and> \<not> snd (patch_config (fst (patch_config c d)) d)"
  using assms patch_config_get patch_twice [OF assms, of "Some (PDict c)"] by simp

theorem patch_config_correct_witness:
  "dict_get (fst (patch_config [(''ttl'', PInt 30), (''pg'', PDict [(''a'', PInt 1), (''b'', PInt 2)])]
       [(''pg'', PDict [(''a'', PNone), (''c'', PInt 3)])])) ''pg''
     = Some (PDict [(''b'', PInt 2), (''c'', PInt 3)])"
  using patch_config_correct [of "[(''pg'', PDict [(''a'', PNone), (''c'', PInt 3)])]"
      "[(''ttl'', PInt 30), (''pg'', PDict [(''a'', PInt 1), (''b'', PInt 2)])]" "''pg''"]
  by (simp add: patch_config_Cons patch_step_def)

end
