(* ===== verification/Numbers.thy ===== *)
theory Numbers
  imports Complex_Main PyValue
begin

text \<open>
  Reading numbers with units, \<^verbatim>\<open>patroni/utils.py\<close>: \<open>strtol\<close>, \<open>strtod\<close>, the conversion tables,
  \<open>convert_to_base_unit\<close>, \<open>convert_int_from_base_unit\<close>, \<open>parse_bool\<close>, \<open>parse_int\<close>, \<open>parse_real\<close>
  and \<open>compare_values\<close>. Floats are IEEE double precision: exact rationals, rounded to 53 bits
  after every operation. The limit recent interpreters put on the number of digits of an integer
  literal is left out.
\<close>

section \<open>Double precision floats\<close>

datatype pyfloat = Fin rat | Inf bool | NaN

text \<open>The Boolean of \<open>Inf\<close> says whether it is negative.\<close>

text \<open>Powers of two with an integer exponent, by squaring.\<close>

function ipow :: "int \<Rightarrow> int \<Rightarrow> int" where
  "ipow b e = (if e \<le> 0 then 1
     else let h = ipow b (e div 2) in if even e then h * h else b * h * h)"
  by pat_completeness auto
termination by (relation "measure (nat \<circ> snd)") auto

declare ipow.simps [simp del]

function nbits :: "int \<Rightarrow> int" where
  "nbits n = (if n \<le> 0 then 0 else 1 + nbits (n div 2))"
  by pat_completeness auto
termination by (relation "measure nat") auto

declare nbits.simps [simp del]

text \<open>\<open>\<lfloor>log\<^sub>2 (p / d)\<rfloor>\<close> and division with rounding to nearest, ties to even.\<close>

definition flog2 :: "int \<Rightarrow> int \<Rightarrow> int" where
  "flog2 p d = (let e = nbits p - nbits d
     in if (if e \<ge> 0 then d * ipow 2 e \<le> p else d \<le> p * ipow 2 (- e)) then e else e - 1)"

definition round_div :: "int \<Rightarrow> int \<Rightarrow> int" where
  "round_div p d = (let f = p div d; r = 2 * (p mod d) in
     if r < d then f else if r > d then f + 1 else if even f then f else f + 1)"

text \<open>The nearest double: a significand of 53 bits, exponents from \<open>-1074\<close> on.\<close>

definition fl :: "rat \<Rightarrow> pyfloat" where
  "fl x = (case quotient_of x of (sp, d) \<Rightarrow>
     if sp = 0 then Fin 0
     else let p = \<bar>sp\<bar>; q = max (flog2 p d - 52) (- 1074);
              m = (if q \<ge> 0 then round_div p (d * ipow 2 q) else round_div (p * ipow 2 (- q)) d);
              sm = (if sp < 0 then - m else m)
          in if q \<ge> 971 \<and> m * ipow 2 q \<ge> ipow 2 1024 then Inf (sp < 0)
             else Fin (if q \<ge> 0 then of_int (sm * ipow 2 q) else Fract sm (ipow 2 (- q))))"

definition round_even :: "rat \<Rightarrow> int" where
  "round_even x = (case quotient_of x of (p, d) \<Rightarrow> round_div p d)"

datatype pynum = I int | F pyfloat

text \<open>\<^verbatim>\<open>float(n)\<close> of an integer raises \<^verbatim>\<open>OverflowError\<close> when the integer is too large.\<close>

definition to_float :: "pynum \<Rightarrow> py_error + pyfloat" where
  "to_float n = (case n of
     F x \<Rightarrow> Inr x
   | I i \<Rightarrow> (case fl (of_int i) of Fin x \<Rightarrow> Inr (Fin x) | _ \<Rightarrow> Inl OverflowError))"

fun fneg :: "pyfloat \<Rightarrow> bool" where
  "fneg (Fin x) = (x < 0)"
| "fneg (Inf b) = b"
| "fneg NaN = False"

fun fmul :: "pyfloat \<Rightarrow> pyfloat \<Rightarrow> pyfloat" where
  "fmul (Fin x) (Fin y) = fl (x * y)"
| "fmul NaN y = NaN"
| "fmul x NaN = NaN"
| "fmul x y = (if x = Fin 0 \<or> y = Fin 0 then NaN else Inf (fneg x \<noteq> fneg y))"

fun fdiv :: "pyfloat \<Rightarrow> pyfloat \<Rightarrow> py_error + pyfloat" where
  "fdiv x (Fin y) = (if y = 0 then Inl ZeroDivisionError
     else Inr (case x of Fin a \<Rightarrow> fl (a / y) | Inf b \<Rightarrow> Inf (b \<noteq> (y < 0)) | NaN \<Rightarrow> NaN))"
| "fdiv (Fin x) (Inf b) = Inr (Fin 0)"
| "fdiv x y = Inr NaN"

text \<open>\<^verbatim>\<open>round(x)\<close>\<close>

definition py_round :: "pynum \<Rightarrow> py_error + int" where
  "py_round n = (case n of
     I i \<Rightarrow> Inr i
   | F (Fin x) \<Rightarrow> Inr (round_even x)
   | F (Inf b) \<Rightarrow> Inl OverflowError
   | F NaN \<Rightarrow> Inl ValueError)"

definition num_mul :: "pynum \<Rightarrow> pynum \<Rightarrow> py_error + pynum" where
  "num_mul m n = (case (m, n) of
     (I i, I j) \<Rightarrow> Inr (I (i * j))
   | _ \<Rightarrow> (case to_float m of Inl e \<Rightarrow> Inl e | Inr x \<Rightarrow>
            (case to_float n of Inl e \<Rightarrow> Inl e | Inr y \<Rightarrow> Inr (F (fmul x y)))))"

text \<open>\<^verbatim>\<open>m / x\<close> for a float \<open>x\<close>\<close>

definition num_div :: "pynum \<Rightarrow> pyfloat \<Rightarrow> py_error + pynum" where
  "num_div m y = (case to_float m of Inl e \<Rightarrow> Inl e | Inr x \<Rightarrow> map_sum id F (fdiv x y))"

section \<open>strtol and strtod\<close>

definition hex_val :: "char \<Rightarrow> int option" where
  "hex_val c = (let n = of_char c :: int in
     if 48 \<le> n \<and> n \<le> 57 then Some (n - 48)
     else if 97 \<le> n \<and> n \<le> 102 then Some (n - 87)
     else if 65 \<le> n \<and> n \<le> 70 then Some (n - 55) else None)"

definition is_hex :: "char \<Rightarrow> bool" where
  "is_hex c \<longleftrightarrow> hex_val c \<noteq> None"

definition is_oct :: "char \<Rightarrow> bool" where
  "is_oct c \<longleftrightarrow> is_digit c \<and> digit_val c < 8"

definition read_base :: "int \<Rightarrow> string \<Rightarrow> int" where
  "read_base b s = foldl (\<lambda>n c. b * n + the (hex_val c)) 0 s"

definition split_sign :: "string \<Rightarrow> int \<times> string" where
  "split_sign s = (case s of
     c # r \<Rightarrow> if c = CHR ''-'' then (- 1, r) else if c = CHR ''+'' then (1, r) else (1, s)
   | [] \<Rightarrow> (1, s))"

text \<open>\<^verbatim>\<open>HEX_RE\<close>, \<^verbatim>\<open>OCT_RE\<close> and \<^verbatim>\<open>DEC_RE\<close>: the matched number and the rest of the string.\<close>

definition match_hex :: "string \<Rightarrow> (int \<times> string) option" where
  "match_hex s = (case split_sign s of (sg, r) \<Rightarrow>
     if take 2 r = ''0x'' \<and> takeWhile is_hex (drop 2 r) \<noteq> []
     then Some (sg * (read_base 16 (takeWhile is_hex (drop 2 r))), dropWhile is_hex (drop 2 r))
     else None)"

definition match_oct :: "string \<Rightarrow> (int \<times> string) option" where
  "match_oct s = (case split_sign s of (sg, r) \<Rightarrow>
     if r \<noteq> [] \<and> hd r = CHR ''0''
     then Some (sg * (read_base 8 (takeWhile is_oct r)), dropWhile is_oct r)
     else None)"

definition match_dec :: "string \<Rightarrow> (int \<times> string) option" where
  "match_dec s = (case split_sign s of (sg, r) \<Rightarrow>
     if r \<noteq> [] \<and> hd r = CHR ''0'' then Some (0, tl r)
     else if r \<noteq> [] \<and> is_digit (hd r)
     then Some (sg * (read_nat (takeWhile is_digit r)), dropWhile is_digit r)
     else None)"

definition strtol :: "pyval \<Rightarrow> bool \<Rightarrow> int option \<times> string" where
  "strtol v strict = (let s = strip (py_str v) in
     case match_hex s of Some (n, r) \<Rightarrow> (Some n, r)
     | None \<Rightarrow> (case match_oct s of Some (n, r) \<Rightarrow> (Some n, r)
     | None \<Rightarrow> (case match_dec s of Some (n, r) \<Rightarrow> (Some n, r)
     | None \<Rightarrow> (if strict then None else Some 1, s))))"

text \<open>The mantissa \<^verbatim>\<open>[0-9]*\.?[0-9]+\<close>: digits, number of digits after the point, rest.\<close>

definition match_mantissa :: "string \<Rightarrow> (string \<times> nat \<times> string) option" where
  "match_mantissa r = (let ds = takeWhile is_digit r; r1 = dropWhile is_digit r;
       fs = (if r1 \<noteq> [] \<and> hd r1 = CHR ''.'' then takeWhile is_digit (tl r1) else [])
     in if fs \<noteq> [] then Some (ds @ fs, length fs, dropWhile is_digit (tl r1))
        else if ds \<noteq> [] then Some (ds, 0, r1) else None)"

text \<open>The optional exponent \<^verbatim>\<open>[eE][-+]?[0-9]+\<close>.\<close>

definition match_exponent :: "string \<Rightarrow> int \<times> string" where
  "match_exponent r =
     (if r \<noteq> [] \<and> (hd r = CHR ''e'' \<or> hd r = CHR ''E'') then
        (case split_sign (tl r) of (sg, r1) \<Rightarrow>
           if takeWhile is_digit r1 \<noteq> []
           then (sg * (read_nat (takeWhile is_digit r1)), dropWhile is_digit r1)
           else (0, r))
      else (0, r))"

text \<open>\<open>m \<cdot> 10\<^sup>e\<close>\<close>

definition decimal :: "int \<Rightarrow> int \<Rightarrow> rat" where
  "decimal m e = (if e \<ge> 0 then of_int (m * ipow 10 e) else Fract m (ipow 10 (- e)))"

definition strtod :: "pyval \<Rightarrow> pyfloat option \<times> string" where
  "strtod v = (let s = strip (py_str v) in
     case split_sign s of (sg, r) \<Rightarrow>
       (case match_mantissa r of
          None \<Rightarrow> (None, s)
        | Some (ds, k, r1) \<Rightarrow> (case match_exponent r1 of (e, r2) \<Rightarrow>
            (Some (fl (decimal (sg * read_nat ds) (e - int k))), r2))))"

section \<open>Conversion tables\<close>

definition fp :: "rat \<Rightarrow> pynum" where
  "fp x = F (fl x)"

definition get_conversion_table :: "string \<Rightarrow> (string, (string, pynum) dict) dict" where
  "get_conversion_table base_unit =
     (if base_unit \<in> {''B'', ''kB'', ''MB''} then
        [(''TB'', [(''B'', I (1024 ^ 4)), (''kB'', I (1024 ^ 3)), (''MB'', I (1024 ^ 2))]),
         (''GB'', [(''B'', I (1024 ^ 3)), (''kB'', I (1024 ^ 2)), (''MB'', I 1024)]),
         (''MB'', [(''B'', I (1024 ^ 2)), (''kB'', I 1024), (''MB'', I 1)]),
         (''kB'', [(''B'', I 1024), (''kB'', I 1), (''MB'', fp (1 / 1024))]),
         (''B'', [(''B'', I 1), (''kB'', fp (1 / 1024)), (''MB'', fp (1 / 1024 ^ 2))])]
      else if base_unit \<in> {''ms'', ''s'', ''min''} then
        [(''d'', [(''ms'', I (1000 * 60 ^ 2 * 24)), (''s'', I (60 ^ 2 * 24)), (''min'', I (60 * 24))]),
         (''h'', [(''ms'', I (1000 * 60 ^ 2)), (''s'', I (60 ^ 2)), (''min'', I 60)]),
         (''min'', [(''ms'', I (1000 * 60)), (''s'', I 60), (''min'', I 1)]),
         (''s'', [(''ms'', I 1000), (''s'', I 1), (''min'', fp (1 / 60))]),
         (''ms'', [(''ms'', I 1), (''s'', fp (1 / 1000)), (''min'', fp (1 / (1000 * 60)))]),
         (''us'', [(''ms'', fp (1 / 1000)), (''s'', fp (1 / 1000 ^ 2)), (''min'', fp (1 / (1000 ^ 2 * 60)))])]
      else [])"

text \<open>\<^verbatim>\<open>round_order\<close> maps a unit to the next smaller one of the table.\<close>

definition round_order :: "('k, 'v) dict \<Rightarrow> ('k, 'k) dict" where
  "round_order tbl = dict_of (zip (dict_keys tbl) (tl (dict_keys tbl)))"

text \<open>The unit is an optional string: an absent one prints as \<^verbatim>\<open>None\<close>.\<close>

definition opt_str :: "string option \<Rightarrow> pyval" where
  "opt_str u = (case u of None \<Rightarrow> PNone | Some s \<Rightarrow> PStr s)"

definition bind_err :: "'e + 'a \<Rightarrow> ('a \<Rightarrow> 'e + 'b) \<Rightarrow> 'e + 'b" where
  "bind_err r f = (case r of Inl e \<Rightarrow> Inl e | Inr x \<Rightarrow> f x)"

definition convert_to_base_unit :: "pynum \<Rightarrow> string \<Rightarrow> string option \<Rightarrow> py_error + pynum option" where
  "convert_to_base_unit val unit base =
     (case strtol (opt_str base) False of (base_value, base_unit) \<Rightarrow>
       let tbl = get_conversion_table base_unit in
       case dict_get tbl unit of
         None \<Rightarrow> Inr None
       | Some row \<Rightarrow> (case dict_get row base_unit of
           None \<Rightarrow> Inr None
         | Some factor \<Rightarrow>
             bind_err (to_float (I (the base_value))) (\<lambda>bv.
             bind_err (num_div factor bv) (\<lambda>f.
             bind_err (num_mul val f) (\<lambda>val.
               case dict_get (round_order tbl) unit of
                 None \<Rightarrow> Inr (Some val)
               | Some unit2 \<Rightarrow>
                   let multiplier = the (dict_get (the (dict_get tbl unit2)) base_unit) in
                   bind_err (to_float multiplier) (\<lambda>mf.
                   bind_err (num_div val mf) (\<lambda>q.
                   bind_err (py_round q) (\<lambda>k.
                   map_sum id Some (num_mul (I k) multiplier)))))))))"

section \<open>Parsing\<close>

definition parse_bool :: "pyval \<Rightarrow> bool option" where
  "parse_bool v = (let s = lower (py_str v) in
     if s \<in> {''on'', ''true'', ''yes'', ''1''} then Some True
     else if s \<in> {''off'', ''false'', ''no'', ''0''} then Some False else None)"

definition parse_int :: "pyval \<Rightarrow> string option \<Rightarrow> py_error + int option" where
  "parse_int v base_unit =
     (let (val, unit) = (case strtol v True of (n, u) \<Rightarrow>
            if u \<noteq> [] \<and> (hd u = CHR ''.'' \<or> hd u = CHR ''e'' \<or> hd u = CHR ''E'')
            then (case strtod v of (x, u') \<Rightarrow> (map_option F x, u'))
            else (map_option I n, u))
      in case val of
           None \<Rightarrow> Inr None
         | Some x \<Rightarrow> (if strip unit = [] then map_sum id Some (py_round x)
             else bind_err (convert_to_base_unit x (strip unit) base_unit) (\<lambda>r.
               case r of None \<Rightarrow> Inr None | Some y \<Rightarrow> map_sum id Some (py_round y))))"

definition parse_real :: "pyval \<Rightarrow> string option \<Rightarrow> py_error + pynum option" where
  "parse_real v base_unit =
     (case strtod v of (x, u) \<Rightarrow>
        (case x of
           None \<Rightarrow> Inr None
         | Some x \<Rightarrow> if strip u = [] then Inr (Some (F x))
                     else convert_to_base_unit (F x) (strip u) base_unit))"

text \<open>True division of two integers is rounded once.\<close>

definition int_div :: "int \<Rightarrow> int \<Rightarrow> py_error + pynum" where
  "int_div a b = (if b = 0 then Inl ZeroDivisionError
     else case fl (of_int a / of_int b) of Fin x \<Rightarrow> Inr (F (Fin x)) | _ \<Rightarrow> Inl OverflowError)"

definition le_one :: "pynum \<Rightarrow> bool" where
  "le_one n = (case n of I i \<Rightarrow> i \<le> 1 | F (Fin x) \<Rightarrow> x \<le> 1 | F (Inf b) \<Rightarrow> b | F NaN \<Rightarrow> False)"

fun first_unit :: "int \<Rightarrow> string \<Rightarrow> (string, (string, pynum) dict) dict \<Rightarrow> py_error + string option" where
  "first_unit v base_unit [] = Inr None"
| "first_unit v base_unit ((unit, row) # tbl) =
     (let multiplier = the (dict_get row base_unit) in
      if le_one multiplier \<or> (case multiplier of I m \<Rightarrow> v mod m = 0 | F _ \<Rightarrow> False)
      then bind_err (case multiplier of I m \<Rightarrow> int_div v m | F x \<Rightarrow> num_div (I v) x)
             (\<lambda>q. map_sum id (\<lambda>k. Some (show_int k @ unit)) (py_round q))
      else first_unit v base_unit tbl)"

definition convert_int_from_base_unit :: "int \<Rightarrow> string option \<Rightarrow> py_error + string option" where
  "convert_int_from_base_unit base_value base =
     (case strtol (opt_str base) False of (mult, base_unit) \<Rightarrow>
        first_unit (base_value * the mult) base_unit (get_conversion_table base_unit))"

datatype converted = CBool bool | CNum pynum | CStr string

definition num_eq :: "pynum \<Rightarrow> pynum \<Rightarrow> bool" where
  "num_eq m n = (case (m, n) of
     (I i, I j) \<Rightarrow> i = j
   | (I i, F (Fin y)) \<Rightarrow> of_int i = y
   | (F (Fin x), I j) \<Rightarrow> x = of_int j
   | (F NaN, _) \<Rightarrow> False
   | (F x, F y) \<Rightarrow> x = y
   | _ \<Rightarrow> False)"

definition conv_eq :: "converted \<Rightarrow> converted \<Rightarrow> bool" where
  "conv_eq a b = (case (a, b) of (CNum m, CNum n) \<Rightarrow> num_eq m n | _ \<Rightarrow> a = b)"

definition converter :: "string \<Rightarrow> pyval \<Rightarrow> string option \<Rightarrow> py_error + converted option" where
  "converter vartype v unit =
     (if vartype = ''bool'' then Inr (map_option CBool (parse_bool v))
      else if vartype = ''integer'' then map_sum id (map_option (CNum \<circ> I)) (parse_int v unit)
      else if vartype = ''real'' then map_sum id (map_option CNum) (parse_real v unit)
      else if vartype = ''enum'' then Inr (Some (CStr (lower (py_str v))))
      else Inr (Some (CStr (py_str v))))"

definition compare_values :: "string \<Rightarrow> string option \<Rightarrow> pyval \<Rightarrow> pyval \<Rightarrow> py_error + bool" where
  "compare_values vartype unit settings_value config_value =
     bind_err (converter vartype settings_value None) (\<lambda>old_converted.
     bind_err (converter vartype config_value unit) (\<lambda>new_converted.
       Inr (case (old_converted, new_converted) of
              (Some a, Some b) \<Rightarrow> conv_eq a b
            | _ \<Rightarrow> False)))"

section \<open>Properties\<close>

lemma takeWhile_all: "list_all P s \<Longrightarrow> takeWhile P s = s"
  by (auto simp: list_all_iff takeWhile_eq_all_conv)

lemma split_sign_digit: "s \<noteq> [] \<Longrightarrow> is_digit (hd s) \<Longrightarrow> split_sign s = (1, s)"
  by (cases s) (auto simp: split_sign_def is_digit_def)

lemma show_nat_parts:
  assumes "0 \<le> n"
  shows "is_digit (hd (show_nat n))" "is_digit (last (show_nat n))"
  using show_nat_digits [OF assms] by (auto simp: list_all_iff)

lemma match_zero: "match_hex (show_nat 0) = None" "match_oct (show_nat 0) = Some (0, [])"
  by (simp_all add: show_nat.simps [of 0]) code_simp+

lemma match_dec_show:
  assumes "0 < n" "split_sign s = (sg, show_nat n)"
  shows "match_hex s = None" "match_oct s = None" "match_dec s = Some (sg * n, [])"
proof -
  have h: "hd (show_nat n) \<noteq> CHR ''0''" using show_nat_hd assms(1) by simp
  then have "take 2 (show_nat n) \<noteq> ''0x''" by (cases "show_nat n") auto
  then show "match_hex s = None" by (simp add: match_hex_def assms(2))
  show "match_oct s = None" using h by (simp add: match_oct_def assms(2))
  show "match_dec s = Some (sg * n, [])"
    using h show_nat_digits [of n] show_nat_parts [of n] assms
    by (simp add: match_dec_def takeWhile_all dropWhile_eq_Nil_conv list_all_iff)
qed

lemma strtol_int: "strtol (PInt n) strict = (Some n, [])"
proof -
  consider "n = 0" | "0 < n" | "n < 0" by linarith
  then show ?thesis
  proof cases
    case 1
    have "strip (show_nat 0) = show_nat 0"
      using show_nat_parts [of 0] by (intro strip_id) simp_all
    then show ?thesis using 1 match_zero by (simp add: strtol_def show_int_def)
  next
    case 2
    have "split_sign (show_nat n) = (1, show_nat n)"
      using show_nat_parts [of n] 2 by (intro split_sign_digit) simp_all
    moreover have "strip (show_nat n) = show_nat n"
      using show_nat_parts [of n] 2 by (intro strip_id) simp_all
    ultimately show ?thesis using 2 match_dec_show [of n "show_nat n" 1]
      by (simp add: strtol_def show_int_def)
  next
    case 3
    let ?s = "CHR ''-'' # show_nat (- n)"
    have "split_sign ?s = (- 1, show_nat (- n))" by (simp add: split_sign_def)
    moreover have "\<not> is_space (CHR ''-'')" by code_simp
    then have "strip ?s = ?s"
      using show_nat_parts [of "- n"] 3 by (intro strip_id) simp_all
    ultimately show ?thesis using 3 match_dec_show [of "- n" ?s "- 1"]
      by (simp add: strtol_def show_int_def)
  qed
qed

text \<open>
  an integer of the configuration is read back as itself, whatever base unit is asked for:
  \<open>parse_int\<close> inverts \<^verbatim>\<open>str\<close> on integers of any size and sign, although it first tries to read
  the text as hexadecimal and octal.
\<close>

theorem parse_int_of_int: "parse_int (PInt n) base_unit = Inr (Some n)"
  by (simp add: parse_int_def strtol_int py_round_def strip_def lstrip_def)

text \<open>
  \<open>parse_int\<close> is documented to return \<^verbatim>\<open>None\<close> for what it cannot parse, but a number that
  overflows a double makes it raise \<^verbatim>\<open>OverflowError\<close>.
\<close>

theorem parse_int_overflow: "parse_int (PStr ''1e400'') base_unit = Inl OverflowError"
proof -
  have "strtol (PStr ''1e400'') True = (Some 1, ''e400'')"
    "strtod (PStr ''1e400'') = (Some (Inf False), [])" by code_simp+
  then show ?thesis by (simp add: parse_int_def py_round_def strip_def lstrip_def)
qed

end
