(* ===== verification/CaseInsensitive.thy ===== *)
theory CaseInsensitive
  imports Prelude
begin

text \<open>
  The case-insensitive collections of \<^verbatim>\<open>patroni/collections.py\<close>. A set or dictionary keeps a
  \<^verbatim>\<open>dict\<close> keyed by the lower-case form and remembers the spelling stored last. The binary
  operators are those of \<^verbatim>\<open>collections.abc\<close>, which the classes inherit.
\<close>

section \<open>CaseInsensitiveSet\<close>

record ciset =
  cis_values :: "(string, string) dict"

definition cis_add :: "string \<Rightarrow> ciset \<Rightarrow> ciset" where
  "cis_add v s = s\<lparr>cis_values := dict_set (lower v) v (cis_values s)\<rparr>"

definition cis_discard :: "string \<Rightarrow> ciset \<Rightarrow> ciset" where
  "cis_discard v s = s\<lparr>cis_values := dict_pop (lower v) (cis_values s)\<rparr>"

definition cis_of :: "string list \<Rightarrow> ciset" where
  "cis_of vs = fold cis_add vs \<lparr>cis_values = []\<rparr>"

definition cis_contains :: "string \<Rightarrow> ciset \<Rightarrow> bool" where
  "cis_contains v s \<longleftrightarrow> dict_has (cis_values s) (lower v)"

definition cis_iter :: "ciset \<Rightarrow> string list" where
  "cis_iter s = dict_values (cis_values s)"

definition cis_len :: "ciset \<Rightarrow> nat" where
  "cis_len s = length (cis_values s)"

text \<open>Operators inherited from \<^verbatim>\<open>collections.abc.Set\<close> and \<^verbatim>\<open>MutableSet\<close>.\<close>

definition cis_le :: "ciset \<Rightarrow> ciset \<Rightarrow> bool" where
  "cis_le s t \<longleftrightarrow> cis_len s \<le> cis_len t \<and> list_all (\<lambda>v. cis_contains v t) (cis_iter s)"

definition cis_issubset :: "ciset \<Rightarrow> ciset \<Rightarrow> bool" where
  "cis_issubset s t = cis_le s t"

definition cis_lt :: "ciset \<Rightarrow> ciset \<Rightarrow> bool" where
  "cis_lt s t \<longleftrightarrow> cis_len s < cis_len t \<and> cis_le s t"

definition cis_eq :: "ciset \<Rightarrow> ciset \<Rightarrow> bool" where
  "cis_eq s t \<longleftrightarrow> cis_len s = cis_len t \<and> cis_le s t"

definition cis_or :: "ciset \<Rightarrow> ciset \<Rightarrow> ciset" where
  "cis_or s t = cis_of (cis_iter s @ cis_iter t)"

definition cis_and :: "ciset \<Rightarrow> ciset \<Rightarrow> ciset" where
  "cis_and s t = cis_of (filter (\<lambda>v. cis_contains v s) (cis_iter t))"

definition cis_sub :: "ciset \<Rightarrow> ciset \<Rightarrow> ciset" where
  "cis_sub s t = cis_of (filter (\<lambda>v. \<not> cis_contains v t) (cis_iter s))"

definition cis_isub :: "ciset \<Rightarrow> ciset \<Rightarrow> ciset" where
  "cis_isub s t = fold cis_discard (cis_iter t) s"

definition cis_iand :: "ciset \<Rightarrow> ciset \<Rightarrow> ciset" where
  "cis_iand s t = fold cis_discard (cis_iter (cis_sub s t)) s"

definition cis_bool :: "ciset \<Rightarrow> bool" where
  "cis_bool s \<longleftrightarrow> cis_len s \<noteq> 0"

text \<open>Representation invariant and abstraction to the set of lower-case names.\<close>

definition cis_inv :: "ciset \<Rightarrow> bool" where
  "cis_inv s \<longleftrightarrow> dict_wf (cis_values s) \<and> (\<forall>(k, v) \<in> set (cis_values s). k = lower v)"

definition cis_abs :: "ciset \<Rightarrow> string set" where
  "cis_abs s = set (dict_keys (cis_values s))"

lemma cis_abs_finite [simp]: "finite (cis_abs s)"
  by (simp add: cis_abs_def)

lemma cis_contains_abs [cis_simps]: "cis_contains v s \<longleftrightarrow> lower v \<in> cis_abs s"
  by (simp add: cis_contains_def dict_has_def cis_abs_def)

lemma cis_len_abs [cis_simps]: "cis_inv s \<Longrightarrow> cis_len s = card (cis_abs s)"
  unfolding cis_len_def cis_abs_def cis_inv_def dict_wf_def
  by (metis distinct_card length_map)

lemma lower_iter_abs: "cis_inv s \<Longrightarrow> lower ` set (cis_iter s) = cis_abs s"
  by (force simp: cis_inv_def cis_abs_def cis_iter_def image_iff)

lemma length_iter [cis_simps]: "length (cis_iter s) = cis_len s"
  by (simp add: cis_iter_def cis_len_def)

lemma set_dict_set_subset: "set (dict_set k v d) \<subseteq> insert (k, v) (set d)"
  by (induction d) auto

lemma set_dict_pop_subset: "set (dict_pop k d) \<subseteq> set d"
  by (induction d) auto

lemma cis_add_inv [simp]: "cis_inv s \<Longrightarrow> cis_inv (cis_add v s)"
  using set_dict_set_subset [of "lower v" v "cis_values s"]
  by (auto simp: cis_inv_def cis_add_def dict_wf_set)

lemma cis_discard_inv [simp]: "cis_inv s \<Longrightarrow> cis_inv (cis_discard v s)"
  using set_dict_pop_subset [of "lower v" "cis_values s"]
  by (auto simp: cis_inv_def cis_discard_def dict_wf_pop)

lemma cis_abs_add [cis_simps]: "cis_abs (cis_add v s) = insert (lower v) (cis_abs s)"
  by (simp add: cis_abs_def cis_add_def dict_keys_set)

lemma cis_abs_discard [cis_simps]: "cis_abs (cis_discard v s) = cis_abs s - {lower v}"
  by (simp add: cis_abs_def cis_discard_def dict_keys_pop)

lemma fold_add_inv: "cis_inv s \<Longrightarrow> cis_inv (fold cis_add vs s)"
  by (induction vs arbitrary: s) auto

lemma fold_discard_inv: "cis_inv s \<Longrightarrow> cis_inv (fold cis_discard vs s)"
  by (induction vs arbitrary: s) auto

lemma fold_add_abs: "cis_abs (fold cis_add vs s) = lower ` set vs \<union> cis_abs s"
  by (induction vs arbitrary: s) (auto simp: cis_abs_add)

lemma fold_discard_abs: "cis_abs (fold cis_discard vs s) = cis_abs s - lower ` set vs"
  by (induction vs arbitrary: s) (auto simp: cis_abs_discard)

lemma cis_of_inv [simp]: "cis_inv (cis_of vs)"
  unfolding cis_of_def by (rule fold_add_inv) (simp add: cis_inv_def)

lemma cis_abs_of [cis_simps]: "cis_abs (cis_of vs) = lower ` set vs"
  unfolding cis_of_def fold_add_abs by (simp add: cis_abs_def)

lemma cis_abs_or [cis_simps]:
  "cis_inv s \<Longrightarrow> cis_inv t \<Longrightarrow> cis_abs (cis_or s t) = cis_abs s \<union> cis_abs t"
  by (simp add: cis_or_def cis_abs_of image_Un lower_iter_abs)

lemma filter_iter_abs:
  assumes "cis_inv s"
  shows "lower ` set (filter (\<lambda>v. P (lower v)) (cis_iter s)) = {k \<in> cis_abs s. P k}"
  using lower_iter_abs [OF assms] by auto

lemma cis_abs_and [cis_simps]: "cis_inv t \<Longrightarrow> cis_abs (cis_and s t) = cis_abs s \<inter> cis_abs t"
  using filter_iter_abs [of t "\<lambda>k. k \<in> cis_abs s"]
  by (auto simp: cis_and_def cis_abs_of cis_contains_abs)

lemma cis_abs_sub [cis_simps]: "cis_inv s \<Longrightarrow> cis_abs (cis_sub s t) = cis_abs s - cis_abs t"
  using filter_iter_abs [of s "\<lambda>k. k \<notin> cis_abs t"]
  by (auto simp: cis_sub_def cis_abs_of cis_contains_abs)

lemma cis_op_inv [simp]:
  "cis_inv (cis_or s t)" "cis_inv (cis_and s t)" "cis_inv (cis_sub s t)"
  by (simp_all add: cis_or_def cis_and_def cis_sub_def)

lemma cis_iop_inv [simp]:
  "cis_inv s \<Longrightarrow> cis_inv (cis_isub s t)" "cis_inv s \<Longrightarrow> cis_inv (cis_iand s t)"
  by (simp_all add: cis_isub_def cis_iand_def fold_discard_inv)

lemma cis_abs_isub [cis_simps]: "cis_inv t \<Longrightarrow> cis_abs (cis_isub s t) = cis_abs s - cis_abs t"
  by (simp add: cis_isub_def fold_discard_abs lower_iter_abs)

lemma cis_abs_iand [cis_simps]: "cis_inv s \<Longrightarrow> cis_abs (cis_iand s t) = cis_abs s \<inter> cis_abs t"
  by (auto simp: cis_iand_def fold_discard_abs lower_iter_abs cis_abs_sub)

lemma cis_bool_abs [cis_simps]: "cis_inv s \<Longrightarrow> cis_bool s \<longleftrightarrow> cis_abs s \<noteq> {}"
  by (simp add: cis_bool_def cis_len_abs)

lemma cis_le_abs [cis_simps]:
  assumes "cis_inv s" "cis_inv t"
  shows "cis_le s t \<longleftrightarrow> cis_abs s \<subseteq> cis_abs t"
proof -
  have "list_all (\<lambda>v. cis_contains v t) (cis_iter s) \<longleftrightarrow> lower ` set (cis_iter s) \<subseteq> cis_abs t"
    by (auto simp: list_all_iff cis_contains_abs)
  then have "list_all (\<lambda>v. cis_contains v t) (cis_iter s) \<longleftrightarrow> cis_abs s \<subseteq> cis_abs t"
    by (simp add: lower_iter_abs assms)
  then show ?thesis
    by (auto simp: cis_le_def cis_len_abs assms card_mono)
qed

section \<open>The interface of a finite set\<close>

text \<open>
  What the clients of the set classes rely on: the operations act on an abstract finite set, and
  the comparisons that \<^verbatim>\<open>collections.abc.Set\<close> derives from length and inclusion decide equality
  and proper inclusion of the abstract sets.
\<close>

locale finite_set_ops =
  fixes inv :: "'s \<Rightarrow> bool" and abs :: "'s \<Rightarrow> 'k set"
    and len :: "'s \<Rightarrow> nat" and le :: "'s \<Rightarrow> 's \<Rightarrow> bool"
    and union :: "'s \<Rightarrow> 's \<Rightarrow> 's" and inter :: "'s \<Rightarrow> 's \<Rightarrow> 's" and diff :: "'s \<Rightarrow> 's \<Rightarrow> 's"
  assumes abs_finite: "finite (abs s)"
    and len_abs: "inv s \<Longrightarrow> len s = card (abs s)"
    and le_abs: "inv s \<Longrightarrow> inv t \<Longrightarrow> le s t \<longleftrightarrow> abs s \<subseteq> abs t"
    and union_abs: "inv s \<Longrightarrow> inv t \<Longrightarrow> abs (union s t) = abs s \<union> abs t"
    and inter_abs: "inv s \<Longrightarrow> inv t \<Longrightarrow> abs (inter s t) = abs s \<inter> abs t"
    and diff_abs: "inv s \<Longrightarrow> inv t \<Longrightarrow> abs (diff s t) = abs s - abs t"
    and union_inv: "inv s \<Longrightarrow> inv t \<Longrightarrow> inv (union s t)"
    and inter_inv: "inv s \<Longrightarrow> inv t \<Longrightarrow> inv (inter s t)"
    and diff_inv: "inv s \<Longrightarrow> inv t \<Longrightarrow> inv (diff s t)"
begin

lemma eq_decides: "inv s \<Longrightarrow> inv t \<Longrightarrow> len s = len t \<and> le s t \<longleftrightarrow> abs s = abs t"
  using card_subset_eq [OF abs_finite, of "abs s" t] by (auto simp: len_abs le_abs)

lemma lt_decides: "inv s \<Longrightarrow> inv t \<Longrightarrow> len s < len t \<and> le s t \<longleftrightarrow> abs s \<subset> abs t"
  using psubset_card_mono [OF abs_finite, of "abs s" t] by (auto simp: len_abs le_abs)

lemma len_union_inter:
  assumes "inv s" "inv t"
  shows "len (union s t) + len (inter s t) = len s + len t"
  using card_Un_Int [OF abs_finite abs_finite, of s t] assms
  by (simp add: len_abs union_abs inter_abs union_inv inter_inv)

lemma len_diff:
  assumes "inv s" "inv t"
  shows "len (diff s t) + len (inter s t) = len s"
proof -
  have "card (abs s - abs t) + card (abs s \<inter> abs t) = card ((abs s - abs t) \<union> (abs s \<inter> abs t))"
    by (rule card_Un_disjoint [symmetric]) (auto simp: abs_finite)
  also have "(abs s - abs t) \<union> (abs s \<inter> abs t) = abs s" by auto
  finally show ?thesis using assms by (simp add: len_abs diff_abs inter_abs diff_inv inter_inv)
qed

end

interpretation cis: finite_set_ops cis_inv cis_abs cis_len cis_le cis_or cis_and cis_sub
  by unfold_locales (simp_all add: cis_simps)

lemma cis_eq_abs [cis_simps]: "cis_inv s \<Longrightarrow> cis_inv t \<Longrightarrow> cis_eq s t \<longleftrightarrow> cis_abs s = cis_abs t"
  unfolding cis_eq_def by (rule cis.eq_decides)

lemma cis_lt_abs [cis_simps]: "cis_inv s \<Longrightarrow> cis_inv t \<Longrightarrow> cis_lt s t \<longleftrightarrow> cis_abs s \<subset> cis_abs t"
  unfolding cis_lt_def by (rule cis.lt_decides)

section \<open>CaseInsensitiveDict\<close>

record 'v cidict =
  cid_values :: "(string, string \<times> 'v) dict"

definition cid_setitem :: "string \<Rightarrow> 'v \<Rightarrow> 'v cidict \<Rightarrow> 'v cidict" where
  "cid_setitem k v d = d\<lparr>cid_values := dict_set (lower k) (k, v) (cid_values d)\<rparr>"

definition cid_getitem :: "'v cidict \<Rightarrow> string \<Rightarrow> py_error + 'v" where
  "cid_getitem d k = (case dict_get (cid_values d) (lower k) of
     None \<Rightarrow> Inl KeyError | Some (_, v) \<Rightarrow> Inr v)"

definition cid_delitem :: "string \<Rightarrow> 'v cidict \<Rightarrow> py_error + 'v cidict" where
  "cid_delitem k d = (if dict_has (cid_values d) (lower k)
     then Inr (d\<lparr>cid_values := dict_pop (lower k) (cid_values d)\<rparr>) else Inl KeyError)"

text \<open>\<^verbatim>\<open>get\<close> and \<^verbatim>\<open>in\<close> are the mixin methods of \<^verbatim>\<open>Mapping\<close>, built on \<open>__getitem__\<close>.\<close>

definition cid_get :: "'v cidict \<Rightarrow> string \<Rightarrow> 'v option" where
  "cid_get d k = (case cid_getitem d k of Inr v \<Rightarrow> Some v | Inl _ \<Rightarrow> None)"

definition cid_contains :: "string \<Rightarrow> 'v cidict \<Rightarrow> bool" where
  "cid_contains k d \<longleftrightarrow> cid_get d k \<noteq> None"

definition cid_of :: "(string, 'v) dict \<Rightarrow> 'v cidict" where
  "cid_of data = fold (\<lambda>(k, v). cid_setitem k v) data \<lparr>cid_values = []\<rparr>"

definition cid_iter :: "'v cidict \<Rightarrow> string list" where
  "cid_iter d = map fst (dict_values (cid_values d))"

definition cid_items_values :: "'v cidict \<Rightarrow> 'v list" where
  "cid_items_values d = map snd (dict_values (cid_values d))"

definition cid_len :: "'v cidict \<Rightarrow> nat" where
  "cid_len d = length (cid_values d)"

definition cid_keys :: "'v cidict \<Rightarrow> string list" where
  "cid_keys d = dict_keys (cid_values d)"

definition cid_copy :: "'v cidict \<Rightarrow> 'v cidict" where
  "cid_copy d = cid_of (dict_of (map (\<lambda>v. (fst v, snd v)) (dict_values (cid_values d))))"

definition cid_inv :: "'v cidict \<Rightarrow> bool" where
  "cid_inv d \<longleftrightarrow> dict_wf (cid_values d) \<and> (\<forall>(k, v) \<in> set (cid_values d). k = lower (fst v))"

lemma cid_setitem_inv [simp]: "cid_inv d \<Longrightarrow> cid_inv (cid_setitem k v d)"
  using set_dict_set_subset [of "lower k" "(k, v)" "cid_values d"]
  by (auto simp: cid_inv_def cid_setitem_def dict_wf_set)

lemma cid_of_inv [simp]: "cid_inv (cid_of data)"
proof -
  have "cid_inv d \<Longrightarrow> cid_inv (fold (\<lambda>(k, v). cid_setitem k v) data d)" for d :: "'a cidict"
    by (induction data arbitrary: d) auto
  moreover have "cid_inv (\<lparr>cid_values = []\<rparr> :: 'a cidict)" by (simp add: cid_inv_def)
  ultimately show ?thesis by (simp add: cid_of_def)
qed

lemma cid_delitem_inv: "cid_inv d \<Longrightarrow> cid_delitem k d = Inr d' \<Longrightarrow> cid_inv d'"
  using set_dict_pop_subset [of "lower k" "cid_values d"]
  by (auto simp: cid_inv_def cid_delitem_def dict_wf_pop split: if_splits)

lemma cid_get_values: "cid_get d k = map_option snd (dict_get (cid_values d) (lower k))"
  by (simp add: cid_get_def cid_getitem_def split: option.splits sum.splits prod.splits)

lemma cid_get_setitem: "cid_get (cid_setitem k v d) k' = (if lower k' = lower k then Some v else cid_get d k')"
  by (simp add: cid_get_values cid_setitem_def dict_get_set)

lemma cid_get_of_snoc:
  "cid_get (cid_of (data @ [(k, v)])) k' = (if lower k' = lower k then Some v else cid_get (cid_of data) k')"
  by (simp add: cid_of_def cid_get_setitem)

lemma dict_set_fresh: "k \<notin> fst ` set d \<Longrightarrow> dict_set k v d = d @ [(k, v)]"
  by (induction d) auto

lemma dict_of_distinct: "distinct (dict_keys d) \<Longrightarrow> dict_of d = d"
proof (induction d rule: rev_induct)
  case Nil
  then show ?case by (simp add: dict_of_def dict_update_def)
next
  case (snoc p d)
  obtain k v where "p = (k, v)" by (cases p)
  with snoc show ?case
    by (simp add: dict_of_def dict_update_def dict_set_fresh)
qed

text \<open>
  Rebuilding a dictionary from its \<open>(original key, value)\<close> pairs gives back the same internal
  table, in the same order.
\<close>

lemma cid_values_of_pairs:
  assumes "dict_wf vs" "\<forall>(k, v) \<in> set vs. k = lower (fst v)"
  shows "cid_values (cid_of (dict_values vs)) = vs"
  using assms
proof (induction vs rule: rev_induct)
  case Nil
  then show ?case by (simp add: cid_of_def)
next
  case (snoc p vs)
  obtain k o' v where p: "p = (k, (o', v))" by (metis surj_pair)
  from snoc.prems have wf: "dict_wf vs" "\<forall>(k, v) \<in> set vs. k = lower (fst v)"
    and k: "k = lower o'" "k \<notin> fst ` set vs"
    by (auto simp: dict_wf_def p)
  have "cid_of (dict_values (vs @ [p])) = cid_setitem o' v (cid_of (dict_values vs))"
    by (simp add: cid_of_def p)
  then show ?case
    using snoc.IH [OF wf] k by (simp add: cid_setitem_def p dict_set_fresh)
qed

lemma cid_copy_values:
  assumes "cid_inv d"
  shows "cid_values (cid_copy d) = cid_values d"
proof -
  have wf: "dict_wf (cid_values d)" "\<forall>(k, v) \<in> set (cid_values d). k = lower (fst v)"
    using assms by (auto simp: cid_inv_def)
  have keys: "map fst (cid_values d) = map lower (map fst (dict_values (cid_values d)))"
    using wf(2) by (auto simp: map_eq_conv)
  then have "distinct (map fst (dict_values (cid_values d)))"
    using wf(1) unfolding dict_wf_def by (metis distinct_map)
  then have "dict_of (dict_values (cid_values d)) = dict_values (cid_values d)"
    by (rule dict_of_distinct)
  then show ?thesis
    using cid_values_of_pairs [OF wf] by (simp add: cid_copy_def)
qed

section \<open>Frozen dictionaries\<close>

text \<open>
  \<^verbatim>\<open>_FrozenDict\<close> wraps a plain dictionary and offers no assignment; \<^verbatim>\<open>copy\<close> returns the plain
  dictionary.
\<close>

datatype 'v frozen_dict = FrozenDict "(string, 'v) dict"

fun frozen_iter :: "'v frozen_dict \<Rightarrow> string list" where
  "frozen_iter (FrozenDict d) = dict_keys d"

fun frozen_len :: "'v frozen_dict \<Rightarrow> nat" where
  "frozen_len (FrozenDict d) = length d"

fun frozen_getitem :: "'v frozen_dict \<Rightarrow> string \<Rightarrow> py_error + 'v" where
  "frozen_getitem (FrozenDict d) k = (case dict_get d k of None \<Rightarrow> Inl KeyError | Some v \<Rightarrow> Inr v)"

fun frozen_copy :: "'v frozen_dict \<Rightarrow> (string, 'v) dict" where
  "frozen_copy (FrozenDict d) = d"

text \<open>Names that differ in more than letter case are all kept as they are given.\<close>

lemma cis_iter_add_subset: "set (cis_iter (cis_add v s)) \<subseteq> insert v (set (cis_iter s))"
proof -
  have "snd ` set (AList.update k v d) \<subseteq> insert v (snd ` set d)" for k d by (induction d) auto
  then show ?thesis by (simp add: cis_iter_def cis_add_def)
qed

lemma cis_iter_fold_subset: "set (cis_iter (fold cis_add vs s)) \<subseteq> set vs \<union> set (cis_iter s)"
  by (induction vs arbitrary: s) (use cis_iter_add_subset in fastforce)+

lemma cis_iter_of:
  assumes "inj_on lower (set vs)"
  shows "set (cis_iter (cis_of vs)) = set vs"
proof -
  have "set (cis_iter (cis_of vs)) \<subseteq> set vs"
    unfolding cis_of_def using cis_iter_fold_subset [of vs "\<lparr>cis_values = []\<rparr>"] by (simp add: cis_iter_def)
  moreover have "lower ` set (cis_iter (cis_of vs)) = lower ` set vs" by (simp add: lower_iter_abs cis_simps)
  ultimately show ?thesis using assms by (metis inj_on_image_eq_iff order_refl)
qed

end
