(* ===== verification/Dcs.thy ===== *)
theory Dcs
  imports Numbers CaseInsensitive
begin

text \<open>
  The data model of \<^verbatim>\<open>patroni/dcs/__init__.py\<close> with \<^verbatim>\<open>patroni/tags.py\<close> and
  \<^verbatim>\<open>patroni/global_config.py\<close>: members, the leader, the failover, config, sync, history and status
  keys and the cluster view built from them. JSON documents reach the model decoded: \<open>loads\<close>
  stands for \<^verbatim>\<open>json.loads\<close>, and every statement holds whatever it returns. Fields whose annotation
  is \<^verbatim>\<open>Optional[str]\<close> or \<^verbatim>\<open>Dict\<close> are read as such, a value of another type counting as absent.
\<close>

section \<open>Reading values\<close>

definition as_str :: "pyval \<Rightarrow> string option" where
  "as_str v = (case v of PStr s \<Rightarrow> Some s | _ \<Rightarrow> None)"

definition as_dict :: "pyval \<Rightarrow> pydict" where
  "as_dict v = (case v of PDict d \<Rightarrow> d | _ \<Rightarrow> [])"

definition as_strs :: "pyval list \<Rightarrow> string list" where
  "as_strs vs = List.map_filter as_str vs"

text \<open>Truthiness of an \<^verbatim>\<open>Optional[str]\<close>, and \<^verbatim>\<open>int(v)\<close>.\<close>

definition str_bool :: "string option \<Rightarrow> bool" where
  "str_bool s \<longleftrightarrow> s \<noteq> None \<and> s \<noteq> Some []"

fun int_digits :: "bool \<Rightarrow> int \<Rightarrow> string \<Rightarrow> int option" where
  "int_digits prev n [] = (if prev then Some n else None)"
| "int_digits prev n (c # cs) =
     (if is_digit c then int_digits True (10 * n + digit_val c) cs
      else if c = CHR ''_'' \<and> prev then int_digits False n cs else None)"

definition py_int :: "pyval \<Rightarrow> py_error + int" where
  "py_int v = (case v of
     PInt n \<Rightarrow> Inr n
   | PBool b \<Rightarrow> Inr (if b then 1 else 0)
   | PStr s \<Rightarrow> (case split_sign (strip s) of (sg, r) \<Rightarrow>
       (case int_digits False 0 r of Some n \<Rightarrow> Inr (sg * n) | None \<Rightarrow> Inl ValueError))
   | PFloat r \<Rightarrow> (case strtod v of
         (Some (Fin x), []) \<Rightarrow> Inr (if x < 0 then - \<lfloor>- x\<rfloor> else \<lfloor>x\<rfloor>)
       | _ \<Rightarrow> if r = ''nan'' then Inl ValueError else Inl OverflowError)
   | _ \<Rightarrow> Inl TypeError)"

fun mapM :: "('a \<Rightarrow> 'e + 'b) \<Rightarrow> 'a list \<Rightarrow> 'e + 'b list" where
  "mapM f [] = Inr []"
| "mapM f (x # xs) = bind_err (f x) (\<lambda>y. bind_err (mapM f xs) (\<lambda>ys. Inr (y # ys)))"

definition starts_with :: "string \<Rightarrow> string \<Rightarrow> bool" where
  "starts_with s p \<longleftrightarrow> take (length p) s = p"

fun split_on :: "char \<Rightarrow> string \<Rightarrow> string list" where
  "split_on c [] = [[]]"
| "split_on c (x # xs) = (if x = c then [] # split_on c xs
     else (case split_on c xs of [] \<Rightarrow> [[x]] | w # ws \<Rightarrow> (x # w) # ws))"

section \<open>Tags\<close>

definition filter_tags :: "pydict \<Rightarrow> pydict" where
  "filter_tags tags = filter (\<lambda>(tag, v).
     tag \<notin> {''clonefrom'', ''nofailover'', ''noloadbalance'', ''nosync'', ''nostream''}
     \<or> truthy v
     \<or> tag = ''nofailover'' \<and> dict_has tags ''failover_priority''
     \<or> tag = ''nosync'' \<and> dict_has tags ''sync_priority'') tags"

definition tag_clonefrom :: "pydict \<Rightarrow> pyval" where
  "tag_clonefrom tags = dict_get_default tags ''clonefrom'' (PBool False)"

definition priority_tag :: "pydict \<Rightarrow> string \<Rightarrow> string \<Rightarrow> py_error + int" where
  "priority_tag tags bool_name priority_name =
     bind_err (parse_int (pyget tags priority_name) None) (\<lambda>priority.
       Inr (if truthy (pyget tags bool_name) then 0
            else (case priority of None \<Rightarrow> 1 | Some p \<Rightarrow> p)))"

definition bool_tag :: "pydict \<Rightarrow> string \<Rightarrow> string \<Rightarrow> py_error + bool" where
  "bool_tag tags bool_name priority_name =
     (if pyget tags bool_name \<noteq> PNone then Inr (truthy (pyget tags bool_name))
      else bind_err (parse_int (pyget tags priority_name) None) (\<lambda>priority.
        Inr (case priority of None \<Rightarrow> False | Some p \<Rightarrow> p \<le> 0)))"

definition nofailover :: "pydict \<Rightarrow> py_error + bool" where
  "nofailover tags = bool_tag tags ''nofailover'' ''failover_priority''"

definition failover_priority :: "pydict \<Rightarrow> py_error + int" where
  "failover_priority tags = priority_tag tags ''nofailover'' ''failover_priority''"

definition noloadbalance :: "pydict \<Rightarrow> bool" where
  "noloadbalance tags = truthy (dict_get_default tags ''noloadbalance'' (PBool False))"

definition nosync :: "pydict \<Rightarrow> py_error + bool" where
  "nosync tags = bool_tag tags ''nosync'' ''sync_priority''"

definition sync_priority :: "pydict \<Rightarrow> py_error + int" where
  "sync_priority tags = priority_tag tags ''nosync'' ''sync_priority''"

definition replicatefrom :: "pydict \<Rightarrow> string option" where
  "replicatefrom tags = as_str (pyget tags ''replicatefrom'')"

definition nostream :: "pydict \<Rightarrow> bool" where
  "nostream tags = (parse_bool (pyget tags ''nostream'') = Some True)"

section \<open>Slot names\<close>

definition slot_char_ok :: "char \<Rightarrow> bool" where
  "slot_char_ok c \<longleftrightarrow> (let n = of_char c :: int in 97 \<le> n \<and> n \<le> 122) \<or> is_digit c \<or> c = CHR ''_''"

text \<open>\<^verbatim>\<open>{ord(c):04d}\<close>\<close>

definition pad4 :: "int \<Rightarrow> string" where
  "pad4 n = (let s = show_nat n in replicate (4 - length s) (CHR ''0'') @ s)"

definition replace_char :: "char \<Rightarrow> string" where
  "replace_char c = (if slot_char_ok c then [c]
     else if c = CHR ''-'' \<or> c = CHR ''.'' then ''_'' else CHR ''u'' # pad4 (of_char c))"

text \<open>The code works on Unicode code points; here a name consists of 8-bit characters, and only ASCII letters have a lower case.\<close>

definition slot_name_from_member_name :: "string \<Rightarrow> string" where
  "slot_name_from_member_name member_name = take 63 (concat (map replace_char (lower member_name)))"

text \<open>\<^verbatim>\<open>slot_name_re\<close>; \<^verbatim>\<open>$\<close> also matches before a final newline.\<close>

definition slot_name_re :: "string \<Rightarrow> bool" where
  "slot_name_re s = (let t = (if s \<noteq> [] \<and> of_char (last s) = (10 :: int) then butlast s else s)
     in list_all slot_char_ok t \<and> 1 \<le> length t \<and> length t \<le> 63)"

section \<open>Keys\<close>

record member =
  m_version :: pyval
  m_name :: string
  m_session :: pyval
  m_data :: pydict

definition Member :: "pyval \<Rightarrow> string \<Rightarrow> pyval \<Rightarrow> pydict \<Rightarrow> member" where
  "Member v n s d = \<lparr>m_version = v, m_name = n, m_session = s, m_data = d\<rparr>"

definition RemoteMember :: "string \<Rightarrow> pydict \<Rightarrow> member" where
  "RemoteMember name data = Member (PInt (- 1)) name PNone data"

definition remote_getattr :: "member \<Rightarrow> string \<Rightarrow> pyval" where
  "remote_getattr m name =
     (if name \<in> {''primary_slot_name'', ''create_replica_methods'', ''restore_command'',
                 ''archive_cleanup_command'', ''recovery_min_apply_delay'', ''no_replication_slot''}
      then pyget (m_data m) name else PNone)"

text \<open>\<open>parse_conn\<close> stands for \<^verbatim>\<open>parse_connection_string\<close>, which rests on the URL library.\<close>

definition Member_from_node ::
  "(string \<Rightarrow> py_error + pyval) \<Rightarrow> (string \<Rightarrow> string \<times> string option)
   \<Rightarrow> pyval \<Rightarrow> string \<Rightarrow> pyval \<Rightarrow> string \<Rightarrow> py_error + member" where
  "Member_from_node loads parse_conn version name session val =
     (if starts_with val ''postgres'' \<or> starts_with val ''mysql'' then
        (case parse_conn val of (conn_url, api_url) \<Rightarrow>
           Inr (Member version name session [(''conn_url'', PStr conn_url), (''api_url'', opt_str api_url)]))
      else (case loads val of
          Inr (PDict data) \<Rightarrow> Inr (Member version name session data)
        | Inr _ \<Rightarrow> Inr (Member version name session [])
        | Inl e \<Rightarrow> if e \<in> {TypeError, ValueError} then Inr (Member version name session []) else Inl e))"

abbreviation m_tags :: "member \<Rightarrow> pydict" where
  "m_tags m \<equiv> as_dict (dict_get_default (m_data m) ''tags'' (PDict []))"

definition api_url :: "member \<Rightarrow> string option" where
  "api_url m = as_str (pyget (m_data m) ''api_url'')"

definition member_state :: "member \<Rightarrow> pyval" where
  "member_state m = dict_get_default (m_data m) ''state'' (PStr ''unknown'')"

definition is_running :: "member \<Rightarrow> bool" where
  "is_running m \<longleftrightarrow> member_state m = PStr ''running''"

text \<open>An exception of \<^verbatim>\<open>int\<close> or \<^verbatim>\<open>split\<close> is swallowed: the version is then unknown.\<close>

definition patroni_version :: "member \<Rightarrow> int list option" where
  "patroni_version m = (case pyget (m_data m) ''version'' of
     PStr s \<Rightarrow> if s = [] then None
       else (case mapM py_int (map PStr (split_on (CHR ''.'') s)) of Inr ns \<Rightarrow> Some ns | Inl _ \<Rightarrow> None)
   | _ \<Rightarrow> None)"

definition member_lsn :: "member \<Rightarrow> py_error + int option" where
  "member_lsn m = parse_int (py_or (pyget (m_data m) ''xlog_location'') (pyget (m_data m) ''binlog_position'')) None"

definition receive_lsn :: "member \<Rightarrow> py_error + int option" where
  "receive_lsn m = parse_int (py_or (pyget (m_data m) ''receive_lsn'') (pyget (m_data m) ''receive_binlog_position'')) None"

definition replay_lsn :: "member \<Rightarrow> py_error + int option" where
  "replay_lsn m = parse_int (py_or (pyget (m_data m) ''replay_lsn'') (pyget (m_data m) ''replay_binlog_position'')) None"

record leader =
  l_version :: pyval
  l_session :: pyval
  l_member :: member

abbreviation l_name :: "leader \<Rightarrow> string" where
  "l_name l \<equiv> m_name (l_member l)"

definition leader_timeline :: "leader \<Rightarrow> pyval" where
  "leader_timeline l = pyget (m_data (l_member l)) ''timeline''"

definition checkpoint_after_promote :: "leader \<Rightarrow> bool option" where
  "checkpoint_after_promote l = (case patroni_version (l_member l) of
     Some v \<Rightarrow> if v \<noteq> [] \<and> v > [1, 5, 6]
       then Some (pyget (m_data (l_member l)) ''role'' \<in> {PStr ''master'', PStr ''primary''}
                  \<and> \<not> dict_has (m_data (l_member l)) ''checkpoint_after_promote'')
       else None
   | None \<Rightarrow> None)"

text \<open>A timestamp with or without time zone.\<close>

datatype datetime = Aware int | Naive int

record failover =
  f_version :: pyval
  f_leader :: "string option"
  f_candidate :: "string option"
  f_scheduled_at :: "datetime option"

definition Failover :: "pyval \<Rightarrow> string option \<Rightarrow> string option \<Rightarrow> datetime option \<Rightarrow> failover" where
  "Failover v l c s = \<lparr>f_version = v, f_leader = l, f_candidate = c, f_scheduled_at = s\<rparr>"

text \<open>\<open>parse_date\<close> stands for \<^verbatim>\<open>dateutil.parser.parse\<close>.\<close>

definition failover_of_data ::
  "(pyval \<Rightarrow> py_error + datetime) \<Rightarrow> pyval \<Rightarrow> pydict \<Rightarrow> py_error + failover" where
  "failover_of_data parse_date version data =
     (let mk = Failover version (as_str (pyget data ''leader'')) (as_str (pyget data ''member'')) in
      if truthy (pyget data ''scheduled_at'')
      then map_sum id (\<lambda>t. mk (Some t)) (parse_date (pyget data ''scheduled_at''))
      else Inr (mk None))"

definition Failover_from_node ::
  "(string \<Rightarrow> py_error + pyval) \<Rightarrow> (pyval \<Rightarrow> py_error + datetime) \<Rightarrow> pyval \<Rightarrow> pyval \<Rightarrow> py_error + failover" where
  "Failover_from_node loads parse_date version val =
     (case val of
        PDict d \<Rightarrow> failover_of_data parse_date version d
      | PStr s \<Rightarrow> if s = [] then failover_of_data parse_date version []
          else (case loads s of
             Inr (PDict d) \<Rightarrow> failover_of_data parse_date version d
           | Inr _ \<Rightarrow> failover_of_data parse_date version []
           | Inl ValueError \<Rightarrow>
               (let t = map strip (split_on (CHR '':'') s)
                in Inr (Failover version (Some (hd t)) (if length t > 1 then Some (t ! 1) else None) None))
           | Inl e \<Rightarrow> Inl e)
      | _ \<Rightarrow> if truthy val then Inl TypeError else failover_of_data parse_date version [])"

definition failover_len :: "failover \<Rightarrow> nat" where
  "failover_len f = (if str_bool (f_leader f) then 1 else 0) + (if str_bool (f_candidate f) then 1 else 0)"

abbreviation failover_bool :: "failover option \<Rightarrow> bool" where
  "failover_bool f \<equiv> case f of None \<Rightarrow> False | Some x \<Rightarrow> failover_len x \<noteq> 0"

record cluster_config =
  cc_version :: pyval
  cc_data :: pydict
  cc_modify_version :: pyval

definition ClusterConfig_from_node ::
  "(string \<Rightarrow> py_error + pyval) \<Rightarrow> pyval \<Rightarrow> string \<Rightarrow> pyval \<Rightarrow> py_error + cluster_config" where
  "ClusterConfig_from_node loads version val modify_version =
     (let mk = (\<lambda>data mv. \<lparr>cc_version = version, cc_data = data,
                            cc_modify_version = (if mv = PNone then version else mv)\<rparr>)
      in case loads val of
           Inr (PDict d) \<Rightarrow> Inr (mk d modify_version)
         | Inr _ \<Rightarrow> Inr (mk [] (PInt 0))
         | Inl e \<Rightarrow> if e \<in> {TypeError, ValueError} then Inr (mk [] (PInt 0)) else Inl e)"

section \<open>The sync key\<close>

record sync_state =
  s_version :: pyval
  s_leader :: "string option"
  s_sync_standby :: "string option"
  s_quorum :: int

definition SyncState :: "pyval \<Rightarrow> string option \<Rightarrow> string option \<Rightarrow> int \<Rightarrow> sync_state" where
  "SyncState v l s q = \<lparr>s_version = v, s_leader = l, s_sync_standby = s, s_quorum = q\<rparr>"

definition SyncState_empty :: "pyval \<Rightarrow> sync_state" where
  "SyncState_empty v = SyncState v None None 0"

definition SyncState_from_node :: "(string \<Rightarrow> py_error + pyval) \<Rightarrow> pyval \<Rightarrow> pyval \<Rightarrow> py_error + sync_state" where
  "SyncState_from_node loads version val =
     (case (case val of PStr s \<Rightarrow> if s = [] then Inr val else loads s | _ \<Rightarrow> Inr val) of
        Inr (PDict d) \<Rightarrow>
          (let ldr = pyget d ''leader''; quorum = pyget d ''quorum'' in
           case (if truthy ldr \<and> truthy quorum then py_int quorum else Inr 0) of
             Inr q \<Rightarrow> Inr (SyncState version (as_str ldr) (as_str (pyget d ''sync_standby'')) q)
           | Inl e \<Rightarrow> if e \<in> {TypeError, ValueError} then Inr (SyncState_empty version) else Inl e)
      | Inr _ \<Rightarrow> Inr (SyncState_empty version)
      | Inl e \<Rightarrow> if e \<in> {TypeError, ValueError} then Inr (SyncState_empty version) else Inl e)"

definition sync_is_empty :: "sync_state \<Rightarrow> bool" where
  "sync_is_empty s \<longleftrightarrow> \<not> str_bool (s_leader s)"

definition str_to_list :: "string \<Rightarrow> string list" where
  "str_to_list s = filter (\<lambda>a. a \<noteq> []) (map strip (split_on (CHR '','') s))"

definition str_or_empty :: "string option \<Rightarrow> string" where
  "str_or_empty s = (case s of None \<Rightarrow> [] | Some x \<Rightarrow> x)"

definition sync_voters :: "sync_state \<Rightarrow> string list" where
  "sync_voters s = (if \<not> sync_is_empty s \<and> str_bool (s_sync_standby s)
     then str_to_list (str_or_empty (s_sync_standby s)) else [])"

definition sync_members :: "sync_state \<Rightarrow> string list" where
  "sync_members s = (if sync_is_empty s then [] else str_or_empty (s_leader s) # sync_voters s)"

definition sync_matches :: "sync_state \<Rightarrow> string option \<Rightarrow> bool \<Rightarrow> bool" where
  "sync_matches s name check_leader =
     (str_bool name \<and> \<not> sync_is_empty s
      \<and> lower (str_or_empty name) \<in> set (str_to_list (lower
          (str_or_empty (s_sync_standby s) @ (if check_leader then '','' @ str_or_empty (s_leader s) else [])))))"

definition leader_matches :: "sync_state \<Rightarrow> string option \<Rightarrow> bool" where
  "leader_matches s name = (str_bool name \<and> \<not> sync_is_empty s
     \<and> lower (str_or_empty name) = lower (str_or_empty (s_leader s)))"

text \<open>\<open>AbstractDCS.sync_state\<close>: the dictionary written to the key.\<close>

definition sync_state_value :: "string option \<Rightarrow> string list \<Rightarrow> int option \<Rightarrow> pydict" where
  "sync_state_value ldr sync_standby quorum =
     [(''leader'', opt_str ldr), (''quorum'', case quorum of None \<Rightarrow> PNone | Some q \<Rightarrow> PInt q),
      (''sync_standby'', if sync_standby \<noteq> [] then PStr (join '','' (sort sync_standby)) else PNone)]"

section \<open>History and status\<close>

record timeline_history =
  h_version :: pyval
  h_value :: pyval
  h_lines :: "pyval list"

definition TimelineHistory_from_node ::
  "(pyval \<Rightarrow> py_error + pyval) \<Rightarrow> pyval \<Rightarrow> pyval \<Rightarrow> py_error + timeline_history" where
  "TimelineHistory_from_node loads version val =
     (let mk = (\<lambda>lines. \<lparr>h_version = version, h_value = val, h_lines = lines\<rparr>)
      in case loads val of
           Inr (PList lines) \<Rightarrow> Inr (mk lines)
         | Inr _ \<Rightarrow> Inr (mk [])
         | Inl e \<Rightarrow> if e \<in> {TypeError, ValueError} then Inr (mk []) else Inl e)"

record status =
  st_last_lsn :: int
  st_slots :: "pydict option"
  st_retain_slots :: "string list"

definition Status :: "int \<Rightarrow> pydict option \<Rightarrow> string list \<Rightarrow> status" where
  "Status l s r = \<lparr>st_last_lsn = l, st_slots = s, st_retain_slots = r\<rparr>"

definition Status_empty :: status where
  "Status_empty = Status 0 None []"

definition status_is_empty :: "status \<Rightarrow> bool" where
  "status_is_empty s \<longleftrightarrow> st_last_lsn s = 0 \<and> st_slots s = None \<and> st_retain_slots s = []"

text \<open>A string is decoded, and what cannot be decoded replaced; other values are taken as they are.\<close>

definition decoded :: "(string \<Rightarrow> py_error + pyval) \<Rightarrow> pyval \<Rightarrow> pyval \<Rightarrow> pyval" where
  "decoded loads v d = (case v of PStr s \<Rightarrow> (case loads s of Inr x \<Rightarrow> x | Inl _ \<Rightarrow> d) | _ \<Rightarrow> v)"

definition Status_from_node :: "(string \<Rightarrow> py_error + pyval) \<Rightarrow> pyval \<Rightarrow> status" where
  "Status_from_node loads val =
     (case decoded loads val PNone of
        PInt n \<Rightarrow> Status n None []
      | PBool b \<Rightarrow> Status (if b then 1 else 0) None []
      | PDict d \<Rightarrow>
          Status (case py_int (dict_get_default d ''optime'' (PStr [])) of Inr n \<Rightarrow> n | Inl _ \<Rightarrow> 0)
            (case decoded loads (pyget d ''slots'') PNone of PDict s \<Rightarrow> Some s | _ \<Rightarrow> None)
            (case decoded loads (pyget d ''retain_slots'') (PList []) of PList r \<Rightarrow> as_strs r | _ \<Rightarrow> [])
      | _ \<Rightarrow> Status_empty)"

section \<open>The cluster view\<close>

text \<open>The worker clusters of a multi-node installation are carried along unexamined.\<close>

record 'w cluster =
  c_initialize :: "string option"
  c_config :: "cluster_config option"
  c_leader :: "leader option"
  c_status :: status
  c_members :: "member list"
  c_failover :: "failover option"
  c_sync :: sync_state
  c_history :: "timeline_history option"
  c_failsafe :: "(string, string) dict option"
  c_workers :: "(int, 'w) dict"

definition Cluster_empty :: "'w cluster" where
  "Cluster_empty = \<lparr>c_initialize = None, c_config = None, c_leader = None, c_status = Status_empty,
     c_members = [], c_failover = None, c_sync = SyncState_empty PNone, c_history = None,
     c_failsafe = None, c_workers = []\<rparr>"

definition cluster_is_empty :: "'w cluster \<Rightarrow> bool" where
  "cluster_is_empty c \<longleftrightarrow> c_initialize c = None \<and> c_config c = None \<and> c_leader c = None
     \<and> status_is_empty (c_status c) \<and> c_members c = [] \<and> c_failover c = None
     \<and> s_version (c_sync c) = PNone \<and> c_history c = None \<and> c_failsafe c = None \<and> c_workers c = []"

definition leader_name :: "'w cluster \<Rightarrow> string option" where
  "leader_name c = map_option l_name (c_leader c)"

definition is_unlocked :: "'w cluster \<Rightarrow> bool" where
  "is_unlocked c \<longleftrightarrow> \<not> str_bool (leader_name c)"

definition has_member :: "'w cluster \<Rightarrow> string \<Rightarrow> bool" where
  "has_member c name \<longleftrightarrow> list_ex (\<lambda>m. m_name m = name) (c_members c)"

text \<open>The result is a member, or the leader's member when the search falls back to the leader.\<close>

definition get_member :: "'w cluster \<Rightarrow> string \<Rightarrow> bool \<Rightarrow> member option" where
  "get_member c name fallback_to_leader =
     (case List.find (\<lambda>m. m_name m = name) (c_members c) of
        Some m \<Rightarrow> Some m
      | None \<Rightarrow> if fallback_to_leader then map_option l_member (c_leader c) else None)"

text \<open>
  \<open>pick n\<close> is the outcome of \<^verbatim>\<open>randint(0, n - 1)\<close>; \<open>has_conn_url\<close> says whether a connection URL
  of the member is known.
\<close>

definition get_clone_member ::
  "(nat \<Rightarrow> nat) \<Rightarrow> (member \<Rightarrow> bool) \<Rightarrow> 'w cluster \<Rightarrow> string \<Rightarrow> member option" where
  "get_clone_member pick has_conn_url c exclude_name =
     (let exclude = exclude_name # (case c_leader c of None \<Rightarrow> [] | Some l \<Rightarrow> [l_name l]);
          candidates = filter (\<lambda>m. truthy (tag_clonefrom (m_tags m)) \<and> has_conn_url m
                                  \<and> is_running m \<and> m_name m \<notin> set exclude) (c_members c)
      in if candidates \<noteq> [] then Some (candidates ! pick (length candidates))
         else map_option l_member (c_leader c))"

definition cluster_timeline :: "'w cluster \<Rightarrow> int" where
  "cluster_timeline c = (case c_history c of
     None \<Rightarrow> 0
   | Some h \<Rightarrow>
       if h_lines h \<noteq> [] then
         (case last (h_lines h) of
            PList (x # _) \<Rightarrow> (case py_int x of Inr n \<Rightarrow> n + 1 | Inl _ \<Rightarrow> 0)
          | PStr (x # _) \<Rightarrow> (case py_int (PStr [x]) of Inr n \<Rightarrow> n + 1 | Inl _ \<Rightarrow> 0)
          | _ \<Rightarrow> 0)
       else if h_value h = PStr ''[]'' then 1 else 0)"

definition min_version :: "'w cluster \<Rightarrow> int list option" where
  "min_version c = (case sort (filter (\<lambda>v. v \<noteq> []) (List.map_filter patroni_version (c_members c))) of
     [] \<Rightarrow> None | v # _ \<Rightarrow> Some v)"

section \<open>Global configuration\<close>

text \<open>The module-wide \<open>GlobalConfig\<close> object is the dictionary it holds.\<close>

type_synonym global_config = pydict

definition cluster_has_valid_config :: "'w cluster option \<Rightarrow> bool" where
  "cluster_has_valid_config cluster = (case cluster of
     None \<Rightarrow> False
   | Some c \<Rightarrow> \<not> cluster_is_empty c
       \<and> (case c_config c of None \<Rightarrow> False | Some cc \<Rightarrow> truthy (cc_modify_version cc)))"

definition gc_update :: "global_config \<Rightarrow> 'w cluster option \<Rightarrow> pydict \<Rightarrow> global_config" where
  "gc_update gc cluster dflt =
     (if cluster_has_valid_config cluster then cc_data (the (c_config (the cluster)))
      else if dflt \<noteq> [] then dflt else gc)"

definition from_cluster :: "global_config \<Rightarrow> 'w cluster option \<Rightarrow> global_config" where
  "from_cluster gc cluster =
     (if \<not> cluster_has_valid_config cluster then gc else gc_update [] cluster [])"

definition check_mode :: "global_config \<Rightarrow> string \<Rightarrow> bool" where
  "check_mode gc mode \<longleftrightarrow> parse_bool (pyget gc mode) = Some True"

definition is_paused :: "global_config \<Rightarrow> bool" where
  "is_paused gc \<longleftrightarrow> check_mode gc ''pause''"

definition is_quorum_commit_mode :: "global_config \<Rightarrow> bool" where
  "is_quorum_commit_mode gc \<longleftrightarrow> lower (py_str (pyget gc ''synchronous_mode'')) = ''quorum''"

definition is_standby_cluster :: "global_config \<Rightarrow> bool" where
  "is_standby_cluster gc = (case pyget gc ''standby_cluster'' of
     PDict d \<Rightarrow> list_ex (\<lambda>p. truthy (pyget d p)) [''host'', ''port'', ''restore_command'']
   | _ \<Rightarrow> False)"

definition is_synchronous_mode :: "global_config \<Rightarrow> bool" where
  "is_synchronous_mode gc \<longleftrightarrow>
     (check_mode gc ''synchronous_mode'' \<or> is_quorum_commit_mode gc) \<and> \<not> is_standby_cluster gc"

definition is_synchronous_mode_strict :: "global_config \<Rightarrow> bool" where
  "is_synchronous_mode_strict gc \<longleftrightarrow> check_mode gc ''synchronous_mode_strict''"

definition gc_get_int :: "global_config \<Rightarrow> string \<Rightarrow> int \<Rightarrow> string option \<Rightarrow> py_error + int" where
  "gc_get_int gc name dflt base_unit =
     map_sum id (\<lambda>r. case r of None \<Rightarrow> dflt | Some n \<Rightarrow> n) (parse_int (pyget gc name) base_unit)"

definition min_synchronous_nodes :: "global_config \<Rightarrow> int" where
  "min_synchronous_nodes gc = (if is_synchronous_mode_strict gc then 1 else 0)"

definition synchronous_node_count :: "global_config \<Rightarrow> py_error + int" where
  "synchronous_node_count gc =
     map_sum id (\<lambda>n. max n (min_synchronous_nodes gc)) (gc_get_int gc ''synchronous_node_count'' 1 None)"

definition maximum_lag_on_failover :: "global_config \<Rightarrow> py_error + int" where
  "maximum_lag_on_failover gc = gc_get_int gc ''maximum_lag_on_failover'' 1048576 None"

definition maximum_lag_on_syncnode :: "global_config \<Rightarrow> py_error + int" where
  "maximum_lag_on_syncnode gc = gc_get_int gc ''maximum_lag_on_syncnode'' (- 1) None"

definition primary_start_timeout :: "global_config \<Rightarrow> py_error + int" where
  "primary_start_timeout gc = gc_get_int gc
     (if dict_has gc ''primary_start_timeout'' then ''primary_start_timeout'' else ''master_start_timeout'') 300 None"

definition primary_stop_timeout :: "global_config \<Rightarrow> py_error + int" where
  "primary_stop_timeout gc = gc_get_int gc
     (if dict_has gc ''primary_stop_timeout'' then ''primary_stop_timeout'' else ''master_stop_timeout'') 0 None"

definition ignore_slots_matchers :: "global_config \<Rightarrow> pyval" where
  "ignore_slots_matchers gc = py_or (pyget gc ''ignore_slots'') (PList [])"

definition max_timelines_history :: "global_config \<Rightarrow> py_error + int" where
  "max_timelines_history gc = gc_get_int gc ''max_timelines_history'' 0 None"

definition use_slots :: "global_config \<Rightarrow> bool" where
  "use_slots gc \<longleftrightarrow>
     parse_bool (dict_get_default (as_dict (pyget gc ''postgresql'')) ''use_slots'' (PBool True)) = Some True"

definition gc_permanent_slots :: "global_config \<Rightarrow> pydict" where
  "gc_permanent_slots gc = as_dict (py_or (pyget gc ''permanent_replication_slots'')
     (py_or (pyget gc ''permanent_slots'') (py_or (pyget gc ''slots'') (PDict []))))"

definition member_slots_ttl :: "global_config \<Rightarrow> py_error + int" where
  "member_slots_ttl gc = gc_get_int gc ''member_slots_ttl'' 1800 (Some ''s'')"

section \<open>Slot names are valid\<close>

lemma lower_char_of_slot_char: "slot_char_ok c \<Longrightarrow> lower_char c = c"
  by (auto simp: slot_char_ok_def lower_char_def is_digit_def Let_def)

lemma slot_char_digit [simp]: "is_digit c \<Longrightarrow> slot_char_ok c"
  by (simp add: slot_char_ok_def)

lemma pad4_digits: "0 \<le> n \<Longrightarrow> list_all is_digit (pad4 n)"
proof -
  assume "0 \<le> n"
  moreover have "is_digit (CHR ''0'')" by code_simp
  ultimately show ?thesis using show_nat_digits [of n] by (auto simp: pad4_def Let_def list_all_iff)
qed

lemma replace_char_ok: "list_all slot_char_ok (replace_char c)" "replace_char c \<noteq> []"
proof -
  have "slot_char_ok (CHR ''_'')" "slot_char_ok (CHR ''u'')" by code_simp+
  then show "list_all slot_char_ok (replace_char c)"
    using pad4_digits [OF of_char_bounds(1), of c] by (auto simp: replace_char_def list_all_iff)
qed (simp add: replace_char_def)

lemma slot_name_chars: "list_all slot_char_ok (slot_name_from_member_name n)"
  using replace_char_ok(1) by (auto simp: slot_name_from_member_name_def list_all_iff dest!: in_set_takeD)

lemma slot_name_length: "length (slot_name_from_member_name n) \<le> 63"
  by (simp add: slot_name_from_member_name_def)

lemma slot_name_nonempty: "n \<noteq> [] \<Longrightarrow> slot_name_from_member_name n \<noteq> []"
  using replace_char_ok(2) by (cases n) (auto simp: slot_name_from_member_name_def lower_def)

lemma slot_char_not_newline: "slot_char_ok c \<Longrightarrow> of_char c \<noteq> (10 :: int)"
  by (auto simp: slot_char_ok_def is_digit_def Let_def)

lemma concat_replace_ok: "list_all slot_char_ok s \<Longrightarrow> concat (map replace_char s) = s"
  by (induction s) (auto simp: replace_char_def)

text \<open>
  C33: every non-empty member name is mapped to a name PostgreSQL accepts for a replication slot:
  between 1 and 63 characters, all lower case letters, digits or underscores. A name that is
  valid already is kept.
\<close>

theorem slot_name_valid:
  assumes "member_name \<noteq> []"
  shows "slot_name_re (slot_name_from_member_name member_name)
    \<and> (slot_name_re member_name \<and> list_all slot_char_ok member_name
        \<longrightarrow> slot_name_from_member_name member_name = member_name)"
proof
  let ?s = "slot_name_from_member_name member_name"
  have "slot_char_ok (last ?s)"
    using slot_name_chars [of member_name] slot_name_nonempty [OF assms] by (auto simp: list_all_iff)
  then show "slot_name_re ?s"
    using slot_name_chars [of member_name] slot_name_nonempty [OF assms] slot_name_length [of member_name]
    by (auto simp: slot_name_re_def Let_def slot_char_not_newline Suc_le_eq)
  show "slot_name_re member_name \<and> list_all slot_char_ok member_name \<longrightarrow> ?s = member_name"
  proof
    assume a: "slot_name_re member_name \<and> list_all slot_char_ok member_name"
    then have "of_char (last member_name) \<noteq> (10 :: int)"
      using assms by (intro slot_char_not_newline) (simp add: list_all_iff)
    then have "length member_name \<le> 63" using a assms by (simp add: slot_name_re_def Let_def)
    moreover have "lower member_name = member_name"
      using a by (auto simp: lower_def list_all_iff lower_char_of_slot_char intro: map_idI)
    moreover have "concat (map replace_char member_name) = member_name"
      using a concat_replace_ok by blast
    ultimately show "?s = member_name" by (simp add: slot_name_from_member_name_def)
  qed
qed

theorem slot_name_valid_witness: "slot_name_re (slot_name_from_member_name ''PG-node.1@X'')"
  using slot_name_valid [of "''PG-node.1@X''"] by simp

section \<open>The sync key is read back as it was written\<close>

lemma lower_char_space [simp]: "is_space (lower_char c) = is_space c"
  by (auto simp: lower_char_def is_space_def Let_def of_char_of)

lemma lower_char_comma [simp]: "lower_char c = CHR '','' \<longleftrightarrow> c = CHR '',''"
proof -
  have "lower_char c = c \<or> of_char (lower_char c) \<ge> (97 :: int)"
    by (auto simp: lower_char_def Let_def of_char_of)
  moreover have "of_char (CHR '','') = (44 :: int)" by code_simp
  ultimately have "lower_char c = CHR '','' \<Longrightarrow> c = CHR '',''" by auto
  moreover have "lower_char (CHR '','') = CHR '',''" by code_simp
  ultimately show ?thesis by auto
qed

lemma split_on_nonempty [simp]: "split_on c s \<noteq> []"
  by (induction s) (auto split: list.splits)

lemma split_on_append: "split_on c (a @ c # b) = split_on c a @ split_on c b"
proof (induction a)
  case (Cons x a)
  then show ?case by (cases "split_on c a") auto
qed simp

lemma split_on_no_sep: "c \<notin> set s \<Longrightarrow> split_on c s = [s]"
  by (induction s) auto

lemma split_on_join:
  "xs \<noteq> [] \<Longrightarrow> \<forall>x \<in> set xs. c \<notin> set x \<Longrightarrow> split_on c (join [c] xs) = xs"
proof (induction "[c]" xs rule: join.induct)
  case (3 x y ys)
  then show ?case using split_on_append [of c x "join [c] (y # ys)"] by (simp add: split_on_no_sep)
qed (auto simp: split_on_no_sep)

lemma split_on_lower: "split_on (CHR '','') (lower s) = map lower (split_on (CHR '','') s)"
proof (induction s)
  case (Cons x s)
  then show ?case by (cases "split_on (CHR '','') s") (auto simp: lower_def)
qed (simp add: lower_def)

lemma strip_lower: "strip (lower s) = lower (strip s)"
  by (simp add: strip_def lstrip_def lower_def dropWhile_map rev_map o_def)

lemma str_to_list_lower: "str_to_list (lower s) = map lower (str_to_list s)"
  by (simp add: str_to_list_def split_on_lower strip_lower o_def filter_map)

text \<open>
  a node matches the \<open>/sync\<close> key exactly when its name is one of the voters up to letter case,
  for whatever string the key holds.
\<close>

theorem sync_matches_voters:
  "sync_matches s name False \<longleftrightarrow> str_bool name \<and> lower (str_or_empty name) \<in> lower ` set (sync_voters s)"
proof -
  have "str_to_list [] = []" by code_simp
  then show ?thesis
    by (auto simp: sync_matches_def sync_voters_def str_to_list_lower str_bool_def str_or_empty_def
        split: option.splits)
qed

text \<open>Names that survive the comma separated form: not empty, no comma, no surrounding spaces.\<close>

definition sync_name_ok :: "string \<Rightarrow> bool" where
  "sync_name_ok n \<longleftrightarrow> n \<noteq> [] \<and> CHR '','' \<notin> set n \<and> \<not> is_space (hd n) \<and> \<not> is_space (last n)"

lemma str_to_list_join:
  assumes "\<forall>n \<in> set xs. sync_name_ok n"
  shows "str_to_list (join '','' xs) = xs"
proof (cases "xs = []")
  case True
  have "str_to_list [] = []" by code_simp
  then show ?thesis using True by simp
next
  case False
  have "map strip xs = xs" using assms by (intro map_idI strip_id) (auto simp: sync_name_ok_def)
  moreover have "filter (\<lambda>a. a \<noteq> []) xs = xs" using assms by (auto simp: filter_id_conv sync_name_ok_def)
  ultimately show ?thesis
    using split_on_join [OF False, of "CHR '',''"] assms by (simp add: str_to_list_def sync_name_ok_def)
qed

lemma join_nonempty: "xs \<noteq> [] \<Longrightarrow> \<forall>n \<in> set xs. n \<noteq> [] \<Longrightarrow> join sep xs \<noteq> []"
  by (induction sep xs rule: join.induct) auto

text \<open>
  the state of synchronous replication written to DCS is the one read back: the leader, the
  quorum and, in sorted order, exactly the given standby names, provided no name is empty,
  contains a comma or is surrounded by white space.
\<close>

theorem sync_state_roundtrip:
  assumes "ldr \<noteq> []" "\<forall>n \<in> set standbys. sync_name_ok n"
  shows "\<exists>s. SyncState_from_node loads version (PDict (sync_state_value (Some ldr) standbys (Some q))) = Inr s
    \<and> s_leader s = Some ldr \<and> s_quorum s = q \<and> s_version s = version \<and> sync_voters s = sort standbys
    \<and> \<not> sync_is_empty s"
proof -
  have s: "SyncState_from_node loads version (PDict (sync_state_value (Some ldr) standbys (Some q)))
     = Inr (SyncState version (Some ldr) (if standbys = [] then None else Some (join '','' (sort standbys))) q)"
    using assms(1)
    by (simp add: SyncState_from_node_def sync_state_value_def pyget_def dict_get_default_def opt_str_def
        as_str_def Let_def py_int_def)
  have "standbys \<noteq> [] \<Longrightarrow> join '','' (sort standbys) \<noteq> []"
    using assms(2) by (intro join_nonempty) (auto simp: sync_name_ok_def dest: arg_cong [where f = set])
  then show ?thesis unfolding s using assms str_to_list_join [of "sort standbys"]
    by (auto simp: SyncState_def sync_voters_def sync_is_empty_def str_bool_def str_or_empty_def)
qed

theorem sync_state_roundtrip_witness:
  "\<exists>s. SyncState_from_node (\<lambda>x. Inl ValueError) (PInt 7)
         (PDict (sync_state_value (Some ''a'') [''node2'', ''node1''] (Some 1))) = Inr s
     \<and> sync_voters s = [''node1'', ''node2''] \<and> s_quorum s = 1"
proof -
  have "\<forall>n \<in> set [''node2'', ''node1'']. sync_name_ok n" by code_simp
  from sync_state_roundtrip [OF _ this, of "''a''" "\<lambda>x. Inl ValueError" "PInt 7" 1]
  show ?thesis by auto
qed

end
