(* ===== verification/PgMisc.thy ===== *)
theory PgMisc
  imports Dcs
begin

text \<open>
  \<^verbatim>\<open>patroni/postgresql/misc.py\<close>: the states and roles of a PostgreSQL instance, version numbers,
  WAL positions and timeline history files.
\<close>

section \<open>States and roles\<close>

datatype PostgresqlState = INITDB | INITDB_FAILED | CUSTOM_BOOTSTRAP | CUSTOM_BOOTSTRAP_FAILED
  | CREATING_REPLICA | RUNNING | STARTING | BOOTSTRAP_STARTING | START_FAILED | RESTARTING
  | RESTART_FAILED | STOPPING | STOPPED | STOP_FAILED | CRASHED

primrec state_value :: "PostgresqlState \<Rightarrow> string" where
  "state_value INITDB = ''initializing new cluster''"
| "state_value INITDB_FAILED = ''initdb failed''"
| "state_value CUSTOM_BOOTSTRAP = ''running custom bootstrap script''"
| "state_value CUSTOM_BOOTSTRAP_FAILED = ''custom bootstrap failed''"
| "state_value CREATING_REPLICA = ''creating replica''"
| "state_value RUNNING = ''running''"
| "state_value STARTING = ''starting''"
| "state_value BOOTSTRAP_STARTING = ''starting after custom bootstrap''"
| "state_value START_FAILED = ''start failed''"
| "state_value RESTARTING = ''restarting''"
| "state_value RESTART_FAILED = ''restart failed''"
| "state_value STOPPING = ''stopping''"
| "state_value STOPPED = ''stopped''"
| "state_value STOP_FAILED = ''stop failed''"
| "state_value CRASHED = ''crashed''"

primrec state_index :: "PostgresqlState \<Rightarrow> nat" where
  "state_index INITDB = 0"
| "state_index INITDB_FAILED = 1"
| "state_index CUSTOM_BOOTSTRAP = 2"
| "state_index CUSTOM_BOOTSTRAP_FAILED = 3"
| "state_index CREATING_REPLICA = 4"
| "state_index RUNNING = 5"
| "state_index STARTING = 6"
| "state_index BOOTSTRAP_STARTING = 7"
| "state_index START_FAILED = 8"
| "state_index RESTARTING = 9"
| "state_index RESTART_FAILED = 10"
| "state_index STOPPING = 11"
| "state_index STOPPED = 12"
| "state_index STOP_FAILED = 13"
| "state_index CRASHED = 14"

datatype PostgresqlRole = PRIMARY | MASTER | STANDBY_LEADER | REPLICA | DEMOTED | UNINITIALIZED | PROMOTED

primrec role_value :: "PostgresqlRole \<Rightarrow> string" where
  "role_value PRIMARY = ''primary''"
| "role_value MASTER = ''master''"
| "role_value STANDBY_LEADER = ''standby_leader''"
| "role_value REPLICA = ''replica''"
| "role_value DEMOTED = ''demoted''"
| "role_value UNINITIALIZED = ''uninitialized''"
| "role_value PROMOTED = ''promoted''"

section \<open>Versions\<close>

text \<open>\<^verbatim>\<open>'{0:02d}'.format(n)\<close>\<close>

definition fmt02 :: "int \<Rightarrow> string" where
  "fmt02 n = (if 0 \<le> n \<and> n < 10 then CHR ''0'' # show_int n else show_int n)"

definition postgres_version_to_int :: "string \<Rightarrow> py_error + int" where
  "postgres_version_to_int pg_version =
     (case mapM py_int (map PStr (split_on (CHR ''.'') pg_version)) of
        Inl ValueError \<Rightarrow> Inl PostgresException
      | Inl e \<Rightarrow> Inl e
      | Inr components \<Rightarrow>
          if length components < 2 \<or> length components = 2 \<and> hd components < 10 \<or> length components > 3
          then Inl PostgresException
          else (let components = (if length components = 2 then [components ! 0, 0, components ! 1] else components)
                in py_int (PStr (concat (map fmt02 components)))))"

definition postgres_major_version_to_int :: "string \<Rightarrow> py_error + int" where
  "postgres_major_version_to_int pg_version = postgres_version_to_int (pg_version @ ''.0'')"

definition get_major_from_minor_version :: "int \<Rightarrow> int" where
  "get_major_from_minor_version version = version div 100 * 100"

section \<open>WAL positions\<close>

text \<open>\<^verbatim>\<open>int(s, 16)\<close>\<close>

fun hex_digits :: "bool \<Rightarrow> int \<Rightarrow> string \<Rightarrow> int option" where
  "hex_digits prev n [] = (if prev then Some n else None)"
| "hex_digits prev n (c # cs) =
     (case hex_val c of
        Some d \<Rightarrow> hex_digits True (16 * n + d) cs
      | None \<Rightarrow> if c = CHR ''_'' \<and> prev then hex_digits False n cs else None)"

definition int16 :: "string \<Rightarrow> py_error + int" where
  "int16 s = (case split_sign (strip s) of (sg, r) \<Rightarrow>
     let r' = (if take 2 r \<in> {''0x'', ''0X''}
               then (if take 1 (drop 2 r) = ''_'' then drop 3 r else drop 2 r) else r)
     in case hex_digits False 0 r' of Some n \<Rightarrow> Inr (sg * n) | None \<Rightarrow> Inl ValueError)"

definition parse_lsn :: "string \<Rightarrow> py_error + int" where
  "parse_lsn lsn = (let t = split_on (CHR ''/'') lsn in
     bind_err (int16 (t ! 0)) (\<lambda>hi.
       if length t < 2 then Inl IndexError
       else bind_err (int16 (t ! 1)) (\<lambda>lo. Inr (hi * 4294967296 + lo))))"

definition parse_history_line :: "string \<Rightarrow> (int \<times> int \<times> string) list" where
  "parse_history_line line = (let values = split_on (char_of (9 :: int)) (strip line) in
     if length values = 3 then
       (case bind_err (py_int (PStr (values ! 0))) (\<lambda>tl. bind_err (parse_lsn (values ! 1)) (\<lambda>lsn. Inr (tl, lsn, values ! 2))) of
          Inr x \<Rightarrow> [x] | Inl _ \<Rightarrow> [])
     else [])"

definition parse_history :: "string \<Rightarrow> (int \<times> int \<times> string) list" where
  "parse_history data = concat (map parse_history_line (split_on (char_of (10 :: int)) data))"

definition hex_upper :: "int \<Rightarrow> char" where
  "hex_upper d = (if d < 10 then char_of (48 + d) else char_of (55 + d))"

function show_hexn :: "int \<Rightarrow> string" where
  "show_hexn n = (if n < 16 then [hex_upper n] else show_hexn (n div 16) @ [hex_upper (n mod 16)])"
  by pat_completeness auto
termination by (relation "measure nat") auto

declare show_hexn.simps [simp del]

definition show_hex :: "int \<Rightarrow> string" where
  "show_hex n = (if n < 0 then CHR ''-'' # show_hexn (- n) else show_hexn n)"

definition pad8 :: "string \<Rightarrow> string" where
  "pad8 s = replicate (8 - length s) (CHR ''0'') @ s"

definition format_lsn :: "int \<Rightarrow> bool \<Rightarrow> string" where
  "format_lsn lsn full = show_hex (lsn div 4294967296) @ ''/'' @
     (if full then pad8 (show_hex (lsn mod 4294967296)) else show_hex (lsn mod 4294967296))"

section \<open>Properties\<close>

lemma hex_val_upper [simp]: "0 \<le> d \<Longrightarrow> d < 16 \<Longrightarrow> hex_val (hex_upper d) = Some d"
  by (auto simp: hex_val_def hex_upper_def of_char_of Let_def)

text \<open>Strings of hexadecimal digits only.\<close>

definition all_hex :: "string \<Rightarrow> bool" where
  "all_hex s \<longleftrightarrow> s \<noteq> [] \<and> (\<forall>c \<in> set s. is_hex c)"

lemma hex_digits_read: "\<forall>c \<in> set s. is_hex c \<Longrightarrow> s \<noteq> [] \<or> prev \<Longrightarrow>
   hex_digits prev n s = Some (foldl (\<lambda>n c. 16 * n + the (hex_val c)) n s)"
  by (induction s arbitrary: prev n) (auto simp: is_hex_def)

lemma is_hexD: "is_hex c \<Longrightarrow> \<not> is_space c \<and> c \<notin> {CHR ''x'', CHR ''X'', CHR ''-'', CHR ''+'', CHR ''/'', CHR ''_''}"
proof -
  assume h: "is_hex c"
  have "\<not> is_hex (CHR ''x'')" "\<not> is_hex (CHR ''X'')" "\<not> is_hex (CHR ''-'')" "\<not> is_hex (CHR ''+'')"
    "\<not> is_hex (CHR ''/'')" "\<not> is_hex (CHR ''_'')" by code_simp+
  moreover have "\<not> is_space c" using h by (auto simp: is_hex_def hex_val_def is_space_def Let_def split: if_splits)
  ultimately show ?thesis using h by auto
qed

lemma int16_all_hex:
  assumes "all_hex s"
  shows "int16 s = Inr (read_base 16 s)"
proof -
  have ne: "s \<noteq> []" and h: "\<And>c. c \<in> set s \<Longrightarrow> is_hex c" using assms by (auto simp: all_hex_def)
  have hd: "is_hex (hd s)" "is_hex (last s)" using ne h by auto
  have st: "strip s = s" using ne is_hexD hd by (intro strip_id) auto
  have sg: "split_sign s = (1, s)" using is_hexD [OF hd(1)] ne by (cases s) (auto simp: split_sign_def)
  have "take 2 s \<notin> {''0x'', ''0X''}"
  proof
    assume "take 2 s \<in> {''0x'', ''0X''}"
    then have "CHR ''x'' \<in> set (take 2 s) \<or> CHR ''X'' \<in> set (take 2 s)" by auto
    then show False using h is_hexD by (blast dest: in_set_takeD)
  qed
  then show ?thesis using st sg hex_digits_read [of s False 0] h ne by (simp add: int16_def read_base_def)
qed

lemma all_hex_show: "0 \<le> n \<Longrightarrow> all_hex (show_hexn n) \<and> read_base 16 (show_hexn n) = n"
proof (induction n rule: show_hexn.induct)
  case (1 n)
  have m: "is_hex (hex_upper (n mod 16))" by (simp add: is_hex_def)
  show ?case
  proof (cases "n < 16")
    case True
    then show ?thesis using 1(2) by (subst (1 2) show_hexn.simps) (simp add: all_hex_def is_hex_def read_base_def)
  next
    case False
    then show ?thesis using 1 m by (subst (1 2) show_hexn.simps) (auto simp: all_hex_def read_base_def)
  qed
qed

lemma read_base_zeros: "read_base 16 (replicate k (CHR ''0'') @ s) = read_base 16 s"
proof -
  have "hex_val (CHR ''0'') = Some 0" by code_simp
  then have "foldl (\<lambda>n c. 16 * n + the (hex_val c)) 0 (replicate k (CHR ''0'')) = 0"
    by (induction k) auto
  then show ?thesis by (simp add: read_base_def)
qed

lemma all_hex_pad8: "all_hex s \<Longrightarrow> all_hex (pad8 s) \<and> read_base 16 (pad8 s) = read_base 16 s"
proof -
  assume "all_hex s"
  moreover have "is_hex (CHR ''0'')" by code_simp
  ultimately show ?thesis by (auto simp: all_hex_def pad8_def read_base_zeros)
qed

text \<open>
  C31: a WAL position printed by \<open>format_lsn\<close>, in the short or in the zero-padded form, is read back
  by \<open>parse_lsn\<close> as the same number, for every non-negative position.
\<close>

theorem lsn_roundtrip:
  assumes "0 \<le> lsn"
  shows "parse_lsn (format_lsn lsn full) = Inr lsn"
proof -
  define hi where "hi = lsn div 4294967296"
  define lo where "lo = lsn mod 4294967296"
  define h where "h = show_hex hi"
  define l where "l = (if full then pad8 (show_hex lo) else show_hex lo)"
  have pos: "0 \<le> hi" "0 \<le> lo" using assms by (simp_all add: hi_def lo_def)
  have h: "all_hex h" "read_base 16 h = hi" using all_hex_show [OF pos(1)] pos by (simp_all add: h_def show_hex_def)
  have l: "all_hex l" "read_base 16 l = lo"
    using all_hex_show [OF pos(2)] all_hex_pad8 [of "show_hexn lo"] pos by (simp_all add: l_def show_hex_def)
  have ns: "CHR ''/'' \<notin> set h" "CHR ''/'' \<notin> set l" using h l is_hexD by (auto simp: all_hex_def)
  have f: "format_lsn lsn full = h @ CHR ''/'' # l" by (simp add: format_lsn_def h_def l_def hi_def lo_def)
  show ?thesis unfolding f parse_lsn_def
    using h l ns by (simp add: split_on_append split_on_no_sep int16_all_hex bind_err_def hi_def lo_def)
qed

theorem lsn_roundtrip_witness: "parse_lsn (format_lsn 67197376 True) = Inr 67197376 \<and> format_lsn 67197376 True = ''0/040159C0''"
  using lsn_roundtrip [of 67197376 True] by (simp, code_simp)

text \<open>
  the numeric indexes of the states of PostgreSQL that monitoring relies on, and the strings
  of states and roles, identify the state and the role.
\<close>

theorem state_codes_injective: "inj state_index \<and> inj state_value \<and> inj role_value"
proof (intro conjI injI)
  fix x y show "state_index x = state_index y \<Longrightarrow> x = y" by (cases x; cases y) simp_all
next
  fix x y show "state_value x = state_value y \<Longrightarrow> x = y" by (cases x; cases y) simp_all
next
  fix x y show "role_value x = role_value y \<Longrightarrow> x = y" by (cases x; cases y) simp_all
qed

end
