(* ===== verification/Slots.thy ===== *)
theory Slots
  imports PgMisc
begin

text \<open>
  Which replication slots a node should have: the slot part of \<open>Cluster\<close> in
  \<^verbatim>\<open>patroni/dcs/__init__.py\<close>. The node asking is described by its name, its tags and whether its
  PostgreSQL can advance slots; the module-wide global configuration is an argument. A slot is the
  dictionary the source builds.
\<close>

section \<open>Kinds of slots\<close>

definition is_logical_slot :: "pyval \<Rightarrow> bool" where
  "is_logical_slot v = (case v of
     PDict d \<Rightarrow> dict_get_default d ''type'' (PStr ''logical'') = PStr ''logical''
       \<and> truthy (pyget d ''database'') \<and> truthy (pyget d ''plugin'')
   | _ \<Rightarrow> False)"

definition is_physical_slot :: "pyval \<Rightarrow> bool" where
  "is_physical_slot v \<longleftrightarrow> \<not> truthy v
     \<or> (case v of
          PDict d \<Rightarrow> \<not> is_logical_slot v \<and> dict_get_default d ''type'' (PStr ''physical'') = PStr ''physical''
        | _ \<Rightarrow> False)"

text \<open>\<^verbatim>\<open>lsn or 0\<close>\<close>

definition int_or_0 :: "int option \<Rightarrow> int" where
  "int_or_0 x = (case x of None \<Rightarrow> 0 | Some n \<Rightarrow> n)"

definition cluster_slots :: "'w cluster \<Rightarrow> py_error + (string, int) dict" where
  "cluster_slots c =
     mapM (\<lambda>(k, v). map_sum id (\<lambda>n. (k, int_or_0 n)) (parse_int v None))
       (case st_slots (c_status c) of None \<Rightarrow> [] | Some d \<Rightarrow> d)"

section \<open>Permanent slots\<close>

definition set_slot_lsn :: "(string, int) dict \<Rightarrow> (string, int) dict \<Rightarrow> string \<Rightarrow> pyval \<Rightarrow> pyval" where
  "set_slot_lsn members slots name v =
     (case (if truthy v then v else PDict []) of
        PDict d \<Rightarrow>
          (let lsn = max (if is_physical_slot (PDict d) then dict_get_default members name 0 else 0)
                         (dict_get_default slots name 0)
           in PDict (if lsn \<noteq> 0 then dict_set ''lsn'' (PInt lsn) d else dict_pop ''lsn'' d))
      | v' \<Rightarrow> v')"

definition permanent_slots :: "global_config \<Rightarrow> 'w cluster \<Rightarrow> py_error + pydict" where
  "permanent_slots gc c =
     bind_err (mapM (\<lambda>m. map_sum id (\<lambda>n. (slot_name_from_member_name (m_name m), int_or_0 n)) (member_lsn m))
                (filter (\<lambda>m. str_bool (replicatefrom (m_tags m))) (c_members c))) (\<lambda>members.
     bind_err (cluster_slots c) (\<lambda>slots.
       Inr (map (\<lambda>(name, v). (name, set_slot_lsn (dict_of members) slots name v)) (gc_permanent_slots gc))))"

definition permanent_physical_slots :: "global_config \<Rightarrow> 'w cluster \<Rightarrow> py_error + pydict" where
  "permanent_physical_slots gc c = map_sum id (filter (\<lambda>(name, v). is_physical_slot v
     \<and> (is_standby_cluster gc \<and> pyget (as_dict v) ''cluster_type'' \<noteq> PStr ''primary''
        \<or> \<not> is_standby_cluster gc \<and> pyget (as_dict v) ''cluster_type'' \<noteq> PStr ''standby'')))
     (permanent_slots gc c)"

definition permanent_logical_slots :: "global_config \<Rightarrow> 'w cluster \<Rightarrow> py_error + pydict" where
  "permanent_logical_slots gc c = map_sum id (filter (\<lambda>(name, v). is_logical_slot v)) (permanent_slots gc c)"

section \<open>The slot on the primary\<close>

text \<open>
  The loop of \<open>get_slot_name_on_primary\<close> with the nodes seen so far; it ends because every round
  visits a member not seen before.
\<close>

function slot_on_primary :: "'w cluster \<Rightarrow> string list \<Rightarrow> string \<Rightarrow> pydict \<Rightarrow> string option" where
  "slot_on_primary c seen name tags =
     (let seen' = name # seen in
      if nostream tags then None
      else (case (case replicatefrom tags of
                    None \<Rightarrow> None
                  | Some r \<Rightarrow> if r \<noteq> [] \<and> r \<noteq> name then get_member c r False else None) of
              None \<Rightarrow> Some (slot_name_from_member_name name)
            | Some m \<Rightarrow> if m_name m \<in> set seen' then None
                         else slot_on_primary c seen' (m_name m) (m_tags m)))"
  by pat_completeness auto

lemma get_member_in: "get_member c r False = Some m \<Longrightarrow> m \<in> set (c_members c) \<and> m_name m = r"
  by (auto simp: get_member_def find_Some_iff split: option.splits)

termination slot_on_primary
proof (relation "measure (\<lambda>(c, seen, name, tags). card (m_name ` set (c_members c) - set (name # seen)))")
  fix c :: "'w cluster" and seen name tags seen' and m :: member
  assume seen': "seen' = name # seen"
    and m: "(case replicatefrom tags of None \<Rightarrow> None
          | Some r \<Rightarrow> if r \<noteq> [] \<and> r \<noteq> name then get_member c r False else None) = Some m"
    and new: "m_name m \<notin> set seen'"
  have "m \<in> set (c_members c)" using m by (auto split: option.splits if_splits dest: get_member_in)
  then have "m_name ` set (c_members c) - set (m_name m # seen') \<subset> m_name ` set (c_members c) - set (name # seen)"
    using new seen' by auto
  then show "((c, seen', m_name m, m_tags m), c, seen, name, tags)
      \<in> measure (\<lambda>(c, seen, name, tags). card (m_name ` set (c_members c) - set (name # seen)))"
    by (simp add: psubset_card_mono)
qed simp

declare slot_on_primary.simps [simp del]

definition get_slot_name_on_primary :: "'w cluster \<Rightarrow> string \<Rightarrow> pydict \<Rightarrow> string option" where
  "get_slot_name_on_primary c name tags = slot_on_primary c [] name tags"

section \<open>Slots of a node\<close>

definition get_permanent_slots ::
  "global_config \<Rightarrow> 'w cluster \<Rightarrow> string \<Rightarrow> bool \<Rightarrow> pydict \<Rightarrow> PostgresqlRole \<Rightarrow> py_error + pydict" where
  "get_permanent_slots gc c pg_name can_advance_slots tags role =
     bind_err (if \<not> use_slots gc then Inr True else nofailover tags) (\<lambda>skip.
       if skip then Inr []
       else if is_standby_cluster gc \<or> get_slot_name_on_primary c pg_name tags = None then
         (if can_advance_slots \<or> role = STANDBY_LEADER then permanent_physical_slots gc c else Inr [])
       else if can_advance_slots \<or> role = PRIMARY then permanent_slots gc c
       else permanent_logical_slots gc c)"

definition leader_filter :: "'w cluster \<Rightarrow> string \<Rightarrow> member \<Rightarrow> bool" where
  "leader_filter c name m = (case replicatefrom (m_tags m) of
     None \<Rightarrow> True | Some r \<Rightarrow> r = name \<or> \<not> has_member c r)"

definition replica_filter :: "'w cluster \<Rightarrow> string \<Rightarrow> member \<Rightarrow> bool" where
  "replica_filter c name m \<longleftrightarrow> replicatefrom (m_tags m) = Some name \<and> Some (m_name m) \<noteq> leader_name c"

definition member_slot ::
  "(member \<Rightarrow> bool) \<Rightarrow> (string, int) dict \<Rightarrow> bool \<Rightarrow> member \<Rightarrow> py_error + (string \<times> pydict)" where
  "member_slot expected_active slots old_leader m =
     (let slot_name = slot_name_from_member_name (m_name m);
          lsn = dict_get_default slots slot_name 0 in
      bind_err (if str_bool (replicatefrom (m_tags m)) \<or> old_leader
                then map_sum id (\<lambda>n. max (int_or_0 n) lsn) (member_lsn m) else Inr lsn) (\<lambda>lsn.
        Inr (slot_name, [(''type'', PStr ''physical''), (''lsn'', PInt lsn),
                         (''expected_active'', PBool (expected_active m))])))"

definition get_members_slots ::
  "global_config \<Rightarrow> 'w cluster \<Rightarrow> string \<Rightarrow> PostgresqlRole \<Rightarrow> bool \<Rightarrow> bool \<Rightarrow> py_error + (string, pydict) dict" where
  "get_members_slots gc c name role nofo can_advance_slots =
     (if \<not> use_slots gc then Inr []
      else
        let members = filter (\<lambda>m. m_name m \<noteq> name \<and> \<not> nostream (m_tags m)) (c_members c);
            expected_active = (if role \<in> {PRIMARY, STANDBY_LEADER} then leader_filter c name else replica_filter c name)
        in
        bind_err (if can_advance_slots then map_sum id (\<lambda>t. t > 0) (member_slots_ttl gc) else Inr False) (\<lambda>retain.
        let members = (if retain then filter (\<lambda>m. \<not> nofo \<or> replicatefrom (m_tags m) = Some name) members
                       else filter expected_active members);
            old_leader = (case c_leader c of None \<Rightarrow> False
                          | Some l \<Rightarrow> (case patroni_version (l_member l) of None \<Rightarrow> False
                                       | Some v \<Rightarrow> v \<noteq> [] \<and> v < [4, 0, 0]))
        in
        bind_err (cluster_slots c) (\<lambda>slots.
        bind_err (mapM (member_slot expected_active slots old_leader) members) (\<lambda>ms.
        let ret = dict_of ms; slot_name = slot_name_from_member_name name in
        Inr (dict_update ret (map (\<lambda>s. (s, [(''type'', PStr ''physical'')]))
               (filter (\<lambda>s. \<not> nofo \<and> \<not> dict_has ret s \<and> s \<noteq> slot_name) (st_retain_slots (c_status c)))))))))"

text \<open>One entry of the permanent slots is merged into the slots and the list of disabled ones.\<close>

definition merge_permanent_slot ::
  "(string, string option) dict \<Rightarrow> string \<Rightarrow> PostgresqlRole \<Rightarrow> bool \<Rightarrow> string \<times> pyval
   \<Rightarrow> (string, pydict) dict \<times> string list \<Rightarrow> (string, pydict) dict \<times> string list" where
  "merge_permanent_slot topology name role can_advance_slots entry acc =
     (case (entry, acc) of ((slot_name, v), (slots, disabled)) \<Rightarrow>
        if \<not> slot_name_re slot_name then acc
        else (case (if truthy v then v else PDict [(''type'', PStr ''physical'')]) of
           PDict d \<Rightarrow>
             (let d' = (if dict_has d ''type'' then d
                        else dict_set ''type'' (PStr (if truthy (pyget d ''database'') \<and> truthy (pyget d ''plugin'')
                                                     then ''logical'' else ''physical'')) d) in
              if pyget d' ''type'' = PStr ''physical'' then
                (if \<not> dict_has slots slot_name \<and> slot_name \<noteq> name then
                   (let expected_active = (\<not> str_bool (dict_get_default topology slot_name None)
                                           \<and> role \<in> {PRIMARY, STANDBY_LEADER})
                    in (dict_set slot_name (dict_set ''expected_active'' (PBool expected_active) d') slots, disabled))
                 else acc)
              else if is_logical_slot (PDict d') then
                (if \<not> can_advance_slots then (slots, disabled @ [slot_name])
                 else if dict_has slots slot_name then acc
                 else (dict_set slot_name d' slots, disabled))
              else acc)
         | _ \<Rightarrow> acc))"

definition merge_permanent_slots ::
  "'w cluster \<Rightarrow> (string, pydict) dict \<Rightarrow> pydict \<Rightarrow> string \<Rightarrow> PostgresqlRole \<Rightarrow> bool
   \<Rightarrow> (string, pydict) dict \<times> string list" where
  "merge_permanent_slots c slots permanent name role can_advance_slots =
     (let topology = dict_of (map (\<lambda>m. (slot_name_from_member_name (m_name m),
             case replicatefrom (m_tags m) of None \<Rightarrow> None
             | Some r \<Rightarrow> Some (if r = [] then [] else slot_name_from_member_name r))) (c_members c))
      in fold (merge_permanent_slot topology (slot_name_from_member_name name) role can_advance_slots)
           permanent (slots, []))"

definition get_replication_slots ::
  "global_config \<Rightarrow> 'w cluster \<Rightarrow> string \<Rightarrow> bool \<Rightarrow> string \<Rightarrow> pydict \<Rightarrow> PostgresqlRole
   \<Rightarrow> py_error + (string, pydict) dict" where
  "get_replication_slots gc c pg_name can_advance_slots name tags role =
     bind_err (nofailover tags) (\<lambda>nofo.
     bind_err (get_members_slots gc c name role nofo can_advance_slots) (\<lambda>slots.
     bind_err (get_permanent_slots gc c pg_name can_advance_slots tags role) (\<lambda>permanent.
       Inr (fst (merge_permanent_slots c slots permanent name role can_advance_slots)))))"

definition has_permanent_slots ::
  "global_config \<Rightarrow> 'w cluster \<Rightarrow> string \<Rightarrow> bool \<Rightarrow> pydict \<Rightarrow> py_error + bool" where
  "has_permanent_slots gc c pg_name can_advance_slots tags =
     bind_err (nofailover tags) (\<lambda>nofo.
     bind_err (get_members_slots gc c pg_name REPLICA nofo can_advance_slots) (\<lambda>members_slots.
     bind_err (get_permanent_slots gc c pg_name can_advance_slots tags REPLICA) (\<lambda>permanent.
       let slots = fst (merge_permanent_slots c members_slots permanent pg_name REPLICA can_advance_slots)
       in Inr (length slots > length members_slots \<or> list_ex is_physical_slot (dict_values permanent)))))"

definition maybe_filter_permanent_slots ::
  "global_config \<Rightarrow> 'w cluster \<Rightarrow> string \<Rightarrow> bool \<Rightarrow> (string, int) dict \<Rightarrow> py_error + (string, int) dict" where
  "maybe_filter_permanent_slots gc c pg_name can_advance_slots slots =
     bind_err (member_slots_ttl gc) (\<lambda>ttl.
       if ttl > 0 then Inr slots
       else bind_err (get_permanent_slots gc c pg_name can_advance_slots [] REPLICA) (\<lambda>permanent.
         let members_slots = map (slot_name_from_member_name \<circ> m_name) (c_members c) in
         Inr (filter (\<lambda>(name, v). case dict_get permanent name of
                None \<Rightarrow> False
              | Some p \<Rightarrow> is_physical_slot p \<or> is_logical_slot p \<and> name \<notin> set members_slots) slots)))"

definition has_permanent_logical_slots ::
  "global_config \<Rightarrow> 'w cluster \<Rightarrow> string \<Rightarrow> bool \<Rightarrow> string \<Rightarrow> pydict \<Rightarrow> py_error + bool" where
  "has_permanent_logical_slots gc c pg_name can_advance_slots name tags =
     map_sum id (list_ex (\<lambda>v. pyget v ''type'' = PStr ''logical'') \<circ> dict_values)
       (get_replication_slots gc c pg_name can_advance_slots name tags REPLICA)"

section \<open>Feedback from cascading replicas\<close>

text \<open>
  \<open>should_enforce_hot_standby_feedback\<close> calls itself for the members that replicate from the node;
  \<open>None\<close> means that the given fuel did not suffice.
\<close>

fun any_returns :: "('a \<Rightarrow> (py_error + bool) option) \<Rightarrow> 'a list \<Rightarrow> (py_error + bool) option" where
  "any_returns f [] = Some (Inr False)"
| "any_returns f (x # xs) = (case f x of
     None \<Rightarrow> None
   | Some (Inl e) \<Rightarrow> Some (Inl e)
   | Some (Inr True) \<Rightarrow> Some (Inr True)
   | Some (Inr False) \<Rightarrow> any_returns f xs)"

primrec should_enforce_hot_standby_feedback ::
  "nat \<Rightarrow> global_config \<Rightarrow> 'w cluster \<Rightarrow> string \<Rightarrow> bool \<Rightarrow> string \<Rightarrow> pydict \<Rightarrow> (py_error + bool) option" where
  "should_enforce_hot_standby_feedback 0 gc c pg_name can_advance_slots name tags = None"
| "should_enforce_hot_standby_feedback (Suc fuel) gc c pg_name can_advance_slots name tags =
     (case has_permanent_logical_slots gc c pg_name can_advance_slots name tags of
        Inl e \<Rightarrow> Some (Inl e)
      | Inr True \<Rightarrow> Some (Inr True)
      | Inr False \<Rightarrow>
          if use_slots gc then
            (if \<not> str_bool (get_slot_name_on_primary c name tags) then Some (Inr False)
             else any_returns (\<lambda>m. should_enforce_hot_standby_feedback fuel gc c pg_name can_advance_slots
                                   (m_name m) (m_tags m))
                    (filter (\<lambda>m. replicatefrom (m_tags m) = Some name \<and> Some (m_name m) \<noteq> leader_name c)
                      (c_members c)))
          else Some (Inr False))"

lemma any_returns_Some: "(\<And>x. x \<in> set xs \<Longrightarrow> f x \<noteq> None) \<Longrightarrow> any_returns f xs \<noteq> None"
  by (induction xs) (auto split: option.splits sum.splits bool.splits)

text \<open>A path of members, each replicating from the next one.\<close>

fun linked :: "member list \<Rightarrow> bool" where
  "linked [] = True"
| "linked [m] = True"
| "linked (m # p # ms) = (replicatefrom (m_tags m) = Some (m_name p) \<and> m_name p \<noteq> [] \<and> linked (p # ms))"

lemma get_member_self:
  assumes "distinct (map m_name (c_members c))" "m \<in> set (c_members c)"
  shows "get_member c (m_name m) False = Some m"
proof -
  have "find (\<lambda>x. m_name x = m_name m) ms = Some m" if "distinct (map m_name ms)" "m \<in> set ms" for ms
    using that by (induction ms) auto
  then show ?thesis using assms by (simp add: get_member_def)
qed

lemma slot_walk:
  assumes "distinct (map m_name (c_members c))" "set (m # ms) \<subseteq> set (c_members c)" "linked (m # ms)"
    "distinct (map m_name (m # ms))" "slot_on_primary c seen (m_name m) (m_tags m) \<noteq> None"
  shows "\<exists>seen'. set seen \<union> m_name ` set (butlast (m # ms)) \<subseteq> set seen'
     \<and> slot_on_primary c seen' (m_name (last (m # ms))) (m_tags (last (m # ms))) \<noteq> None"
  using assms(2-)
proof (induction ms arbitrary: m seen)
  case Nil
  then show ?case by auto
next
  case (Cons p ms)
  have p: "get_member c (m_name p) False = Some p" using assms(1) Cons.prems(1) by (intro get_member_self) auto
  have "m_name m \<noteq> m_name p" using Cons.prems(3) by auto
  then have step: "slot_on_primary c (m_name m # seen) (m_name p) (m_tags p) \<noteq> None"
    using Cons.prems(2,4) p
    by (subst (asm) slot_on_primary.simps) (auto simp: Let_def split: if_splits)
  obtain seen' where "set (m_name m # seen) \<union> m_name ` set (butlast (p # ms)) \<subseteq> set seen'"
     "slot_on_primary c seen' (m_name (last (p # ms))) (m_tags (last (p # ms))) \<noteq> None"
    using Cons.IH [OF _ _ _ step] Cons.prems by auto
  then show ?case by (intro exI [of _ seen']) auto
qed

lemma linked_prefix: "linked (xs @ ys) \<Longrightarrow> linked xs"
  by (induction xs rule: linked.induct) auto

text \<open>A replica of a node whose slot on the primary is known is not upstream of that node.\<close>

lemma no_replication_cycle:
  assumes dist: "distinct (map m_name (c_members c))" and sub: "set (m # ms) \<subseteq> set (c_members c)"
    and lk: "linked (m # ms)" and d: "distinct (map m_name (m # ms))"
    and slot: "str_bool (get_slot_name_on_primary c (m_name m) (m_tags m))"
    and x: "x \<in> set (c_members c)" "replicatefrom (m_tags x) = Some (m_name m)" "m_name x \<noteq> m_name m"
    and nm: "m_name m \<noteq> []"
  shows "m_name x \<notin> m_name ` set (m # ms)"
proof
  assume "m_name x \<in> m_name ` set (m # ms)"
  then obtain p where p: "p \<in> set ms" "m_name p = m_name x" using x(3) by auto
  have "p \<in> set (c_members c)" using p sub by auto
  then have xp: "x = p" using dist x(1) p(2) by (metis get_member_self option.inject)
  obtain pre post where ms: "ms = pre @ p # post" using p(1) by (meson split_list)
  have path: "set (m # pre @ [p]) \<subseteq> set (c_members c)" "linked (m # pre @ [p])" "distinct (map m_name (m # pre @ [p]))"
    using sub d ms linked_prefix [of "m # pre @ [p]" post] lk by auto
  have ne: "slot_on_primary c [] (m_name m) (m_tags m) \<noteq> None"
    using slot by (simp add: get_slot_name_on_primary_def str_bool_def)
  obtain seen' where seen: "m_name ` set (butlast (m # pre @ [p])) \<subseteq> set seen'"
     "slot_on_primary c seen' (m_name p) (m_tags p) \<noteq> None"
    using slot_walk [OF dist path ne] by auto
  have "get_member c (m_name m) False = Some m" using dist sub by (intro get_member_self) auto
  then have "slot_on_primary c seen' (m_name p) (m_tags p) = None"
    using x(2,3) xp seen(1) nm by (subst slot_on_primary.simps) (auto simp: Let_def)
  then show False using seen(2) by simp
qed

lemma enforce_member_returns:
  assumes dist: "distinct (map m_name (c_members c))"
    and ok: "\<And>x. x \<in> set (c_members c) \<Longrightarrow> m_name x \<noteq> [] \<and> replicatefrom (m_tags x) \<noteq> Some (m_name x)"
    and path: "set (m # ms) \<subseteq> set (c_members c)" "linked (m # ms)" "distinct (map m_name (m # ms))"
    and fuel: "length (c_members c) < fuel + length (m # ms)"
  shows "should_enforce_hot_standby_feedback fuel gc c pg_name adv (m_name m) (m_tags m) \<noteq> None"
  using path fuel
proof (induction fuel arbitrary: m ms)
  case 0
  have "card (m_name ` set (m # ms)) = length (m # ms)"
    using 0(3) by (metis distinct_card length_map list.set_map)
  moreover have "card (m_name ` set (m # ms)) \<le> card (m_name ` set (c_members c))"
    using 0(1) by (intro card_mono) auto
  moreover have "card (m_name ` set (c_members c)) \<le> length (c_members c)"
    by (metis card_length length_map list.set_map)
  ultimately show ?case using 0(4) by simp
next
  case (Suc fuel)
  have "any_returns (\<lambda>m. should_enforce_hot_standby_feedback fuel gc c pg_name adv (m_name m) (m_tags m))
      (filter (\<lambda>x. replicatefrom (m_tags x) = Some (m_name m) \<and> Some (m_name x) \<noteq> leader_name c) (c_members c)) \<noteq> None"
    if slot: "str_bool (get_slot_name_on_primary c (m_name m) (m_tags m))"
  proof (rule any_returns_Some)
    fix x assume "x \<in> set (filter (\<lambda>x. replicatefrom (m_tags x) = Some (m_name m) \<and> Some (m_name x) \<noteq> leader_name c) (c_members c))"
    then have x: "x \<in> set (c_members c)" "replicatefrom (m_tags x) = Some (m_name m)" by auto
    have m: "m \<in> set (c_members c)" using Suc.prems(1) by simp
    have "m_name x \<noteq> m_name m" using ok [OF x(1)] x(2) by auto
    from no_replication_cycle [OF dist Suc.prems(1-3) slot x this] ok [OF m]
    have "distinct (map m_name (x # m # ms))" using Suc.prems(3) by auto
    then show "should_enforce_hot_standby_feedback fuel gc c pg_name adv (m_name x) (m_tags x) \<noteq> None"
      using Suc.prems x ok [OF m] by (intro Suc.IH [of x "m # ms"]) auto
  qed
  then show ?case by (simp split: sum.splits bool.splits)
qed

section \<open>Properties\<close>

text \<open>
  the recursion over cascading replicas ends. When member names are distinct and not empty
  and no member replicates from itself, \<open>should_enforce_hot_standby_feedback\<close> returns, with a
  recursion depth of at most two more than the number of members, whatever other cycles the
  \<^verbatim>\<open>replicatefrom\<close> tags form.
\<close>

theorem enforce_feedback_returns:
  assumes dist: "distinct (map m_name (c_members c))"
    and ok: "\<forall>x \<in> set (c_members c). m_name x \<noteq> [] \<and> replicatefrom (m_tags x) \<noteq> Some (m_name x)"
  shows "\<exists>r. should_enforce_hot_standby_feedback (Suc (Suc (length (c_members c)))) gc c pg_name adv name tags = Some r"
proof -
  have "should_enforce_hot_standby_feedback (Suc (length (c_members c))) gc c pg_name adv (m_name x) (m_tags x) \<noteq> None"
    if "x \<in> set (c_members c)" for x
    using enforce_member_returns [of c x "[]" "Suc (length (c_members c))" gc pg_name adv] dist ok that
    by (simp only: linked.simps) auto
  then have "any_returns (\<lambda>m. should_enforce_hot_standby_feedback (Suc (length (c_members c))) gc c pg_name adv (m_name m) (m_tags m))
      (filter (\<lambda>x. replicatefrom (m_tags x) = Some name \<and> Some (m_name x) \<noteq> leader_name c) (c_members c)) \<noteq> None"
    by (intro any_returns_Some) auto
  then show ?thesis
    by (subst should_enforce_hot_standby_feedback.simps(2)) (auto simp del: should_enforce_hot_standby_feedback.simps split: sum.splits bool.splits)
qed

definition demo_member :: "string \<Rightarrow> string \<Rightarrow> member" where
  "demo_member name from = Member (PInt 1) name PNone [(''tags'', PDict [(''replicatefrom'', PStr from)])]"

theorem enforce_feedback_returns_witness:
  "\<exists>r. should_enforce_hot_standby_feedback (Suc (Suc (Suc (Suc 0)))) [] (Cluster_empty\<lparr>c_members := [demo_member ''a'' ''b'', demo_member ''b'' ''a'']\<rparr> :: unit cluster)
         ''a'' True ''a'' [(''replicatefrom'', PStr ''b'')] = Some r"
proof -
  let ?c = "Cluster_empty\<lparr>c_members := [demo_member ''a'' ''b'', demo_member ''b'' ''a'']\<rparr> :: unit cluster"
  have "distinct (map m_name (c_members ?c))"
    "\<forall>x \<in> set (c_members ?c). m_name x \<noteq> [] \<and> replicatefrom (m_tags x) \<noteq> Some (m_name x)"
    by code_simp+
  from enforce_feedback_returns [OF this, of "[]" "''a''" True "''a''" "[(''replicatefrom'', PStr ''b'')]"]
  show ?thesis by (simp del: should_enforce_hot_standby_feedback.simps)
qed

text \<open>
  a member whose \<^verbatim>\<open>replicatefrom\<close> tag names the member itself makes
  \<open>should_enforce_hot_standby_feedback\<close> call itself forever, although
  \<open>get_slot_name_on_primary\<close> explicitly allows for such a tag: no amount of fuel is enough.
\<close>

theorem enforce_feedback_self_replication:
  "should_enforce_hot_standby_feedback fuel [] (Cluster_empty\<lparr>c_members := [demo_member ''a'' ''a'']\<rparr> :: unit cluster)
     ''a'' True ''a'' (m_tags (demo_member ''a'' ''a'')) = None"
proof (induction fuel)
  case (Suc fuel)
  let ?c = "Cluster_empty\<lparr>c_members := [demo_member ''a'' ''a'']\<rparr> :: unit cluster"
  have "has_permanent_logical_slots [] ?c ''a'' True ''a'' (m_tags (demo_member ''a'' ''a'')) = Inr False"
    "use_slots []" "str_bool (get_slot_name_on_primary ?c ''a'' (m_tags (demo_member ''a'' ''a'')))"
    "filter (\<lambda>m. replicatefrom (m_tags m) = Some ''a'' \<and> Some (m_name m) \<noteq> leader_name ?c) (c_members ?c)
       = [demo_member ''a'' ''a'']"
    "m_name (demo_member ''a'' ''a'') = ''a''"
    by code_simp+
  then show ?case using Suc by simp
qed simp

lemma mapM_Inr: "mapM f xs = Inr ys \<Longrightarrow> list_all2 (\<lambda>x y. f x = Inr y) xs ys"
proof (induction xs arbitrary: ys)
  case (Cons x xs)
  then show ?case by (auto simp: bind_err_def split: sum.splits)
qed simp

lemma mapM_keys:
  assumes "mapM f xs = Inr ys" "\<And>x y. f x = Inr y \<Longrightarrow> fst y = g x"
  shows "map fst ys = map g xs"
proof -
  have "list_all2 (\<lambda>x y. f x = Inr y) xs ys" using assms(1) by (rule mapM_Inr)
  then show ?thesis by (induction rule: list_all2_induct) (auto simp: assms(2))
qed

lemma dict_keys_update: "set (dict_keys (dict_update d e)) = set (dict_keys d) \<union> set (dict_keys e)"
proof -
  have "set (dict_keys (dict_update d e)) = dom (dict_get (dict_update d e))" by (simp add: dom_map_of_conv_image_fst)
  then show ?thesis by (auto simp: dict_get_update dom_map_of_conv_image_fst)
qed

lemma dict_keys_of: "set (dict_keys (dict_of ps)) = set (dict_keys ps)"
  unfolding dict_of_def dict_keys_update by simp

lemma member_slot_name: "member_slot ea slots old m = Inr y \<Longrightarrow> fst y = slot_name_from_member_name (m_name m)"
  by (auto simp: member_slot_def bind_err_def Let_def split: sum.splits if_splits)

text \<open>
  which physical slots a node keeps for the members. Every slot belongs to another member that
  streams, or is retained from the status key, never under the node's own slot name; and when
  slots of absent members are retained and the node may become the leader, every other streaming
  member has one.
\<close>

theorem members_slots_correct:
  assumes "get_members_slots gc c name role nofo adv = Inr slots"
  shows "dict_wf slots
    \<and> (\<forall>k \<in> set (dict_keys slots).
         (\<exists>m \<in> set (c_members c). m_name m \<noteq> name \<and> \<not> nostream (m_tags m) \<and> k = slot_name_from_member_name (m_name m))
         \<or> \<not> nofo \<and> k \<in> set (st_retain_slots (c_status c)) \<and> k \<noteq> slot_name_from_member_name name)
    \<and> (\<forall>t. use_slots gc \<longrightarrow> adv \<longrightarrow> member_slots_ttl gc = Inr t \<longrightarrow> 0 < t \<longrightarrow> \<not> nofo \<longrightarrow>
         (\<forall>m \<in> set (c_members c). m_name m \<noteq> name \<longrightarrow> \<not> nostream (m_tags m) \<longrightarrow>
            slot_name_from_member_name (m_name m) \<in> set (dict_keys slots)))"
proof (cases "use_slots gc")
  case False
  then show ?thesis using assms by (simp add: get_members_slots_def)
next
  case True
  define base where "base = filter (\<lambda>m. m_name m \<noteq> name \<and> \<not> nostream (m_tags m)) (c_members c)"
  define ea where "ea = (if role \<in> {PRIMARY, STANDBY_LEADER} then leader_filter c name else replica_filter c name)"
  obtain retain cs ms old where r: "(if adv then map_sum id (\<lambda>t. t > 0) (member_slots_ttl gc) else Inr False) = Inr retain"
    and ms: "mapM (member_slot ea cs old) (if retain then filter (\<lambda>m. \<not> nofo \<or> replicatefrom (m_tags m) = Some name) base
                       else filter ea base) = Inr ms"
    and slots: "slots = dict_update (dict_of ms) (map (\<lambda>s. (s, [(''type'', PStr ''physical'')]))
               (filter (\<lambda>s. \<not> nofo \<and> \<not> dict_has (dict_of ms) s \<and> s \<noteq> slot_name_from_member_name name) (st_retain_slots (c_status c))))"
    using assms True
    by (auto simp: get_members_slots_def Let_def bind_err_def base_def ea_def split: sum.splits if_splits)
  let ?mem = "if retain then filter (\<lambda>m. \<not> nofo \<or> replicatefrom (m_tags m) = Some name) base else filter ea base"
  have keys: "fst ` set ms = (\<lambda>m. slot_name_from_member_name (m_name m)) ` set ?mem"
    using arg_cong [where f = set, OF mapM_keys [OF ms member_slot_name]] unfolding set_map .
  have all: "set (dict_keys slots) = fst ` set ms \<union> {s \<in> set (st_retain_slots (c_status c)).
       \<not> nofo \<and> \<not> dict_has (dict_of ms) s \<and> s \<noteq> slot_name_from_member_name name}"
    unfolding slots dict_keys_update dict_keys_of by auto
  have kept: "base = ?mem"
    if "adv" "member_slots_ttl gc = Inr t" "0 < t" "\<not> nofo" for t using r that by auto
  have "dict_wf slots" unfolding slots by (simp add: dict_wf_update)
  moreover have "\<forall>k \<in> set (dict_keys slots).
         (\<exists>m \<in> set (c_members c). m_name m \<noteq> name \<and> \<not> nostream (m_tags m) \<and> k = slot_name_from_member_name (m_name m))
         \<or> \<not> nofo \<and> k \<in> set (st_retain_slots (c_status c)) \<and> k \<noteq> slot_name_from_member_name name"
    unfolding all keys by (auto simp: base_def split: if_splits)
  moreover have "slot_name_from_member_name (m_name m) \<in> set (dict_keys slots)"
    if "adv" "member_slots_ttl gc = Inr t" "0 < t" "\<not> nofo" "m \<in> set base" for t m
  proof -
    have "m \<in> set ?mem" by (rule subst [where P = "\<lambda>b. m \<in> set b", OF kept [OF that(1-4)] that(5)])
    then show ?thesis unfolding all keys by (intro UnI1 image_eqI [OF refl])
  qed
  ultimately show ?thesis by (auto simp: base_def)
qed

theorem members_slots_correct_witness:
  "\<exists>slots. get_members_slots [] (Cluster_empty\<lparr>c_members := [demo_member ''Node-B'' ''x'', demo_member ''a'' ''y'']\<rparr> :: unit cluster)
       ''a'' PRIMARY False True = Inr slots \<and> dict_wf slots"
proof -
  let ?c = "Cluster_empty\<lparr>c_members := [demo_member ''Node-B'' ''x'', demo_member ''a'' ''y'']\<rparr> :: unit cluster"
  have "get_members_slots [] ?c ''a'' PRIMARY False True =
     Inr [(''node_b'', [(''type'', PStr ''physical''), (''lsn'', PInt 0), (''expected_active'', PBool True)])]"
    by code_simp
  with members_slots_correct [of "[]" ?c "''a''" PRIMARY False True] show ?thesis by auto
qed

lemma merge_permanent_slot_keeps:
  assumes "merge_permanent_slot topology own role adv (k, v) (slots, dis) = (slots', dis')"
  shows "dict_get slots j = Some d \<Longrightarrow> dict_get slots' j = Some d"
    and "dict_get slots j = None \<Longrightarrow> dict_get slots' j = Some d \<Longrightarrow>
         slot_name_re j \<and> (pyget d ''type'' = PStr ''physical'' \<longrightarrow> j \<noteq> own) \<and> (pyget d ''type'' \<noteq> PStr ''physical'' \<longrightarrow> adv)"
  using assms unfolding merge_permanent_slot_def
  by (auto simp: Let_def dict_get_set dict_has_get pyget_def dict_get_default_def split: if_splits pyval.splits)

text \<open>What merging may add under a name that was free.\<close>

definition added_ok :: "string \<Rightarrow> bool \<Rightarrow> string \<Rightarrow> pydict \<Rightarrow> bool" where
  "added_ok own adv j d \<longleftrightarrow> slot_name_re j \<and> (pyget d ''type'' = PStr ''physical'' \<longrightarrow> j \<noteq> own)
     \<and> (pyget d ''type'' \<noteq> PStr ''physical'' \<longrightarrow> adv)"

lemma merge_fold_Some:
  assumes "fold (merge_permanent_slot topology own role adv) perm (slots, dis) = (slots', dis')"
    "dict_get slots j = Some d"
  shows "dict_get slots' j = Some d"
  using assms
proof (induction perm arbitrary: slots dis)
  case (Cons p perm)
  obtain k v where p: "p = (k, v)" by (cases p)
  obtain s1 d1 where step: "merge_permanent_slot topology own role adv (k, v) (slots, dis) = (s1, d1)"
    by (cases "merge_permanent_slot topology own role adv (k, v) (slots, dis)") auto
  then show ?case using Cons.IH [of s1 d1] Cons.prems p merge_permanent_slot_keeps(1) [OF step] by simp
qed simp

lemma merge_fold_keeps:
  assumes "fold (merge_permanent_slot topology own role adv) perm (slots, dis) = (slots', dis')"
  shows "(dict_get slots j = Some d \<longrightarrow> dict_get slots' j = Some d)
     \<and> (dict_get slots j = None \<longrightarrow> dict_get slots' j = Some d \<longrightarrow> added_ok own adv j d)"
  using assms
proof (induction perm arbitrary: slots dis)
  case (Cons p perm)
  obtain k v where p: "p = (k, v)" by (cases p)
  obtain s1 d1 where step: "merge_permanent_slot topology own role adv (k, v) (slots, dis) = (s1, d1)"
    by (cases "merge_permanent_slot topology own role adv (k, v) (slots, dis)") auto
  have IH: "(dict_get s1 j = Some d \<longrightarrow> dict_get slots' j = Some d)
     \<and> (dict_get s1 j = None \<longrightarrow> dict_get slots' j = Some d \<longrightarrow> added_ok own adv j d)"
    using Cons.IH Cons.prems p step by simp
  show ?case
  proof (cases "dict_get s1 j")
    case None
    then show ?thesis using IH merge_permanent_slot_keeps(1) [OF step, of j] by auto
  next
    case (Some e)
    have "dict_get slots' j = Some e" using Cons.prems p step Some
      merge_fold_Some [of topology own role adv perm s1 d1 slots' dis' j e] by simp
    then show ?thesis
      using IH merge_permanent_slot_keeps [OF step, of j] Some by (auto simp: added_ok_def)
  qed
qed simp

text \<open>
  merging the permanent slots of the global configuration never changes a slot of a member;
  what it adds has a valid name, is not a physical slot for the node itself, and is a logical
  slot only where PostgreSQL can advance slots.
\<close>

theorem merge_permanent_slots_correct:
  assumes "merge_permanent_slots c slots permanent name role adv = (slots', disabled)"
  shows "(dict_get slots j = Some d \<longrightarrow> dict_get slots' j = Some d)
    \<and> (dict_get slots j = None \<and> dict_get slots' j = Some d \<longrightarrow>
         slot_name_re j
         \<and> (pyget d ''type'' = PStr ''physical'' \<longrightarrow> j \<noteq> slot_name_from_member_name name)
         \<and> (pyget d ''type'' \<noteq> PStr ''physical'' \<longrightarrow> adv))"
  using merge_fold_keeps [of _ _ role adv permanent slots "[]" slots' disabled j d] assms
  by (fastforce simp: merge_permanent_slots_def added_ok_def Let_def)

theorem merge_permanent_slots_correct_witness:
  "merge_permanent_slots (Cluster_empty :: unit cluster) [(''b'', [(''type'', PStr ''physical'')])]
      [(''b'', PNone), (''a'', PNone), (''log'', PDict [(''database'', PStr ''db''), (''plugin'', PStr ''p'')])] ''A'' REPLICA False
     = ([(''b'', [(''type'', PStr ''physical'')])], [''log''])
   \<and> dict_get [(''b'', [(''type'', PStr ''physical'')])] ''b'' = Some [(''type'', PStr ''physical'')]"
proof
  show m: "merge_permanent_slots (Cluster_empty :: unit cluster) [(''b'', [(''type'', PStr ''physical'')])]
      [(''b'', PNone), (''a'', PNone), (''log'', PDict [(''database'', PStr ''db''), (''plugin'', PStr ''p'')])] ''A'' REPLICA False
     = ([(''b'', [(''type'', PStr ''physical'')])], [''log''])"
    by code_simp
  show "dict_get [(''b'', [(''type'', PStr ''physical'')])] ''b'' = Some [(''type'', PStr ''physical'')]"
    using merge_permanent_slots_correct [OF m, of "''b''" "[(''type'', PStr ''physical'')]"] by simp
qed

end
