(* ===== verification/DcsOps.thy ===== *)
theory DcsOps
  imports Slots
begin

text \<open>
  The operations of \<open>AbstractDCS\<close> in \<^verbatim>\<open>patroni/dcs/__init__.py\<close> that do not depend on the
  backend: key paths, the cached cluster view, the status and failsafe keys, retention of the slots
  of absent members, and the wrappers around the leader lock. What a backend method would return
  (whether a write was accepted) is an argument; what it is asked to write is part of the result.
  Time is exact.
\<close>

type_synonym time = rat

section \<open>State\<close>

record 'w dcs =
  d_name :: string
  d_base_path :: string
  d_mpp_group :: "int option"
  d_ttl :: int
  d_cluster :: "'w cluster option"
  d_cluster_valid_till :: time
  d_last_lsn :: pyval
  d_last_seen :: int
  d_last_status :: pydict
  d_last_retain_slots :: "(string, time) dict"
  d_last_failsafe :: "(string, string) dict option"

text \<open>\<^verbatim>\<open>re.sub('/+', '/', s)\<close>\<close>

fun squeeze_slashes :: "string \<Rightarrow> string" where
  "squeeze_slashes [] = []"
| "squeeze_slashes [c] = [c]"
| "squeeze_slashes (c # d # cs) =
     (if c = CHR ''/'' \<and> d = CHR ''/'' then squeeze_slashes (d # cs) else c # squeeze_slashes (d # cs))"

definition dcs_init :: "string \<Rightarrow> string \<Rightarrow> string \<Rightarrow> int option \<Rightarrow> int \<Rightarrow> 'w dcs" where
  "dcs_init name namespace scope grp ttl =
     \<lparr>d_name = name, d_base_path = squeeze_slashes (join ''/'' [[], namespace, scope]), d_mpp_group = grp,
      d_ttl = ttl, d_cluster = None, d_cluster_valid_till = 0, d_last_lsn = PInt 0, d_last_seen = 0,
      d_last_status = [(''retain_slots'', PList [])], d_last_retain_slots = [], d_last_failsafe = Some []\<rparr>"

definition client_path :: "'w dcs \<Rightarrow> string \<Rightarrow> string" where
  "client_path d path = join ''/'' ([d_base_path d]
     @ (case d_mpp_group d of None \<Rightarrow> [] | Some g \<Rightarrow> [show_int g])
     @ [dropWhile (\<lambda>c. c = CHR ''/'') path])"

definition member_path :: "'w dcs \<Rightarrow> string" where
  "member_path d = client_path d (''members/'' @ d_name d)"

definition leader_path :: "'w dcs \<Rightarrow> string" where
  "leader_path d = client_path d ''leader''"

definition sync_path :: "'w dcs \<Rightarrow> string" where
  "sync_path d = client_path d ''sync''"

section \<open>The cluster view\<close>

definition reset_cluster :: "'w dcs \<Rightarrow> 'w dcs" where
  "reset_cluster d = d\<lparr>d_cluster := None, d_cluster_valid_till := 0\<rparr>"

text \<open>\<open>loaded\<close> is what \<open>_load_cluster\<close> returned or raised.\<close>

definition get_cluster :: "time \<Rightarrow> 'e + 'w cluster \<Rightarrow> 'w dcs \<Rightarrow> ('e + 'w cluster) \<times> 'w dcs" where
  "get_cluster now loaded d = (case loaded of
     Inl e \<Rightarrow> (Inl e, reset_cluster d)
   | Inr c \<Rightarrow> (Inr c, d\<lparr>d_cluster := Some c, d_cluster_valid_till := now + of_int (d_ttl d),
       d_last_seen := \<lfloor>now\<rfloor>,
       d_last_status := [(''optime'', PInt (st_last_lsn (c_status c))),
                         (''retain_slots'', PList (map PStr (st_retain_slots (c_status c))))]
          @ (case st_slots (c_status c) of Some (s # ss) \<Rightarrow> [(''slots'', PDict (s # ss))] | _ \<Rightarrow> []),
       d_last_failsafe := c_failsafe c\<rparr>))"

definition cached_cluster :: "time \<Rightarrow> 'w dcs \<Rightarrow> 'w cluster option" where
  "cached_cluster now d = (if d_cluster_valid_till d > now then d_cluster d else None)"

section \<open>Status and failsafe keys\<close>

datatype dcs_write = WStatus pydict | WLeaderOptime string | WFailsafe "(string, string) dict"

definition status_value :: "pydict \<Rightarrow> pydict \<Rightarrow> pydict" where
  "status_value last_status val =
     filter (\<lambda>(k, v). v \<noteq> PNone)
       (fold (\<lambda>name val. if \<not> dict_has val name \<and> truthy (pyget last_status name)
                          then dict_set name (pyget last_status name) val else val)
         [''slots'', ''retain_slots''] val)"

text \<open>\<open>accepted\<close> says whether \<open>_write_status\<close> succeeds.\<close>

definition write_status :: "time \<Rightarrow> bool \<Rightarrow> pydict \<Rightarrow> 'w dcs \<Rightarrow> (py_error + dcs_write list) \<times> 'w dcs" where
  "write_status now accepted val d =
     (let val = status_value (d_last_status d) val;
          changed = \<not> deep_compare (d_last_status d) val;
          d1 = (if changed \<and> accepted then d\<lparr>d_last_status := val\<rparr> else d);
          writes = (if changed then [WStatus val] else [])
      in case (case cached_cluster now d1 of
                 None \<Rightarrow> None
               | Some c \<Rightarrow> if cluster_is_empty c then None else min_version c) of
           None \<Rightarrow> (Inr writes, d1)
         | Some v \<Rightarrow>
             if v < [2, 1, 0] then
               (case dict_get val ''optime'' of
                  None \<Rightarrow> (Inl KeyError, d1)
                | Some optime \<Rightarrow>
                    if d_last_lsn d1 \<noteq> optime
                    then (Inr (writes @ [WLeaderOptime (py_str optime)]), d1\<lparr>d_last_lsn := optime\<rparr>)
                    else (Inr writes, d1))
             else (Inr writes, d1))"

definition write_leader_optime :: "time \<Rightarrow> bool \<Rightarrow> int \<Rightarrow> 'w dcs \<Rightarrow> (py_error + dcs_write list) \<times> 'w dcs" where
  "write_leader_optime now accepted last_lsn d = write_status now accepted [(''optime'', PInt last_lsn)] d"

definition str_dict :: "(string, string) dict \<Rightarrow> pydict" where
  "str_dict e = map (\<lambda>(k, v). (k, PStr v)) e"

definition write_failsafe :: "bool \<Rightarrow> (string, string) dict \<Rightarrow> 'w dcs \<Rightarrow> dcs_write list \<times> 'w dcs" where
  "write_failsafe accepted val d =
     (if (case d_last_failsafe d of None \<Rightarrow> False | Some f \<Rightarrow> deep_compare (str_dict f) (str_dict val))
      then ([], d)
      else ([WFailsafe val], if accepted then d\<lparr>d_last_failsafe := Some val\<rparr> else d))"

section \<open>Retention of member slots\<close>

text \<open>
  The loop over the members: the slot names of streaming members, and the flag \<open>found_self\<close>, which
  every iteration assigns anew.
\<close>

definition retained_members :: "string \<Rightarrow> member list \<Rightarrow> string list \<times> bool" where
  "retained_members self ms = fold (\<lambda>m (members, found_self).
     ((if nostream (m_tags m) then members else members @ [slot_name_from_member_name (m_name m)]),
      m_name m = self)) ms ([], False)"

definition observed_slots ::
  "global_config \<Rightarrow> 'w cluster \<Rightarrow> string \<Rightarrow> (string, int) dict \<Rightarrow> py_error + string list" where
  "observed_slots gc c self slots =
     (case retained_members self (c_members c) of (members, found_self) \<Rightarrow>
        let members = (if found_self then members else members @ [slot_name_from_member_name self]) in
        map_sum id (\<lambda>permanent. filter (\<lambda>name. name \<in> set members \<and> \<not> dict_has permanent name) (dict_keys slots))
          (permanent_physical_slots gc c))"

definition build_retain_slots ::
  "global_config \<Rightarrow> time \<Rightarrow> 'w cluster \<Rightarrow> (string, int) dict option \<Rightarrow> 'w dcs
   \<Rightarrow> (py_error + string list option) \<times> 'w dcs" where
  "build_retain_slots gc timestamp c slots d =
     (case (case slots of
              None \<Rightarrow> Inr []
            | Some s \<Rightarrow> if s = [] then Inr [] else observed_slots gc c (d_name d) s) of
        Inl e \<Rightarrow> (Inl e, d)
      | Inr observed \<Rightarrow>
          (let retained = dict_update (d_last_retain_slots d) (map (\<lambda>n. (n, timestamp)) observed) in
           if retained = [] then (Inr None, d\<lparr>d_last_retain_slots := retained\<rparr>)
           else (case member_slots_ttl gc of
              Inl e \<Rightarrow> (Inl e, d\<lparr>d_last_retain_slots := retained\<rparr>)
            | Inr ttl \<Rightarrow>
                (let kept = filter (\<lambda>(n, v). \<not> v + of_int ttl \<le> timestamp) retained in
                 (Inr (if kept = [] then None else Some (sort (dict_keys kept))),
                  d\<lparr>d_last_retain_slots := kept\<rparr>)))))"

section \<open>The leader lock\<close>

text \<open>\<open>locked\<close> is the outcome of \<open>_update_leader\<close>.\<close>

definition update_leader ::
  "global_config \<Rightarrow> time \<Rightarrow> bool \<Rightarrow> bool \<Rightarrow> bool \<Rightarrow> 'w cluster \<Rightarrow> int option \<Rightarrow> (string, int) dict option
   \<Rightarrow> (string, string) dict option \<Rightarrow> 'w dcs \<Rightarrow> (py_error + bool \<times> dcs_write list) \<times> 'w dcs" where
  "update_leader gc now locked st_ok fs_ok c last_lsn slots failsafe d =
     (let status_step =
        (if locked \<and> int_or_0 last_lsn \<noteq> 0 then
           (case build_retain_slots gc now c slots d of
              (Inl e, d1) \<Rightarrow> (Inl e, d1)
            | (Inr retain, d1) \<Rightarrow>
                write_status now st_ok
                  [(''optime'', PInt (int_or_0 last_lsn)),
                   (''slots'', case slots of Some (s # ss) \<Rightarrow> PDict (map (\<lambda>(k, v). (k, PInt v)) (s # ss)) | _ \<Rightarrow> PNone),
                   (''retain_slots'', case retain of None \<Rightarrow> PNone | Some r \<Rightarrow> PList (map PStr r))] d1)
         else (Inr [], d))
      in case status_step of
           (Inl e, d1) \<Rightarrow> (Inl e, d1)
         | (Inr ws, d1) \<Rightarrow>
             (case failsafe of
                None \<Rightarrow> (Inr (locked, ws), d1)
              | Some f \<Rightarrow> if locked then (case write_failsafe fs_ok f d1 of (ws', d2) \<Rightarrow> (Inr (locked, ws @ ws'), d2))
                          else (Inr (locked, ws), d1)))"

definition acquire_leader_lock :: "time \<Rightarrow> bool \<Rightarrow> 'w dcs \<Rightarrow> (py_error + bool) \<times> 'w dcs" where
  "acquire_leader_lock now acquired d =
     (if acquired then
        (case dict_get (d_last_status d) ''retain_slots'' of
           Some (PList names) \<Rightarrow>
             (Inr True, d\<lparr>d_last_retain_slots := dict_of (map (\<lambda>n. (n, now)) (as_strs names))\<rparr>)
         | Some _ \<Rightarrow> (Inl TypeError, d)
         | None \<Rightarrow> (Inl KeyError, d))
      else (Inr False, d))"

definition delete_leader ::
  "time \<Rightarrow> bool \<Rightarrow> bool \<Rightarrow> leader option \<Rightarrow> int option \<Rightarrow> 'w dcs \<Rightarrow> (py_error + bool \<times> dcs_write list) \<times> 'w dcs" where
  "delete_leader now st_ok deleted ldr last_lsn d =
     (case (if int_or_0 last_lsn \<noteq> 0 then write_status now st_ok [(''optime'', PInt (int_or_0 last_lsn))] d
            else (Inr [], d)) of
        (Inl e, d1) \<Rightarrow> (Inl e, d1)
      | (Inr ws, d1) \<Rightarrow> (Inr (ldr \<noteq> None \<and> deleted, ws), d1))"

definition manual_failover_value :: "string option \<Rightarrow> string option \<Rightarrow> string option \<Rightarrow> pydict" where
  "manual_failover_value ldr candidate scheduled_at =
     (if str_bool ldr then [(''leader'', opt_str ldr)] else [])
     @ (if str_bool candidate then [(''member'', opt_str candidate)] else [])
     @ (case scheduled_at of None \<Rightarrow> [] | Some t \<Rightarrow> [(''scheduled_at'', PStr t)])"

text \<open>\<open>ret\<close> is the new version of the key, or \<open>None\<close> for the \<^verbatim>\<open>False\<close> of a failed write.\<close>

definition write_sync_state ::
  "(string \<Rightarrow> py_error + pyval) \<Rightarrow> string option \<Rightarrow> string list \<Rightarrow> int option \<Rightarrow> pyval option
   \<Rightarrow> py_error + sync_state option" where
  "write_sync_state loads ldr sync_standby quorum ret = (case ret of
     None \<Rightarrow> Inr None
   | Some version \<Rightarrow>
       map_sum id Some (SyncState_from_node loads version (PDict (sync_state_value ldr sync_standby quorum))))"

section \<open>Properties\<close>

lemma dict_get_timestamps: "dict_get (rev (map (\<lambda>n. (n, t)) ns)) k = (if k \<in> set ns then Some t else None)"
  by (induction ns) (auto simp: map_of_append map_add_def split: option.splits)

lemma filter_lookup:
  assumes "dict_wf d"
  shows "dict_get (filter (\<lambda>(n, v). P v) d) k
    = (case dict_get d k of Some v \<Rightarrow> if P v then Some v else None | None \<Rightarrow> None)"
  using assms by (induction d) (auto simp: dict_wf_def map_of_eq_None_iff split: option.splits)

text \<open>
  Rounds of the leader: the time, the view of the cluster and the slots it found. \<open>last_seen\<close> is the time of
  the last round in which a name was observed, or else the time it was recorded with before.
\<close>

type_synonym 'w retain_round = "time \<times> 'w cluster \<times> (string, int) dict option"

definition round_observed :: "global_config \<Rightarrow> string \<Rightarrow> 'w retain_round \<Rightarrow> string list" where
  "round_observed gc self r = (case r of (t, c, slots) \<Rightarrow>
     (case observed_slots gc c self (case slots of None \<Rightarrow> [] | Some s \<Rightarrow> s) of Inl _ \<Rightarrow> [] | Inr ns \<Rightarrow> ns))"

definition retain_rounds :: "global_config \<Rightarrow> 'w retain_round list \<Rightarrow> 'w dcs \<Rightarrow> 'w dcs" where
  "retain_rounds gc rs d = fold (\<lambda>(t, c, slots) d. snd (build_retain_slots gc t c slots d)) rs d"

definition last_seen :: "global_config \<Rightarrow> string \<Rightarrow> string \<Rightarrow> 'w retain_round list \<Rightarrow> time option \<Rightarrow> time option" where
  "last_seen gc self k rs v = fold (\<lambda>r v. if k \<in> set (round_observed gc self r) then Some (fst r) else v) rs v"

lemma observed_none: "permanent_physical_slots gc c = Inr p \<Longrightarrow> observed_slots gc c self [] = Inr []"
  by (simp add: observed_slots_def Let_def split: prod.split)

lemma observed_some:
  "permanent_physical_slots gc c = Inr p \<Longrightarrow> observed_slots gc c self s = Inr (round_observed gc self (t, c, Some s))"
  by (simp add: observed_slots_def round_observed_def Let_def split: prod.split)

lemma retain_slots_round:
  assumes wf: "dict_wf (d_last_retain_slots d)" and ttl: "member_slots_ttl gc = Inr ttl" "0 < ttl"
    and ok: "permanent_physical_slots gc c = Inr p" and run: "build_retain_slots gc t c slots d = (r, d')"
  shows "dict_wf (d_last_retain_slots d')" "d_name d' = d_name d"
    "dict_get (d_last_retain_slots d') k =
       (if k \<in> set (round_observed gc (d_name d) (t, c, slots)) then Some t
        else (case dict_get (d_last_retain_slots d) k of Some v \<Rightarrow> if t < v + of_int ttl then Some v else None | None \<Rightarrow> None))"
    "r = Inr (if d_last_retain_slots d' = [] then None else Some (sort (dict_keys (d_last_retain_slots d'))))"
proof -
  let ?obs = "round_observed gc (d_name d) (t, c, slots)"
  define retained where "retained = dict_update (d_last_retain_slots d) (map (\<lambda>n. (n, t)) ?obs)"
  define kept where "kept = filter (\<lambda>(n, v). \<not> v + of_int ttl \<le> t) retained"
  have wfr: "dict_wf retained" using wf by (simp add: retained_def dict_wf_update)
  have get: "dict_get retained k = (if k \<in> set ?obs then Some t else dict_get (d_last_retain_slots d) k)"
    by (simp add: retained_def dict_get_update dict_get_timestamps map_add_def)
  have "(case slots of None \<Rightarrow> Inr [] | Some s \<Rightarrow> if s = [] then Inr [] else observed_slots gc c (d_name d) s) = (Inr ?obs :: py_error + _)"
    using observed_none [OF ok] observed_some [OF ok, of "d_name d"] by (cases slots) (auto simp: round_observed_def)
  then have d': "d' = d\<lparr>d_last_retain_slots := kept\<rparr>" "r = Inr (if kept = [] then None else Some (sort (dict_keys kept)))"
    using run ttl by (auto simp: build_retain_slots_def Let_def kept_def retained_def split: if_splits)
  then show "dict_wf (d_last_retain_slots d')" "d_name d' = d_name d"
    "r = Inr (if d_last_retain_slots d' = [] then None else Some (sort (dict_keys (d_last_retain_slots d'))))"
    using wfr by (simp_all add: kept_def dict_wf_filter)
  show "dict_get (d_last_retain_slots d') k =
       (if k \<in> set ?obs then Some t
        else (case dict_get (d_last_retain_slots d) k of Some v \<Rightarrow> if t < v + of_int ttl then Some v else None | None \<Rightarrow> None))"
    using d'(1) ttl(2) filter_lookup [OF wfr, of "\<lambda>v. \<not> v + of_int ttl \<le> t" k]
    by (auto simp: kept_def get split: option.split)
qed

lemma retain_rounds_kept:
  assumes wf: "dict_wf (d_last_retain_slots d)" and ttl: "member_slots_ttl gc = Inr ttl" "0 < ttl"
    and "\<forall>(t, c, slots) \<in> set rs. \<exists>p. permanent_physical_slots gc c = Inr p" "sorted (map fst rs)"
  shows "dict_wf (d_last_retain_slots (retain_rounds gc rs d)) \<and> d_name (retain_rounds gc rs d) = d_name d
    \<and> (\<forall>k. dict_get (d_last_retain_slots (retain_rounds gc rs d)) k =
         (case last_seen gc (d_name d) k rs (dict_get (d_last_retain_slots d) k) of
            Some v \<Rightarrow> if rs = [] \<or> fst (last rs) < v + of_int ttl then Some v else None | None \<Rightarrow> None))"
  using assms(4,5)
proof (induction rs rule: rev_induct)
  case Nil
  then show ?case using wf by (simp add: retain_rounds_def last_seen_def split: option.split)
next
  case (snoc r rs)
  obtain t c slots where r: "r = (t, c, slots)" by (cases r)
  let ?d = "retain_rounds gc rs d"
  have IH: "dict_wf (d_last_retain_slots ?d)" "d_name ?d = d_name d"
    "dict_get (d_last_retain_slots ?d) k =
         (case last_seen gc (d_name d) k rs (dict_get (d_last_retain_slots d) k) of
            Some v \<Rightarrow> if rs = [] \<or> fst (last rs) < v + of_int ttl then Some v else None | None \<Rightarrow> None)" for k
    using snoc by (auto simp: sorted_append)
  obtain p where p: "permanent_physical_slots gc c = Inr p" using snoc.prems(1) r by auto
  have step: "retain_rounds gc (rs @ [r]) d = snd (build_retain_slots gc t c slots ?d)" by (simp add: retain_rounds_def r)
  obtain x d' where run: "build_retain_slots gc t c slots ?d = (x, d')" by fastforce
  note R = retain_slots_round [OF IH(1) ttl p run]
  have mono: "rs = [] \<or> fst (last rs) \<le> t" using snoc.prems(2) by (cases rs rule: rev_cases) (auto simp: sorted_append r)
  have "dict_get (d_last_retain_slots d') k =
         (case last_seen gc (d_name d) k (rs @ [r]) (dict_get (d_last_retain_slots d) k) of
            Some v \<Rightarrow> if t < v + of_int ttl then Some v else None | None \<Rightarrow> None)" for k
    unfolding R(3) IH(2,3) using mono ttl(2) by (auto simp: last_seen_def r split: option.split)
  then show ?case using R(1,2) IH(2) unfolding step run by (simp add: r split: option.split)
qed

text \<open>
  C27: slots of absent members are kept for exactly \<^verbatim>\<open>member_slots_ttl\<close> seconds since they were last observed. Consider rounds
  at increasing times, from any recorded times (\<open>acquire_leader_lock\<close> records the time at which it found a
  retained name in the status). After the last one, at time \<open>t\<close>, a name is recorded with the time of the last
  round in which it was observed, or else with the time it was recorded with at first, if less than
  \<^verbatim>\<open>member_slots_ttl\<close> seconds have passed since, and not at all otherwise; the published list is the recorded
  names, in order, and is absent when there is none.
\<close>

theorem retain_slots_correct:
  assumes wf: "dict_wf (d_last_retain_slots d)" and ttl: "member_slots_ttl gc = Inr ttl" "0 < ttl"
    and ok: "\<forall>(t, c, slots) \<in> set (rs @ [(t, c, slots)]). \<exists>p. permanent_physical_slots gc c = Inr p"
    and times: "sorted (map fst (rs @ [(t, c, slots)]))"
    and run: "build_retain_slots gc t c slots (retain_rounds gc rs d) = (r, d')"
  shows "dict_get (d_last_retain_slots d') k =
      (case last_seen gc (d_name d) k (rs @ [(t, c, slots)]) (dict_get (d_last_retain_slots d) k) of
         Some v \<Rightarrow> if t < v + of_int ttl then Some v else None
       | None \<Rightarrow> None)
    \<and> dict_wf (d_last_retain_slots d')
    \<and> r = Inr (if d_last_retain_slots d' = [] then None else Some (sort (dict_keys (d_last_retain_slots d'))))"
proof -
  have "retain_rounds gc (rs @ [(t, c, slots)]) d = d'" using run by (simp add: retain_rounds_def)
  then have all: "dict_wf (d_last_retain_slots d')" "dict_get (d_last_retain_slots d') k =
      (case last_seen gc (d_name d) k (rs @ [(t, c, slots)]) (dict_get (d_last_retain_slots d) k) of
         Some v \<Rightarrow> if t < v + of_int ttl then Some v else None | None \<Rightarrow> None)"
    using retain_rounds_kept [OF wf ttl ok times] by (simp_all split: option.splits)
  obtain p where p: "permanent_physical_slots gc c = Inr p" using ok by auto
  have pre: "dict_wf (d_last_retain_slots (retain_rounds gc rs d))"
    using retain_rounds_kept [OF wf ttl, of rs] ok times by (auto simp: sorted_append)
  show ?thesis using all retain_slots_round(4) [OF pre ttl p run] by blast
qed

definition demo_dcs :: "unit dcs" where
  "demo_dcs = (dcs_init ''a'' ''service'' ''demo'' None 30)\<lparr>d_last_retain_slots := [(''old'', 10), (''gone'', 1500)]\<rparr>"

theorem retain_slots_correct_witness:
  "dict_get (d_last_retain_slots (snd (build_retain_slots [] 1900 (Cluster_empty\<lparr>c_members := [demo_member ''a'' ''x'']\<rparr>)
     (Some [(''b'', 5)]) (retain_rounds [] [(1600, Cluster_empty\<lparr>c_members := [demo_member ''b'' ''x'', demo_member ''a'' ''x'']\<rparr>,
        Some [(''b'', 5)])] demo_dcs)))) ''b'' = Some 1600"
proof -
  let ?c = "Cluster_empty\<lparr>c_members := [demo_member ''a'' ''x'']\<rparr> :: unit cluster"
  let ?b = "Cluster_empty\<lparr>c_members := [demo_member ''b'' ''x'', demo_member ''a'' ''x'']\<rparr> :: unit cluster"
  let ?rs = "[(1600, ?b, Some [(''b'', 5)])] :: unit retain_round list"
  obtain r d' where run: "build_retain_slots [] 1900 ?c (Some [(''b'', 5)]) (retain_rounds [] ?rs demo_dcs) = (r, d')" by fastforce
  have e: "dict_wf (d_last_retain_slots demo_dcs)" "member_slots_ttl [] = Inr 1800"
    "permanent_physical_slots [] ?b = Inr []" "permanent_physical_slots [] ?c = Inr []"
    "last_seen [] (d_name demo_dcs) ''b'' (?rs @ [(1900, ?c, Some [(''b'', 5)])]) (dict_get (d_last_retain_slots demo_dcs) ''b'') = Some 1600"
    by code_simp+
  then have "dict_get (d_last_retain_slots d') ''b'' = Some 1600"
    using retain_slots_correct [OF e(1,2) _ _ _ run, of "''b''"] by simp
  then show ?thesis by (simp add: run)
qed

text \<open>
  the status key is written only when needed. \<open>write_status\<close> asks the backend for a write of
  the status exactly when the value differs from the last one known; an accepted write is
  remembered and compared with by the next call, and a refused write changes nothing.
\<close>

theorem write_status_once:
  assumes "write_status now accepted val d = (r, d')"
  shows "(deep_compare (d_last_status d) (status_value (d_last_status d) val) \<longrightarrow> d_last_status d' = d_last_status d)
    \<and> (\<not> deep_compare (d_last_status d) (status_value (d_last_status d) val) \<longrightarrow>
         d_last_status d' = (if accepted then status_value (d_last_status d) val else d_last_status d))
    \<and> (r = Inr ws \<longrightarrow> (\<forall>v. WStatus v \<in> set ws \<longleftrightarrow>
         \<not> deep_compare (d_last_status d) v \<and> v = status_value (d_last_status d) val))
    \<and> d_last_retain_slots d' = d_last_retain_slots d"
  using assms by (auto simp: write_status_def Let_def split: if_splits option.splits)

theorem write_status_once_witness:
  "\<exists>r d'. write_status 5 True [(''optime'', PInt 7)] demo_dcs = (r, d') \<and> d_last_status d' = [(''optime'', PInt 7)]"
proof -
  obtain r d' where run: "write_status 5 True [(''optime'', PInt 7)] demo_dcs = (r, d')" by fastforce
  have "status_value (d_last_status demo_dcs) [(''optime'', PInt 7)] = [(''optime'', PInt 7)]"
    "\<not> deep_compare (d_last_status demo_dcs) [(''optime'', PInt 7)]" by code_simp+
  with write_status_once [OF run, of "[]"] run show ?thesis by auto
qed

text \<open>
  taking the leader lock right after loading the cluster never fails on the retained slots:
  every slot listed in the status key gets the current time, so that a new leader keeps the slots
  of absent members for a full retention period.
\<close>

theorem acquire_after_load:
  assumes "get_cluster now (Inr c) d = (r, d1)" "acquire_leader_lock t True d1 = (r2, d2)"
  shows "r2 = Inr True \<and> (\<forall>k. dict_get (d_last_retain_slots d2) k =
           (if k \<in> set (st_retain_slots (c_status c)) then Some t else None))"
proof -
  have "as_strs (map PStr xs) = xs" for xs
    by (induction xs) (simp_all add: as_strs_def as_str_def List.map_filter_simps)
  then show ?thesis using assms
    by (auto simp: get_cluster_def acquire_leader_lock_def dict_get_of dict_get_timestamps)
qed

theorem acquire_after_load_witness:
  "\<exists>d1 d2 r. get_cluster 3 (Inr (Cluster_empty\<lparr>c_status := Status 9 None [''b'']\<rparr>)) demo_dcs = (r :: unit + unit cluster, d1)
     \<and> acquire_leader_lock 4 True d1 = (Inr True, d2) \<and> dict_get (d_last_retain_slots d2) ''b'' = Some 4"
proof -
  let ?c = "Cluster_empty\<lparr>c_status := Status 9 None [''b'']\<rparr> :: unit cluster"
  obtain r d1 where g: "get_cluster 3 (Inr ?c) demo_dcs = (r :: unit + unit cluster, d1)" by fastforce
  obtain r2 d2 where a: "acquire_leader_lock 4 True d1 = (r2, d2)" by fastforce
  show ?thesis using acquire_after_load [OF g a] g a by (auto simp: Status_def)
qed

text \<open>
  the flag \<open>found_self\<close> tells only whether the last member of the list is this node, so the
  node's own slot is treated as a member slot although the node is listed, with streaming disabled.
\<close>

theorem retained_members_last_wins:
  "retained_members self (ms @ [m]) = (fst (retained_members self (ms @ [m])), m_name m = self)
   \<and> observed_slots [] (Cluster_empty\<lparr>c_members := [Member (PInt 1) ''a'' PNone [(''tags'', PDict [(''nostream'', PBool True)])],
        demo_member ''b'' ''x'']\<rparr> :: unit cluster) ''a'' [(''a'', 1)] = Inr [''a'']"
proof
  show "retained_members self (ms @ [m]) = (fst (retained_members self (ms @ [m])), m_name m = self)"
    by (simp add: retained_members_def split_beta)
qed code_simp

end
