(* ===== verification/LeaderRace.thy ===== *)
theory LeaderRace
  imports DcsOps PgMisc "HOL-Library.Multiset"
begin

text \<open>
  The leader race of \<^verbatim>\<open>patroni/ha.py\<close>: the status of other nodes distilled from their REST API, the
  comparison of WAL positions and the count of quorum votes, the choice of failover candidates and
  the decision whether this node may take the leader lock. What the node learns from its database,
  its watchdog and the other nodes is a record of values and functions; the theorems hold whatever
  they are, in particular for every order in which answers arrive.
\<close>

section \<open>Comparing numbers of a JSON document\<close>

definition float_of :: "string \<Rightarrow> pyfloat" where
  "float_of r = (case strtod (PFloat r) of
     (Some (Fin x), _) \<Rightarrow> Fin x
   | _ \<Rightarrow> if r = ''nan'' then NaN else Inf (take 1 r = ''-''))"

definition num_of :: "pyval \<Rightarrow> pyfloat option" where
  "num_of v = (case v of
     PInt n \<Rightarrow> Some (Fin (of_int n))
   | PBool b \<Rightarrow> Some (Fin (if b then 1 else 0))
   | PFloat r \<Rightarrow> Some (float_of r)
   | _ \<Rightarrow> None)"

fun num_less :: "pyfloat \<Rightarrow> pyfloat \<Rightarrow> bool" where
  "num_less NaN y = False"
| "num_less x NaN = False"
| "num_less (Fin x) (Fin y) = (x < y)"
| "num_less (Fin x) (Inf neg) = (\<not> neg)"
| "num_less (Inf neg) (Fin y) = neg"
| "num_less (Inf neg) (Inf neg') = (neg \<and> \<not> neg')"

text \<open>\<^verbatim>\<open>x < y\<close>; lists, which compare element by element, end in the same exception where this is used.\<close>

definition py_less :: "pyval \<Rightarrow> pyval \<Rightarrow> py_error + bool" where
  "py_less x y = (case (num_of x, num_of y) of
     (Some a, Some b) \<Rightarrow> Inr (num_less a b)
   | _ \<Rightarrow> (case (x, y) of (PStr s, PStr t) \<Rightarrow> Inr (s < t) | _ \<Rightarrow> Inl TypeError))"

text \<open>\<^verbatim>\<open>max(x, y, ...)\<close>\<close>

fun py_max :: "pyval \<Rightarrow> pyval list \<Rightarrow> py_error + pyval" where
  "py_max x [] = Inr x"
| "py_max x (y # ys) = bind_err (py_less x y) (\<lambda>b. py_max (if b then y else x) ys)"

section \<open>Status of a member\<close>

record member_status =
  ms_member :: member
  ms_reachable :: bool
  ms_in_recovery :: "bool option"
  ms_wal_position :: int
  ms_data :: pydict

definition MemberStatus :: "member \<Rightarrow> bool \<Rightarrow> bool option \<Rightarrow> int \<Rightarrow> pydict \<Rightarrow> member_status" where
  "MemberStatus m r i w d = \<lparr>ms_member = m, ms_reachable = r, ms_in_recovery = i, ms_wal_position = w, ms_data = d\<rparr>"

definition wal_section :: "pydict \<Rightarrow> py_error + pyval" where
  "wal_section json =
     (if pyget json ''wal'' \<noteq> PNone then Inr (pyget json ''wal'')
      else if pyget json ''xlog'' \<noteq> PNone then Inr (pyget json ''xlog'')
      else if pyget json ''binlog'' \<noteq> PNone then Inr (pyget json ''binlog'')
      else Inl KeyError)"

text \<open>The position reported, and whether the answer is the one of a node in recovery.\<close>

definition reported_recovery :: "pydict \<Rightarrow> pydict \<Rightarrow> bool" where
  "reported_recovery json wal \<longleftrightarrow> \<not> (truthy (pyget wal ''location'') \<or> truthy (pyget wal ''binlog_position'')
     \<or> pyget json ''role'' \<in> {PStr (role_value MASTER), PStr (role_value PRIMARY)})"

definition reported_position :: "pydict \<Rightarrow> pydict \<Rightarrow> py_error + int" where
  "reported_position json wal = (let pos = (\<lambda>k. dict_get_default wal k (PInt 0)) in
     if reported_recovery json wal
     then bind_err (py_max (pos ''received_location'') [pos ''replayed_location'',
            pos ''receive_binlog_position'', pos ''replay_binlog_position'']) py_int
     else Inr 0)"

definition from_api_response :: "member \<Rightarrow> pydict \<Rightarrow> py_error + member_status" where
  "from_api_response m json =
     bind_err (wal_section json) (\<lambda>v. case v of
        PDict wal \<Rightarrow> bind_err (reported_position json wal) (\<lambda>lsn.
          Inr (MemberStatus m True (Some (reported_recovery json wal)) lsn json))
      | _ \<Rightarrow> Inl AttributeError)"

definition unknown :: "member \<Rightarrow> member_status" where
  "unknown m = MemberStatus m False None 0 []"

abbreviation ms_tags :: "member_status \<Rightarrow> pydict" where
  "ms_tags st \<equiv> as_dict (dict_get_default (ms_data st) ''tags'' (PDict []))"

definition ms_timeline :: "member_status \<Rightarrow> pyval" where
  "ms_timeline st = dict_get_default (ms_data st) ''timeline'' (PInt 0)"

definition watchdog_failed :: "member_status \<Rightarrow> bool" where
  "watchdog_failed st = truthy (dict_get_default (ms_data st) ''watchdog_failed'' (PBool False))"

definition failover_limitation :: "member_status \<Rightarrow> py_error + string option" where
  "failover_limitation st =
     (if \<not> ms_reachable st then Inr (Some ''not reachable'')
      else bind_err (nofailover (ms_tags st)) (\<lambda>nf.
        Inr (if nf then Some ''not allowed to promote''
             else if watchdog_failed st then Some ''not watchdog capable'' else None)))"

section \<open>The node and the state of the loop\<close>

text \<open>
  What this node reads during the race: from its database (\<open>state_handler\<close>), its configuration and
  its watchdog. \<open>n_replica_timeline\<close> is \<open>replica_cached_timeline\<close>, \<open>n_gtid_query\<close> the row of
  \<^verbatim>\<open>SELECT GTID_SUBSET(a, b), GTID_SUBSET(b, a)\<close> or \<open>None\<close> when there is none or the query fails,
  \<open>n_request\<close> the decoded answer of a member or \<open>None\<close> when the request or decoding fails, and
  \<open>n_completed\<close> the order in which the answers arrive.
\<close>

record node =
  n_name :: string
  n_tags :: pydict
  n_watchdog_healthy :: bool
  n_has_timelines :: bool
  n_replica_timeline :: "int \<Rightarrow> int option"
  n_primary_timeline :: "int option"
  n_last_operation :: int
  n_is_primary :: bool
  n_is_starting :: bool
  n_sysid :: string
  n_supports_multiple_sync :: bool
  n_db_type :: string
  n_parameters :: pydict
  n_executed_gtid :: string
  n_gtid_query :: "string \<Rightarrow> string \<Rightarrow> (int option \<times> int option) option"
  n_request :: "member \<Rightarrow> pyval option"
  n_completed :: "member_status list \<Rightarrow> member_status list"

text \<open>
  The state of \<open>Ha\<close> the race reads and changes. \<open>ha_shared\<close> says that \<open>old_cluster\<close> and \<open>cluster\<close>
  hold the same list object of members; \<open>ha_requests\<close> collects what is written to the failover key.
\<close>

record 'w ha =
  ha_cluster :: "'w cluster"
  ha_old_cluster :: "'w cluster"
  ha_shared :: bool
  ha_last_timeline :: "int option"
  ha_released_leader_key_timestamp :: time
  ha_ttl :: int
  ha_failsafe_key :: "(string, string) dict option"
  ha_requests :: "(pydict \<times> pyval) list"

section \<open>Modes\<close>

definition ha_is_quorum_commit_mode :: "global_config \<Rightarrow> node \<Rightarrow> bool" where
  "ha_is_quorum_commit_mode gc n \<longleftrightarrow> is_quorum_commit_mode gc \<and> n_supports_multiple_sync n"

definition sync_mode_is_active :: "global_config \<Rightarrow> 'w cluster \<Rightarrow> bool" where
  "sync_mode_is_active gc c \<longleftrightarrow> is_synchronous_mode gc \<and> \<not> sync_is_empty (c_sync c)"

definition quorum_commit_mode_is_active :: "global_config \<Rightarrow> node \<Rightarrow> 'w cluster \<Rightarrow> bool" where
  "quorum_commit_mode_is_active gc n c \<longleftrightarrow> ha_is_quorum_commit_mode gc n \<and> \<not> sync_is_empty (c_sync c)"

definition check_timeline :: "global_config \<Rightarrow> bool" where
  "check_timeline gc = check_mode gc ''check_timeline''"

definition is_failsafe_mode :: "global_config \<Rightarrow> bool" where
  "is_failsafe_mode gc = check_mode gc ''failsafe_mode''"

definition get_failover_action_name :: "'w cluster \<Rightarrow> string" where
  "get_failover_action_name c = (if \<not> failover_bool (c_failover c) then ''failover''
     else if (case c_failover c of Some f \<Rightarrow> str_bool (f_leader f) | None \<Rightarrow> False) then ''switchover''
     else ''manual failover'')"

section \<open>Asking the members\<close>

definition fetch_node_status :: "node \<Rightarrow> member \<Rightarrow> member_status" where
  "fetch_node_status n m = (case n_request n m of
     Some (PDict json) \<Rightarrow> (case from_api_response m json of Inr st \<Rightarrow> st | Inl _ \<Rightarrow> unknown m)
   | _ \<Rightarrow> unknown m)"

definition fetch_nodes_statuses :: "node \<Rightarrow> member list \<Rightarrow> member_status list" where
  "fetch_nodes_statuses n ms = (if ms = [] then [] else n_completed n (map (fetch_node_status n) ms))"

fun filterM :: "('a \<Rightarrow> 'e + bool) \<Rightarrow> 'a list \<Rightarrow> 'e + 'a list" where
  "filterM p [] = Inr []"
| "filterM p (x # xs) = bind_err (p x) (\<lambda>b. bind_err (filterM p xs) (\<lambda>ys. Inr (if b then x # ys else ys)))"

definition is_lagging :: "global_config \<Rightarrow> 'w cluster \<Rightarrow> int \<Rightarrow> py_error + bool" where
  "is_lagging gc c wal_position =
     map_sum id (\<lambda>m. st_last_lsn (c_status c) - wal_position > m) (maximum_lag_on_failover gc)"

section \<open>GTID sets of MySQL\<close>

datatype gtid_rel = GEqual | AAhead | BAhead | Incomparable

text \<open>\<^verbatim>\<open>' '.join(s.split())\<close>\<close>

fun words_of :: "string \<Rightarrow> string \<Rightarrow> string list" where
  "words_of w [] = (if w = [] then [] else [w])"
| "words_of w (c # cs) = (if is_space c then (if w = [] then [] else [w]) @ words_of [] cs else words_of (w @ [c]) cs)"

definition squeeze_spaces :: "string \<Rightarrow> string" where
  "squeeze_spaces s = join '' '' (words_of [] s)"

definition gtid_relation :: "node \<Rightarrow> string \<Rightarrow> string \<Rightarrow> gtid_rel" where
  "gtid_relation n gtid_a gtid_b =
     (let a = squeeze_spaces gtid_a; b = squeeze_spaces gtid_b in
      if a = [] \<or> b = [] then Incomparable
      else (case n_gtid_query n a b of
          None \<Rightarrow> Incomparable
        | Some (x, y) \<Rightarrow>
            (let a_sub_b = int_or_0 x \<noteq> 0; b_sub_a = int_or_0 y \<noteq> 0 in
             if a_sub_b \<and> b_sub_a then GEqual
             else if a_sub_b then BAhead else if b_sub_a then AAhead else Incomparable)))"

text \<open>The GTID set of this node when Group Replication is configured, and of a peer.\<close>

definition race_gtid :: "node \<Rightarrow> string" where
  "race_gtid n = (if n_db_type n = ''mysql'' \<and> truthy (pyget (n_parameters n) ''group_replication_group_name'')
     then n_executed_gtid n else [])"

definition peer_gtid :: "member_status \<Rightarrow> string" where
  "peer_gtid st = (let binlog = as_dict (pyget (ms_data st) ''binlog'') in
     py_str (py_or (pyget binlog ''gtid_set'') (py_or (pyget binlog ''gtid_executed'')
       (py_or (pyget (ms_data st) ''gtid_executed'')
         (py_or (pyget (m_data (ms_member st)) ''gtid_executed'') (PStr []))))))"

section \<open>The race\<close>

text \<open>
  The loop over the answers: the accumulator holds \<open>quorum_votes\<close> and \<open>nodes_ahead\<close>, and \<open>None\<close>
  stands for an early \<^verbatim>\<open>return False\<close>. First what follows when a node is ahead, and when it is not.
\<close>

definition peer_ahead :: "global_config \<Rightarrow> 'w cluster \<Rightarrow> member_status \<Rightarrow> int \<times> int \<Rightarrow> (int \<times> int) option" where
  "peer_ahead gc c st acc = (case acc of (votes, ahead) \<Rightarrow>
     if \<not> sync_mode_is_active gc c \<or> \<not> leader_matches (c_sync c) (Some (m_name (ms_member st)))
     then None else Some (votes, ahead + 1))"

definition peer_votes ::
  "global_config \<Rightarrow> node \<Rightarrow> 'w cluster \<Rightarrow> ciset \<Rightarrow> string option \<Rightarrow> bool \<Rightarrow> member_status \<Rightarrow> int \<times> int
   \<Rightarrow> py_error + (int \<times> int) option" where
  "peer_votes gc n c voting_set ldr equal st acc = (case acc of (votes, ahead) \<Rightarrow>
     (let name = m_name (ms_member st); quorum_vote = cis_contains name voting_set in
      bind_err (if equal then bind_err (failover_priority (n_tags n)) (\<lambda>mine.
                  bind_err (failover_priority (ms_tags st)) (\<lambda>theirs. Inr (mine < theirs)))
                else Inr False) (\<lambda>low_priority.
        let low_priority = (low_priority \<and> \<not> (str_bool ldr \<and> ldr = Some name)) in
        Inr (if low_priority \<and> (\<not> quorum_commit_mode_is_active gc n c \<or> quorum_vote) then None
             else Some (if quorum_vote then votes + 1 else votes, ahead)))))"

definition race_step ::
  "global_config \<Rightarrow> node \<Rightarrow> 'w cluster \<Rightarrow> ciset \<Rightarrow> string option \<Rightarrow> member_status \<Rightarrow> int \<times> int
   \<Rightarrow> py_error + (int \<times> int) option" where
  "race_step gc n c voting_set ldr st acc =
     bind_err (failover_limitation st) (\<lambda>limitation.
       if limitation \<noteq> None then Inr (Some acc)
       else if ms_in_recovery st = Some False then Inr None
       else
         (let peer = (if race_gtid n \<noteq> [] then peer_gtid st else []) in
          case (if peer \<noteq> [] then gtid_relation n (race_gtid n) peer else Incomparable) of
            BAhead \<Rightarrow> Inr (peer_ahead gc c st acc)
          | AAhead \<Rightarrow> peer_votes gc n c voting_set ldr False st acc
          | GEqual \<Rightarrow> peer_votes gc n c voting_set ldr True st acc
          | Incomparable \<Rightarrow>
              if n_last_operation n < ms_wal_position st then Inr (peer_ahead gc c st acc)
              else if ms_wal_position st > 0
                then peer_votes gc n c voting_set ldr (n_last_operation n = ms_wal_position st) st acc
              else Inr (Some acc)))"

fun race_loop ::
  "(member_status \<Rightarrow> int \<times> int \<Rightarrow> py_error + (int \<times> int) option) \<Rightarrow> member_status list \<Rightarrow> int \<times> int
   \<Rightarrow> py_error + (int \<times> int) option" where
  "race_loop step [] acc = Inr (Some acc)"
| "race_loop step (st # sts) acc =
     bind_err (step st acc) (\<lambda>r. case r of None \<Rightarrow> Inr None | Some acc' \<Rightarrow> race_loop step sts acc')"

text \<open>The members asked: not this node, reachable by the API, and promotable or voters.\<close>

definition race_voting_set :: "global_config \<Rightarrow> node \<Rightarrow> 'w cluster \<Rightarrow> ciset" where
  "race_voting_set gc n c = (if quorum_commit_mode_is_active gc n c then cis_of (sync_members (c_sync c)) else cis_of [])"

definition race_members :: "global_config \<Rightarrow> node \<Rightarrow> 'w cluster \<Rightarrow> member list \<Rightarrow> py_error + member list" where
  "race_members gc n c members = filterM (\<lambda>m.
     if m_name m \<noteq> n_name n \<and> str_bool (api_url m)
     then map_sum id (\<lambda>nf. \<not> nf \<or> cis_contains (m_name m) (race_voting_set gc n c)) (nofailover (m_tags m))
     else Inr False) members"

definition race_timeline_ok :: "global_config \<Rightarrow> node \<Rightarrow> 'w cluster \<Rightarrow> bool" where
  "race_timeline_ok gc n c =
     (n_has_timelines n \<and> \<not> is_standby_cluster gc \<and> check_timeline gc \<longrightarrow>
        (case n_replica_timeline n (cluster_timeline c) of None \<Rightarrow> False | Some t \<Rightarrow> \<not> t < cluster_timeline c))"

definition race_verdict :: "global_config \<Rightarrow> node \<Rightarrow> 'w cluster \<Rightarrow> int \<times> int \<Rightarrow> bool" where
  "race_verdict gc n c acc = (case acc of (votes, ahead) \<Rightarrow>
     \<not> quorum_commit_mode_is_active gc n c \<or> votes \<ge> s_quorum (c_sync c)
     \<or> ahead = 0 \<and> s_leader (c_sync c) = Some (n_name n))"

text \<open>\<open>Ha._is_healthiest_node\<close>, with the timeline it remembers.\<close>

definition note_timeline :: "node \<Rightarrow> 'w ha \<Rightarrow> 'w ha" where
  "note_timeline n h = (case n_replica_timeline n (cluster_timeline (ha_cluster h)) of
     None \<Rightarrow> h | Some t \<Rightarrow> if t \<noteq> 0 then h\<lparr>ha_last_timeline := Some t\<rparr> else h)"

text \<open>The former leader, whose priority is ignored, and the vote of this node for itself.\<close>

definition race_leader :: "global_config \<Rightarrow> 'w cluster \<Rightarrow> leader option \<Rightarrow> string option" where
  "race_leader gc c ldr = (if sync_mode_is_active gc c then s_leader (c_sync c) else map_option l_name ldr)"

definition own_vote :: "global_config \<Rightarrow> node \<Rightarrow> 'w cluster \<Rightarrow> int" where
  "own_vote gc n c = (if cis_contains (n_name n) (race_voting_set gc n c) then 0 else - 1)"

definition is_healthiest_among ::
  "global_config \<Rightarrow> node \<Rightarrow> 'w cluster \<Rightarrow> member list \<Rightarrow> bool \<Rightarrow> leader option \<Rightarrow> py_error + bool" where
  "is_healthiest_among gc n c members check_replication_lag ldr =
     bind_err (if check_replication_lag then is_lagging gc c (n_last_operation n) else Inr False) (\<lambda>lagging.
       if lagging \<or> \<not> race_timeline_ok gc n c then Inr False
       else bind_err (race_members gc n c members) (\<lambda>ms.
         bind_err (race_loop (race_step gc n c (race_voting_set gc n c) (race_leader gc c ldr))
                     (fetch_nodes_statuses n ms) (own_vote gc n c, 0))
           (\<lambda>r. Inr (case r of None \<Rightarrow> False | Some acc \<Rightarrow> race_verdict gc n c acc))))"

section \<open>Failover candidates\<close>

definition is_eligible :: "global_config \<Rightarrow> node \<Rightarrow> 'w cluster \<Rightarrow> bool \<Rightarrow> member \<Rightarrow> py_error + bool" where
  "is_eligible gc n c exclude_failover_candidate m =
     (let fo = (if failover_bool (c_failover c) then c_failover c else None);
          candidate = (case fo of None \<Rightarrow> None | Some f \<Rightarrow> f_candidate f);
          exclude = Some (n_name n) # (if fo \<noteq> None \<and> exclude_failover_candidate then [candidate] else [])
      in if sync_mode_is_active gc c \<and> \<not> sync_matches (c_sync c) (Some (m_name m)) False
            \<and> \<not> (case fo of None \<Rightarrow> False | Some f \<Rightarrow> \<not> str_bool (f_leader f))
         then Inr False
         else if Some (m_name m) \<in> set exclude then Inr False
         else bind_err (nofailover (m_tags m)) (\<lambda>nf.
           Inr (\<not> nf \<and> str_bool (api_url m)
                \<and> (exclude_failover_candidate \<or> \<not> str_bool candidate \<or> candidate = Some (m_name m)))))"

definition get_failover_candidates :: "global_config \<Rightarrow> node \<Rightarrow> 'w cluster \<Rightarrow> bool \<Rightarrow> py_error + member list" where
  "get_failover_candidates gc n c exclude_failover_candidate =
     filterM (is_eligible gc n c exclude_failover_candidate) (c_members c)"

text \<open>Whether a candidate is healthy enough.\<close>

definition candidate_ok :: "global_config \<Rightarrow> 'w cluster \<Rightarrow> int \<Rightarrow> member_status \<Rightarrow> py_error + bool" where
  "candidate_ok gc c cluster_lsn st =
     bind_err (failover_limitation st) (\<lambda>limitation.
       if limitation \<noteq> None then Inr False
       else bind_err (if cluster_lsn \<noteq> 0 then Inr (ms_wal_position st < cluster_lsn)
                      else is_lagging gc c (ms_wal_position st)) (\<lambda>lagging.
         if lagging then Inr False
         else if \<not> check_timeline gc then Inr True
         else if \<not> truthy (ms_timeline st) then Inr False
         else map_sum id (\<lambda>behind. \<not> behind) (py_less (ms_timeline st) (PInt (cluster_timeline c)))))"

definition is_failover_possible :: "global_config \<Rightarrow> node \<Rightarrow> 'w cluster \<Rightarrow> int \<Rightarrow> bool \<Rightarrow> py_error + bool" where
  "is_failover_possible gc n c cluster_lsn exclude_failover_candidate =
     bind_err (get_failover_candidates gc n c exclude_failover_candidate) (\<lambda>candidates.
     bind_err (filterM (candidate_ok gc c cluster_lsn) (fetch_nodes_statuses n candidates)) (\<lambda>healthy.
       let quorum_votes = int (length healthy) - 1;
           check_quorum = (quorum_commit_mode_is_active gc n c
             \<and> \<not> (failover_bool (c_failover c)
                   \<and> (case c_failover c of None \<Rightarrow> False | Some f \<Rightarrow> str_bool (f_candidate f))
                   \<and> \<not> exclude_failover_candidate))
       in Inr (\<not> (check_quorum \<and> quorum_votes < s_quorum (c_sync c)) \<and> quorum_votes \<ge> 0)))"

section \<open>Manual failover without a leader\<close>

text \<open>
  \<open>Ha.manual_failover_process_no_leader\<close> for a failover key \<open>f\<close>. The inner \<open>None\<close> means that a stale
  key was removed; the request to do so is recorded. First the common end of the function: this
  node races against the other candidates.
\<close>

definition race_without ::
  "global_config \<Rightarrow> node \<Rightarrow> string option \<Rightarrow> 'w ha \<Rightarrow> (py_error + bool option) \<times> 'w ha" where
  "race_without gc n former h =
     (let c = ha_cluster h;
          members = filter (\<lambda>m. Some (m_name m) \<noteq> former
             \<and> (\<not> sync_mode_is_active gc c \<or> sync_matches (c_sync c) (Some (m_name m)) False)) (c_members c)
      in (map_sum id Some (is_healthiest_among gc n c members False None), note_timeline n h))"

definition failover_among_rest ::
  "global_config \<Rightarrow> node \<Rightarrow> failover \<Rightarrow> 'w ha \<Rightarrow> (py_error + bool option) \<times> 'w ha" where
  "failover_among_rest gc n f h =
     (if str_bool (f_leader f) \<and> Some (n_name n) = f_leader f
      then (map_sum id (\<lambda>possible. Some (\<not> possible))
              (is_failover_possible gc n (ha_cluster h) 0 (str_bool (f_candidate f))), h)
      else race_without gc n (f_leader f) h)"

definition manual_failover_process_no_leader ::
  "global_config \<Rightarrow> node \<Rightarrow> failover \<Rightarrow> 'w ha \<Rightarrow> (py_error + bool option) \<times> 'w ha" where
  "manual_failover_process_no_leader gc n f h =
     (let c = ha_cluster h; name = n_name n in
      if str_bool (f_candidate f) then
        (let candidate = str_or_empty (f_candidate f) in
         if candidate = name then (Inr (Some True), h)
         else if is_paused gc then
           (if get_member c candidate False = None \<and> n_is_primary n
            then (Inr None, h\<lparr>ha_requests := ha_requests h @ [(manual_failover_value (Some []) (Some []) None, f_version f)]\<rparr>)
            else (Inr (Some False), h))
         else if is_synchronous_mode gc \<and> \<not> ha_is_quorum_commit_mode gc n
              \<and> \<not> sync_matches (c_sync c) (Some name) True
           then (Inr (Some False), h)
         else (case get_member c candidate False of
             None \<Rightarrow> failover_among_rest gc n f h
           | Some m \<Rightarrow> (case failover_limitation (fetch_node_status n m) of
                 Inl e \<Rightarrow> (Inl e, h)
               | Inr None \<Rightarrow> (Inr (Some False), h)
               | Inr (Some _) \<Rightarrow> failover_among_rest gc n f h)))
      else if is_paused gc then (Inr (Some False), h)
      else failover_among_rest gc n f h)"

section \<open>The decision\<close>

text \<open>
  The members that take part. The expression \<open>all_known_members += ...\<close> extends the list of members
  of \<open>old_cluster\<close> in place, so the state changes with it, and with it the one of \<open>cluster\<close> when the two
  share the list. \<open>None\<close> means that this node is missing in the failsafe key.
\<close>

definition failsafe_members :: "global_config \<Rightarrow> node \<Rightarrow> 'w ha \<Rightarrow> member list option" where
  "failsafe_members gc n h = (case (if is_failsafe_mode gc then ha_failsafe_key h else None) of
     None \<Rightarrow> Some []
   | Some fs \<Rightarrow> if fs \<noteq> [] \<and> \<not> dict_has fs (n_name n) then None
       else Some (map (\<lambda>(name, url). RemoteMember name [(''api_url'', PStr url)]) fs))"

definition extend_members :: "member list \<Rightarrow> 'w ha \<Rightarrow> 'w ha" where
  "extend_members ms h =
     (let h1 = h\<lparr>ha_old_cluster := (ha_old_cluster h)\<lparr>c_members := c_members (ha_old_cluster h) @ ms\<rparr>\<rparr>
      in if ha_shared h then h1\<lparr>ha_cluster := (ha_cluster h)\<lparr>c_members := c_members (ha_cluster h) @ ms\<rparr>\<rparr> else h1)"

definition all_known_members :: "global_config \<Rightarrow> node \<Rightarrow> 'w ha \<Rightarrow> 'w ha option" where
  "all_known_members gc n h = (case failsafe_members gc n h of
     None \<Rightarrow> None
   | Some fs \<Rightarrow> (let h1 = extend_members fs h in Some (extend_members (c_members (ha_cluster h1)) h1)))"

definition leader_race :: "global_config \<Rightarrow> node \<Rightarrow> 'w ha \<Rightarrow> (py_error + bool) \<times> 'w ha" where
  "leader_race gc n h = (case all_known_members gc n h of
     None \<Rightarrow> (Inr False, h)
   | Some h1 \<Rightarrow>
       (let c = ha_cluster h1; known = c_members (ha_old_cluster h1);
            by_name = (\<lambda>ms. dict_values (dict_of (map (\<lambda>m. (m_name m, m)) ms)))
        in if sync_mode_is_active gc c then
             (if \<not> ha_is_quorum_commit_mode gc n \<and> \<not> sync_matches (c_sync c) (Some (n_name n)) True
              then (Inr False, h1)
              else (is_healthiest_among gc n c
                      (by_name (filter (\<lambda>m. sync_matches (c_sync c) (Some (m_name m)) True) known)) True
                      (c_leader (ha_old_cluster h1)), note_timeline n h1))
           else (is_healthiest_among gc n c (by_name known) True (c_leader (ha_old_cluster h1)), note_timeline n h1)))"

definition healthy_primary :: "global_config \<Rightarrow> node \<Rightarrow> 'w cluster \<Rightarrow> bool" where
  "healthy_primary gc n c =
     (if is_paused gc then \<not> str_bool (c_initialize c) \<or> c_initialize c = Some (n_sysid n)
      else (n_has_timelines n \<longrightarrow> (case n_primary_timeline n of None \<Rightarrow> False | Some t \<Rightarrow> \<not> t < cluster_timeline c)))"

definition healthiest_replica :: "global_config \<Rightarrow> node \<Rightarrow> 'w ha \<Rightarrow> (py_error + bool) \<times> 'w ha" where
  "healthiest_replica gc n h = (let c = ha_cluster h in
     if is_paused gc then (Inr False, h)
     else (case nofailover (n_tags n) of
         Inl e \<Rightarrow> (Inl e, h)
       | Inr True \<Rightarrow> (Inr False, h)
       | Inr False \<Rightarrow>
           (case (if failover_bool (c_failover c) then c_failover c else None) of
              Some f \<Rightarrow>
                if str_bool (f_leader f) \<and> sync_mode_is_active gc c \<and> \<not> sync_matches (c_sync c) (Some (n_name n)) True
                then (Inr False, h)
                else (case manual_failover_process_no_leader gc n f h of
                    (r, h1) \<Rightarrow> (map_sum id (\<lambda>b. b = Some True) r, h1))
            | None \<Rightarrow> if \<not> n_watchdog_healthy n then (Inr False, h) else leader_race gc n h)))"

definition is_healthiest_node :: "global_config \<Rightarrow> time \<Rightarrow> node \<Rightarrow> 'w ha \<Rightarrow> (py_error + bool) \<times> 'w ha" where
  "is_healthiest_node gc now n h =
     (if now - ha_released_leader_key_timestamp h < of_int (ha_ttl h) then (Inr False, h)
      else
        (let rest = (\<lambda>h1. if n_is_starting n then (Inr False, h1)
                          else if n_is_primary n then (Inr (healthy_primary gc n (ha_cluster h1)), h1)
                          else healthiest_replica gc n h1)
         in if \<not> is_paused gc then rest h
            else (case nofailover (n_tags n) of
                Inl e \<Rightarrow> (Inl e, h)
              | Inr nf \<Rightarrow>
                  (case (if failover_bool (c_failover (ha_cluster h)) then c_failover (ha_cluster h) else None) of
                     Some f \<Rightarrow>
                       if nf \<or> f_scheduled_at f \<noteq> None then rest h
                       else (case manual_failover_process_no_leader gc n f h of
                           (Inl e, h1) \<Rightarrow> (Inl e, h1)
                         | (Inr (Some b), h1) \<Rightarrow> (Inr b, h1)
                         | (Inr None, h1) \<Rightarrow> rest h1)
                   | None \<Rightarrow> rest h))))"

text \<open>A node \<open>a\<close> at position 100 whose peers answer that they are replicas at position 90.\<close>

definition demo_peer :: "string \<Rightarrow> member" where
  "demo_peer name = Member (PInt 1) name PNone [(''api_url'', PStr ''http'')]"

definition demo_node :: node where
  "demo_node = \<lparr>n_name = ''a'', n_tags = [], n_watchdog_healthy = True, n_has_timelines = True,
     n_replica_timeline = (\<lambda>t. Some 1), n_primary_timeline = None, n_last_operation = 100, n_is_primary = False,
     n_is_starting = False, n_sysid = ''1'', n_supports_multiple_sync = True, n_db_type = ''postgresql'',
     n_parameters = [], n_executed_gtid = [], n_gtid_query = (\<lambda>a b. None),
     n_request = (\<lambda>m. Some (PDict [(''role'', PStr ''replica''), (''wal'', PDict [(''received_location'', PInt 90)])])),
     n_completed = (\<lambda>sts. sts)\<rparr>"

definition demo_ha :: "unit ha" where
  "demo_ha = \<lparr>ha_cluster = Cluster_empty\<lparr>c_members := [demo_peer ''b'', demo_peer ''c'']\<rparr>,
     ha_old_cluster = Cluster_empty\<lparr>c_members := [demo_peer ''b'']\<rparr>, ha_shared = False, ha_last_timeline = None,
     ha_released_leader_key_timestamp = 0, ha_ttl = 30, ha_failsafe_key = None, ha_requests = []\<rparr>"

section \<open>The loop as a sum of votes\<close>

lemma bind_err_simps [simp]: "bind_err (Inl e) f = Inl e" "bind_err (Inr x) f = f x"
  by (simp_all add: bind_err_def)

lemma bind_err_Inr: "bind_err r f = Inr y \<longleftrightarrow> (\<exists>x. r = Inr x \<and> f x = Inr y)"
  by (cases r) simp_all

lemma bind_err_cong_map: "map_sum id g (bind_err r f) = bind_err r (\<lambda>x. map_sum id g (f x))"
  by (cases r) simp_all

text \<open>What one answer adds to votes and to nodes ahead does not depend on the answers before it.\<close>

abbreviation plus2 :: "int \<times> int \<Rightarrow> int \<times> int \<Rightarrow> int \<times> int" where
  "plus2 a b \<equiv> (fst a + fst b, snd a + snd b)"

definition additive_step :: "(member_status \<Rightarrow> int \<times> int \<Rightarrow> py_error + (int \<times> int) option) \<Rightarrow> bool" where
  "additive_step step \<longleftrightarrow> (\<forall>st acc. step st acc = map_sum id (map_option (plus2 acc)) (step st (0, 0)))"

lemma additive_stepD: "additive_step step \<Longrightarrow> step st acc = map_sum id (map_option (plus2 acc)) (step st (0, 0))"
  unfolding additive_step_def by blast

lemma peer_ahead_additive: "peer_ahead gc c st acc = map_option (plus2 acc) (peer_ahead gc c st (0, 0))"
  by (cases acc) (simp add: peer_ahead_def)

lemma peer_votes_additive:
  "peer_votes gc n c vs ldr eq st acc = map_sum id (map_option (plus2 acc)) (peer_votes gc n c vs ldr eq st (0, 0))"
  by (cases acc) (auto simp: peer_votes_def Let_def bind_err_cong_map intro!: arg_cong2 [where f = bind_err])

lemma race_step_additive: "additive_step (race_step gc n c vs ldr)"
proof (unfold additive_step_def, intro allI)
  fix st acc
  note peer_ahead_additive [of gc c st acc] peer_votes_additive [of gc n c vs ldr _ st acc]
  then show "race_step gc n c vs ldr st acc = map_sum id (map_option (plus2 acc)) (race_step gc n c vs ldr st (0, 0))"
    by (auto simp: race_step_def Let_def bind_err_cong_map split: gtid_rel.splits intro!: arg_cong2 [where f = bind_err])
qed

text \<open>The contribution of an answer that neither raises nor ends the loop.\<close>

definition contribution :: "(member_status \<Rightarrow> int \<times> int \<Rightarrow> py_error + (int \<times> int) option) \<Rightarrow> member_status \<Rightarrow> int \<times> int" where
  "contribution step st = (case step st (0, 0) of Inr (Some d) \<Rightarrow> d | _ \<Rightarrow> (0, 0))"

lemma race_loop_Some:
  assumes "additive_step step"
  shows "race_loop step sts acc = Inr (Some acc') \<longleftrightarrow>
    (\<forall>st \<in> set sts. \<exists>d. step st (0, 0) = Inr (Some d))
    \<and> acc' = plus2 acc (sum_list (map (fst \<circ> contribution step) sts), sum_list (map (snd \<circ> contribution step) sts))"
proof (induction sts arbitrary: acc)
  case Nil
  show ?case by (cases acc; cases acc') auto
next
  case (Cons st sts)
  consider e where "step st (0, 0) = Inl e" | "step st (0, 0) = Inr None" | d where "step st (0, 0) = Inr (Some d)"
    by (metis obj_sumE option.exhaust)
  then show ?case
  proof cases
    case 3
    then show ?thesis
      using additive_stepD [OF assms, of st acc] Cons.IH [of "plus2 acc d"] by (auto simp: contribution_def)
  qed (use additive_stepD [OF assms, of st acc] in auto)
qed

lemma race_loop_order:
  assumes "additive_step step" "mset sts = mset sts'"
    and "race_loop step sts acc = Inr r" "race_loop step sts' acc = Inr r'"
  shows "r = r'"
proof -
  have eq: "sum_list (map f sts) = sum_list (map f sts')" for f :: "member_status \<Rightarrow> int"
    using assms(2) by (metis mset_map sum_mset_sum_list)
  have "race_loop step sts acc = Inr (Some a) \<longleftrightarrow> race_loop step sts' acc = Inr (Some a)" for a
    using assms(2) by (simp add: race_loop_Some [OF assms(1)] eq mset_eq_setD [OF assms(2)])
  then show ?thesis using assms(3,4) by (cases r; cases r') auto
qed

section \<open>The outcome does not depend on the order of answers\<close>

lemma is_healthiest_among_cases:
  assumes "is_healthiest_among gc n c members lag ldr = Inr b"
  obtains (blocked) "(if lag then is_lagging gc c (n_last_operation n) else Inr False) = Inr True \<or> \<not> race_timeline_ok gc n c" "\<not> b"
  | (raced) ms r where "(if lag then is_lagging gc c (n_last_operation n) else Inr False) = Inr False" "race_timeline_ok gc n c"
      "race_members gc n c members = Inr ms"
      "race_loop (race_step gc n c (race_voting_set gc n c) (race_leader gc c ldr)) (fetch_nodes_statuses n ms) (own_vote gc n c, 0) = Inr r"
      "b = (case r of None \<Rightarrow> False | Some acc \<Rightarrow> race_verdict gc n c acc)"
proof -
  obtain lagging where l: "(if lag then is_lagging gc c (n_last_operation n) else Inr False) = Inr lagging"
    and rest: "(if lagging \<or> \<not> race_timeline_ok gc n c then Inr False
       else bind_err (race_members gc n c members) (\<lambda>ms.
         bind_err (race_loop (race_step gc n c (race_voting_set gc n c) (race_leader gc c ldr))
                     (fetch_nodes_statuses n ms) (own_vote gc n c, 0))
           (\<lambda>r. Inr (case r of None \<Rightarrow> False | Some acc \<Rightarrow> race_verdict gc n c acc)))) = Inr b"
    using assms unfolding is_healthiest_among_def bind_err_Inr by blast
  show thesis
  proof (cases "lagging \<or> \<not> race_timeline_ok gc n c")
    case True
    then show ?thesis using l rest blocked by (cases lagging) simp_all
  next
    case False
    then show ?thesis using l rest raced by (auto simp: bind_err_Inr)
  qed
qed

definition answers_any_order :: "node \<Rightarrow> bool" where
  "answers_any_order n \<longleftrightarrow> (\<forall>sts. mset (n_completed n sts) = mset sts)"

lemma set_completed: "answers_any_order n \<Longrightarrow> set (n_completed n sts) = set sts"
  unfolding answers_any_order_def by (metis set_mset_mset)

lemma fetch_completed:
  "mset (n_completed n sts) = mset sts \<Longrightarrow> sts = map (fetch_node_status n) ms \<Longrightarrow>
   mset (fetch_nodes_statuses n ms) = mset sts"
  by (cases ms) (auto simp: fetch_nodes_statuses_def)

text \<open>
  C23: whether a node regards itself as the healthiest does not depend on the order in which the other
  nodes answer: two runs that return, with the same answers in different order, return the same.
\<close>

theorem race_order_irrelevant:
  assumes "answers_any_order n" "answers_any_order (n\<lparr>n_completed := f\<rparr>)"
    and "is_healthiest_among gc n c members lag ldr = Inr a"
    and "is_healthiest_among gc (n\<lparr>n_completed := f\<rparr>) c members lag ldr = Inr b"
  shows "a = b"
proof -
  let ?n = "n\<lparr>n_completed := f\<rparr>"
  have vs: "race_voting_set gc ?n c = race_voting_set gc n c"
    by (simp add: race_voting_set_def quorum_commit_mode_is_active_def ha_is_quorum_commit_mode_def)
  have same: "race_timeline_ok gc ?n c = race_timeline_ok gc n c" "race_members gc ?n c members = race_members gc n c members"
    "race_verdict gc ?n c = race_verdict gc n c" "own_vote gc ?n c = own_vote gc n c"
    by (simp_all add: race_timeline_ok_def race_members_def vs race_verdict_def [abs_def] own_vote_def
        quorum_commit_mode_is_active_def ha_is_quorum_commit_mode_def cong: if_cong)
  have parts: "peer_votes gc ?n c = peer_votes gc n c" "race_gtid ?n = race_gtid n" "gtid_relation ?n = gtid_relation n"
    "n_last_operation ?n = n_last_operation n"
    by (simp_all add: peer_votes_def [abs_def] race_gtid_def gtid_relation_def [abs_def]
        quorum_commit_mode_is_active_def ha_is_quorum_commit_mode_def cong: if_cong)
  have step: "race_step gc ?n c vs l = race_step gc n c vs l" for vs l
    unfolding race_step_def [abs_def] parts by (rule refl)
  have fetch: "mset (fetch_nodes_statuses ?n ms) = mset (fetch_nodes_statuses n ms)" for ms
    using assms(1,2) by (simp add: answers_any_order_def fetch_nodes_statuses_def fetch_node_status_def [abs_def])
  note eqs = same vs step parts(4)
  show ?thesis using assms(3)
  proof (cases rule: is_healthiest_among_cases)
    case blocked
    note a = blocked
    from assms(4) show ?thesis
      by (cases rule: is_healthiest_among_cases) (use a in \<open>auto simp: eqs cong: if_cong\<close>)
  next
    case (raced ms r)
    note a = raced
    show ?thesis using assms(4)
    proof (cases rule: is_healthiest_among_cases)
      case blocked
      then show ?thesis using a by (auto simp: eqs cong: if_cong)
    next
      case (raced ms' r')
      then have "r = r'" using a race_loop_order [OF race_step_additive fetch] by (simp add: eqs) blast
      then show ?thesis using a raced by (simp add: eqs split: option.splits)
    qed
  qed
qed

theorem race_order_irrelevant_witness:
  "is_healthiest_among [] (demo_node\<lparr>n_completed := rev\<rparr>) (Cluster_empty :: unit cluster) [demo_peer ''b'', demo_peer ''c''] True None
   = Inr True"
proof -
  let ?run = "\<lambda>n. is_healthiest_among [] n (Cluster_empty :: unit cluster) [demo_peer ''b'', demo_peer ''c''] True None"
  have a: "?run demo_node = Inr True" "\<not> isl (?run (demo_node\<lparr>n_completed := rev\<rparr>))" by code_simp+
  then obtain b where b: "?run (demo_node\<lparr>n_completed := rev\<rparr>) = Inr b" by (metis obj_sumE sum.disc(1))
  have "answers_any_order demo_node" "answers_any_order (demo_node\<lparr>n_completed := rev\<rparr>)"
    by (simp_all add: answers_any_order_def demo_node_def)
  from race_order_irrelevant [OF this a(1) b] b show ?thesis by simp
qed

section \<open>Votes\<close>

lemma filterM_Inr: "filterM p xs = Inr ys \<Longrightarrow> ys = filter (\<lambda>x. p x = Inr True) xs"
  by (induction xs arbitrary: ys) (auto simp: bind_err_Inr)

lemma filterM_Inr_pred: "filterM p xs = Inr ys \<Longrightarrow> x \<in> set ys \<Longrightarrow> p x = Inr True"
  using filterM_Inr by fastforce

lemma from_api_member: "from_api_response m json = Inr st \<Longrightarrow> ms_member st = m"
proof -
  assume "from_api_response m json = Inr st"
  then obtain v where "(case v of PDict wal \<Rightarrow> bind_err (reported_position json wal) (\<lambda>lsn.
      Inr (MemberStatus m True (Some (reported_recovery json wal)) lsn json)) | _ \<Rightarrow> Inl AttributeError) = Inr st"
    by (auto simp: from_api_response_def bind_err_Inr)
  then show ?thesis by (cases v) (auto simp: bind_err_Inr MemberStatus_def)
qed

lemma fetch_member [simp]: "ms_member (fetch_node_status n m) = m"
  using from_api_member
  by (auto simp: fetch_node_status_def unknown_def MemberStatus_def split: option.splits pyval.splits sum.splits)

text \<open>What an answer that is counted as a quorum vote says.\<close>

definition confirms :: "node \<Rightarrow> member_status \<Rightarrow> bool" where
  "confirms n st \<longleftrightarrow> ms_in_recovery st \<noteq> Some False \<and> 0 < ms_wal_position st \<and> ms_wal_position st \<le> n_last_operation n"

lemma peer_votes_count:
  assumes "peer_votes gc n c vs ldr eq st (0, 0) = Inr (Some (v, a))"
  shows "v = (if cis_contains (m_name (ms_member st)) vs then 1 else 0) \<and> a = 0"
  using assms by (auto simp: peer_votes_def Let_def bind_err_Inr split: if_splits)

lemma race_step_count:
  assumes "race_step gc n c vs ldr st (0, 0) = Inr (Some (v, a))" "race_gtid n = []"
  shows "v \<le> (if cis_contains (m_name (ms_member st)) vs \<and> confirms n st then 1 else 0)
    \<and> 0 \<le> a \<and> (a = 0 \<longrightarrow> failover_limitation st \<noteq> Inr None \<or> ms_wal_position st \<le> n_last_operation n)"
  using assms
  by (auto simp: race_step_def bind_err_Inr peer_ahead_def confirms_def dest!: peer_votes_count split: if_splits)

lemma sum_list_le_filter:
  "(\<And>x. x \<in> set xs \<Longrightarrow> f x \<le> (if P x then 1 else (0 :: int))) \<Longrightarrow> sum_list (map f xs) \<le> int (length (filter P xs))"
  by (induction xs) (auto intro: add_mono, force+)

text \<open>The names of the other nodes whose answers count.\<close>

definition voters_for :: "node \<Rightarrow> ciset \<Rightarrow> member list \<Rightarrow> string set" where
  "voters_for n vs ms = (\<lambda>m. lower (m_name m)) `
     {m \<in> set ms. cis_contains (m_name m) vs \<and> confirms n (fetch_node_status n m)}"

lemma race_loop_votes:
  assumes loop: "race_loop (race_step gc n c vs ldr) (fetch_nodes_statuses n ms) (v0, 0) = Inr (Some (v, a))"
    and n: "race_gtid n = []" "answers_any_order n" and dist: "distinct (map (\<lambda>m. lower (m_name m)) ms)"
  shows "v \<le> v0 + int (card (voters_for n vs ms))"
proof -
  let ?P = "\<lambda>st. cis_contains (m_name (ms_member st)) vs \<and> confirms n st"
  let ?sts = "fetch_nodes_statuses n ms" and ?step = "race_step gc n c vs ldr"
  have mset: "mset ?sts = mset (map (fetch_node_status n) ms)"
    using n(2) by (simp add: fetch_nodes_statuses_def answers_any_order_def)
  have "\<forall>st \<in> set ?sts. \<exists>d. ?step st (0, 0) = Inr (Some d)" and v: "v = v0 + sum_list (map (fst \<circ> contribution ?step) ?sts)"
    using loop by (simp_all add: race_loop_Some [OF race_step_additive])
  then have "(fst \<circ> contribution ?step) st \<le> (if ?P st then 1 else 0)" if "st \<in> set ?sts" for st
    using that race_step_count n(1) by (fastforce simp: contribution_def split: sum.splits option.splits)
  then have "v \<le> v0 + int (length (filter ?P ?sts))" using v sum_list_le_filter [of ?sts _ ?P] by fastforce
  also have "length (filter ?P ?sts) = length (filter (\<lambda>m. ?P (fetch_node_status n m)) ms)"
    using arg_cong [OF mset, of "\<lambda>M. size (filter_mset ?P M)"]
    by (simp flip: mset_filter mset_map) (simp add: filter_map comp_def)
  also have "\<dots> = card ((\<lambda>m. lower (m_name m)) ` set (filter (\<lambda>m. ?P (fetch_node_status n m)) ms))"
    using distinct_card [OF distinct_map_filter [OF dist]] by simp
  also have "\<dots> = card (voters_for n vs ms)" by (simp add: voters_for_def)
  finally show ?thesis by simp
qed

lemma race_voting_set_abs:
  "quorum_commit_mode_is_active gc n c \<Longrightarrow> cis_abs (race_voting_set gc n c) = lower ` set (sync_members (c_sync c))"
  by (simp add: race_voting_set_def cis_abs_of)

text \<open>Member names that differ differ in more than letter case, this node included.\<close>

definition names_unique :: "node \<Rightarrow> member list \<Rightarrow> bool" where
  "names_unique n ms \<longleftrightarrow> distinct (map (\<lambda>m. lower (m_name m)) ms)
     \<and> (\<forall>m \<in> set ms. m_name m \<noteq> n_name n \<longrightarrow> lower (m_name m) \<noteq> lower (n_name n))"

lemma race_members_ok:
  assumes "race_members gc n c members = Inr ms" "names_unique n members"
  shows "distinct (map (\<lambda>m. lower (m_name m)) ms)" "set ms \<subseteq> set members" "\<forall>m \<in> set ms. lower (m_name m) \<noteq> lower (n_name n)"
proof -
  note ms = filterM_Inr [OF assms(1) [unfolded race_members_def]]
  show "distinct (map (\<lambda>m. lower (m_name m)) ms)" "set ms \<subseteq> set members"
    using assms(2) by (auto simp: ms names_unique_def distinct_map_filter)
  show "\<forall>m \<in> set ms. lower (m_name m) \<noteq> lower (n_name n)"
    using assms(2) by (auto simp: ms names_unique_def)
qed

lemma race_won_votes:
  assumes active: "quorum_commit_mode_is_active gc n c" and n: "race_gtid n = []" "answers_any_order n"
    and names: "names_unique n members" and won: "is_healthiest_among gc n c members lag ldr = Inr True"
    and other: "s_leader (c_sync c) \<noteq> Some (n_name n)"
  shows "\<exists>W. W \<subseteq> lower ` set (sync_members (c_sync c)) \<and> s_quorum (c_sync c) + 1 \<le> int (card W)
    \<and> (\<forall>w \<in> W. w = lower (n_name n) \<or> (\<exists>m \<in> set members. lower (m_name m) = w \<and> confirms n (fetch_node_status n m)))"
  using won
proof (cases rule: is_healthiest_among_cases)
  case (raced ms r)
  let ?vs = "race_voting_set gc n c"
  let ?V = "voters_for n ?vs ms" and ?own = "{w. w = lower (n_name n) \<and> cis_contains (n_name n) ?vs}"
  from raced(5) obtain v a where r: "r = Some (v, a)" "race_verdict gc n c (v, a)" by (cases r) auto
  note ok = race_members_ok [OF raced(3) names]
  have v: "s_quorum (c_sync c) \<le> own_vote gc n c + int (card ?V)"
    using r active other race_loop_votes [OF raced(4) [unfolded r(1)] n ok(1)] by (auto simp: race_verdict_def)
  have "?V \<inter> ?own = {}" using ok(3) by (auto simp: voters_for_def)
  then have "card (?V \<union> ?own) = card ?V + card ?own" by (intro card_Un_disjoint) (auto simp: voters_for_def)
  moreover have "int (card ?own) = own_vote gc n c + 1" by (simp add: own_vote_def)
  ultimately have "s_quorum (c_sync c) + 1 \<le> int (card (?V \<union> ?own))" using v by simp
  moreover have "?V \<union> ?own \<subseteq> lower ` set (sync_members (c_sync c))"
    by (auto simp: voters_for_def cis_contains_abs race_voting_set_abs [OF active])
  moreover have "\<forall>w \<in> ?V \<union> ?own. w = lower (n_name n) \<or> (\<exists>m \<in> set members. lower (m_name m) = w \<and> confirms n (fetch_node_status n m))"
    using ok(2) by (auto simp: voters_for_def)
  ultimately show ?thesis by blast
qed simp

section \<open>Who may promote\<close>

lemma is_healthiest_among_lag:
  "is_healthiest_among gc n c ms True ldr = Inr True \<Longrightarrow> is_lagging gc c (n_last_operation n) = Inr False"
  by (cases rule: is_healthiest_among_cases) auto

lemma extend_members_frame [simp]:
  "c_status (ha_cluster (extend_members ms h)) = c_status (ha_cluster h)"
  "c_sync (ha_cluster (extend_members ms h)) = c_sync (ha_cluster h)"
  "sync_mode_is_active gc (ha_cluster (extend_members ms h)) = sync_mode_is_active gc (ha_cluster h)"
  "ha_shared (extend_members ms h) = ha_shared h"
  by (simp_all add: extend_members_def Let_def sync_mode_is_active_def)

lemma is_lagging_status: "c_status c = c_status c' \<Longrightarrow> is_lagging gc c = is_lagging gc c'"
  by (simp add: is_lagging_def [abs_def])

lemma leader_race_won:
  assumes "leader_race gc n h = (Inr True, h')"
  shows "is_lagging gc (ha_cluster h) (n_last_operation n) = Inr False"
    and "sync_mode_is_active gc (ha_cluster h) \<Longrightarrow> \<not> ha_is_quorum_commit_mode gc n \<Longrightarrow>
         sync_matches (c_sync (ha_cluster h)) (Some (n_name n)) True"
proof -
  obtain h1 where h1: "all_known_members gc n h = Some h1"
    using assms by (auto simp: leader_race_def split: option.splits)
  then have same: "c_status (ha_cluster h1) = c_status (ha_cluster h)" "c_sync (ha_cluster h1) = c_sync (ha_cluster h)"
    "sync_mode_is_active gc (ha_cluster h1) = sync_mode_is_active gc (ha_cluster h)"
    by (auto simp: all_known_members_def Let_def split: option.splits)
  show "is_lagging gc (ha_cluster h) (n_last_operation n) = Inr False"
    using assms h1 is_healthiest_among_lag is_lagging_status [OF same(1)]
    by (fastforce simp: leader_race_def Let_def split: if_splits)
  show "sync_matches (c_sync (ha_cluster h)) (Some (n_name n)) True"
    if "sync_mode_is_active gc (ha_cluster h)" "\<not> ha_is_quorum_commit_mode gc n"
    using assms h1 that same by (auto simp: leader_race_def Let_def split: if_splits)
qed

text \<open>
  C12: who may take the leader lock outside of pause. The node has not given up the lock within the
  last \<^verbatim>\<open>ttl\<close> seconds and its database is not starting; unless it runs as a primary already, it is allowed
  to fail over, and unless a manual failover is requested its watchdog is usable, it lags behind the
  last known position of the primary by no more than \<^verbatim>\<open>maximum_lag_on_failover\<close>, and in synchronous
  mode without quorum commit it is listed in the sync key.
\<close>

theorem promotion_guards:
  assumes "is_healthiest_node gc now n h = (Inr True, h')" "\<not> is_paused gc"
  shows "of_int (ha_ttl h) \<le> now - ha_released_leader_key_timestamp h \<and> \<not> n_is_starting n
    \<and> (n_is_primary n \<or> nofailover (n_tags n) = Inr False)
    \<and> (n_is_primary n \<or> failover_bool (c_failover (ha_cluster h))
       \<or> n_watchdog_healthy n \<and> is_lagging gc (ha_cluster h) (n_last_operation n) = Inr False
         \<and> (sync_mode_is_active gc (ha_cluster h) \<and> \<not> ha_is_quorum_commit_mode gc n
              \<longrightarrow> sync_matches (c_sync (ha_cluster h)) (Some (n_name n)) True))"
proof -
  have backoff: "of_int (ha_ttl h) \<le> now - ha_released_leader_key_timestamp h"
    and start: "\<not> n_is_starting n" and replica: "\<not> n_is_primary n \<Longrightarrow> healthiest_replica gc n h = (Inr True, h')"
    using assms by (auto simp: is_healthiest_node_def Let_def split: if_splits)
  have "nofailover (n_tags n) = Inr False"
    "\<not> failover_bool (c_failover (ha_cluster h)) \<Longrightarrow> n_watchdog_healthy n \<and> leader_race gc n h = (Inr True, h')"
    if "\<not> n_is_primary n"
    using replica [OF that] assms(2)
    by (auto simp: healthiest_replica_def Let_def split: if_splits sum.splits bool.splits option.splits)
  then show ?thesis using backoff start leader_race_won by blast
qed

theorem promotion_guards_witness:
  "n_watchdog_healthy demo_node \<and> is_lagging [] (ha_cluster demo_ha) (n_last_operation demo_node) = Inr False"
proof -
  obtain h' where "is_healthiest_node [] 100 demo_node demo_ha = (Inr True, h')"
  proof -
    have "fst (is_healthiest_node [] 100 demo_node demo_ha) = Inr True" by code_simp
    then show thesis using that by (metis prod.collapse)
  qed
  moreover have "\<not> is_paused []" "\<not> n_is_primary demo_node" "\<not> failover_bool (c_failover (ha_cluster demo_ha))" by code_simp+
  ultimately show ?thesis using promotion_guards [of "[]" 100 demo_node demo_ha h'] by simp
qed

text \<open>
  every run of the leader race extends the remembered list of members in place. While the view of
  the cluster stays the same the list grows by all its members each time, so after \<open>k\<close> rounds without a
  leader it has \<open>k\<close> copies of them.
\<close>

theorem race_members_grow:
  assumes "\<not> is_failsafe_mode gc" "\<not> ha_shared h" "\<not> (sync_mode_is_active gc (ha_cluster h))"
  shows "length (c_members (ha_old_cluster (((\<lambda>h. snd (leader_race gc n h)) ^^ k) h)))
    = length (c_members (ha_old_cluster h)) + k * length (c_members (ha_cluster h))"
proof -
  let ?f = "\<lambda>h. snd (leader_race gc n h)"
  have note_old: "ha_old_cluster (note_timeline n x) = ha_old_cluster x" "ha_cluster (note_timeline n x) = ha_cluster x"
    "ha_shared (note_timeline n x) = ha_shared x" for x :: "'a ha"
    by (simp_all add: note_timeline_def split: option.splits)
  have step: "c_members (ha_old_cluster (?f x)) = c_members (ha_old_cluster x) @ c_members (ha_cluster x)"
    "ha_cluster (?f x) = ha_cluster x" "ha_shared (?f x) = ha_shared x"
    if "\<not> ha_shared x" "\<not> sync_mode_is_active gc (ha_cluster x)" for x :: "'a ha"
    using that assms(1)
    by (simp_all add: leader_race_def all_known_members_def failsafe_members_def extend_members_def Let_def note_old)
  have "ha_cluster ((?f ^^ k) h) = ha_cluster h \<and> \<not> ha_shared ((?f ^^ k) h)
     \<and> length (c_members (ha_old_cluster ((?f ^^ k) h)))
         = length (c_members (ha_old_cluster h)) + k * length (c_members (ha_cluster h))"
    using assms(2,3) by (induction k) (auto simp: step)
  then show ?thesis by blast
qed

theorem race_members_grow_witness:
  "length (c_members (ha_old_cluster (((\<lambda>h. snd (leader_race [] demo_node h)) ^^ 1000) demo_ha))) = 2001"
proof -
  have "\<not> is_failsafe_mode []" "\<not> ha_shared demo_ha" "\<not> (sync_mode_is_active [] (ha_cluster demo_ha))"
    "length (c_members (ha_old_cluster demo_ha)) = 1" "length (c_members (ha_cluster demo_ha)) = 2"
    by code_simp+
  then show ?thesis using race_members_grow [where gc = "[]" and h = demo_ha and n = demo_node and k = 1000] by simp
qed

end
