(* ===== verification/Failsafe.thy ===== *)
theory Failsafe
  imports LeaderRace
begin

text \<open>
  The class \<open>Failsafe\<close> of \<^verbatim>\<open>patroni/ha.py\<close>. While DCS is not accessible a primary may go on if every member of the
  failsafe topology agrees. A member that agreed remembers the primary for \<open>ttl\<close> seconds and puts it
  into the cluster view as the leader, so that it does not take part in a leader race.
\<close>

section \<open>State\<close>

record failsafe =
  fs_last_update :: time
  fs_name :: string
  fs_conn_url :: pyval
  fs_api_url :: pyval
  fs_slots :: pyval

definition fs_reset_state :: failsafe where
  "fs_reset_state = \<lparr>fs_last_update = 0, fs_name = [], fs_conn_url = PNone, fs_api_url = PNone, fs_slots = PNone\<rparr>"

definition fs_update_slots :: "pyval \<Rightarrow> failsafe \<Rightarrow> failsafe" where
  "fs_update_slots slots fs = fs\<lparr>fs_slots := slots\<rparr>"

text \<open>The fields are assigned one after the other, and a missing one raises \<^verbatim>\<open>KeyError\<close> in between. The name is a string.\<close>

definition fs_update :: "time \<Rightarrow> pydict \<Rightarrow> failsafe \<Rightarrow> (py_error + unit) \<times> failsafe" where
  "fs_update now data fs =
     (let fs1 = fs\<lparr>fs_last_update := now\<rparr> in
      case dict_get data ''name'' of None \<Rightarrow> (Inl KeyError, fs1)
      | Some name \<Rightarrow> (let fs2 = fs1\<lparr>fs_name := py_str name\<rparr> in
          case dict_get data ''conn_url'' of None \<Rightarrow> (Inl KeyError, fs2)
          | Some conn \<Rightarrow> (let fs3 = fs2\<lparr>fs_conn_url := conn\<rparr> in
              case dict_get data ''api_url'' of None \<Rightarrow> (Inl KeyError, fs3)
              | Some api \<Rightarrow> (Inr (), fs3\<lparr>fs_api_url := api, fs_slots := pyget data ''slots''\<rparr>))))"

definition fs_is_active :: "int \<Rightarrow> time \<Rightarrow> failsafe \<Rightarrow> bool" where
  "fs_is_active ttl now fs \<longleftrightarrow> fs_last_update fs + of_int ttl > now"

definition fs_leader :: "int \<Rightarrow> time \<Rightarrow> failsafe \<Rightarrow> leader option" where
  "fs_leader ttl now fs = (if fs_last_update fs + of_int ttl > now
     then Some \<lparr>l_version = PStr [], l_session = PStr [],
       l_member = RemoteMember (fs_name fs) [(''api_url'', fs_api_url fs), (''conn_url'', fs_conn_url fs), (''slots'', fs_slots fs)]\<rparr>
     else None)"

definition fs_set_is_active :: "time \<Rightarrow> failsafe \<Rightarrow> failsafe" where
  "fs_set_is_active val fs = (if val = 0 then fs_reset_state else fs\<lparr>fs_last_update := val\<rparr>)"

section \<open>The cluster view\<close>

text \<open>The position of a cascading replica is the one the leader reports; \<open>members\<close> is updated in place.\<close>

definition fs_member :: "pyval \<Rightarrow> member \<Rightarrow> member" where
  "fs_member slots m = (case slots of
     PDict d \<Rightarrow> (if str_bool (replicatefrom (m_tags m)) \<and> dict_has d (m_name m)
                 then m\<lparr>m_data := dict_set ''xlog_location'' (pyget d (m_name m)) (m_data m)\<rparr> else m)
   | _ \<Rightarrow> m)"

definition fs_update_cluster :: "int \<Rightarrow> time \<Rightarrow> failsafe \<Rightarrow> 'w cluster \<Rightarrow> 'w cluster" where
  "fs_update_cluster ttl now fs c = (case fs_leader ttl now fs of
     None \<Rightarrow> c
   | Some l \<Rightarrow> (let slots = pyget (m_data (l_member l)) ''slots'' in
       c\<lparr>c_leader := Some l,
         c_status := (c_status c)\<lparr>st_slots := (case slots of PDict d \<Rightarrow> Some d | _ \<Rightarrow> None)\<rparr>,
         c_members := map (fs_member slots) (c_members c)\<rparr>))"

section \<open>Agreement\<close>

text \<open>
  \<open>Ha.update_failsafe\<close>, the answer of a member: the text of a refusal, or its last position, which may
  be unknown. The REST API answers \<^verbatim>\<open>Accepted\<close> unless there is a text.
\<close>

definition update_failsafe ::
  "string \<Rightarrow> string \<Rightarrow> int option \<Rightarrow> time \<Rightarrow> pydict \<Rightarrow> failsafe \<Rightarrow> (py_error + (string + int option)) \<times> failsafe" where
  "update_failsafe state role last_wal_lsn now data fs =
     (if state = state_value RUNNING \<and> role = role_value PRIMARY then (Inr (Inl ''Running as a leader''), fs)
      else (case fs_update now data fs of
          (Inl e, fs1) \<Rightarrow> (Inl e, fs1)
        | (Inr _, fs1) \<Rightarrow> (Inr (Inr last_wal_lsn), fs1)))"

record failsafe_response =
  fr_member_name :: string
  fr_accepted :: bool
  fr_lsn :: "int option"

text \<open>
  \<open>Ha.call_failsafe_member\<close>. The reply is the status, the body and the \<^verbatim>\<open>lsn\<close> header, or \<open>None\<close> when the
  request fails. A header \<^verbatim>\<open>parse_int\<close> raises on ends in the same answer as a failed request.
\<close>

definition call_failsafe_member :: "(int \<times> string \<times> pyval) option \<Rightarrow> string \<Rightarrow> failsafe_response" where
  "call_failsafe_member reply name =
     (let failed = \<lparr>fr_member_name = name, fr_accepted = False, fr_lsn = None\<rparr> in
      case reply of None \<Rightarrow> failed
      | Some (status, body, lsn) \<Rightarrow> (case parse_int lsn None of
          Inl _ \<Rightarrow> failed
        | Inr n \<Rightarrow> \<lparr>fr_member_name = name, fr_accepted = (status = 200 \<and> body = ''Accepted''), fr_lsn = n\<rparr>))"

text \<open>\<open>Ha.check_failsafe_topology\<close>: \<open>key\<close> is the failsafe key, \<open>replies\<close> what each member answers.\<close>

definition check_failsafe_topology ::
  "string \<Rightarrow> (string, string) dict option \<Rightarrow> (string \<Rightarrow> (int \<times> string \<times> pyval) option) \<Rightarrow> failsafe \<Rightarrow> bool \<times> failsafe" where
  "check_failsafe_topology name key replies fs = (case key of
     None \<Rightarrow> (False, fs)
   | Some topology \<Rightarrow>
       if \<not> dict_has topology name then (False, fs)
       else (let members = filter (\<lambda>n. n \<noteq> name) (dict_keys topology);
                 results = map (\<lambda>n. call_failsafe_member (replies n) n) members
             in if members = [] then (True, fs)
                else if list_all fr_accepted results
                then (True, fs_update_slots (PDict (List.map_filter (\<lambda>r.
                        if int_or_0 (fr_lsn r) \<noteq> 0 then Some (fr_member_name r, PInt (int_or_0 (fr_lsn r))) else None) results)) fs)
                else (False, fs)))"

text \<open>
  \<open>do_POST_failsafe\<close> of \<^verbatim>\<open>patroni/api.py\<close> with a JSON object in the request: status, body (left out for
  the errors of \<^verbatim>\<open>send_error\<close>) and the \<^verbatim>\<open>lsn\<close> header. \<open>_read_json_content\<close> answers an empty object with
  400 and the handler leaves it at that. An exception leaves the request without a reply. The text
  \<^verbatim>\<open>Accepted\<close> is never that of a refusal.
\<close>

definition do_POST_failsafe ::
  "bool \<Rightarrow> string \<Rightarrow> string \<Rightarrow> int option \<Rightarrow> time \<Rightarrow> pydict \<Rightarrow> failsafe \<Rightarrow> (int \<times> string \<times> pyval) option \<times> failsafe" where
  "do_POST_failsafe failsafe_mode state role last_wal_lsn now data fs =
     (if failsafe_mode then
        if data = [] then (Some (400, [], PNone), fs)
        else (case update_failsafe state role last_wal_lsn now data fs of
           (Inl e, fs1) \<Rightarrow> (None, fs1)
         | (Inr (Inl text), fs1) \<Rightarrow> (Some (500, text, PNone), fs1)
         | (Inr (Inr lsn), fs1) \<Rightarrow> (Some (200, ''Accepted'', case lsn of None \<Rightarrow> PNone | Some n \<Rightarrow> PStr (show_int n)), fs1))
      else (Some (502, [], PNone), fs))"

section \<open>Agreement keeps members from racing\<close>

lemma check_failsafe_topology_all:
  assumes "fst (check_failsafe_topology name (Some topology) replies fs)" "n \<in> set (dict_keys topology)" "n \<noteq> name"
  shows "fr_accepted (call_failsafe_member (replies n) n)"
proof -
  let ?ms = "filter (\<lambda>n. n \<noteq> name) (dict_keys topology)"
  have n: "n \<in> set ?ms" using assms(2,3) by simp
  then have "?ms \<noteq> []" by (metis empty_iff empty_set)
  moreover have "dict_has topology name" using assms(1) by (auto simp: check_failsafe_topology_def split: if_splits)
  ultimately have "list_all fr_accepted (map (\<lambda>n. call_failsafe_member (replies n) n) ?ms)"
    using assms(1) by (simp add: check_failsafe_topology_def Let_def split: if_split_asm)
  then show ?thesis using n by (simp add: list_all_iff)
qed

lemma accepted_reply:
  "fr_accepted (call_failsafe_member reply n) \<longleftrightarrow>
   (\<exists>lsn m. reply = Some (200, ''Accepted'', lsn) \<and> parse_int lsn None = Inr m)"
  by (auto simp: call_failsafe_member_def Let_def split: option.splits sum.splits)

lemma post_accepted:
  assumes "do_POST_failsafe mode state role lsn t data fs = (Some (200, body, hdr), fs1)"
  shows "\<exists>n. dict_get data ''name'' = Some n \<and> fs_last_update fs1 = t \<and> fs_name fs1 = py_str n
    \<and> \<not> (state = state_value RUNNING \<and> role = role_value PRIMARY)"
  using assms
  by (auto simp: do_POST_failsafe_def update_failsafe_def fs_update_def Let_def split: if_splits option.splits)

lemma failsafe_leader_visible:
  assumes "t < fs_last_update fs + of_int ttl"
  shows "leader_name (fs_update_cluster ttl t fs c) = Some (fs_name fs)"
  using assms by (simp add: fs_update_cluster_def fs_leader_def leader_name_def RemoteMember_def Member_def Let_def)

text \<open>
  C6: what one successful check of the failsafe topology means. If \<open>check_failsafe_topology\<close> succeeds for a
  primary that cannot reach DCS, then every other member of the failsafe key has been asked and, at the
  time \<open>t n\<close> of its answer, was not running as a primary; and for \<open>ttl\<close> seconds from then the view of the
  cluster this member works with has that primary as the leader, so it does not take part in a leader race.
  Each member may be in any state \<open>fsm n\<close> before. Nothing is said of two nodes that ask at the same time
  without running as a primary when they answer each other.
\<close>

theorem failsafe_single_leader:
  assumes "fst (check_failsafe_topology name (Some topology) replies fs)"
    and reply: "\<forall>n \<in> set (dict_keys topology). replies n = fst (do_POST_failsafe (mode n) (state n) (role n) (lsn n) (t n) data (fsm n))"
    and data: "dict_get data ''name'' = Some (PStr name)" "name \<noteq> []"
    and n: "n \<in> set (dict_keys topology)" "n \<noteq> name"
  shows "\<not> (state n = state_value RUNNING \<and> role n = role_value PRIMARY)
    \<and> (now < t n + of_int ttl \<longrightarrow>
        leader_name (fs_update_cluster ttl now (snd (do_POST_failsafe (mode n) (state n) (role n) (lsn n) (t n) data (fsm n))) c)
          = Some name
        \<and> \<not> is_unlocked (fs_update_cluster ttl now (snd (do_POST_failsafe (mode n) (state n) (role n) (lsn n) (t n) data (fsm n))) c))"
proof -
  let ?r = "do_POST_failsafe (mode n) (state n) (role n) (lsn n) (t n) data (fsm n)"
  have "replies n = fst ?r" using reply n(1) by blast
  then obtain hdr where "fst ?r = Some (200, ''Accepted'', hdr)"
    using check_failsafe_topology_all [OF assms(1) n] by (auto simp: accepted_reply)
  then have "?r = (Some (200, ''Accepted'', hdr), snd ?r)" by (cases ?r) simp
  from post_accepted [OF this] have "fs_last_update (snd ?r) = t n" "fs_name (snd ?r) = name"
    "\<not> (state n = state_value RUNNING \<and> role n = role_value PRIMARY)"
    using data(1) by auto
  then show ?thesis using data(2) by (simp add: is_unlocked_def str_bool_def failsafe_leader_visible)
qed

text \<open>The primary \<open>a\<close> asks \<open>b\<close> at time 100, which is a running replica.\<close>

theorem failsafe_single_leader_witness:
  "leader_name (fs_update_cluster 30 120 (snd (do_POST_failsafe True ''running'' ''replica'' (Some 7) 100
     [(''name'', PStr ''a''), (''conn_url'', PStr ''c''), (''api_url'', PStr ''u'')] fs_reset_state))
     (Cluster_empty :: unit cluster)) = Some ''a''"
proof -
  let ?d = "[(''name'', PStr ''a''), (''conn_url'', PStr ''c''), (''api_url'', PStr ''u'')]"
  let ?r = "do_POST_failsafe True ''running'' ''replica'' (Some 7) 100 ?d fs_reset_state"
  have "fst (check_failsafe_topology ''a'' (Some [(''a'', ''u''), (''b'', ''v'')]) (\<lambda>_. fst ?r) fs_reset_state)" by code_simp
  moreover have "dict_get ?d ''name'' = Some (PStr ''a'')" by simp
  moreover have "''b'' \<in> set (dict_keys [(''a'', ''u''), (''b'', ''v'')])" "''b'' \<noteq> ''a''" by simp_all
  ultimately show ?thesis
    using failsafe_single_leader [of "''a''" "[(''a'', ''u''), (''b'', ''v'')]" "\<lambda>_. fst ?r" fs_reset_state "\<lambda>_. True"
        "\<lambda>_. ''running''" "\<lambda>_. ''replica''" "\<lambda>_. Some 7" "\<lambda>_. 100" ?d "\<lambda>_. fs_reset_state" "''b''" 120 30 "Cluster_empty :: unit cluster"]
    by simp
qed

end
