(* ===== verification/SyncRep.thy ===== *)
theory SyncRep
  imports Slots "HOL-Library.Product_Lexorder"
begin

text \<open>
  \<^verbatim>\<open>patroni/postgresql/sync.py\<close>: the grammar of \<^verbatim>\<open>synchronous_standby_names\<close>, choosing
  synchronous standbys from \<^verbatim>\<open>pg_stat_replication\<close>, and the state machine that counts a standby as
  synchronous only once it has caught up. What PostgreSQL reports is an argument.
\<close>

section \<open>Tokens\<close>

definition is_alpha :: "char \<Rightarrow> bool" where
  "is_alpha c \<longleftrightarrow> (let n = of_char c :: int in 65 \<le> n \<and> n \<le> 90 \<or> 97 \<le> n \<and> n \<le> 122)"

definition ident_start :: "char \<Rightarrow> bool" where
  "ident_start c \<longleftrightarrow> is_alpha c \<or> c = CHR ''_''"

definition ident_char :: "char \<Rightarrow> bool" where
  "ident_char c \<longleftrightarrow> ident_start c \<or> is_digit c \<or> c = CHR ''$''"

abbreviation dq_char :: char where
  "dq_char \<equiv> CHR 0x22"

datatype tok_kind = TFirst | TAny | TSpace | TIdent | TDquot | TStar | TNum | TComma
  | TParenStart | TParenEnd | TJunk

type_synonym token = "tok_kind \<times> string"

text \<open>
  \<open>[^"]+ | ""\<close> repeated and a closing quote: how many characters after the opening quote match. The
  second argument is the match to fall back to when no closing quote is found further on.
\<close>

fun dquot_len :: "nat \<Rightarrow> nat option \<Rightarrow> string \<Rightarrow> nat option" where
  "dquot_len n fb [] = fb"
| "dquot_len n fb [c] = (if c = dq_char then Some (Suc n) else fb)"
| "dquot_len n fb (c # d # cs) =
     (if c = dq_char then (if d = dq_char then dquot_len (n + 2) (Some (Suc n)) cs else Some (Suc n))
      else dquot_len (Suc n) fb (d # cs))"

text \<open>The alternatives of \<^verbatim>\<open>SYNC_REP_PARSER_RE\<close> in their order, on a non-empty string.\<close>

definition next_token :: "string \<Rightarrow> tok_kind \<times> nat" where
  "next_token s =
     (if lower (take 5 s) = ''first'' then (TFirst, 5)
      else if lower (take 3 s) = ''any'' then (TAny, 3)
      else if is_space (hd s) then (TSpace, length (takeWhile is_space s))
      else if ident_start (hd s) then (TIdent, length (takeWhile ident_char s))
      else (case (if hd s = dq_char then dquot_len 0 None (tl s) else None) of
          Some n \<Rightarrow> (TDquot, Suc n)
        | None \<Rightarrow>
           if hd s = CHR ''*'' then (TStar, 1)
           else if is_digit (hd s) then (TNum, length (takeWhile is_digit s))
           else if hd s = CHR '','' then (TComma, 1)
           else if hd s = CHR ''('' then (TParenStart, 1)
           else if hd s = CHR '')'' then (TParenEnd, 1)
           else (TJunk, 1)))"

lemma next_token_pos: "s \<noteq> [] \<Longrightarrow> 0 < snd (next_token s)"
  by (cases s) (auto simp: next_token_def ident_char_def split: option.splits)

function tokenize :: "string \<Rightarrow> token list" where
  "tokenize s = (if s = [] then []
     else (case next_token s of (k, n) \<Rightarrow>
       if k = TSpace then tokenize (drop n s) else (k, take n s) # tokenize (drop n s)))"
  by pat_completeness auto

lemma next_token_shorter: "s \<noteq> [] \<Longrightarrow> next_token s = (k, n) \<Longrightarrow> length (drop n s) < length s"
  using next_token_pos [of s] by simp

termination tokenize by (relation "measure length") (auto dest!: sym [of _ "next_token _"] dest: next_token_shorter)

declare tokenize.simps [simp del]

section \<open>Names\<close>

text \<open>\<^verbatim>\<open>SYNC_STANDBY_NAME_RE\<close>; \<^verbatim>\<open>$\<close> also matches before a final newline.\<close>

definition standby_name_re :: "string \<Rightarrow> bool" where
  "standby_name_re s = (let t = (if s \<noteq> [] \<and> of_char (last s) = (10 :: int) then butlast s else s)
     in t \<noteq> [] \<and> ident_start (hd t) \<and> list_all ident_char t)"

definition double_quotes :: "string \<Rightarrow> string" where
  "double_quotes s = concat (map (\<lambda>c. if c = dq_char then [c, c] else [c]) s)"

definition quote_ident :: "string \<Rightarrow> string" where
  "quote_ident s = [dq_char] @ double_quotes s @ [dq_char]"

definition quote_standby_name :: "string \<Rightarrow> string" where
  "quote_standby_name s =
     (if standby_name_re s \<and> lower s \<notin> {''first'', ''any''} then s else quote_ident s)"

text \<open>\<^verbatim>\<open>s.replace('""', '"')\<close>\<close>

fun undouble :: "string \<Rightarrow> string" where
  "undouble [] = []"
| "undouble [c] = [c]"
| "undouble (c # d # cs) = (if c = dq_char \<and> d = dq_char then c # undouble cs else c # undouble (d # cs))"

section \<open>Parser\<close>

datatype sync_type = SOff | SPriority | SQuorum

record ssn =
  ssn_type :: sync_type
  ssn_has_star :: bool
  ssn_num :: int
  ssn_members :: ciset

definition SSN :: "sync_type \<Rightarrow> bool \<Rightarrow> int \<Rightarrow> ciset \<Rightarrow> ssn" where
  "SSN t h n m = \<lparr>ssn_type = t, ssn_has_star = h, ssn_num = n, ssn_members = m\<rparr>"

definition EMPTY_SSN :: ssn where
  "EMPTY_SSN = SSN SOff False 0 (cis_of [])"

text \<open>The loop over \<^verbatim>\<open>synclist\<close>; \<open>is_odd\<close> says whether the index is odd.\<close>

fun parse_synclist :: "bool \<Rightarrow> token list \<Rightarrow> bool \<times> ciset \<Rightarrow> py_error + bool \<times> ciset" where
  "parse_synclist is_odd [] acc = Inr acc"
| "parse_synclist True [t] acc = Inl ValueError"
| "parse_synclist True ((k, v) # t # ts) acc =
     (if k \<noteq> TComma then Inl ValueError else parse_synclist False (t # ts) acc)"
| "parse_synclist False ((k, v) # ts) (has_star, members) =
     (if k \<in> {TIdent, TFirst, TAny} then parse_synclist True ts (has_star, cis_add v members)
      else if k = TStar then parse_synclist True ts (True, cis_add v members)
      else if k = TDquot then
        parse_synclist True ts (has_star, cis_add (undouble (butlast (tl v))) members)
      else Inl ValueError)"

definition parse_sync_standby_names :: "string \<Rightarrow> py_error + ssn" where
  "parse_sync_standby_names s =
     (let tokens = tokenize s; kinds = map fst tokens in
      if tokens = [] then Inr EMPTY_SSN
      else
        let (t, num, synclist) =
          (if take 3 kinds = [TAny, TNum, TParenStart] \<and> last kinds = TParenEnd
           then (SQuorum, read_nat (snd (tokens ! 1)), butlast (drop 3 tokens))
           else if take 3 kinds = [TFirst, TNum, TParenStart] \<and> last kinds = TParenEnd
           then (SPriority, read_nat (snd (tokens ! 1)), butlast (drop 3 tokens))
           else if take 2 kinds = [TNum, TParenStart] \<and> last kinds = TParenEnd
           then (SPriority, read_nat (snd (tokens ! 0)), butlast (drop 2 tokens))
           else (SPriority, 1, tokens))
        in map_sum id (\<lambda>(has_star, members). SSN t has_star num members)
             (parse_synclist False synclist (False, cis_of [])))"

section \<open>Candidates\<close>

record repl_row =
  r_pid :: int
  r_application_name :: string
  r_sync_state :: string
  r_write_lsn :: "int option"
  r_flush_lsn :: "int option"
  r_replay_lsn :: "int option"

record replica =
  rp_pid :: int
  rp_application_name :: string
  rp_sync_state :: string
  rp_lsn :: int
  rp_nofailover :: bool
  rp_sync_priority :: int

text \<open>What the handler asks PostgreSQL for.\<close>

record pg_view =
  pg_name :: string
  pg_synchronous_commit :: string
  pg_stat_replication :: "repl_row list"
  pg_last_operation :: int
  pg_supports_quorum_commit :: bool
  pg_supports_multiple_sync :: bool
  pg_synchronous_standby_names :: string

definition sort_col :: "pg_view \<Rightarrow> repl_row \<Rightarrow> int option" where
  "sort_col pg = (if pg_synchronous_commit pg = ''remote_apply'' then r_replay_lsn
     else if pg_synchronous_commit pg = ''remote_write'' then r_write_lsn else r_flush_lsn)"

definition sync_members_dict :: "pg_view \<Rightarrow> 'w cluster \<Rightarrow> py_error + member cidict" where
  "sync_members_dict pg c =
     bind_err (mapM (\<lambda>m. if is_running m then map_sum id (\<lambda>ns. (m, \<not> ns)) (nosync (m_tags m)) else Inr (m, False)) (c_members c))
       (\<lambda>ms. Inr (cid_of (dict_of (map (\<lambda>(m, ok). (m_name m, m))
          (filter (\<lambda>(m, ok). ok \<and> lower (m_name m) \<noteq> lower (pg_name pg)) ms)))))"

definition replication_dict :: "pg_view \<Rightarrow> member cidict \<Rightarrow> repl_row cidict" where
  "replication_dict pg members = cid_of (dict_of (map (\<lambda>r. (r_application_name r, r))
     (filter (\<lambda>r. sort_col pg r \<noteq> None \<and> cid_contains (r_application_name r) members) (pg_stat_replication pg))))"

text \<open>\<open>_should_cascade\<close> with fuel for its recursion.\<close>

primrec should_cascade :: "nat \<Rightarrow> member cidict \<Rightarrow> 'r cidict \<Rightarrow> member \<Rightarrow> bool option" where
  "should_cascade 0 members replication m = None"
| "should_cascade (Suc fuel) members replication m =
     (case replicatefrom (m_tags m) of
        None \<Rightarrow> Some False
      | Some r \<Rightarrow>
          if r = [] then Some False
          else (case cid_get members r of
             None \<Rightarrow> Some False
           | Some m' \<Rightarrow>
               if \<not> str_bool (replicatefrom (m_tags m')) then Some (cid_contains (m_name m') replication)
               else should_cascade fuel members replication m'))"

text \<open>
  The chain of \<^verbatim>\<open>replicatefrom\<close> tags either ends within as many steps as there are members, or never;
  in the second case the recursion of the source exhausts the stack.
\<close>

definition replica_of ::
  "pg_view \<Rightarrow> member cidict \<Rightarrow> repl_row cidict \<Rightarrow> repl_row \<Rightarrow> py_error + replica option" where
  "replica_of pg members replication row =
     (case cid_get members (r_application_name row) of
        None \<Rightarrow> Inr None
      | Some m \<Rightarrow>
          (case sort_col pg row of
             None \<Rightarrow> Inr None
           | Some lsn \<Rightarrow>
               (case should_cascade (Suc (cid_len members)) members replication m of
                  None \<Rightarrow> Inl RecursionError
                | Some True \<Rightarrow> Inr None
                | Some False \<Rightarrow>
                    bind_err (nofailover (m_tags m)) (\<lambda>nofo.
                    bind_err (sync_priority (m_tags m)) (\<lambda>prio.
                      Inr (Some \<lparr>rp_pid = r_pid row, rp_application_name = r_application_name row,
                                 rp_sync_state = r_sync_state row, rp_lsn = lsn, rp_nofailover = nofo,
                                 rp_sync_priority = prio\<rparr>))))))"

text \<open>The list, sorted in descending order with ties in their original order, and \<open>max_lsn\<close>.\<close>

definition replica_list :: "pg_view \<Rightarrow> 'w cluster \<Rightarrow> py_error + replica list \<times> int" where
  "replica_list pg c =
     bind_err (sync_members_dict pg c) (\<lambda>members.
       let replication = replication_dict pg members in
       bind_err (mapM (replica_of pg members replication) (cid_items_values replication)) (\<lambda>rs.
         let l = rev (sort_key (\<lambda>r. (rp_sync_priority r, rp_sync_state r, rp_lsn r)) (rev (List.map_filter id rs)))
         in Inr (l, if length l > 1 then Max (rp_lsn ` set l) else pg_last_operation pg)))"

section \<open>The handler\<close>

record sync_handler =
  sh_synchronous_standby_names :: string
  sh_ssn_data :: ssn
  sh_primary_flush_lsn :: int
  sh_ready_replicas :: "int cidict"

definition SyncHandler :: sync_handler where
  "SyncHandler = \<lparr>sh_synchronous_standby_names = [], sh_ssn_data = EMPTY_SSN, sh_primary_flush_lsn = 0,
     sh_ready_replicas = cid_of []\<rparr>"

definition handle_synchronous_standby_names_change :: "pg_view \<Rightarrow> sync_handler \<Rightarrow> sync_handler" where
  "handle_synchronous_standby_names_change pg h =
     (if pg_synchronous_standby_names pg = sh_synchronous_standby_names h then h
      else
        let data = (case parse_sync_standby_names (pg_synchronous_standby_names pg) of
                      Inr d \<Rightarrow> d | Inl _ \<Rightarrow> EMPTY_SSN);
            ready = fold (\<lambda>app_name d. if cis_contains app_name (ssn_members data) then d
                            else (case cid_delitem app_name d of Inr d' \<Rightarrow> d' | Inl _ \<Rightarrow> d))
                      (cid_keys (sh_ready_replicas h)) (sh_ready_replicas h)
        in \<lparr>sh_synchronous_standby_names = pg_synchronous_standby_names pg, sh_ssn_data = data,
            sh_primary_flush_lsn = pg_last_operation pg, sh_ready_replicas = ready\<rparr>)"

definition becomes_ready :: "global_config \<Rightarrow> pg_view \<Rightarrow> 'w cluster \<Rightarrow> sync_handler \<Rightarrow> replica \<Rightarrow> bool" where
  "becomes_ready gc pg c h r \<longleftrightarrow>
     \<not> cid_contains (rp_application_name r) (sh_ready_replicas h)
     \<and> cis_contains (rp_application_name r) (ssn_members (sh_ssn_data h))
     \<and> (if is_quorum_commit_mode gc
        then rp_lsn r \<ge> sh_primary_flush_lsn h
          \<and> (rp_sync_state r = ''quorum''
             \<or> \<not> pg_supports_quorum_commit pg \<and> rp_sync_state r \<in> {''sync'', ''potential''})
        else sync_matches (c_sync c) (Some (rp_application_name r)) False
          \<or> rp_sync_state r = ''sync'' \<and> rp_lsn r \<ge> sh_primary_flush_lsn h)"

definition process_replica_readiness ::
  "global_config \<Rightarrow> pg_view \<Rightarrow> 'w cluster \<Rightarrow> replica list \<Rightarrow> sync_handler \<Rightarrow> sync_handler" where
  "process_replica_readiness gc pg c rs h =
     fold (\<lambda>r h. if becomes_ready gc pg c h r
                 then h\<lparr>sh_ready_replicas := cid_setitem (rp_application_name r) (rp_pid r) (sh_ready_replicas h)\<rparr>
                 else h) rs h"

record sync_state_view =
  sv_sync_type :: sync_type
  sv_numsync :: int
  sv_sync :: ciset
  sv_sync_confirmed :: ciset
  sv_active :: ciset

text \<open>The loop that picks the active and the confirmed standbys.\<close>

fun pick_standbys ::
  "bool \<Rightarrow> int \<Rightarrow> int \<Rightarrow> int \<Rightarrow> int cidict \<Rightarrow> replica list \<Rightarrow> ciset \<times> ciset \<Rightarrow> ciset \<times> ciset" where
  "pick_standbys quorum_mode count maxlag max_lsn ready [] acc = acc"
| "pick_standbys quorum_mode count maxlag max_lsn ready (r # rs) (active, confirmed) =
     (if maxlag \<le> 0 \<or> max_lsn - rp_lsn r \<le> maxlag then
        (if quorum_mode then
           (if \<not> rp_nofailover r \<or> int (cis_len active) < count
            then pick_standbys quorum_mode count maxlag max_lsn ready rs
                   (cis_add (rp_application_name r) active,
                    if cid_contains (rp_application_name r) ready then cis_add (rp_application_name r) confirmed else confirmed)
            else pick_standbys quorum_mode count maxlag max_lsn ready rs (active, confirmed))
         else
           (let active' = cis_add (rp_application_name r) active;
                confirmed' = (if rp_sync_state r = ''sync'' \<and> cid_contains (rp_application_name r) ready
                              then cis_add (rp_application_name r) confirmed else confirmed)
            in if int (cis_len active') \<ge> count then (active', confirmed')
               else pick_standbys quorum_mode count maxlag max_lsn ready rs (active', confirmed')))
      else pick_standbys quorum_mode count maxlag max_lsn ready rs (active, confirmed))"

definition current_state ::
  "global_config \<Rightarrow> pg_view \<Rightarrow> 'w cluster \<Rightarrow> sync_handler \<Rightarrow> (py_error + sync_state_view) \<times> sync_handler" where
  "current_state gc pg c h =
     (let h1 = handle_synchronous_standby_names_change pg h in
      case replica_list pg c of
        Inl e \<Rightarrow> (Inl e, h1)
      | Inr (rs, max_lsn) \<Rightarrow>
          (let h2 = process_replica_readiness gc pg c rs h1 in
           case (if pg_supports_multiple_sync pg then synchronous_node_count gc else Inr 1) of
             Inl e \<Rightarrow> (Inl e, h2)
           | Inr count \<Rightarrow>
             (case maximum_lag_on_syncnode gc of
                Inl e \<Rightarrow> (Inl e, h2)
              | Inr maxlag \<Rightarrow>
                  (case pick_standbys (is_quorum_commit_mode gc) count maxlag max_lsn (sh_ready_replicas h2)
                          (sort_key rp_nofailover rs) (cis_of [], cis_of []) of
                     (active, confirmed) \<Rightarrow>
                       (Inr \<lparr>sv_sync_type = ssn_type (sh_ssn_data h2), sv_numsync = ssn_num (sh_ssn_data h2),
                             sv_sync = (if ssn_has_star (sh_ssn_data h2) then cis_of [] else ssn_members (sh_ssn_data h2)),
                             sv_sync_confirmed = confirmed, sv_active = active\<rparr>, h2)))))"

text \<open>The value written by \<open>set_synchronous_standby_names\<close>; \<open>None\<close> removes the parameter.\<close>

definition sync_param :: "global_config \<Rightarrow> pg_view \<Rightarrow> string list \<Rightarrow> int option \<Rightarrow> string option \<times> bool" where
  "sync_param gc pg sync num =
     (let has_asterisk = (''*'' \<in> set sync \<or> (case num of None \<Rightarrow> False | Some n \<Rightarrow> n \<ge> 1 \<and> sync = []));
          names = (if has_asterisk then [''*''] else map quote_standby_name (sort sync));
          multiple = (pg_supports_multiple_sync pg \<and> length names > 1);
          num' = (if multiple \<and> num = None then Some (int (length names)) else num);
          param = (if multiple then Some (join '','' names) else (case names of [] \<Rightarrow> None | x # _ \<Rightarrow> Some x))
      in (if pg_supports_multiple_sync pg \<and> (is_quorum_commit_mode gc \<and> names \<noteq> [] \<or> length names > 1)
          then Some ((if is_quorum_commit_mode gc \<and> pg_supports_quorum_commit pg then ''ANY '' else [])
                     @ (case num' of None \<Rightarrow> ''None'' | Some n \<Rightarrow> show_int n) @ '' ('' @ str_or_empty param @ '')'')
          else param, has_asterisk))"

text \<open>
  \<open>changed\<close> says whether the configuration accepted the new value on a running primary, and
  \<open>pg'\<close> is what PostgreSQL reports after the reload.
\<close>

definition set_synchronous_standby_names ::
  "global_config \<Rightarrow> pg_view \<Rightarrow> string list \<Rightarrow> int option \<Rightarrow> bool \<Rightarrow> int \<Rightarrow> pg_view \<Rightarrow> sync_handler
   \<Rightarrow> string option \<times> sync_handler" where
  "set_synchronous_standby_names gc pg sync num changed primary_timeline pg' h =
     (case sync_param gc pg sync num of (param, has_asterisk) \<Rightarrow>
        (param, if \<not> changed \<or> has_asterisk then h
                else if primary_timeline > 0 then handle_synchronous_standby_names_change pg' h else h))"

section \<open>Cascading replication\<close>

definition cascade_step :: "member cidict \<Rightarrow> member \<Rightarrow> member option" where
  "cascade_step members m = (case replicatefrom (m_tags m) of
     None \<Rightarrow> None
   | Some r \<Rightarrow> if r = [] then None else (case cid_get members r of
       None \<Rightarrow> None | Some m' \<Rightarrow> if \<not> str_bool (replicatefrom (m_tags m')) then None else Some m'))"

lemma should_cascade_Suc:
  "should_cascade (Suc fuel) members replication m = (case cascade_step members m of
     Some m' \<Rightarrow> should_cascade fuel members replication m'
   | None \<Rightarrow> should_cascade 1 members replication m)"
  by (auto simp: cascade_step_def split: option.splits)

text \<open>The members visited by the recursion.\<close>

fun cascade_chain :: "nat \<Rightarrow> member cidict \<Rightarrow> member \<Rightarrow> member option" where
  "cascade_chain 0 members m = Some m"
| "cascade_chain (Suc k) members m = Option.bind (cascade_chain k members m) (cascade_step members)"

lemma cascade_chain_Suc: "cascade_chain (Suc k) members m = Option.bind (cascade_step members m) (cascade_chain k members)"
proof (induction k)
  case (Suc k)
  then show ?case by (metis (no_types, lifting) bind_assoc cascade_chain.simps(2) ext)
qed (cases "cascade_step members m"; simp)

lemma should_cascade_None: "should_cascade fuel members replication m = None \<longleftrightarrow> cascade_chain fuel members m \<noteq> None"
proof (induction fuel arbitrary: m)
  case (Suc fuel)
  have one: "cascade_step members m = None \<Longrightarrow> should_cascade 1 members replication m \<noteq> None"
    by (auto simp: cascade_step_def split: option.splits if_splits)
  show ?case
    unfolding should_cascade_Suc cascade_chain_Suc
    using Suc one by (cases "cascade_step members m") auto
qed simp

lemma chain_prefix: "cascade_chain k members m \<noteq> None \<Longrightarrow> j \<le> k \<Longrightarrow> cascade_chain j members m \<noteq> None"
proof (induction k)
  case (Suc k)
  then show ?case by (cases "j = Suc k") (auto simp: Option.bind_eq_Some_conv)
qed simp

lemma chain_add: "cascade_chain (i + j) members m = Option.bind (cascade_chain i members m) (cascade_chain j members)"
proof (induction j)
  case 0
  show ?case by (cases "cascade_chain i members m") auto
next
  case (Suc j)
  then show ?case by (cases "cascade_chain i members m") auto
qed

lemma cid_get_in_values: "cid_get d k = Some v \<Longrightarrow> v \<in> set (cid_items_values d)"
  by (force simp: cid_get_values cid_items_values_def dest: map_of_SomeD)

lemma chain_in_values: "cascade_chain (Suc k) members m = Some x \<Longrightarrow> x \<in> set (cid_items_values members)"
  by (auto simp: Option.bind_eq_Some_conv cascade_step_def dest: cid_get_in_values split: option.splits if_splits)

lemma chain_repeats:
  assumes "cascade_chain (Suc (cid_len members)) members m \<noteq> None"
  shows "\<exists>i j. i < j \<and> cascade_chain i members m = cascade_chain j members m \<and> cascade_chain j members m \<noteq> None"
proof -
  let ?f = "\<lambda>k. the (cascade_chain (Suc k) members m)" and ?V = "set (cid_items_values members)"
  have def: "cascade_chain (Suc k) members m = Some (?f k)" if "k \<le> cid_len members" for k
  proof -
    have "cascade_chain (Suc k) members m \<noteq> None" using chain_prefix [OF assms, of "Suc k"] that by simp
    then show ?thesis by (metis option.collapse)
  qed
  have "?f ` {0..cid_len members} \<subseteq> ?V" using def chain_in_values by fastforce
  moreover have "card ?V \<le> cid_len members"
    using card_length [of "cid_items_values members"] by (simp add: cid_items_values_def cid_len_def)
  ultimately have "card (?f ` {0..cid_len members}) < card {0..cid_len members}"
    by (metis List.finite_set card_atLeastAtMost card_mono diff_zero le_imp_less_Suc le_trans)
  then have "\<not> inj_on ?f {0..cid_len members}" using pigeonhole by blast
  then obtain i j where "i < j" "j \<le> cid_len members" "?f i = ?f j"
    unfolding inj_on_def by (metis atLeastAtMost_iff nat_neq_iff)
  moreover from this have "cascade_chain (Suc i) members m = Some (?f i)" "cascade_chain (Suc j) members m = Some (?f j)"
    by (intro def; simp)+
  ultimately show ?thesis by (metis Suc_mono option.distinct(1))
qed

lemma chain_forever:
  assumes ij: "i < j" "cascade_chain i members m = cascade_chain j members m" "cascade_chain j members m \<noteq> None"
  shows "cascade_chain k members m \<noteq> None"
proof (induction k rule: less_induct)
  case (less k)
  show ?case
  proof (cases "k \<le> j")
    case True
    then show ?thesis using chain_prefix [OF ij(3)] by simp
  next
    case False
    then have "cascade_chain k members m = cascade_chain (i + (k - j)) members m"
      using chain_add [of j "k - j" members m] chain_add [of i "k - j" members m] ij(2) by simp
    moreover have "i + (k - j) < k" using ij(1) False by simp
    ultimately show ?thesis using less by metis
  qed
qed

section \<open>Properties\<close>

text \<open>
  the recursion over \<^verbatim>\<open>replicatefrom\<close> tags that decides whether a standby cascades either returns
  within one more call than there are candidate members, or it never returns: the fuel used by the
  model loses nothing.
\<close>

theorem should_cascade_fuel_complete:
  "should_cascade fuel members replication m \<noteq> None \<Longrightarrow>
   should_cascade (Suc (cid_len members)) members replication m \<noteq> None"
  using chain_repeats chain_forever should_cascade_None by metis

theorem should_cascade_fuel_complete_witness:
  "should_cascade (Suc 2) (cid_of [(''a'', demo_member ''a'' ''b''), (''b'', Member (PInt 1) ''b'' PNone [])])
     (cid_of [(''b'', ())]) (demo_member ''a'' ''b'') \<noteq> None"
proof -
  let ?ms = "cid_of [(''a'', demo_member ''a'' ''b''), (''b'', Member (PInt 1) ''b'' PNone [])]"
  have "should_cascade 1 ?ms (cid_of [(''b'', ())]) (demo_member ''a'' ''b'') \<noteq> None" "cid_len ?ms = 2"
    by code_simp+
  then show ?thesis using should_cascade_fuel_complete [of 1 ?ms "cid_of [(''b'', ())]" "demo_member ''a'' ''b''"] by simp
qed

text \<open>
  two running members that name each other in their \<^verbatim>\<open>replicatefrom\<close> tags, or a member that names
  itself, make the decision recurse forever, so the synchronous state cannot be computed.
\<close>

theorem should_cascade_cycle_diverges:
  "should_cascade fuel (cid_of [(''a'', demo_member ''a'' ''b''), (''b'', demo_member ''b'' ''a'')])
     (cid_of [(''a'', ()), (''b'', ())]) (demo_member ''a'' ''b'') = None
   \<and> should_cascade fuel (cid_of [(''a'', demo_member ''a'' ''a'')]) (cid_of [(''a'', ())]) (demo_member ''a'' ''a'') = None"
proof
  let ?ms = "cid_of [(''a'', demo_member ''a'' ''b''), (''b'', demo_member ''b'' ''a'')]"
  have "cascade_chain 0 ?ms (demo_member ''a'' ''b'') = cascade_chain 2 ?ms (demo_member ''a'' ''b'')"
    "cascade_chain 2 ?ms (demo_member ''a'' ''b'') \<noteq> None" by code_simp+
  then show "should_cascade fuel ?ms (cid_of [(''a'', ()), (''b'', ())]) (demo_member ''a'' ''b'') = None"
    using chain_forever [of 0 2] by (simp add: should_cascade_None)
next
  let ?ms = "cid_of [(''a'', demo_member ''a'' ''a'')]"
  have "cascade_chain 0 ?ms (demo_member ''a'' ''a'') = cascade_chain 1 ?ms (demo_member ''a'' ''a'')"
    "cascade_chain 1 ?ms (demo_member ''a'' ''a'') \<noteq> None" by code_simp+
  then show "should_cascade fuel ?ms (cid_of [(''a'', ())]) (demo_member ''a'' ''a'') = None"
    using chain_forever [of 0 1] by (simp add: should_cascade_None)
qed

section \<open>Names are read back\<close>

text \<open>
  A name that \<open>quote_standby_name\<close> leaves unquoted must not start with one of the two keywords,
  because the tokenizer does not look for the end of the word.
\<close>

definition standby_safe :: "string \<Rightarrow> bool" where
  "standby_safe x \<longleftrightarrow> quote_standby_name x \<noteq> x
     \<or> list_all ident_char x \<and> lower (take 5 x) \<noteq> ''first'' \<and> lower (take 3 x) \<noteq> ''any''"

definition name_tok :: "string \<Rightarrow> token" where
  "name_tok x = (if quote_standby_name x = x then TIdent else TDquot, quote_standby_name x)"

fun name_toks :: "string list \<Rightarrow> token list" where
  "name_toks [] = []"
| "name_toks [x] = [name_tok x]"
| "name_toks (x # y # ys) = name_tok x # (TComma, '','') # name_toks (y # ys)"

lemma double_quotes_simps [simp]:
  "double_quotes [] = []"
  "double_quotes (c # s) = (if c = dq_char then [c, c] else [c]) @ double_quotes s"
  by (simp_all add: double_quotes_def)

lemma undouble_double: "undouble (double_quotes s) = s"
proof (induction s)
  case (Cons c s)
  show ?case
  proof (cases "c = dq_char")
    case False
    then have "undouble (c # t) = c # undouble t" for t by (cases t) auto
    with Cons False show ?thesis by simp
  qed (use Cons in simp)
qed simp

lemma dquot_len_double:
  "rest = [] \<or> hd rest \<noteq> dq_char \<Longrightarrow> dquot_len n fb (double_quotes s @ dq_char # rest) = Some (Suc (n + length (double_quotes s)))"
proof (induction s arbitrary: n fb)
  case Nil
  then show ?case by (cases rest) auto
next
  case (Cons c s)
  obtain d cs where t: "double_quotes s @ dq_char # rest = d # cs" by (cases "double_quotes s") auto
  show ?case
  proof (cases "c = dq_char")
    case True
    then show ?thesis using Cons.IH [OF Cons.prems, of "n + 2" "Some (Suc n)"] by simp
  next
    case False
    then show ?thesis using Cons.IH [OF Cons.prems, of "Suc n" fb] t by simp
  qed
qed

lemma quote_standby_cases:
  obtains (plain) "quote_standby_name x = x" "x \<noteq> []" "ident_start (hd x)"
  | (quoted) "quote_standby_name x = quote_ident x" "quote_ident x \<noteq> x"
proof (cases "standby_name_re x \<and> lower x \<notin> {''first'', ''any''}")
  case True
  then have "x \<noteq> [] \<and> ident_start (hd x)"
    by (cases x) (auto simp: standby_name_re_def Let_def split: if_splits)
  then show thesis using True plain by (simp add: quote_standby_name_def)
next
  case False
  have "length x \<le> length (double_quotes x)" for x by (induction x) auto
  then have "length (quote_ident x) \<noteq> length x" by (simp add: quote_ident_def) (metis Suc_n_not_le_n le_SucI)
  then have "quote_ident x \<noteq> x" by metis
  then show thesis using False by (intro quoted) (simp_all add: quote_standby_name_def)
qed

lemma not_keyword:
  "s \<noteq> [] \<Longrightarrow> lower_char (hd s) \<notin> {CHR ''f'', CHR ''a''} \<Longrightarrow> lower (take 5 s) \<noteq> ''first'' \<and> lower (take 3 s) \<noteq> ''any''"
  by (cases s) (auto simp: lower_def numeral_eq_Suc)

lemma next_token_dquot: "dquot_len 0 None t = Some n \<Longrightarrow> next_token (dq_char # t) = (TDquot, Suc n)"
proof -
  assume d: "dquot_len 0 None t = Some n"
  have "\<not> is_space dq_char" "\<not> ident_start dq_char" "lower_char dq_char \<notin> {CHR ''f'', CHR ''a''}" by code_simp+
  then show ?thesis using d not_keyword [of "dq_char # t"] unfolding next_token_def list.sel by simp
qed

lemma lower_not_letter: "c = CHR '','' \<or> c = CHR '')'' \<Longrightarrow> lower_char c = c"
proof -
  have "lower_char (CHR '','') = CHR '',''" "lower_char (CHR '')'') = CHR '')''" by code_simp+
  then show "c = CHR '','' \<or> c = CHR '')'' \<Longrightarrow> lower_char c = c" by auto
qed

lemma keyword_prefix:
  assumes "lower (take k x) \<noteq> w" "length w = k" "CHR '','' \<notin> set w" "CHR '')'' \<notin> set w"
    "rest \<noteq> []" "hd rest = CHR '','' \<or> hd rest = CHR '')''"
  shows "lower (take k (x @ rest)) \<noteq> w"
proof (cases "k \<le> length x")
  case False
  then have "hd rest \<in> set (take (k - length x) rest)" using assms(5) by (cases rest; cases "k - length x") auto
  then have "lower_char (hd rest) \<in> set (lower (take k (x @ rest)))" by (auto simp: lower_def)
  then show ?thesis using assms(3,4,6) lower_not_letter [of "hd rest"] by auto
qed (use assms in simp)

lemma next_token_name:
  assumes safe: "standby_safe x" and rest: "rest \<noteq> []" "hd rest = CHR '','' \<or> hd rest = CHR '')''"
  shows "next_token (quote_standby_name x @ rest) = (fst (name_tok x), length (quote_standby_name x))"
proof (cases x rule: quote_standby_cases)
  case plain
  then have id: "list_all ident_char x" "lower (take 5 x) \<noteq> ''first''" "lower (take 3 x) \<noteq> ''any''"
    using safe by (auto simp: standby_safe_def)
  have kw: "lower (take 5 (x @ rest)) \<noteq> ''first''" "lower (take 3 (x @ rest)) \<noteq> ''any''"
    using keyword_prefix [OF id(2) _ _ _ rest] keyword_prefix [OF id(3) _ _ _ rest] by simp_all
  have "\<not> ident_char (hd rest)" using rest(2) by (elim disjE; simp; code_simp)
  then have tw: "takeWhile ident_char (x @ rest) = x"
    using id(1) rest(1) by (cases rest) (auto simp: takeWhile_append list_all_iff)
  have "\<not> is_space (hd x)"
    using plain(3) by (auto simp: ident_start_def is_alpha_def is_space_def Let_def)
  then show ?thesis using plain kw tw by (simp add: next_token_def name_tok_def)
next
  case quoted
  have q: "quote_ident x @ rest = dq_char # (double_quotes x @ dq_char # rest)" by (simp add: quote_ident_def)
  have "hd rest \<noteq> dq_char" using rest(2) by auto
  then have "dquot_len 0 None (double_quotes x @ dq_char # rest) = Some (Suc (length (double_quotes x)))"
    using dquot_len_double [of rest 0 None x] by simp
  moreover have "fst (name_tok x) = TDquot" using quoted by (simp add: name_tok_def)
  ultimately show ?thesis
    unfolding quoted(1) q by (simp add: next_token_dquot quote_ident_def)
qed

lemma tokenize_step: "s \<noteq> [] \<Longrightarrow> next_token s = (k, n) \<Longrightarrow> k \<noteq> TSpace \<Longrightarrow> tokenize s = (k, take n s) # tokenize (drop n s)"
  by (subst tokenize.simps) simp

lemma quote_nonempty: "quote_standby_name x \<noteq> []"
  by (cases x rule: quote_standby_cases) (auto simp: quote_ident_def)

lemma tokenize_name:
  assumes "standby_safe x" "rest \<noteq> []" "hd rest = CHR '','' \<or> hd rest = CHR '')''"
  shows "tokenize (quote_standby_name x @ rest) = name_tok x # tokenize rest"
proof -
  have "fst (name_tok x) \<noteq> TSpace" by (simp add: name_tok_def)
  moreover have "name_tok x = (fst (name_tok x), quote_standby_name x)" by (simp add: name_tok_def)
  ultimately show ?thesis
    using tokenize_step [OF _ next_token_name [OF assms]] quote_nonempty [of x] by simp
qed

lemma next_token_punct: "next_token (CHR '','' # s) = (TComma, 1)" "next_token (CHR '')'' # s) = (TParenEnd, 1)"
  "next_token (CHR ''('' # s) = (TParenStart, 1)"
proof -
  have c: "\<not> is_space c \<and> \<not> ident_start c \<and> \<not> is_digit c \<and> lower_char c \<notin> {CHR ''f'', CHR ''a''}"
    if "c \<in> {CHR '','', CHR '')'', CHR ''(''}" for c
    using that by (elim insertE emptyE; simp only:; code_simp)
  then show "next_token (CHR '','' # s) = (TComma, 1)" "next_token (CHR '')'' # s) = (TParenEnd, 1)"
    "next_token (CHR ''('' # s) = (TParenStart, 1)"
    using not_keyword [of "CHR '','' # s"] not_keyword [of "CHR '')'' # s"] not_keyword [of "CHR ''('' # s"]
    unfolding next_token_def list.sel by simp_all
qed

lemma tokenize_names:
  "xs \<noteq> [] \<Longrightarrow> \<forall>x \<in> set xs. standby_safe x \<Longrightarrow>
   tokenize (join '','' (map quote_standby_name xs) @ '')'') = name_toks xs @ [(TParenEnd, '')'')]"
proof (induction xs rule: name_toks.induct)
  case (2 x)
  have "tokenize '')'' = [(TParenEnd, '')'')]"
    using tokenize_step [OF _ next_token_punct(2), of "[]"] by (simp add: tokenize.simps [of "[]"])
  then show ?case using 2 by (simp add: tokenize_name)
next
  case (3 x y ys)
  have "tokenize ('','' @ join '','' (map quote_standby_name (y # ys)) @ '')'') =
      (TComma, '','') # tokenize (join '','' (map quote_standby_name (y # ys)) @ '')'')"
    using tokenize_step [OF _ next_token_punct(1)] by simp
  then show ?case using 3 by (simp add: tokenize_name)
qed simp

lemma parse_synclist_names:
  "parse_synclist False (name_toks xs) (h, ms) = Inr (h, fold cis_add xs ms)"
proof (induction xs arbitrary: ms rule: name_toks.induct)
  have one: "parse_synclist False (name_tok x # ts) (h, ms) = parse_synclist True ts (h, cis_add x ms)" for x ts ms
  proof (cases x rule: quote_standby_cases)
    case quoted
    then have "name_tok x = (TDquot, quote_ident x)" by (simp add: name_tok_def)
    then show ?thesis by (simp add: quote_ident_def undouble_double)
  qed (simp add: name_tok_def)
  {
    case 1
    then show ?case by simp
  next
    case (2 x)
    then show ?case by (simp add: one)
  next
    case (3 x y ys)
    have "parse_synclist True ((TComma, '','') # name_toks (y # ys)) acc = parse_synclist False (name_toks (y # ys)) acc" for acc
      by (cases "name_toks (y # ys)"; cases ys) auto
    then show ?case using 3 by (simp add: one)
  }
qed

lemma tokenize_space:
  assumes "rest \<noteq> []" "\<not> is_space (hd rest)"
  shows "tokenize (CHR '' '' # rest) = tokenize rest"
proof -
  have c: "is_space (CHR '' '')" "lower_char (CHR '' '') \<notin> {CHR ''f'', CHR ''a''}" by code_simp+
  have "takeWhile is_space rest = []" using assms by (cases rest) auto
  then have "next_token (CHR '' '' # rest) = (TSpace, 1)"
    using c not_keyword [of "CHR '' '' # rest"] unfolding next_token_def list.sel by simp
  then show ?thesis by (subst tokenize.simps) simp
qed

lemma tokenize_number:
  assumes "0 \<le> n" "rest \<noteq> []" "\<not> is_digit (hd rest)"
  shows "tokenize (show_nat n @ rest) = (TNum, show_nat n) # tokenize rest"
proof -
  have h: "is_digit (hd (show_nat n))" using assms(1) by (rule show_nat_parts)
  have tw: "takeWhile is_digit (show_nat n @ rest) = show_nat n"
    using show_nat_digits [OF assms(1)] assms(2,3) by (cases rest) (auto simp: takeWhile_append list_all_iff)
  let ?c = "hd (show_nat n)"
  have "\<not> ident_start ?c \<and> ?c \<noteq> dq_char \<and> ?c \<noteq> CHR ''*'' \<and> lower_char ?c \<notin> {CHR ''f'', CHR ''a''}"
  proof -
    have "lower_char ?c = ?c" using h by (auto simp: lower_char_def is_digit_def Let_def)
    moreover have "\<not> is_digit dq_char" "\<not> is_digit (CHR ''*'')" "\<not> is_digit (CHR ''f'')" "\<not> is_digit (CHR ''a'')"
      "\<not> is_digit (CHR ''_'')" by code_simp+
    moreover have "\<not> is_alpha ?c" using h by (auto simp: is_alpha_def is_digit_def Let_def)
    ultimately show ?thesis using h unfolding ident_start_def by auto
  qed
  then have "next_token (show_nat n @ rest) = (TNum, length (show_nat n))"
    using h tw not_keyword [of "show_nat n @ rest"] unfolding next_token_def by simp
  then show ?thesis using tokenize_step [of "show_nat n @ rest"] by simp
qed

lemma tokenize_ANY: "tokenize (''ANY '' @ rest) = (TAny, ''ANY'') # tokenize (CHR '' '' # rest)"
proof -
  have l: "lower_char (CHR ''A'') = CHR ''a''" "lower_char (CHR ''N'') = CHR ''n''" "lower_char (CHR ''Y'') = CHR ''y''"
    by code_simp+
  then have "next_token (''ANY '' @ rest) = (TAny, 3)" by (simp add: next_token_def lower_def numeral_eq_Suc)
  then show ?thesis using tokenize_step [of "''ANY '' @ rest" TAny 3] by (simp add: numeral_eq_Suc)
qed

text \<open>
  C26: in quorum commit mode the value written to \<^verbatim>\<open>synchronous_standby_names\<close> is read back as what was
  asked for: the quorum method, the number and, ignoring letter case, exactly the given names, however
  many and whatever characters they contain, as long as no name that needs no quoting starts with one
  of the keywords \<^verbatim>\<open>first\<close> and \<^verbatim>\<open>any\<close>.
\<close>

theorem sync_names_roundtrip:
  assumes mode: "is_quorum_commit_mode gc" "pg_supports_quorum_commit pg" "pg_supports_multiple_sync pg"
    and sync: "sync \<noteq> []" "''*'' \<notin> set sync" "\<forall>x \<in> set sync. standby_safe x" and n: "0 \<le> n"
  shows "\<exists>p. sync_param gc pg sync (Some n) = (Some p, False)
    \<and> parse_sync_standby_names p = Inr (SSN SQuorum False n (cis_of (sort sync)))"
proof -
  let ?names = "map quote_standby_name (sort sync)"
  let ?body = "join '','' ?names @ '')''"
  define p where "p = ''ANY '' @ show_nat n @ '' ('' @ ?body"
  have ne: "sort sync \<noteq> []" using sync(1) by (metis length_0_conv length_sort)
  have "(if 1 < length ?names then Some (join '','' ?names) else (case ?names of [] \<Rightarrow> None | x # _ \<Rightarrow> Some x)) = Some (join '','' ?names)"
    using ne by (cases "sort sync"; cases "tl (sort sync)") auto
  then have param: "sync_param gc pg sync (Some n) = (Some p, False)"
    using mode sync n ne
    by (cases "Suc 0 < length sync") (simp_all add: sync_param_def Let_def p_def str_or_empty_def show_int_def)
  have sp: "is_space (CHR '' '')" "\<not> is_digit (CHR '' '')" "\<not> is_space (CHR ''('')" by code_simp+
  have digit: "\<not> is_space (hd (show_nat n @ '' ('' @ ?body))" using show_nat_parts(1) [OF n] by simp
  have "tokenize p = (TAny, ''ANY'') # (TNum, show_nat n) # (TParenStart, ''('') # tokenize ?body"
    unfolding p_def tokenize_ANY
    using tokenize_space [of "show_nat n @ '' ('' @ ?body"] digit tokenize_number [OF n, of "'' ('' @ ?body"]
      tokenize_space [of "''('' @ ?body"] tokenize_step [OF _ next_token_punct(3), of ?body] sp by simp
  moreover have "tokenize ?body = name_toks (sort sync) @ [(TParenEnd, '')'')]"
    using ne sync(3) by (intro tokenize_names) simp_all
  ultimately have toks: "tokenize p = (TAny, ''ANY'') # (TNum, show_nat n) # (TParenStart, ''('') # name_toks (sort sync) @ [(TParenEnd, '')'')]"
    by simp
  have "parse_sync_standby_names p = Inr (SSN SQuorum False n (cis_of (sort sync)))"
    unfolding parse_sync_standby_names_def toks
    using parse_synclist_names [of "sort sync" False "cis_of []"] n
    by (simp add: Let_def butlast_append numeral_eq_Suc cis_of_def)
  with param show ?thesis by blast
qed

definition demo_pg :: pg_view where
  "demo_pg = \<lparr>pg_name = ''a'', pg_synchronous_commit = ''on'', pg_stat_replication = [], pg_last_operation = 0,
     pg_supports_quorum_commit = True, pg_supports_multiple_sync = True, pg_synchronous_standby_names = []\<rparr>"

theorem sync_names_roundtrip_witness:
  "\<exists>p. sync_param [(''synchronous_mode'', PStr ''quorum'')] demo_pg [''node-2'', ''b''] (Some 1) = (Some p, False)
    \<and> parse_sync_standby_names p = Inr (SSN SQuorum False 1 (cis_of [''b'', ''node-2'']))"
proof -
  let ?gc = "[(''synchronous_mode'', PStr ''quorum'')]"
  have "is_quorum_commit_mode ?gc" "pg_supports_quorum_commit demo_pg" "pg_supports_multiple_sync demo_pg"
    "\<forall>x \<in> set [''node-2'', ''b'']. standby_safe x" "sort [''node-2'', ''b''] = [''b'', ''node-2'']" "''*'' \<notin> set [''node-2'', ''b'']"
    by code_simp+
  with sync_names_roundtrip [of ?gc demo_pg "[''node-2'', ''b'']" 1] show ?thesis by auto
qed

text \<open>
  the exception is real. A standby whose name starts with a keyword, such as \<^verbatim>\<open>anyhost\<close>, is written
  unquoted, the tokenizer splits the name after the keyword, and the value Patroni itself has written
  is rejected; the handler then takes synchronous replication to be off.
\<close>

theorem sync_names_keyword_prefix_rejected:
  "sync_param [(''synchronous_mode'', PStr ''quorum'')] demo_pg [''anyhost'', ''b''] (Some 1) = (Some ''ANY 1 (anyhost,b)'', False)
   \<and> parse_sync_standby_names ''ANY 1 (anyhost,b)'' = Inl ValueError
   \<and> sh_ssn_data (handle_synchronous_standby_names_change
        (demo_pg\<lparr>pg_synchronous_standby_names := ''ANY 1 (anyhost,b)''\<rparr>) SyncHandler) = EMPTY_SSN"
  by (intro conjI; code_simp)

section \<open>Choice of standbys\<close>

text \<open>What holds of the pair of active and confirmed standbys while they are collected.\<close>

definition picked_ok :: "int cidict \<Rightarrow> ciset \<times> ciset \<Rightarrow> bool" where
  "picked_ok ready p \<longleftrightarrow> cis_inv (fst p) \<and> cis_inv (snd p) \<and> cis_abs (snd p) \<subseteq> cis_abs (fst p)
     \<and> (\<forall>x \<in> cis_abs (snd p). \<exists>n. lower n = x \<and> cid_contains n ready)"

lemma picked_ok_add:
  "picked_ok ready (a, c) \<Longrightarrow> picked_ok ready (cis_add n a, c)"
  "picked_ok ready (a, c) \<Longrightarrow> cid_contains n ready \<Longrightarrow> picked_ok ready (cis_add n a, cis_add n c)"
  by (auto simp: picked_ok_def cis_abs_add)

lemma pick_standbys_ok:
  "picked_ok ready (a, c) \<Longrightarrow> picked_ok ready (pick_standbys qm count maxlag max_lsn ready rs (a, c))"
proof (induction rs arbitrary: a c)
  case (Cons r rs)
  then show ?case by (auto simp: Let_def picked_ok_add)
qed simp

lemma cis_len_add_le: "cis_inv a \<Longrightarrow> int (cis_len (cis_add n a)) \<le> int (cis_len a) + 1"
  by (simp add: cis_len_abs cis_abs_add card_insert_if)

lemma pick_standbys_count:
  assumes "cis_inv a" "int (cis_len a) < max 1 count"
  shows "int (cis_len (fst (pick_standbys False count maxlag max_lsn ready rs (a, c)))) \<le> max 1 count"
  using assms
proof (induction rs arbitrary: a c)
  case (Cons r rs)
  have "int (cis_len (cis_add n a)) \<le> max 1 count" for n
    using cis_len_add_le [OF Cons.prems(1), of n] Cons.prems(2) by linarith
  moreover have "\<not> count \<le> int (cis_len (cis_add n a)) \<Longrightarrow> int (cis_len (cis_add n a)) < max 1 count" for n
    by linarith
  ultimately show ?case using Cons by (auto simp: Let_def)
qed simp

lemma current_state_picked:
  assumes run: "current_state gc pg c h = (Inr v, h')"
  obtains rs max_lsn count maxlag where
    "(if pg_supports_multiple_sync pg then synchronous_node_count gc else Inr 1) = Inr count"
    "pick_standbys (is_quorum_commit_mode gc) count maxlag max_lsn (sh_ready_replicas h')
        (sort_key rp_nofailover rs) (cis_of [], cis_of []) = (sv_active v, sv_sync_confirmed v)"
    "picked_ok (sh_ready_replicas h') (sv_active v, sv_sync_confirmed v)"
proof -
  obtain rs max_lsn count maxlag where
    c: "(if pg_supports_multiple_sync pg then synchronous_node_count gc else Inr 1) = Inr count"
    and p: "pick_standbys (is_quorum_commit_mode gc) count maxlag max_lsn (sh_ready_replicas h')
              (sort_key rp_nofailover rs) (cis_of [], cis_of []) = (sv_active v, sv_sync_confirmed v)"
    using run by (auto simp: current_state_def Let_def split: sum.splits prod.splits)
  have e: "picked_ok (sh_ready_replicas h') (cis_of [], cis_of [])" by (simp add: picked_ok_def cis_abs_of)
  have "picked_ok (sh_ready_replicas h') (sv_active v, sv_sync_confirmed v)"
    unfolding p [symmetric] by (rule pick_standbys_ok [OF e])
  then show thesis using that c p by blast
qed

lemma current_state_confirmed:
  assumes "current_state gc pg c h = (Inr v, h')" "x \<in> cis_abs (sv_sync_confirmed v)"
  shows "\<exists>n. lower n = x \<and> cid_contains n (sh_ready_replicas h')"
  using current_state_picked [OF assms(1)] assms(2) by (metis picked_ok_def snd_conv)

text \<open>
  the synchronous state that drives the resolver. The confirmed standbys are among the active
  ones and every one of them is recorded as having caught up; without quorum commit no more standbys
  are active than configured.
\<close>

theorem current_state_correct:
  assumes run: "current_state gc pg c h = (Inr v, h')"
  shows "cis_abs (sv_sync_confirmed v) \<subseteq> cis_abs (sv_active v)
    \<and> (\<forall>x \<in> cis_abs (sv_sync_confirmed v). \<exists>n. lower n = x \<and> cid_contains n (sh_ready_replicas h'))
    \<and> (\<not> is_quorum_commit_mode gc \<longrightarrow> pg_supports_multiple_sync pg \<longrightarrow> synchronous_node_count gc = Inr k \<longrightarrow>
         int (cis_len (sv_active v)) \<le> max 1 k)"
proof -
  obtain rs max_lsn count maxlag where
    c: "(if pg_supports_multiple_sync pg then synchronous_node_count gc else Inr 1) = Inr count"
    and p: "pick_standbys (is_quorum_commit_mode gc) count maxlag max_lsn (sh_ready_replicas h')
              (sort_key rp_nofailover rs) (cis_of [], cis_of []) = (sv_active v, sv_sync_confirmed v)"
    and ok: "picked_ok (sh_ready_replicas h') (sv_active v, sv_sync_confirmed v)"
    by (rule current_state_picked [OF run])
  have "int (cis_len (sv_active v)) \<le> max 1 count" if "\<not> is_quorum_commit_mode gc"
  proof -
    have "int (cis_len (cis_of [])) < max 1 count" by (simp add: cis_len_abs cis_abs_of)
    then show ?thesis
      using pick_standbys_count [OF cis_of_inv, of "[]" count] p that by (metis (full_types) fst_conv)
  qed
  then show ?thesis using c ok by (auto simp: picked_ok_def)
qed

definition demo_row :: "string \<Rightarrow> repl_row" where
  "demo_row n = \<lparr>r_pid = 1, r_application_name = n, r_sync_state = ''quorum'', r_write_lsn = Some 8, r_flush_lsn = Some 8,
     r_replay_lsn = Some 8\<rparr>"

definition demo_standby :: "string \<Rightarrow> member" where
  "demo_standby n = Member (PInt 1) n PNone [(''state'', PStr ''running'')]"

theorem current_state_correct_witness:
  "\<exists>v h'. current_state [(''synchronous_mode'', PStr ''quorum'')]
       (demo_pg\<lparr>pg_stat_replication := [demo_row ''b'', demo_row ''c''], pg_synchronous_standby_names := ''ANY 1 (b)''\<rparr>)
       (Cluster_empty\<lparr>c_members := [demo_standby ''b'', demo_standby ''c'']\<rparr> :: unit cluster) SyncHandler = (Inr v, h')
     \<and> cis_abs (sv_sync_confirmed v) \<subseteq> cis_abs (sv_active v) \<and> cis_len (sv_active v) = 2 \<and> cis_len (sv_sync_confirmed v) = 1"
proof -
  let ?gc = "[(''synchronous_mode'', PStr ''quorum'')]"
  let ?pg = "demo_pg\<lparr>pg_stat_replication := [demo_row ''b'', demo_row ''c''], pg_synchronous_standby_names := ''ANY 1 (b)''\<rparr>"
  let ?c = "Cluster_empty\<lparr>c_members := [demo_standby ''b'', demo_standby ''c'']\<rparr> :: unit cluster"
  let ?P = "case current_state ?gc ?pg ?c SyncHandler of (Inr v, _) \<Rightarrow> cis_len (sv_active v) = 2 \<and> cis_len (sv_sync_confirmed v) = 1 | _ \<Rightarrow> False"
  have "?P" by code_simp
  then obtain v h' where run: "current_state ?gc ?pg ?c SyncHandler = (Inr v, h')"
    and n: "cis_len (sv_active v) = 2" "cis_len (sv_sync_confirmed v) = 1"
    by (auto split: prod.splits sum.splits)
  show ?thesis using current_state_correct [OF run] run n by auto
qed

text \<open>
  C32: in quorum commit mode a standby is newly recorded as synchronous only if it is listed in
  \<^verbatim>\<open>synchronous_standby_names\<close> and its position has reached the one the primary had when the list was
  changed, so no earlier commit can be missing on it.
\<close>

theorem ready_replicas_caught_up:
  assumes "is_quorum_commit_mode gc" "\<not> cid_contains n (sh_ready_replicas h)"
    "cid_contains n (sh_ready_replicas (process_replica_readiness gc pg c rs h))"
  shows "\<exists>r \<in> set rs. lower (rp_application_name r) = lower n \<and> sh_primary_flush_lsn h \<le> rp_lsn r
    \<and> cis_contains (rp_application_name r) (ssn_members (sh_ssn_data h))"
  using assms(2,3)
proof (induction rs arbitrary: h)
  case (Cons r rs)
  let ?h = "if becomes_ready gc pg c h r
            then h\<lparr>sh_ready_replicas := cid_setitem (rp_application_name r) (rp_pid r) (sh_ready_replicas h)\<rparr> else h"
  have same: "sh_primary_flush_lsn ?h = sh_primary_flush_lsn h" "sh_ssn_data ?h = sh_ssn_data h" by simp_all
  show ?case
  proof (cases "cid_contains n (sh_ready_replicas ?h)")
    case True
    then have "becomes_ready gc pg c h r" "lower (rp_application_name r) = lower n"
      using Cons.prems(1) by (auto simp: cid_contains_def cid_get_setitem split: if_splits)
    then show ?thesis using assms(1) by (intro bexI [of _ r]) (auto simp: becomes_ready_def)
  next
    case False
    have "cid_contains n (sh_ready_replicas (process_replica_readiness gc pg c rs ?h))"
      using Cons.prems(2) by (simp add: process_replica_readiness_def)
    from Cons.IH [OF False this] same show ?thesis by auto
  qed
qed (simp add: process_replica_readiness_def)

theorem ready_replicas_caught_up_witness:
  "\<exists>r \<in> set [\<lparr>rp_pid = 7, rp_application_name = ''B'', rp_sync_state = ''quorum'', rp_lsn = 5, rp_nofailover = False, rp_sync_priority = 1\<rparr>].
     lower (rp_application_name r) = lower ''b'' \<and> 3 \<le> rp_lsn r"
proof -
  let ?r = "\<lparr>rp_pid = 7, rp_application_name = ''B'', rp_sync_state = ''quorum'', rp_lsn = 5, rp_nofailover = False, rp_sync_priority = 1\<rparr>"
  let ?gc = "[(''synchronous_mode'', PStr ''quorum'')]"
  let ?h = "SyncHandler\<lparr>sh_primary_flush_lsn := 3, sh_ssn_data := SSN SQuorum False 1 (cis_of [''b''])\<rparr>"
  have "is_quorum_commit_mode ?gc" "\<not> cid_contains ''b'' (sh_ready_replicas ?h)"
    "cid_contains ''b'' (sh_ready_replicas (process_replica_readiness ?gc demo_pg (Cluster_empty :: unit cluster) [?r] ?h))"
    by code_simp+
  from ready_replicas_caught_up [OF this] show ?thesis by auto
qed

section \<open>The invariant of the handler\<close>

text \<open>Standbys are recorded as ready only while they are listed in \<^verbatim>\<open>synchronous_standby_names\<close>.\<close>

definition handler_ok :: "sync_handler \<Rightarrow> bool" where
  "handler_ok h \<longleftrightarrow> (\<forall>n. cid_contains n (sh_ready_replicas h) \<longrightarrow> cis_contains n (ssn_members (sh_ssn_data h)))"

lemma handler_okD: "handler_ok h \<Longrightarrow> cid_contains n (sh_ready_replicas h) \<Longrightarrow> cis_contains n (ssn_members (sh_ssn_data h))"
  by (simp add: handler_ok_def)

lemma cid_get_delitem:
  "cid_get (case cid_delitem a d of Inr d' \<Rightarrow> d' | Inl _ \<Rightarrow> d) n = (if lower a = lower n then None else cid_get d n)"
  by (cases "dict_get (cid_values d) (lower a)") (auto simp: cid_delitem_def cid_get_values dict_get_pop dict_has_get)

lemma prune_get:
  "cid_get (fold (\<lambda>a d. if cis_contains a M then d
       else (case cid_delitem a d of Inr d' \<Rightarrow> d' | Inl _ \<Rightarrow> d)) ks d) n
   = (if \<exists>a \<in> set ks. lower a = lower n \<and> \<not> cis_contains a M then None else cid_get d n)"
  by (induction ks arbitrary: d) (auto simp: cid_get_delitem)

lemma handle_change_ok:
  assumes "handler_ok h"
  shows "handler_ok (handle_synchronous_standby_names_change pg h)"
proof (cases "pg_synchronous_standby_names pg = sh_synchronous_standby_names h")
  case True
  then show ?thesis using assms by (simp add: handle_synchronous_standby_names_change_def)
next
  case False
  let ?M = "ssn_members (case parse_sync_standby_names (pg_synchronous_standby_names pg) of Inr d \<Rightarrow> d | Inl _ \<Rightarrow> EMPTY_SSN)"
  have key: "lower n \<in> set (cid_keys (sh_ready_replicas h))" if "cid_get (sh_ready_replicas h) n = Some v" for n v
    using that by (force simp: cid_get_values cid_keys_def dest: map_of_SomeD)
  have "cis_contains n ?M" if "cid_contains n (fold (\<lambda>a d. if cis_contains a ?M then d
       else (case cid_delitem a d of Inr d' \<Rightarrow> d' | Inl _ \<Rightarrow> d)) (cid_keys (sh_ready_replicas h)) (sh_ready_replicas h))" for n
  proof -
    from that obtain v where "cid_get (sh_ready_replicas h) n = Some v"
      and listed: "\<And>a. a \<in> set (cid_keys (sh_ready_replicas h)) \<Longrightarrow> lower a = lower n \<Longrightarrow> cis_contains a ?M"
      by (auto simp only: cid_contains_def prune_get split: if_splits)
    then show ?thesis using key [of n v] listed [of "lower n"] by (simp add: cis_contains_abs lower_idem)
  qed
  then show ?thesis using False
    by (simp add: handle_synchronous_standby_names_change_def Let_def handler_ok_def)
qed

lemma readiness_ok: "handler_ok h \<Longrightarrow> handler_ok (process_replica_readiness gc pg c rs h)"
  unfolding process_replica_readiness_def
proof (induction rs arbitrary: h)
  case (Cons r rs)
  have "handler_ok (h\<lparr>sh_ready_replicas := cid_setitem (rp_application_name r) (rp_pid r) (sh_ready_replicas h)\<rparr>)"
    if "becomes_ready gc pg c h r"
    using that Cons.prems
    by (auto simp: handler_ok_def cid_contains_def cid_get_setitem becomes_ready_def cis_contains_abs)
  then show ?case using Cons by simp
qed simp

text \<open>
  C14: the invariant of the handler. It holds initially and every operation that changes the handler keeps it:
  a standby is recorded as ready only while it is listed in \<^verbatim>\<open>synchronous_standby_names\<close>. So, when the setting
  names the standbys, those reported as confirmed are among the listed ones.
\<close>

theorem sync_handler_invariant:
  "handler_ok SyncHandler
   \<and> (\<forall>h. handler_ok h \<longrightarrow>
        handler_ok (snd (set_synchronous_standby_names gc pg sync num changed timeline pg' h))
        \<and> handler_ok (snd (current_state gc pg c h))
        \<and> (\<forall>v. fst (current_state gc pg c h) = Inr v \<longrightarrow>
             \<not> ssn_has_star (sh_ssn_data (snd (current_state gc pg c h))) \<longrightarrow>
             cis_abs (sv_sync_confirmed v) \<subseteq> cis_abs (sv_sync v)))"
proof (intro conjI allI impI)
  show "handler_ok SyncHandler" by (simp add: handler_ok_def SyncHandler_def cid_contains_def cid_get_values cid_of_def)
next
  fix h assume h: "handler_ok h"
  show "handler_ok (snd (set_synchronous_standby_names gc pg sync num changed timeline pg' h))"
    using h handle_change_ok by (simp add: set_synchronous_standby_names_def split: prod.splits)
  show ok: "handler_ok (snd (current_state gc pg c h))"
    using handle_change_ok [OF h, of pg] readiness_ok [OF handle_change_ok [OF h, of pg]]
    by (auto simp: current_state_def Let_def split: sum.splits prod.splits)
  fix v assume v: "fst (current_state gc pg c h) = Inr v" "\<not> ssn_has_star (sh_ssn_data (snd (current_state gc pg c h)))"
  define h' where "h' = snd (current_state gc pg c h)"
  have run: "current_state gc pg c h = (Inr v, h')" using v(1) by (simp add: h'_def prod_eq_iff)
  then have sync: "sv_sync v = ssn_members (sh_ssn_data h')"
    using v(2) unfolding h'_def [symmetric]
    by (auto simp: current_state_def Let_def split: sum.splits prod.splits)
  show "cis_abs (sv_sync_confirmed v) \<subseteq> cis_abs (sv_sync v)"
  proof
    fix x assume "x \<in> cis_abs (sv_sync_confirmed v)"
    then obtain n where "lower n = x" "cid_contains n (sh_ready_replicas h')"
      using current_state_confirmed [OF run] by blast
    then show "x \<in> cis_abs (sv_sync v)" using handler_okD [OF ok] by (auto simp: sync h'_def cis_contains_abs)
  qed
qed

theorem sync_handler_invariant_witness:
  "handler_ok (snd (current_state [] demo_pg (Cluster_empty :: unit cluster) SyncHandler))"
  using sync_handler_invariant [of "[]" demo_pg "[]" None False 0 demo_pg "Cluster_empty :: unit cluster"] by blast

end
