(* ===== verification/Quorum.thy ===== *)
theory Quorum
  imports CaseInsensitive
begin

text \<open>
  The state machine of \<^verbatim>\<open>patroni/quorum.py\<close> that keeps \<^verbatim>\<open>synchronous_standby_names\<close> and the
  \<^verbatim>\<open>/sync\<close> key in DCS consistent. A generator method of \<^verbatim>\<open>QuorumStateResolver\<close> is a function from
  the resolver's state to the transitions it yields, the state it leaves and the exception it
  ended with, if any. An assignment that precedes a raised exception stays in the state, as in
  the source.
\<close>

section \<open>Data\<close>

datatype transition_kind = Sync | Quorum | Restart

record transition =
  transition_type :: transition_kind
  tr_leader :: string
  tr_num :: int
  tr_names :: ciset

definition Transition :: "transition_kind \<Rightarrow> string \<Rightarrow> int \<Rightarrow> ciset \<Rightarrow> transition" where
  "Transition k l n ns = \<lparr>transition_type = k, tr_leader = l, tr_num = n, tr_names = ns\<rparr>"

text \<open>\<open>QuorumError\<close> is caught inside \<open>_generate_transitions\<close>; a failed \<^verbatim>\<open>assert\<close> is not.\<close>

datatype qerror = QuorumError | QAssertionError

record qsr =
  qs_leader :: string
  qs_quorum :: int
  qs_voters :: ciset
  qs_numsync :: int
  qs_sync :: ciset
  qs_numsync_confirmed :: int
  qs_active :: ciset
  qs_sync_wanted :: int
  qs_leader_wanted :: string

definition QuorumStateResolver ::
  "string \<Rightarrow> int \<Rightarrow> string list \<Rightarrow> int \<Rightarrow> string list \<Rightarrow> int \<Rightarrow> string list \<Rightarrow> int \<Rightarrow> string \<Rightarrow> qsr" where
  "QuorumStateResolver l q vs n ss nc ac sw lw =
     \<lparr>qs_leader = l, qs_quorum = q, qs_voters = cis_of vs, qs_numsync = min n (int (length ss)),
      qs_sync = cis_of ss, qs_numsync_confirmed = nc, qs_active = cis_of ac, qs_sync_wanted = sw,
      qs_leader_wanted = lw\<rparr>"

section \<open>Generators\<close>

type_synonym gen = "qsr \<Rightarrow> transition list \<times> qsr \<times> qerror option"

definition gskip :: gen where
  "gskip s = ([], s, None)"

definition graise :: "qerror \<Rightarrow> gen" where
  "graise e s = ([], s, Some e)"

definition gyield :: "transition \<Rightarrow> gen" where
  "gyield t s = ([t], s, None)"

definition gseq :: "gen \<Rightarrow> gen \<Rightarrow> gen" where
  "gseq g h s = (case g s of
     (ts, s', Some e) \<Rightarrow> (ts, s', Some e)
   | (ts, s', None) \<Rightarrow> (case h s' of (us, s'', e) \<Rightarrow> (ts @ us, s'', e)))"

text \<open>\<open>gstate f\<close> runs the generator \<open>f s\<close> in the current state \<open>s\<close>.\<close>

definition gstate :: "(qsr \<Rightarrow> gen) \<Rightarrow> gen" where
  "gstate f s = f s s"

definition gmodify :: "(qsr \<Rightarrow> qsr) \<Rightarrow> gen" where
  "gmodify f s = ([], f s, None)"

definition gwhen :: "bool \<Rightarrow> gen \<Rightarrow> gen" where
  "gwhen b g = (if b then g else gskip)"

definition gassert :: "(qsr \<Rightarrow> bool) \<Rightarrow> gen" where
  "gassert P s = (if P s then ([], s, None) else ([], s, Some QAssertionError))"

section \<open>Invariants and elementary updates\<close>

abbreviation clen :: "ciset \<Rightarrow> int" where
  "clen s \<equiv> int (cis_len s)"

definition invariants_ok :: "qsr \<Rightarrow> bool" where
  "invariants_ok s \<longleftrightarrow>
     (let vs = cis_or (qs_voters s) (cis_of [qs_leader s]);
          ss = cis_or (qs_sync s) (cis_of [qs_leader_wanted s])
      in \<not> (cis_bool (qs_voters s) \<and> \<not> clen (cis_or vs ss) \<le> qs_quorum s + qs_numsync s + 1)
         \<and> (cis_issubset vs ss \<or> cis_issubset ss vs))"

definition check_invariants :: gen where
  "check_invariants s = (if invariants_ok s then gskip s else graise QuorumError s)"

text \<open>The assignments, the check and the final \<^verbatim>\<open>yield\<close> that both update methods end with.\<close>

definition commit_quorum :: "int \<Rightarrow> ciset \<Rightarrow> gen" where
  "commit_quorum q vs =
     gseq (gmodify (\<lambda>s. s\<lparr>qs_quorum := q, qs_voters := vs\<rparr>))
       (gseq check_invariants
         (gstate (\<lambda>s. gyield (Transition Quorum (qs_leader s) (qs_quorum s) (qs_voters s)))))"

definition commit_sync :: "int \<Rightarrow> ciset \<Rightarrow> gen" where
  "commit_sync n ss =
     gseq (gmodify (\<lambda>s. s\<lparr>qs_numsync := n, qs_sync := ss\<rparr>))
       (gseq check_invariants
         (gstate (\<lambda>s. gyield (Transition Sync (qs_leader s) (qs_numsync s) (qs_sync s)))))"

definition quorum_update :: "int \<Rightarrow> ciset \<Rightarrow> string option \<Rightarrow> bool \<Rightarrow> gen" where
  "quorum_update q vs ldr adjust_quorum s =
     (if q < 0 then graise QuorumError s
      else if q > 0 \<and> q \<ge> clen vs then graise QuorumError s
      else
        let old_leader = qs_leader s;
            s1 = (case ldr of Some l \<Rightarrow> s\<lparr>qs_leader := l\<rparr> | None \<Rightarrow> s);
            (q', vs') =
              (if ldr \<noteq> None then (q, vs)
               else if qs_numsync_confirmed s = 0 \<and> \<not> cis_bool (qs_voters s) then (0, cis_of [])
               else if adjust_quorum then (q + max (qs_numsync s - qs_numsync_confirmed s) 0, vs)
               else (q, vs))
        in if qs_leader s1 = old_leader \<and> q' = qs_quorum s1 \<and> cis_eq vs' (qs_voters s1)
           then (if cis_bool (qs_voters s1) then gskip s1
                 else gseq (gyield (Transition Restart (qs_leader s1) (qs_quorum s1) (qs_voters s1)))
                        (commit_quorum q' vs') s1)
           else commit_quorum q' vs' s1)"

definition sync_update :: "int \<Rightarrow> ciset \<Rightarrow> gen" where
  "sync_update n ss s =
     (if n < 0 then graise QuorumError s
      else if n > clen ss then graise QuorumError s
      else commit_sync n ss s)"

section \<open>The resolver\<close>

definition handle_non_steady_cases :: gen where
  "handle_non_steady_cases =
     gseq
       (gstate (\<lambda>s.
          if cis_lt (qs_sync s) (qs_voters s) then
            (let remove_from_voters = cis_sub (qs_voters s) (cis_or (qs_sync s) (qs_active s)) in
             gseq
               (gwhen (cis_bool remove_from_voters)
                 (quorum_update (clen (qs_voters s) - clen remove_from_voters - qs_numsync s)
                    (cis_sub (qs_voters s) remove_from_voters) None
                    (\<not> cis_bool (cis_sub (qs_sync s) (qs_active s)))))
               (gstate (\<lambda>s.
                  let add_to_sync = cis_sub (cis_and (qs_voters s) (qs_active s)) (qs_sync s) in
                  gwhen (cis_bool add_to_sync)
                    (sync_update (qs_numsync s) (cis_or (qs_sync s) add_to_sync)))))
          else if cis_lt (qs_voters s) (qs_sync s) then
            (let remove_from_sync = cis_sub (qs_sync s) (qs_active s);
                 ss = cis_sub (qs_sync s) remove_from_sync in
             gseq
               (gwhen (cis_bool remove_from_sync \<and> cis_bool ss
                       \<and> (\<not> cis_bool (qs_voters s) \<or> cis_bool (cis_and ss (qs_voters s))))
                 (sync_update (min (qs_numsync s) (clen (qs_sync s) - clen remove_from_sync)) ss))
               (gseq
                 (gstate (\<lambda>s.
                    let add_to_voters = cis_and (cis_sub (qs_sync s) (qs_voters s)) (qs_active s) in
                    gwhen (cis_bool add_to_voters)
                      (let vs = cis_or (qs_voters s) add_to_voters in
                       quorum_update (clen vs - qs_numsync s) vs None True)))
                 (gstate (\<lambda>s.
                    let remove_from_sync = cis_sub (qs_sync s) (qs_voters s) in
                    gwhen (cis_bool remove_from_sync)
                      (sync_update (min (qs_numsync s) (clen (qs_sync s) - clen remove_from_sync))
                         (cis_sub (qs_sync s) remove_from_sync))))))
          else gskip))
       (gseq
         (gassert (\<lambda>s. cis_eq (qs_voters s) (qs_sync s)))
         (gstate (\<lambda>s.
            if qs_quorum s + min (qs_numsync s) (qs_numsync_confirmed s)
                 - clen (cis_or (qs_voters s) (qs_sync s)) > 0 then
              (if qs_numsync s > qs_sync_wanted s then
                 sync_update (max (qs_sync_wanted s) (clen (qs_voters s) - qs_quorum s)) (qs_sync s)
               else quorum_update (clen (qs_sync s) - qs_numsync s) (qs_voters s) None True)
            else if qs_numsync s = qs_sync_wanted s
                 \<and> qs_quorum s + qs_numsync s - clen (cis_or (qs_voters s) (qs_sync s)) > 0
                 \<and> qs_numsync s > qs_numsync_confirmed s then
              quorum_update (clen (qs_sync s) - qs_numsync s) (qs_voters s) None True
            else gskip)))"

text \<open>The second half of \<open>__remove_gone_nodes\<close>, reached with the nodes still to remove.\<close>

definition remove_rest :: "ciset \<Rightarrow> gen" where
  "remove_rest to_remove = gwhen (cis_bool to_remove)
     (gseq (gassert (\<lambda>s. qs_quorum s = 0))
       (gstate (\<lambda>s.
          let n = qs_numsync s - clen to_remove;
              ss = cis_sub (qs_sync s) to_remove;
              vs = cis_sub (qs_voters s) to_remove;
              sync_decrease = n - min (qs_sync_wanted s) (clen ss);
              q = (if sync_decrease \<noteq> 0 then min sync_decrease (clen vs - 1) else 0)
          in gseq (quorum_update q vs None False) (sync_update n ss))))"

definition remove_gone_nodes :: gen where
  "remove_gone_nodes = gstate (\<lambda>s.
     let to_remove = cis_sub (qs_sync s) (qs_active s) in
     if cis_bool to_remove \<and> cis_eq (qs_sync s) to_remove then
       gseq (quorum_update 0 (cis_of []) None False) (sync_update 0 (cis_of []))
     else if cis_bool to_remove then
       (let can_reduce_quorum_by = qs_quorum s in
        if can_reduce_quorum_by \<noteq> 0 then
          (let remove = cis_of (py_take can_reduce_quorum_by (rev (sort (cis_iter to_remove))));
               ss = cis_sub (qs_sync s) remove;
               n = min (if qs_sync_wanted s > qs_numsync s then qs_sync_wanted s else qs_numsync s) (clen ss)
           in gseq (sync_update n ss)
                (gstate (\<lambda>s.
                   let vs = cis_sub (qs_voters s) remove;
                       to_remove = cis_iand to_remove (qs_sync s)
                   in gseq (quorum_update (clen vs - qs_numsync s) vs None (\<not> cis_bool to_remove))
                           (remove_rest to_remove))))
        else remove_rest to_remove)
     else gskip)"

definition add_new_nodes :: gen where
  "add_new_nodes = gstate (\<lambda>s.
     let to_add = cis_sub (qs_active s) (qs_sync s) in
     gwhen (cis_bool to_add)
       (let wanted = min (qs_sync_wanted s) (clen (cis_or (qs_sync s) to_add));
            increase_numsync_by = wanted - qs_numsync s;
            rest = (\<lambda>to_add. gwhen (cis_bool to_add) (gstate (\<lambda>s.
                      let vs = cis_or (qs_voters s) to_add in
                      gseq (quorum_update (clen vs - wanted) vs None (wanted > qs_numsync_confirmed s))
                        (gstate (\<lambda>s. sync_update wanted (cis_or (qs_sync s) to_add))))))
        in if increase_numsync_by > 0 then
             (let (add, inc) =
                (if cis_bool (qs_sync s)
                 then (let add = cis_of (py_take increase_numsync_by (sort (cis_iter to_add)))
                       in (add, clen add))
                 else (to_add, increase_numsync_by))
              in gseq (sync_update (qs_numsync s + inc) (cis_or (qs_sync s) add))
                   (gstate (\<lambda>s.
                      let vs = cis_or (qs_voters s) add in
                      gseq (quorum_update (clen vs - wanted) vs None True)
                        (gstate (\<lambda>s. rest (cis_isub to_add (qs_sync s)))))))
           else rest to_add))"

definition handle_replication_factor_change :: gen where
  "handle_replication_factor_change = gstate (\<lambda>s.
     let sync_increase = min (qs_sync_wanted s) (clen (qs_sync s)) - qs_numsync s in
     if sync_increase > 0 then
       gseq (sync_update (qs_numsync s + sync_increase) (qs_sync s))
         (gstate (\<lambda>s. quorum_update (clen (qs_voters s) - qs_numsync s) (qs_voters s) None True))
     else if sync_increase < 0 then
       gseq
         (gwhen (qs_quorum s - sync_increase < clen (qs_voters s))
           (quorum_update (clen (qs_voters s) - qs_numsync s - sync_increase) (qs_voters s) None
              (qs_sync_wanted s > qs_numsync_confirmed s)))
         (gstate (\<lambda>s. sync_update (qs_numsync s + sync_increase) (qs_sync s)))
     else gskip)"

text \<open>
  The \<^verbatim>\<open>try\<close> block of \<open>_generate_transitions\<close>. The Boolean says whether the method returns from
  inside the block.
\<close>

definition failover_block :: "qsr \<Rightarrow> (transition list \<times> qsr \<times> qerror option) \<times> bool" where
  "failover_block s =
     (if qs_leader_wanted s \<noteq> qs_leader s then
        (let vs = cis_or (cis_sub (qs_voters s) (cis_of [qs_leader_wanted s])) (cis_of [qs_leader s]);
             r = gseq (gwhen (\<not> cis_bool (qs_sync s)) (sync_update (clen vs - qs_quorum s) vs))
                   (gstate (\<lambda>s. quorum_update (qs_quorum s) vs (Some (qs_leader_wanted s)) True)) s
         in (case r of (ts, s', e) \<Rightarrow>
               (r, e = None \<and> \<not> cis_bool (cis_and (qs_sync s') (qs_active s')))))
      else (check_invariants s, False))"

definition main_block :: gen where
  "main_block =
     gseq (gassert (\<lambda>s. qs_leader s = qs_leader_wanted s))
     (gseq (gmodify (\<lambda>s.
              if qs_numsync_confirmed s = 0 \<and> cis_bool (cis_and (qs_sync s) (qs_active s))
              then s\<lparr>qs_numsync_confirmed := min (clen (cis_and (qs_sync s) (qs_active s)))
                                             (clen (qs_voters s) - qs_quorum s)\<rparr>
              else s))
     (gseq handle_non_steady_cases
     (gseq remove_gone_nodes
     (gseq add_new_nodes handle_replication_factor_change))))"

definition generate_transitions :: gen where
  "generate_transitions s =
     (case failover_block s of
        ((ts, s', None), True) \<Rightarrow> (ts, s', None)
      | ((ts, s', None), False) \<Rightarrow> (case main_block s' of (us, s'', e) \<Rightarrow> (ts @ us, s'', e))
      | ((ts, s', Some QuorumError), _) \<Rightarrow>
          (case gseq (gstate (\<lambda>s. quorum_update (clen (qs_sync s) - qs_numsync s) (qs_sync s) None True))
                  main_block s' of (us, s'', e) \<Rightarrow> (ts @ us, s'', e))
      | ((ts, s', Some QAssertionError), _) \<Rightarrow> (ts, s', Some QAssertionError))"

text \<open>
  \<open>__iter__\<close>: of consecutive transitions of one type only the last is kept, and the iteration
  stops after a \<open>restart\<close>.
\<close>

fun merge_transitions :: "transition list \<Rightarrow> transition list" where
  "merge_transitions [] = []"
| "merge_transitions [t] = [t]"
| "merge_transitions (t # u # ts) =
     (if transition_type t = transition_type u then merge_transitions (u # ts)
      else if transition_type t = Restart then [t]
      else t # merge_transitions (u # ts))"

text \<open>An exception raised inside \<open>_generate_transitions\<close> leaves \<open>list(...)\<close>, so nothing is yielded.\<close>

definition qsr_iter :: "qsr \<Rightarrow> qerror + transition list" where
  "qsr_iter s = (case generate_transitions s of
     (ts, _, None) \<Rightarrow> Inr (merge_transitions ts)
   | (_, _, Some e) \<Rightarrow> Inl e)"

end
