(* ===== verification/QuorumSound.thy ===== *)
theory QuorumSound
  imports Quorum
begin

text \<open>
  Safety of the transitions \<open>QuorumStateResolver\<close> yields: applied one after the other to the
  two registries they keep the documented invariants at every step, also when the generator
  ends with an exception after a failed change of leader.
\<close>

section \<open>Soundness of the yielded transitions\<close>

definition apply_transition :: "transition \<Rightarrow> qsr \<Rightarrow> qsr" where
  "apply_transition t s = (case transition_type t of
     Sync \<Rightarrow> s\<lparr>qs_numsync := tr_num t, qs_sync := tr_names t\<rparr>
   | Quorum \<Rightarrow> s\<lparr>qs_leader := tr_leader t, qs_quorum := tr_num t, qs_voters := tr_names t\<rparr>
   | Restart \<Rightarrow> s)"

definition run_transitions :: "transition list \<Rightarrow> qsr \<Rightarrow> qsr" where
  "run_transitions ts s = fold apply_transition ts s"

fun trace_ok :: "qsr \<Rightarrow> transition list \<Rightarrow> bool" where
  "trace_ok s [] \<longleftrightarrow> True"
| "trace_ok s (t # ts) \<longleftrightarrow>
     (transition_type t \<noteq> Restart \<longrightarrow> invariants_ok (apply_transition t s))
     \<and> trace_ok (apply_transition t s) ts"

text \<open>The part of the state the two registries (DCS and \<^verbatim>\<open>postgresql.conf\<close>) hold.\<close>

definition core :: "qsr \<Rightarrow> string \<times> int \<times> ciset \<times> int \<times> ciset \<times> string" where
  "core s = (qs_leader s, qs_quorum s, qs_voters s, qs_numsync s, qs_sync s, qs_leader_wanted s)"

definition qsr_wf :: "qsr \<Rightarrow> bool" where
  "qsr_wf s \<longleftrightarrow> cis_inv (qs_voters s) \<and> cis_inv (qs_sync s) \<and> cis_inv (qs_active s)"

lemma invariants_ok_core: "core s = core s' \<Longrightarrow> invariants_ok s = invariants_ok s'"
  by (simp add: core_def invariants_ok_def)

lemma apply_transition_core: "core s = core s' \<Longrightarrow> core (apply_transition t s) = core (apply_transition t s')"
  by (simp add: core_def apply_transition_def split: transition_kind.splits)

lemma trace_ok_core: "core s = core s' \<Longrightarrow> trace_ok s ts = trace_ok s' ts"
proof (induction ts arbitrary: s s')
  case (Cons t ts)
  have c: "core (apply_transition t s) = core (apply_transition t s')"
    using Cons.prems by (rule apply_transition_core)
  then show ?case using Cons.IH [OF c] invariants_ok_core [OF c] by simp
qed simp

lemma run_transitions_core: "core s = core s' \<Longrightarrow> core (run_transitions ts s) = core (run_transitions ts s')"
proof (induction ts arbitrary: s s')
  case (Cons t ts)
  from Cons.IH [OF apply_transition_core [OF Cons.prems]] show ?case
    by (simp add: run_transitions_def)
qed (simp add: run_transitions_def)

lemma run_transitions_simps [simp]:
  "run_transitions [] s = s"
  "run_transitions (t # ts) s = run_transitions ts (apply_transition t s)"
  "run_transitions (ts @ us) s = run_transitions us (run_transitions ts s)"
  by (simp_all add: run_transitions_def)

lemma trace_ok_append: "trace_ok s (ts @ us) \<longleftrightarrow> trace_ok s ts \<and> trace_ok (run_transitions ts s) us"
  by (induction ts arbitrary: s) auto

subsection \<open>Sound generators\<close>

text \<open>
  A generator is sound when every transition it yields leads to a state that satisfies the
  invariants and, unless it raises, its own state agrees with the transitions it yielded.
\<close>

definition sound_gen :: "gen \<Rightarrow> bool" where
  "sound_gen g \<longleftrightarrow> (\<forall>s. case g s of (ts, s', e) \<Rightarrow>
     trace_ok s ts \<and> (e = None \<longrightarrow> core (run_transitions ts s) = core s'))"

named_theorems sound_intros \<open>soundness of the generator combinators\<close>

lemma sound_genI:
  "(\<And>s ts s' e. g s = (ts, s', e) \<Longrightarrow> trace_ok s ts \<and> (e = None \<longrightarrow> core (run_transitions ts s) = core s'))
   \<Longrightarrow> sound_gen g"
  by (auto simp: sound_gen_def split: prod.splits)

lemma sound_genD:
  "sound_gen g \<Longrightarrow> g s = (ts, s', e) \<Longrightarrow> trace_ok s ts \<and> (e = None \<longrightarrow> core (run_transitions ts s) = core s')"
  unfolding sound_gen_def by (erule allE [of _ s]) simp

lemma sound_gskip [sound_intros]: "sound_gen gskip"
  by (simp add: sound_gen_def gskip_def)

lemma sound_gassert [sound_intros]: "sound_gen (gassert P)"
  by (simp add: sound_gen_def gassert_def)

lemma sound_gmodify: "(\<And>s. core (f s) = core s) \<Longrightarrow> sound_gen (gmodify f)"
  by (simp add: sound_gen_def gmodify_def)

lemma sound_gwhen [sound_intros]: "sound_gen g \<Longrightarrow> sound_gen (gwhen b g)"
  by (simp add: gwhen_def sound_gskip)

lemma sound_gstate [sound_intros]: "(\<And>s. sound_gen (f s)) \<Longrightarrow> sound_gen (gstate f)"
  by (rule sound_genI) (auto simp: gstate_def dest: sound_genD)

lemma sound_gseq [sound_intros]:
  assumes "sound_gen g" "sound_gen h"
  shows "sound_gen (gseq g h)"
proof (rule sound_genI)
  fix s ts s' e
  assume run: "gseq g h s = (ts, s', e)"
  obtain us s1 e1 where g: "g s = (us, s1, e1)" by (cases "g s") auto
  note gs = sound_genD [OF assms(1) g]
  show "trace_ok s ts \<and> (e = None \<longrightarrow> core (run_transitions ts s) = core s')"
  proof (cases e1)
    case (Some err)
    with run g gs show ?thesis by (auto simp: gseq_def)
  next
    case None
    obtain vs s2 e2 where h: "h s1 = (vs, s2, e2)" by (cases "h s1") auto
    note hs = sound_genD [OF assms(2) h]
    from gs None have c: "core (run_transitions us s) = core s1" by simp
    from run g h None have r: "ts = us @ vs" "s' = s2" "e = e2" by (auto simp: gseq_def)
    have "core (run_transitions vs (run_transitions us s)) = core (run_transitions vs s1)"
      using c by (rule run_transitions_core)
    with gs hs r trace_ok_core [OF c] show ?thesis by (simp add: trace_ok_append)
  qed
qed

lemma commit_quorum_eq:
  "commit_quorum q vs s =
     (if invariants_ok (s\<lparr>qs_quorum := q, qs_voters := vs\<rparr>)
      then ([Transition Quorum (qs_leader s) q vs], s\<lparr>qs_quorum := q, qs_voters := vs\<rparr>, None)
      else ([], s\<lparr>qs_quorum := q, qs_voters := vs\<rparr>, Some QuorumError))"
  by (simp add: commit_quorum_def gseq_def gmodify_def check_invariants_def gskip_def graise_def
      gstate_def gyield_def)

lemma commit_sync_eq:
  "commit_sync n ss s =
     (if invariants_ok (s\<lparr>qs_numsync := n, qs_sync := ss\<rparr>)
      then ([Transition Sync (qs_leader s) n ss], s\<lparr>qs_numsync := n, qs_sync := ss\<rparr>, None)
      else ([], s\<lparr>qs_numsync := n, qs_sync := ss\<rparr>, Some QuorumError))"
  by (simp add: commit_sync_def gseq_def gmodify_def check_invariants_def gskip_def graise_def
      gstate_def gyield_def)

lemma apply_Quorum [simp]:
  "apply_transition (Transition Quorum l q vs) s = s\<lparr>qs_leader := l, qs_quorum := q, qs_voters := vs\<rparr>"
  by (simp add: apply_transition_def Transition_def)

lemma apply_Sync [simp]:
  "apply_transition (Transition Sync l n ss) s = s\<lparr>qs_numsync := n, qs_sync := ss\<rparr>"
  by (simp add: apply_transition_def Transition_def)

lemma apply_Restart [simp]: "apply_transition (Transition Restart l n ss) s = s"
  by (simp add: apply_transition_def Transition_def)

lemma Transition_type [simp]: "transition_type (Transition k l n ns) = k"
  by (simp add: Transition_def)

text \<open>
  A commit after a change of leader: the yielded transition carries the leader, so it may be
  checked against the state before that change.
\<close>

lemma commit_quorum_trace:
  assumes "commit_quorum q vs (s\<lparr>qs_leader := l\<rparr>) = (ts, s', e)"
  shows "trace_ok s ts \<and> (e = None \<longrightarrow> core (run_transitions ts s) = core s')"
  using assms unfolding commit_quorum_eq
  by (auto simp: core_def split: if_splits)

lemma quorum_update_cases:
  assumes "quorum_update q vs ldr adj s = (ts, s', e)"
  obtains (raised) "ts = []" "s' = s" "e = Some QuorumError"
  | (silent) "ts = []" "s' = s" "e = None"
  | (commit) q' vs' l us r where "l = (case ldr of None \<Rightarrow> qs_leader s | Some l \<Rightarrow> l)"
      "commit_quorum q' vs' (s\<lparr>qs_leader := l\<rparr>) = (us, s', e)"
      "ts = r @ us" "r = [] \<or> r = [Transition Restart (qs_leader s) (qs_quorum s) (qs_voters s)]"
proof -
  define l where "l = (case ldr of None \<Rightarrow> qs_leader s | Some l \<Rightarrow> l)"
  have s1: "(case ldr of Some l \<Rightarrow> s\<lparr>qs_leader := l\<rparr> | None \<Rightarrow> s) = s\<lparr>qs_leader := l\<rparr>"
    by (simp add: l_def split: option.splits)
  define p where "p = (if ldr \<noteq> None then (q, vs)
               else if qs_numsync_confirmed s = 0 \<and> \<not> cis_bool (qs_voters s) then (0, cis_of [])
               else if adj then (q + max (qs_numsync s - qs_numsync_confirmed s) 0, vs)
               else (q, vs))"
  obtain q' vs' where p: "p = (q', vs')" by (cases p)
  show thesis
  proof (cases "q < 0 \<or> q > 0 \<and> q \<ge> clen vs")
    case True
    with assms show thesis by (intro raised) (auto simp: quorum_update_def graise_def)
  next
    case False
    then have eq: "quorum_update q vs ldr adj s =
       (if l = qs_leader s \<and> q' = qs_quorum s \<and> cis_eq vs' (qs_voters s)
        then (if cis_bool (qs_voters s) then gskip (s\<lparr>qs_leader := l\<rparr>)
              else gseq (gyield (Transition Restart l (qs_quorum s) (qs_voters s)))
                        (commit_quorum q' vs') (s\<lparr>qs_leader := l\<rparr>))
        else commit_quorum q' vs' (s\<lparr>qs_leader := l\<rparr>))"
      using p unfolding quorum_update_def s1 p_def [symmetric] by (auto simp: Let_def)
    obtain us t f where c: "commit_quorum q' vs' (s\<lparr>qs_leader := l\<rparr>) = (us, t, f)"
      by (cases "commit_quorum q' vs' (s\<lparr>qs_leader := l\<rparr>)") auto
    consider (same) "l = qs_leader s \<and> cis_bool (qs_voters s)" "ts = []" "s' = s\<lparr>qs_leader := l\<rparr>" "e = None"
      | (restart) "l = qs_leader s" "ts = Transition Restart l (qs_quorum s) (qs_voters s) # us" "s' = t" "e = f"
      | (fresh) "ts = us" "s' = t" "e = f"
      using assms eq c by (auto simp: gskip_def gseq_def gyield_def split: if_splits option.splits)
    then show thesis
    proof cases
      case same
      then show thesis by (intro silent) auto
    next
      case restart
      then show thesis using c l_def
        by (intro commit [of l q' vs' us "[Transition Restart l (qs_quorum s) (qs_voters s)]"]) auto
    next
      case fresh
      then show thesis using c l_def by (intro commit [of l q' vs' us "[]"]) auto
    qed
  qed
qed

lemma sound_quorum_update [sound_intros]: "sound_gen (quorum_update q vs l adj)"
proof (rule sound_genI)
  fix s ts s' e
  assume "quorum_update q vs l adj s = (ts, s', e)"
  then show "trace_ok s ts \<and> (e = None \<longrightarrow> core (run_transitions ts s) = core s')"
    by (cases rule: quorum_update_cases) (auto dest: commit_quorum_trace)
qed

lemma sound_sync_update [sound_intros]: "sound_gen (sync_update n ss)"
  by (rule sound_genI)
    (auto simp: sync_update_def graise_def commit_sync_eq core_def split: if_splits)

lemma sound_remove_rest [sound_intros]: "sound_gen (remove_rest r)"
  unfolding remove_rest_def Let_def by (intro sound_intros)

lemma sound_if [sound_intros]: "sound_gen g \<Longrightarrow> sound_gen h \<Longrightarrow> sound_gen (if b then g else h)"
  by simp

lemma sound_handle_non_steady_cases [sound_intros]: "sound_gen handle_non_steady_cases"
  unfolding handle_non_steady_cases_def Let_def by (intro sound_intros)

lemma sound_remove_gone_nodes [sound_intros]: "sound_gen remove_gone_nodes"
  unfolding remove_gone_nodes_def Let_def by (intro sound_intros)

lemma sound_add_new_nodes [sound_intros]: "sound_gen add_new_nodes"
  unfolding add_new_nodes_def Let_def by (intro sound_intros | simp only: split_beta)+

lemma sound_handle_replication_factor_change [sound_intros]:
  "sound_gen handle_replication_factor_change"
  unfolding handle_replication_factor_change_def Let_def by (intro sound_intros)

lemma sound_main_block [sound_intros]: "sound_gen main_block"
  unfolding main_block_def
  by (intro sound_intros sound_gmodify) (simp add: core_def)

subsection \<open>The failover block\<close>

lemma invariants_ok_abs:
  assumes "cis_inv (qs_voters s)" "cis_inv (qs_sync s)"
  shows "invariants_ok s \<longleftrightarrow>
    (let V = insert (lower (qs_leader s)) (cis_abs (qs_voters s));
         S = insert (lower (qs_leader_wanted s)) (cis_abs (qs_sync s))
     in (cis_abs (qs_voters s) = {} \<or> int (card (V \<union> S)) \<le> qs_quorum s + qs_numsync s + 1)
        \<and> (V \<subseteq> S \<or> S \<subseteq> V))"
  using assms by (auto simp: invariants_ok_def Let_def cis_issubset_def cis_simps)

lemma card_insert2_le: "finite A \<Longrightarrow> lower l = lower l' \<Longrightarrow> card (insert (lower l) (insert (lower l') A)) \<le> card A + 1"
  by (simp add: card_insert_if)

text \<open>When \<^verbatim>\<open>synchronous_standby_names\<close> is empty the failover always manages to fill it.\<close>

lemma failover_sync_update_ok:
  assumes wf: "cis_inv (qs_voters s)"
    and vs: "vs = cis_or (cis_sub (qs_voters s) (cis_of [qs_leader_wanted s])) (cis_of [qs_leader s])"
    and run: "sync_update (clen vs - qs_quorum s) vs s = (ts, s', e)"
  shows "e = None \<or> s' = s"
proof (cases "clen vs - qs_quorum s < 0 \<or> clen vs - qs_quorum s > clen vs")
  case True
  with run show ?thesis by (auto simp: sync_update_def graise_def)
next
  case False
  let ?l = "lower (qs_leader s)" and ?w = "lower (qs_leader_wanted s)" and ?V = "cis_abs (qs_voters s)"
  have iv: "cis_inv vs" by (simp add: vs)
  have av: "cis_abs vs = insert ?l (?V - {?w})" using wf by (auto simp: vs cis_simps)
  have "insert ?l ?V \<union> insert ?w (insert ?l (?V - {?w})) = insert ?w (cis_abs vs)"
    by (auto simp: av)
  moreover have "card (insert ?w (cis_abs vs)) \<le> card (cis_abs vs) + 1"
    by (simp add: card_insert_if)
  ultimately have "invariants_ok (s\<lparr>qs_numsync := clen vs - qs_quorum s, qs_sync := vs\<rparr>)"
    using wf iv by (auto simp: invariants_ok_abs Let_def cis_len_abs av)
  with run False show ?thesis by (auto simp: sync_update_def commit_sync_eq)
qed

text \<open>
  A failed change of leader may leave the resolver's leader, quorum and voters ahead of what it
  yielded; then the state violates the invariants and names the wanted leader.
\<close>

definition dirty :: "qsr \<Rightarrow> qsr \<Rightarrow> bool" where
  "dirty s t \<longleftrightarrow> qs_numsync t = qs_numsync s \<and> qs_sync t = qs_sync s
     \<and> qs_leader_wanted t = qs_leader_wanted s \<and> qs_leader t = qs_leader_wanted t
     \<and> cis_abs (qs_voters t) \<noteq> {} \<and> cis_inv (qs_voters t) \<and> \<not> invariants_ok t"

lemma failover_quorum_update:
  assumes "quorum_update q vs (Some (qs_leader_wanted s)) adj s = (ts, s', e)"
    and "cis_inv vs" "cis_abs vs \<noteq> {}"
  shows "e = None \<or> ts = [] \<and> (s' = s \<or> dirty s s')"
proof -
  let ?s1 = "s\<lparr>qs_leader := qs_leader_wanted s\<rparr>"
  consider "ts = []" "s' = s" | "e = None" | "commit_quorum q vs ?s1 = (ts, s', e)"
    | us where "commit_quorum q vs ?s1 = (us, s', e)" "\<not> cis_bool (qs_voters s)" "cis_eq vs (qs_voters s)"
    using assms(1)
    by (auto simp: quorum_update_def graise_def gskip_def gseq_def gyield_def Let_def
        split: if_splits prod.splits option.splits)
  then show ?thesis
  proof cases
    case 4
    then have "cis_len vs = 0" by (simp add: cis_eq_def cis_bool_def)
    with assms(2,3) show ?thesis by (simp add: cis_len_abs)
  qed (use assms(2,3) in \<open>auto simp: commit_quorum_eq dirty_def split: if_splits\<close>)
qed

text \<open>The \<^verbatim>\<open>except\<close> branch repairs a dirty state or raises.\<close>

lemma repair_dirty:
  assumes d: "dirty s t" and wf: "cis_inv (qs_sync s)"
    and run: "quorum_update (clen (qs_sync t) - qs_numsync t) (qs_sync t) None True t = (ts, t', e)"
  shows "trace_ok s ts \<and> (e = None \<longrightarrow> core (run_transitions ts s) = core t')"
proof -
  let ?q = "clen (qs_sync t) - qs_numsync t + max (qs_numsync t - qs_numsync_confirmed t) 0"
  have iv: "cis_inv (qs_sync t)" "cis_inv (qs_voters t)" using d wf by (auto simp: dirty_def)
  have ne: "cis_bool (qs_voters t)" using d iv by (simp add: dirty_def cis_bool_abs)
  have "\<not> (?q = qs_quorum t \<and> cis_eq (qs_sync t) (qs_voters t))"
  proof
    assume same: "?q = qs_quorum t \<and> cis_eq (qs_sync t) (qs_voters t)"
    then have abs: "cis_abs (qs_voters t) = cis_abs (qs_sync t)" using iv by (simp add: cis_eq_abs)
    have "card (insert (lower (qs_leader t)) (cis_abs (qs_sync t))) \<le> card (cis_abs (qs_sync t)) + 1"
      by (simp add: card_insert_if)
    then have "invariants_ok t"
      using same abs iv d by (auto simp: invariants_ok_abs dirty_def Let_def cis_len_abs)
    then show False using d by (simp add: dirty_def)
  qed
  then consider "ts = []" "e = Some QuorumError" | "commit_quorum ?q (qs_sync t) t = (ts, t', e)"
    using run ne by (auto simp: quorum_update_def graise_def Let_def split: if_splits)
  then show ?thesis
  proof cases
    case 2
    have eq: "core (s\<lparr>qs_leader := qs_leader t, qs_quorum := ?q, qs_voters := qs_sync t\<rparr>)
          = core (t\<lparr>qs_quorum := ?q, qs_voters := qs_sync t\<rparr>)"
      using d by (simp add: core_def dirty_def)
    show ?thesis using 2 eq invariants_ok_core [OF eq]
      by (auto simp: commit_quorum_eq split: if_splits)
  qed simp
qed

text \<open>The \<^verbatim>\<open>except\<close> branch and what follows it, from a clean or a dirty state.\<close>

lemma handler_sound:
  assumes cs: "s2 = s1 \<or> dirty s1 s2" and wf: "cis_inv (qs_sync s1)"
    and run: "gseq (gstate (\<lambda>s. quorum_update (clen (qs_sync s) - qs_numsync s) (qs_sync s) None True))
                main_block s2 = (us, s3, e)"
  shows "trace_ok s1 us \<and> (e = None \<longrightarrow> core (run_transitions us s1) = core s3)"
proof -
  let ?g = "gstate (\<lambda>s. quorum_update (clen (qs_sync s) - qs_numsync s) (qs_sync s) None True)"
  obtain ws t f where g: "?g s2 = (ws, t, f)" by (cases "?g s2") auto
  have step: "trace_ok s1 ws \<and> (f = None \<longrightarrow> core (run_transitions ws s1) = core t)"
  proof (cases "s2 = s1")
    case True
    have "sound_gen ?g" by (intro sound_intros)
    with g True show ?thesis by (auto dest: sound_genD)
  next
    case False
    with cs have "dirty s1 s2" by simp
    then show ?thesis using repair_dirty [OF _ wf] g by (simp add: gstate_def)
  qed
  show ?thesis
  proof (cases f)
    case (Some err)
    with run g step show ?thesis by (auto simp: gseq_def)
  next
    case None
    obtain vs t' f' where m: "main_block t = (vs, t', f')" by (cases "main_block t") auto
    from step None have c: "core (run_transitions ws s1) = core t" by simp
    show ?thesis
      using run g None m step sound_genD [OF sound_main_block m] trace_ok_core [OF c]
        run_transitions_core [OF c, of vs]
      by (auto simp: gseq_def trace_ok_append)
  qed
qed

text \<open>
  How the \<^verbatim>\<open>try\<close> block ends: it is sound, and if it raised, the state it leaves is clean or
  dirty relative to what it yielded.
\<close>

lemma failover_block_ends:
  assumes wf: "qsr_wf s" and run: "failover_block s = ((ts, s2, e), ret)"
  obtains s1 where "trace_ok s ts" "core (run_transitions ts s) = core s1" "cis_inv (qs_sync s1)"
    "if e = None then s2 = s1 else s2 = s1 \<or> dirty s1 s2"
proof (cases "qs_leader_wanted s = qs_leader s")
  case True
  with run wf show thesis
    by (intro that [of s]) (auto simp: failover_block_def check_invariants_def gskip_def graise_def
        qsr_wf_def split: if_splits)
next
  case False
  define vs where "vs = cis_or (cis_sub (qs_voters s) (cis_of [qs_leader_wanted s])) (cis_of [qs_leader s])"
  let ?g = "gwhen (\<not> cis_bool (qs_sync s)) (sync_update (clen vs - qs_quorum s) vs)"
  let ?h = "gstate (\<lambda>s. quorum_update (qs_quorum s) vs (Some (qs_leader_wanted s)) True)"
  have iv: "cis_inv vs" "cis_abs vs \<noteq> {}" using wf by (auto simp: vs_def cis_simps qsr_wf_def)
  have r: "gseq ?g ?h s = (ts, s2, e)"
    using run False by (auto simp: failover_block_def Let_def vs_def split: prod.splits)
  obtain us t f where g: "?g s = (us, t, f)" by (cases "?g s") auto
  have "sound_gen ?g" by (intro sound_intros)
  note gs = sound_genD [OF this g]
  have inv_t: "f = None \<Longrightarrow> cis_inv (qs_sync t)"
    using g wf iv by (auto simp: gwhen_def gskip_def sync_update_def graise_def commit_sync_eq
        qsr_wf_def split: if_splits)
  show thesis
  proof (cases f)
    case (Some err)
    then have "t = s" "us = []"
      using g wf failover_sync_update_ok [of s vs us t f]
      by (auto simp: gwhen_def gskip_def qsr_wf_def vs_def sync_update_def graise_def commit_sync_eq
          split: if_splits)
    with r g Some wf show thesis by (intro that [of s]) (auto simp: gseq_def qsr_wf_def)
  next
    case None
    obtain ws t' f' where h: "?h t = (ws, t', f')" by (cases "?h t") auto
    have res: "ts = us @ ws" "s2 = t'" "e = f'" using r g None h by (auto simp: gseq_def)
    have c: "core (run_transitions us s) = core t" using gs None by simp
    have "sound_gen ?h" by (intro sound_intros)
    note hs = sound_genD [OF this h]
    have q: "f' = None \<or> ws = [] \<and> (t' = t \<or> dirty t t')"
      using h iv by (intro failover_quorum_update [of "qs_quorum t" vs t True]) (auto simp: gstate_def)
    show thesis
    proof (cases "f' = None")
      case True
      have sync: "qs_sync t' = qs_sync t"
        using h True by (auto simp: gstate_def commit_quorum_eq elim!: quorum_update_cases split: if_splits)
      show thesis
        using True res gs hs inv_t [OF None] sync trace_ok_core [OF c] run_transitions_core [OF c, of ws]
        by (intro that [of t']) (auto simp: trace_ok_append)
    next
      case False
      with q res gs c inv_t [OF None] show thesis by (intro that [of t]) auto
    qed
  qed
qed

lemma generate_transitions_sound:
  assumes wf: "qsr_wf s" and run: "generate_transitions s = (ts, s', e)"
  shows "trace_ok s ts"
proof -
  obtain us s2 f ret where fb: "failover_block s = ((us, s2, f), ret)"
    by (metis surj_pair)
  obtain s1 where s1: "trace_ok s us" "core (run_transitions us s) = core s1" "cis_inv (qs_sync s1)"
    "if f = None then s2 = s1 else s2 = s1 \<or> dirty s1 s2"
    using failover_block_ends [OF wf fb] .
  have join: "trace_ok s1 vs \<Longrightarrow> trace_ok s (us @ vs)" for vs
    using s1(1) trace_ok_core [OF s1(2)] by (simp add: trace_ok_append)
  consider "ts = us" | vs t g where "f = None" "main_block s2 = (vs, t, g)" "ts = us @ vs"
    | vs t g where "f \<noteq> None" "ts = us @ vs"
       "gseq (gstate (\<lambda>s. quorum_update (clen (qs_sync s) - qs_numsync s) (qs_sync s) None True))
          main_block s2 = (vs, t, g)"
    using run fb by (auto simp: generate_transitions_def split: option.splits qerror.splits bool.splits prod.splits)
  then show ?thesis
  proof cases
    case 1
    with s1 show ?thesis by simp
  next
    case 2
    with s1 sound_genD [OF sound_main_block 2(2)] join show ?thesis by simp
  next
    case 3
    have "s2 = s1 \<or> dirty s1 s2" using s1(4) 3(1) by simp
    from handler_sound [OF this s1(3) 3(3)] 3(2) join show ?thesis by simp
  qed
qed

subsection \<open>Merging\<close>

lemma apply_same_type:
  "transition_type t = transition_type u \<Longrightarrow> apply_transition u (apply_transition t s) = apply_transition u s"
  by (simp add: apply_transition_def split: transition_kind.splits)

lemma trace_ok_merge: "trace_ok s ts \<Longrightarrow> trace_ok s (merge_transitions ts)"
proof (induction ts arbitrary: s rule: merge_transitions.induct)
  case (3 t u ts)
  show ?case
  proof (cases "transition_type t = transition_type u")
    case True
    with 3 show ?thesis using apply_same_type [OF True, of s] by simp
  next
    case False
    with 3 show ?thesis by (cases "transition_type t = Restart") simp_all
  qed
qed auto

lemma merge_no_restart:
  "\<forall>u \<in> set ts. transition_type u \<noteq> Restart \<Longrightarrow> run_transitions (merge_transitions ts) s = run_transitions ts s"
  by (induction ts arbitrary: s rule: merge_transitions.induct) (auto simp: apply_same_type)

lemma merge_head:
  "us \<noteq> [] \<Longrightarrow> \<exists>v vs. merge_transitions us = v # vs \<and> transition_type v = transition_type (hd us)"
  by (induction us rule: merge_transitions.induct) auto

lemma merge_distinct_adj: "distinct_adj (map transition_type (merge_transitions ts))"
proof (induction ts rule: merge_transitions.induct)
  case (3 t u ts)
  then show ?case using merge_head [of "u # ts"] by auto
qed simp_all

subsection \<open>Quorum intersection\<close>

lemma listed_names_or: "card (lower ` (set (cis_iter s) \<union> set (cis_iter t))) = cis_len (cis_or s t)"
  by (simp add: cis_len_abs cis_abs_of cis_or_def)

lemma invariants_ok_overlap:
  assumes inv: "invariants_ok s" "cis_bool (qs_voters s)"
    and W: "W \<subseteq> lower ` insert (qs_leader s) (set (cis_iter (qs_voters s)))" "qs_quorum s + 1 \<le> int (card W)"
    and B: "B \<subseteq> lower ` set (cis_iter (qs_sync s)) - {lower (qs_leader_wanted s)}" "qs_numsync s \<le> int (card B)"
  shows "W \<inter> insert (lower (qs_leader_wanted s)) B \<noteq> {}"
proof -
  let ?vs = "cis_or (qs_voters s) (cis_of [qs_leader s])"
  let ?ss = "cis_or (qs_sync s) (cis_of [qs_leader_wanted s])"
  let ?U = "cis_abs (cis_or ?vs ?ss)"
  have "clen (cis_or ?vs ?ss) \<le> qs_quorum s + qs_numsync s + 1"
    using inv by (auto simp: invariants_ok_def Let_def)
  then have U: "int (card ?U) \<le> qs_quorum s + qs_numsync s + 1" by (simp add: cis_len_abs)
  have names: "cis_abs ?vs = lower ` insert (qs_leader s) (set (cis_iter (qs_voters s)))"
    "cis_abs ?ss = lower ` insert (qs_leader_wanted s) (set (cis_iter (qs_sync s)))"
    using lower_iter_abs [OF cis_of_inv, of "[qs_leader s]"] lower_iter_abs [OF cis_of_inv, of "[qs_leader_wanted s]"]
    by (auto simp: cis_or_def cis_abs_of image_Un)
  have sub: "W \<subseteq> ?U" "insert (lower (qs_leader_wanted s)) B \<subseteq> ?U"
    using W B names by (auto simp: cis_abs_or)
  have "finite B" using sub by (auto intro: finite_subset)
  then have "card (insert (lower (qs_leader_wanted s)) B) = Suc (card B)"
    using B(1) by (intro card_insert_disjoint) auto
  then have "card ?U < card W + card (insert (lower (qs_leader_wanted s)) B)" using U W B by linarith
  then show ?thesis using card_overlap [OF _ sub] by simp
qed

section \<open>What the registries promise to the leader race\<close>

text \<open>
  The contract between the two places where synchronous standbys are registered and the leader race:
  a set of nodes that suffices to elect a leader and a set of nodes that has confirmed a commit have
  a node in common. Whoever wins with the votes of nodes that are not ahead then has the commit.
\<close>

locale quorum_registry =
  fixes electing :: "'s \<Rightarrow> 'n set set" and confirming :: "'s \<Rightarrow> 'n set set"
  assumes overlap: "W \<in> electing s \<Longrightarrow> C \<in> confirming s \<Longrightarrow> W \<inter> C \<noteq> {}"
begin

lemma winner_has_commit:
  assumes "W \<in> electing s" "C \<in> confirming s"
    and "\<And>w. w \<in> W \<Longrightarrow> w \<in> C \<Longrightarrow> position w \<le> (mine :: int)"
    and "\<And>x. x \<in> C \<Longrightarrow> x \<in> W \<Longrightarrow> commit \<le> position x"
  shows "commit \<le> mine"
proof -
  obtain x where "x \<in> W" "x \<in> C" using overlap [OF assms(1,2)] by blast
  then show ?thesis using assms(3,4) order_trans by blast
qed

end

definition electing :: "qsr \<Rightarrow> string set set" where
  "electing s = {W. invariants_ok s \<and> cis_bool (qs_voters s)
     \<and> W \<subseteq> lower ` insert (qs_leader s) (set (cis_iter (qs_voters s))) \<and> qs_quorum s + 1 \<le> int (card W)}"

definition confirming :: "qsr \<Rightarrow> string set set" where
  "confirming s = insert (lower (qs_leader_wanted s)) `
     {B. B \<subseteq> lower ` set (cis_iter (qs_sync s)) - {lower (qs_leader_wanted s)} \<and> qs_numsync s \<le> int (card B)}"

interpretation qr: quorum_registry electing confirming
proof unfold_locales
  fix W C s assume "W \<in> electing s" "C \<in> confirming s"
  then obtain B where "C = insert (lower (qs_leader_wanted s)) B"
    "B \<subseteq> lower ` set (cis_iter (qs_sync s)) - {lower (qs_leader_wanted s)}" "qs_numsync s \<le> int (card B)"
    by (auto simp: confirming_def)
  then show "W \<inter> C \<noteq> {}" using invariants_ok_overlap [of s W B] \<open>W \<in> electing s\<close> by (simp add: electing_def)
qed

lemma trace_ok_nth:
  assumes "trace_ok s ts" "k < length ts" "transition_type (ts ! k) \<noteq> Restart"
  shows "invariants_ok (run_transitions (take (Suc k) ts) s)"
  using assms
proof (induction ts arbitrary: s k)
  case (Cons t ts)
  then show ?case by (cases k) auto
qed simp

section \<open>Properties\<close>

lemma resolver_trace_ok:
  assumes "qsr_wf s" "qsr_iter s = Inr ts"
  shows "trace_ok s ts"
proof -
  obtain us t where g: "generate_transitions s = (us, t, None)" "ts = merge_transitions us"
    using assms(2) by (auto simp: qsr_iter_def split: prod.splits option.splits)
  show ?thesis using generate_transitions_sound [OF assms(1) g(1)] g(2) trace_ok_merge by simp
qed

text \<open>
  C1: no data loss at any step. After every \<open>sync\<close> or \<open>quorum\<close> transition the iteration over
  the resolver yields, whatever state it was started in (also one left by an interrupted run or
  a failover), every set \<open>W\<close> of \<open>quorum + 1\<close> nodes that may elect a new leader among the voters
  and the leader meets every set of nodes that may have confirmed a commit: the wanted leader
  and \<open>numsync\<close> of the nodes in \<^verbatim>\<open>synchronous_standby_names\<close>.
\<close>

theorem resolver_no_data_loss:
  assumes "qsr_wf s" "qsr_iter s = Inr ts" "k < length ts" "transition_type (ts ! k) \<noteq> Restart"
    and "s' = run_transitions (take (Suc k) ts) s" "cis_bool (qs_voters s')"
    and "W \<subseteq> lower ` insert (qs_leader s') (set (cis_iter (qs_voters s')))" "qs_quorum s' + 1 \<le> int (card W)"
    and "B \<subseteq> lower ` set (cis_iter (qs_sync s')) - {lower (qs_leader_wanted s')}" "qs_numsync s' \<le> int (card B)"
  shows "W \<inter> insert (lower (qs_leader_wanted s')) B \<noteq> {}"
proof (rule invariants_ok_overlap [OF _ assms(6-)])
  show "invariants_ok s'" using trace_ok_nth [OF resolver_trace_ok [OF assms(1,2)]] assms(3-5) by simp
qed

theorem resolver_no_data_loss_witness:
  "qsr_iter (QuorumStateResolver ''a'' 1 [''b'', ''c''] 1 [''b'', ''c''] 1 [''b'', ''c'', ''d''] 1 ''a'')
     = Inr [Transition Quorum ''a'' 2 (cis_of [''b'', ''c'', ''d'']), Transition Sync ''a'' 1 (cis_of [''b'', ''c'', ''d''])]
   \<and> {''b'', ''c'', ''d''} \<inter> insert ''a'' {''c''} \<noteq> {}"
proof
  let ?s = "QuorumStateResolver ''a'' 1 [''b'', ''c''] 1 [''b'', ''c''] 1 [''b'', ''c'', ''d''] 1 ''a''"
  let ?t = "?s\<lparr>qs_quorum := 2, qs_voters := cis_of [''b'', ''c'', ''d'']\<rparr>"
  show iter: "qsr_iter ?s
     = Inr [Transition Quorum ''a'' 2 (cis_of [''b'', ''c'', ''d'']), Transition Sync ''a'' 1 (cis_of [''b'', ''c'', ''d''])]"
    by code_simp
  have l: "lower ''a'' = ''a''" "lower ` set (cis_iter (qs_voters ?t)) = {''b'', ''c'', ''d''}"
    "lower ` set (cis_iter (qs_sync ?t)) = {''b'', ''c''}" "qs_leader ?t = ''a''" "qs_leader_wanted ?t = ''a''"
    "qs_quorum ?t = 2" "qs_numsync ?t = 1"
    by code_simp+
  have "{''b'', ''c'', ''d''} \<inter> insert (lower (qs_leader_wanted ?t)) {''c''} \<noteq> {}"
  proof (rule resolver_no_data_loss [where k = 0, OF _ iter])
    show "qsr_wf ?s" by (simp add: qsr_wf_def QuorumStateResolver_def)
    show "?t = run_transitions (take (Suc 0) [Transition Quorum ''a'' 2 (cis_of [''b'', ''c'', ''d'']),
        Transition Sync ''a'' 1 (cis_of [''b'', ''c'', ''d''])]) ?s"
      by (simp add: QuorumStateResolver_def)
    show "cis_bool (qs_voters ?t)" by (simp add: cis_simps)
  qed (simp_all only: l image_insert, simp_all)
  then show "{''b'', ''c'', ''d''} \<inter> insert ''a'' {''c''} \<noteq> {}" unfolding l .
qed

text \<open>
  merging consecutive transitions of one type, which saves calls to DCS and reloads of
  Postgres, does not change where the sequence leads and yields no two transitions of one type
  in a row.
\<close>

theorem merge_transitions_equivalent:
  assumes "\<forall>u \<in> set ts. transition_type u \<noteq> Restart"
  shows "run_transitions (merge_transitions ts) s = run_transitions ts s
    \<and> distinct_adj (map transition_type (merge_transitions ts))"
  using assms merge_no_restart merge_distinct_adj by blast

theorem merge_transitions_equivalent_witness:
  "run_transitions [Transition Quorum ''a'' 2 (cis_of [''c'']), Transition Sync ''a'' 1 (cis_of [''b''])]
       (QuorumStateResolver ''a'' 1 [''b''] 1 [''b''] 1 [''b''] 1 ''a'')
   = run_transitions [Transition Quorum ''a'' 1 (cis_of [''d'']), Transition Quorum ''a'' 2 (cis_of [''c'']),
         Transition Sync ''a'' 1 (cis_of [''b''])]
       (QuorumStateResolver ''a'' 1 [''b''] 1 [''b''] 1 [''b''] 1 ''a'')"
  using merge_transitions_equivalent [of "[Transition Quorum ''a'' 1 (cis_of [''d'']),
         Transition Quorum ''a'' 2 (cis_of [''c'']), Transition Sync ''a'' 1 (cis_of [''b''])]"
      "QuorumStateResolver ''a'' 1 [''b''] 1 [''b''] 1 [''b''] 1 ''a''"]
  by simp

end
