(* ===== verification/HaSync.thy ===== *)
theory HaSync
  imports LeaderRace SyncRep QuorumSound
begin

text \<open>
  How \<^verbatim>\<open>patroni/ha.py\<close> drives synchronous replication on the primary: enabling and disabling it, the
  loop that executes the transitions of the resolver in quorum commit mode, the update of the standby
  list without quorum commit, and the adjustment right before a promotion. The two registries, the
  sync key in DCS and \<^verbatim>\<open>synchronous_standby_names\<close>, are changed by actions; an operation returns the
  actions it has requested, in order. Whether DCS accepts a conditional write is decided by a function
  of the actions requested so far, so every interleaving with other writers is covered.
\<close>

section \<open>Actions\<close>

datatype sync_action =
    WriteSync "string option" "string list" int pyval
  | DeleteSync pyval
  | SetStandbyNames "string list" "int option"
  | UserStandbyNames

text \<open>The new version of the key when the write is accepted, \<open>None\<close> otherwise.\<close>

type_synonym dcs_answer = "sync_action list \<Rightarrow> pyval option"

datatype sync_error = PyError py_error | ResolverError qerror

type_synonym 'a sync_result = "(sync_error + 'a) \<times> sync_action list"

text \<open>The value written is a dictionary already, nothing is decoded.\<close>

definition write_sync ::
  "dcs_answer \<Rightarrow> string option \<Rightarrow> string list \<Rightarrow> int \<Rightarrow> sync_state \<Rightarrow> sync_action list \<Rightarrow> sync_state option sync_result" where
  "write_sync dcs ldr standbys quorum sync acts =
     (let acts' = acts @ [WriteSync ldr standbys quorum (s_version sync)] in
      (map_sum PyError id (write_sync_state (\<lambda>_. Inl ValueError) ldr standbys (Some quorum) (dcs acts')), acts'))"

definition then_sync :: "'a sync_result \<Rightarrow> ('a \<Rightarrow> sync_action list \<Rightarrow> 'b sync_result) \<Rightarrow> 'b sync_result" where
  "then_sync r f = (case r of (Inl e, acts) \<Rightarrow> (Inl e, acts) | (Inr x, acts) \<Rightarrow> f x acts)"

section \<open>Enabling and disabling\<close>

definition maybe_enable_synchronous_mode ::
  "dcs_answer \<Rightarrow> string \<Rightarrow> sync_state \<Rightarrow> sync_action list \<Rightarrow> sync_state option sync_result" where
  "maybe_enable_synchronous_mode dcs name sync acts =
     (if sync_is_empty sync then write_sync dcs (Some name) [] 0 sync acts else (Inr (Some sync), acts))"

definition disable_synchronous_replication :: "dcs_answer \<Rightarrow> sync_state \<Rightarrow> sync_action list \<Rightarrow> sync_action list" where
  "disable_synchronous_replication dcs sync acts =
     (let acts1 = (if sync_is_empty sync then acts else acts @ [DeleteSync (s_version sync)]);
          deleted = (\<not> sync_is_empty sync \<and> dcs acts1 \<noteq> None)
      in (if deleted then acts1 @ [SetStandbyNames [] None] else acts1) @ [UserStandbyNames])"

section \<open>Quorum commit\<close>

text \<open>
  The \<^verbatim>\<open>for\<close> loop over the transitions of one round. \<open>timeout k\<close> is the outcome of the check before the
  \<open>k\<close>-th transition; the Boolean result says whether the loop ran to its end.
\<close>

fun exec_transitions ::
  "(nat \<Rightarrow> bool) \<Rightarrow> dcs_answer \<Rightarrow> int \<Rightarrow> nat \<Rightarrow> transition list \<Rightarrow> sync_state \<Rightarrow> sync_action list
   \<Rightarrow> (bool \<times> sync_state) sync_result" where
  "exec_transitions timeout dcs min_sync k [] sync acts = (Inr (True, sync), acts)"
| "exec_transitions timeout dcs min_sync k (t # ts) sync acts =
     (if timeout k then (Inr (False, sync), acts)
      else (case transition_type t of
          Quorum \<Rightarrow>
            then_sync (write_sync dcs (Some (tr_leader t)) (cis_iter (tr_names t)) (tr_num t) sync acts) (\<lambda>r acts'.
              case r of None \<Rightarrow> (Inr (False, sync), acts')
                      | Some sync' \<Rightarrow> exec_transitions timeout dcs min_sync (Suc k) ts sync' acts')
        | Sync \<Rightarrow>
            exec_transitions timeout dcs min_sync (Suc k) ts sync
              (acts @ [SetStandbyNames (cis_iter (tr_names t)) (Some (if tr_num t < min_sync then min_sync else tr_num t))])
        | Restart \<Rightarrow> exec_transitions timeout dcs min_sync (Suc k) ts sync acts))"

text \<open>
  The \<^verbatim>\<open>while\<close> loop. Its rounds are given: the synchronous state PostgreSQL reports, the timeouts inside
  the round and the one at its end. The loop runs as long as rounds end with a restart and time is left.
\<close>

record quorum_round =
  qr_view :: "py_error + sync_state_view"
  qr_timeout :: "nat \<Rightarrow> bool"
  qr_stop :: bool

definition round_resolver :: "string \<Rightarrow> int \<Rightarrow> string \<Rightarrow> sync_state \<Rightarrow> sync_state_view \<Rightarrow> qsr" where
  "round_resolver name sync_wanted ldr sync v =
     QuorumStateResolver ldr (s_quorum sync) (sync_voters sync) (sv_numsync v) (cis_iter (sv_sync v))
       (int (cis_len (sv_sync_confirmed v))) (cis_iter (sv_active v)) sync_wanted name"

primrec quorum_rounds ::
  "dcs_answer \<Rightarrow> int \<Rightarrow> int \<Rightarrow> string \<Rightarrow> quorum_round list \<Rightarrow> string \<Rightarrow> sync_state \<Rightarrow> sync_action list \<Rightarrow> unit sync_result" where
  "quorum_rounds dcs min_sync sync_wanted name [] ldr sync acts = (Inr (), acts)"
| "quorum_rounds dcs min_sync sync_wanted name (r # rs) ldr sync acts =
     (case qr_view r of
        Inl e \<Rightarrow> (Inl (PyError e), acts)
      | Inr v \<Rightarrow> (case qsr_iter (round_resolver name sync_wanted ldr sync v) of
          Inl e \<Rightarrow> (Inl (ResolverError e), acts)
        | Inr ts \<Rightarrow>
            then_sync (exec_transitions (qr_timeout r) dcs min_sync 0 ts sync acts) (\<lambda>(finished, sync') acts'.
              if finished \<and> ts \<noteq> [] \<and> transition_type (last ts) = Restart \<and> \<not> qr_stop r
              then quorum_rounds dcs min_sync sync_wanted name rs (tr_leader (last ts)) sync' acts'
              else (Inr (), acts'))))"

definition process_quorum_replication ::
  "global_config \<Rightarrow> dcs_answer \<Rightarrow> string \<Rightarrow> sync_state \<Rightarrow> quorum_round list \<Rightarrow> unit sync_result" where
  "process_quorum_replication gc dcs name sync rounds =
     (case synchronous_node_count gc of
        Inl e \<Rightarrow> (Inl (PyError e), [])
      | Inr sync_wanted \<Rightarrow>
          then_sync (maybe_enable_synchronous_mode dcs name sync []) (\<lambda>r acts.
            case r of None \<Rightarrow> (Inr (), acts)
            | Some sync' \<Rightarrow>
                if str_bool (s_leader sync')
                then quorum_rounds dcs (min_synchronous_nodes gc) sync_wanted name rounds (str_or_empty (s_leader sync')) sync' acts
                else (Inr (), acts)))"

section \<open>Synchronous standbys without quorum commit\<close>

text \<open>
  \<open>view1\<close> is the synchronous state at the start and \<open>view2\<close> the one two seconds after the list of
  standbys was changed. The steps up to the first return: making this node the leader of the key, and
  repairing a key that disagrees with the confirmed standbys. The result is \<open>None\<close> when a write fails.
\<close>

definition claim_sync_key ::
  "dcs_answer \<Rightarrow> string \<Rightarrow> sync_state \<Rightarrow> sync_action list \<Rightarrow> (sync_state \<times> ciset) option sync_result" where
  "claim_sync_key dcs name sync acts =
     (if s_leader sync \<noteq> Some name
      then then_sync (write_sync dcs (Some name) [] 0 sync acts) (\<lambda>r acts'.
        (Inr (map_option (\<lambda>sync'. (sync', cis_of [])) r), acts'))
      else (Inr (Some (sync, cis_of (sync_voters sync))), acts))"

definition repair_sync_key ::
  "dcs_answer \<Rightarrow> string \<Rightarrow> sync_state_view \<Rightarrow> sync_state \<Rightarrow> ciset \<Rightarrow> sync_action list
   \<Rightarrow> (sync_state \<times> ciset) option sync_result" where
  "repair_sync_key dcs name v sync voters acts =
     (if cis_eq (sv_active v) voters \<and> \<not> cis_eq voters (sv_sync_confirmed v)
      then then_sync (write_sync dcs (Some name) (cis_iter (sv_sync_confirmed v)) 0 sync acts) (\<lambda>r acts'.
        (Inr (map_option (\<lambda>sync'. (sync', cis_of (sync_voters sync'))) r), acts'))
      else (Inr (Some (sync, voters)), acts))"

text \<open>Narrowing the key to the nodes that stay, changing the list in PostgreSQL, widening the key.\<close>

definition narrow_sync_key ::
  "dcs_answer \<Rightarrow> string \<Rightarrow> ciset \<Rightarrow> sync_state \<Rightarrow> ciset \<Rightarrow> sync_action list \<Rightarrow> sync_state option sync_result" where
  "narrow_sync_key dcs name sync_common sync voters acts =
     (if \<not> cis_eq sync_common voters then write_sync dcs (Some name) (cis_iter sync_common) 0 sync acts
      else (Inr (Some sync), acts))"

definition widen_sync_key ::
  "dcs_answer \<Rightarrow> string \<Rightarrow> ciset \<Rightarrow> ciset \<Rightarrow> ciset \<Rightarrow> py_error + sync_state_view \<Rightarrow> sync_state \<Rightarrow> sync_action list
   \<Rightarrow> unit sync_result" where
  "widen_sync_key dcs name picked allow sync_common view2 sync acts =
     (case (if cis_bool picked \<and> \<not> cis_eq picked (cis_of [''*'']) \<and> \<not> cis_eq allow picked
            then map_sum id sv_sync_confirmed view2 else Inr allow) of
        Inl e \<Rightarrow> (Inl (PyError e), acts)
      | Inr allow' \<Rightarrow>
          if cis_bool allow' \<and> \<not> cis_eq allow' sync_common
          then then_sync (write_sync dcs (Some name) (cis_iter allow') 0 sync acts) (\<lambda>r acts'. (Inr (), acts'))
          else (Inr (), acts))"

definition update_standbys ::
  "global_config \<Rightarrow> dcs_answer \<Rightarrow> string \<Rightarrow> sync_state_view \<Rightarrow> py_error + sync_state_view \<Rightarrow> sync_state \<Rightarrow> ciset
   \<Rightarrow> sync_action list \<Rightarrow> unit sync_result" where
  "update_standbys gc dcs name v view2 sync voters acts =
     (if cis_eq (sv_active v) voters \<and> cis_eq voters (sv_sync v) \<and> sv_numsync v = int (cis_len (sv_active v))
      then (Inr (), acts)
      else
        (let sync_common = cis_and voters (sv_sync_confirmed v);
             picked = (if is_synchronous_mode_strict gc \<and> \<not> cis_bool (sv_active v) then cis_of [''*''] else sv_active v)
         in then_sync (narrow_sync_key dcs name sync_common sync voters acts) (\<lambda>r acts1.
              case r of None \<Rightarrow> (Inr (), acts1)
              | Some sync' \<Rightarrow>
                  widen_sync_key dcs name picked (sv_sync_confirmed v) sync_common view2 sync'
                    (acts1 @ [SetStandbyNames (cis_iter picked) None]))))"

definition process_multisync_replication ::
  "global_config \<Rightarrow> dcs_answer \<Rightarrow> string \<Rightarrow> sync_state \<Rightarrow> py_error + sync_state_view \<Rightarrow> py_error + sync_state_view
   \<Rightarrow> unit sync_result" where
  "process_multisync_replication gc dcs name sync view1 view2 =
     then_sync (maybe_enable_synchronous_mode dcs name sync []) (\<lambda>r acts.
       case r of None \<Rightarrow> (Inr (), acts)
       | Some sync0 \<Rightarrow> (case view1 of
           Inl e \<Rightarrow> (Inl (PyError e), acts)
         | Inr v \<Rightarrow>
             then_sync (claim_sync_key dcs name sync0 acts) (\<lambda>r acts1.
               case r of None \<Rightarrow> (Inr (), acts1)
               | Some (sync1, voters1) \<Rightarrow>
                   then_sync (repair_sync_key dcs name v sync1 voters1 acts1) (\<lambda>r acts2.
                     case r of None \<Rightarrow> (Inr (), acts2)
                     | Some (sync2, voters2) \<Rightarrow> update_standbys gc dcs name v view2 sync2 voters2 acts2))))"

section \<open>Dispatch and promotion\<close>

text \<open>
  \<open>primary\<close> says whether the database runs as a primary. The time of the first run as a primary is
  remembered, and further changes wait for \<open>loop_wait\<close> seconds; \<open>now1\<close> and \<open>now2\<close> are the two times read.
\<close>

definition process_sync_replication ::
  "global_config \<Rightarrow> node \<Rightarrow> dcs_answer \<Rightarrow> sync_state \<Rightarrow> quorum_round list \<Rightarrow> py_error + sync_state_view
   \<Rightarrow> py_error + sync_state_view \<Rightarrow> time \<Rightarrow> time \<Rightarrow> int \<Rightarrow> time \<Rightarrow> unit sync_result \<times> time" where
  "process_sync_replication gc n dcs sync rounds view1 view2 now1 now2 loop_wait promote_timestamp =
     (if ha_is_quorum_commit_mode gc n then
        (if n_is_primary n then
           (let r = (if promote_timestamp = 0 \<or> now1 - promote_timestamp > of_int loop_wait
                     then process_quorum_replication gc dcs (n_name n) sync rounds else (Inr (), []))
            in (r, if promote_timestamp = 0 \<and> \<not> isl (fst r) then now2 else promote_timestamp))
         else ((Inr (), []), promote_timestamp))
      else if is_synchronous_mode gc
        then (process_multisync_replication gc dcs (n_name n) sync view1 view2, promote_timestamp)
      else ((Inr (), disable_synchronous_replication dcs sync []), promote_timestamp))"

text \<open>The standbys and the number set before a promotion in quorum commit mode.\<close>

definition prepromote_standbys :: "string \<Rightarrow> sync_state \<Rightarrow> ciset \<times> int" where
  "prepromote_standbys name key =
     (let sync = cis_of (sync_members key); numsync = int (cis_len sync) - s_quorum key - 1 in
      if \<not> cis_contains name sync then (sync, numsync + 1) else (cis_discard name sync, numsync))"

definition process_sync_replication_prepromote ::
  "global_config \<Rightarrow> node \<Rightarrow> dcs_answer \<Rightarrow> 'w cluster \<Rightarrow> bool sync_result" where
  "process_sync_replication_prepromote gc n dcs c =
     (if \<not> is_synchronous_mode gc then (Inr True, disable_synchronous_replication dcs (c_sync c) [])
      else
        (let min_sync = min_synchronous_nodes gc;
             (sync, numsync) = (if quorum_commit_mode_is_active gc n c then prepromote_standbys (n_name n) (c_sync c)
                                else (cis_of [], min_sync))
         in if \<not> ha_is_quorum_commit_mode gc n \<or> \<not> n_supports_multiple_sync n \<and> numsync > 1
            then then_sync (write_sync dcs (Some (n_name n)) [] 0 (c_sync c) []) (\<lambda>r acts.
              case r of None \<Rightarrow> (Inr False, acts)
                      | Some _ \<Rightarrow> (Inr True, acts @ [SetStandbyNames [] (Some min_sync)]))
            else (Inr True, [SetStandbyNames (cis_iter sync) (Some numsync)])))"

definition is_sync_standby :: "string \<Rightarrow> 'w cluster \<Rightarrow> bool" where
  "is_sync_standby name c = (case c_leader c of
     None \<Rightarrow> False
   | Some l \<Rightarrow> leader_matches (c_sync c) (Some (l_name l)) \<and> sync_matches (c_sync c) (Some name) False)"

text \<open>A primary whose standby \<open>b\<close> disconnected while \<open>c\<close> appeared.\<close>

definition demo_view :: sync_state_view where
  "demo_view = \<lparr>sv_sync_type = SPriority, sv_numsync = 1, sv_sync = cis_of [''b''], sv_sync_confirmed = cis_of [],
     sv_active = cis_of [''c'']\<rparr>"

section \<open>The registries\<close>

text \<open>
  What the actions do to the sync key and to \<^verbatim>\<open>synchronous_standby_names\<close>. A write to the key takes effect
  when DCS accepts it.
\<close>

record registry =
  rg_leader :: "string option"
  rg_quorum :: int
  rg_voters :: "string list"
  rg_sync :: "string list"
  rg_numsync :: "int option"

definition apply_action :: "bool \<Rightarrow> sync_action \<Rightarrow> registry \<Rightarrow> registry" where
  "apply_action accepted a r = (case a of
     WriteSync ldr standbys quorum version \<Rightarrow>
       if accepted then r\<lparr>rg_leader := ldr, rg_quorum := quorum, rg_voters := standbys\<rparr> else r
   | DeleteSync version \<Rightarrow> if accepted then r\<lparr>rg_leader := None, rg_quorum := 0, rg_voters := []\<rparr> else r
   | SetStandbyNames names num \<Rightarrow> r\<lparr>rg_sync := names, rg_numsync := num\<rparr>
   | UserStandbyNames \<Rightarrow> r)"

fun run_actions :: "dcs_answer \<Rightarrow> sync_action list \<Rightarrow> sync_action list \<Rightarrow> registry \<Rightarrow> registry" where
  "run_actions dcs done [] r = r"
| "run_actions dcs done (a # as) r =
     run_actions dcs (done @ [a]) as (apply_action (dcs (done @ [a]) \<noteq> None) a r)"

text \<open>The registries hold what the resolver believes, or demand more confirmations than it asked for.\<close>

definition represents :: "registry \<Rightarrow> qsr \<Rightarrow> bool" where
  "represents r s \<longleftrightarrow> rg_leader r = Some (qs_leader s) \<and> rg_quorum r = qs_quorum s
     \<and> rg_voters r = cis_iter (qs_voters s) \<and> rg_sync r = cis_iter (qs_sync s)
     \<and> (\<exists>m. rg_numsync r = Some m \<and> qs_numsync s \<le> m)"

section \<open>Executing transitions refines running them\<close>

lemma run_actions_append: "run_actions dcs d (as @ bs) r = run_actions dcs (d @ as) bs (run_actions dcs d as r)"
  by (induction as arbitrary: d r) simp_all

lemma sync_value_decodes:
  "\<exists>s. SyncState_from_node loads version (PDict (sync_state_value ldr standbys (Some q))) = Inr s"
  by (auto simp: SyncState_from_node_def sync_state_value_def pyget_def dict_get_default_def Let_def py_int_def)

lemma write_sync_cases:
  assumes "write_sync dcs ldr standbys q sync acts = (x, acts')"
  obtains (refused) "acts' = acts @ [WriteSync ldr standbys q (s_version sync)]" "dcs acts' = None" "x = Inr None"
  | (written) sync' where "acts' = acts @ [WriteSync ldr standbys q (s_version sync)]" "dcs acts' \<noteq> None" "x = Inr (Some sync')"
proof (cases "dcs (acts @ [WriteSync ldr standbys q (s_version sync)])")
  case None
  then show ?thesis using assms refused by (auto simp: write_sync_def Let_def write_sync_state_def)
next
  case (Some version)
  obtain s where "SyncState_from_node (\<lambda>_. Inl ValueError) version (PDict (sync_state_value ldr standbys (Some q))) = Inr s"
    using sync_value_decodes by blast
  then show ?thesis using Some assms written by (auto simp: write_sync_def Let_def write_sync_state_def)
qed

lemma represents_Quorum:
  "represents r s \<Longrightarrow> transition_type t = Quorum \<Longrightarrow>
   represents (apply_action True (WriteSync (Some (tr_leader t)) (cis_iter (tr_names t)) (tr_num t) v) r) (apply_transition t s)"
  by (simp add: represents_def apply_action_def apply_transition_def)

lemma represents_Sync:
  "represents r s \<Longrightarrow> transition_type t = Sync \<Longrightarrow> tr_num t \<le> m \<Longrightarrow>
   represents (apply_action b (SetStandbyNames (cis_iter (tr_names t)) (Some m)) r) (apply_transition t s)"
  by (simp add: represents_def apply_action_def apply_transition_def)

text \<open>Executing a state of the resolver reached by effective transitions only.\<close>

definition at_step :: "qsr \<Rightarrow> transition list \<Rightarrow> nat \<Rightarrow> qsr \<Rightarrow> bool" where
  "at_step s ts k s' \<longleftrightarrow> k \<le> length ts \<and> s' = run_transitions (take k ts) s
     \<and> (k = 0 \<or> transition_type (ts ! (k - 1)) \<noteq> Restart)"

lemma at_step_0 [simp]: "at_step s ts 0 s"
  by (simp add: at_step_def)

lemma at_step_Suc:
  assumes "at_step (apply_transition t s) ts k s'"
  shows "\<exists>k'. at_step s (t # ts) k' s'"
proof (cases "k = 0 \<and> transition_type t = Restart")
  case True
  then have "s' = s" using assms by (auto simp: at_step_def apply_transition_def)
  then show ?thesis using at_step_0 by blast
next
  case False
  then show ?thesis using assms by (intro exI [of _ "Suc k"]) (auto simp: at_step_def nth_Cons')
qed

text \<open>After every prefix of the actions the registries represent such a state.\<close>

definition tracks :: "dcs_answer \<Rightarrow> sync_action list \<Rightarrow> sync_action list \<Rightarrow> registry \<Rightarrow> qsr \<Rightarrow> transition list \<Rightarrow> bool" where
  "tracks dcs acts as r s ts \<longleftrightarrow>
     (\<forall>j. \<exists>i s'. at_step s ts i s' \<and> represents (run_actions dcs acts (take j as) r) s')"

lemma tracks_Nil: "represents r s \<Longrightarrow> tracks dcs acts [] r s ts"
  unfolding tracks_def using at_step_0 by fastforce

lemma tracks_Cons:
  assumes "represents r s" "tracks dcs (acts @ [a]) as (apply_action (dcs (acts @ [a]) \<noteq> None) a r) (apply_transition t s) ts"
  shows "tracks dcs acts (a # as) r s (t # ts)"
  unfolding tracks_def
proof
  fix j show "\<exists>i s'. at_step s (t # ts) i s' \<and> represents (run_actions dcs acts (take j (a # as)) r) s'"
  proof (cases j)
    case 0
    then show ?thesis using assms(1) at_step_0 by fastforce
  next
    case (Suc m)
    then show ?thesis using assms(2) at_step_Suc unfolding tracks_def by (metis run_actions.simps(2) take_Suc_Cons)
  qed
qed

lemma tracks_skip: "tracks dcs acts as r (apply_transition t s) ts \<Longrightarrow> tracks dcs acts as r s (t # ts)"
  unfolding tracks_def using at_step_Suc by metis

lemma tracks_refused:
  assumes "represents r s" "dcs (acts @ [WriteSync l n q v]) = None"
  shows "tracks dcs acts [WriteSync l n q v] r s ts"
proof -
  have "run_actions dcs acts (take j [WriteSync l n q v]) r = r" for j
    using assms(2) by (cases j) (simp_all add: apply_action_def)
  then show ?thesis unfolding tracks_def using assms(1) at_step_0 by metis
qed

lemma exec_transitions_refines:
  assumes "exec_transitions timeout dcs min_sync k ts sync acts = (res, acts')" "represents r s"
  shows "\<exists>as. acts' = acts @ as \<and> tracks dcs acts as r s ts"
  using assms
proof (induction ts arbitrary: k sync acts r s)
  case Nil
  then show ?case using tracks_Nil by fastforce
next
  case (Cons t ts)
  show ?case
  proof (cases "timeout k")
    case True
    then show ?thesis using Cons.prems tracks_Nil by fastforce
  next
    case go: False
    show ?thesis
    proof (cases "transition_type t")
      case Sync
      let ?m = "if tr_num t < min_sync then min_sync else tr_num t"
      let ?a = "SetStandbyNames (cis_iter (tr_names t)) (Some ?m)"
      have run: "exec_transitions timeout dcs min_sync (Suc k) ts sync (acts @ [?a]) = (res, acts')"
        using Cons.prems(1) go Sync by simp
      have rep: "represents (apply_action (dcs (acts @ [?a]) \<noteq> None) ?a r) (apply_transition t s)"
        by (rule represents_Sync [OF Cons.prems(2) Sync]) simp
      from Cons.IH [OF run rep] show ?thesis
        using tracks_Cons [OF Cons.prems(2), of dcs acts ?a] by fastforce
    next
      case Quorum
      let ?a = "WriteSync (Some (tr_leader t)) (cis_iter (tr_names t)) (tr_num t) (s_version sync)"
      obtain x acts1 where w: "write_sync dcs (Some (tr_leader t)) (cis_iter (tr_names t)) (tr_num t) sync acts = (x, acts1)"
        by fastforce
      then show ?thesis
      proof (cases rule: write_sync_cases)
        case refused
        then have "acts' = acts @ [?a]" using Cons.prems(1) go Quorum w by (simp add: then_sync_def)
        then show ?thesis using refused tracks_refused [OF Cons.prems(2)] by blast
      next
        case (written sync')
        then have run: "exec_transitions timeout dcs min_sync (Suc k) ts sync' (acts @ [?a]) = (res, acts')"
          using Cons.prems(1) go Quorum w by (simp add: then_sync_def)
        have rep: "represents (apply_action (dcs (acts @ [?a]) \<noteq> None) ?a r) (apply_transition t s)"
          using represents_Quorum [OF Cons.prems(2) Quorum] written by simp
        from Cons.IH [OF run rep] show ?thesis
          using tracks_Cons [OF Cons.prems(2), of dcs acts ?a] by fastforce
      qed
    next
      case Restart
      then show ?thesis using Cons.IH [of "Suc k" sync acts r "apply_transition t s"] Cons.prems go tracks_skip
        by (fastforce simp: apply_transition_def)
    qed
  qed
qed

section \<open>Rules for sequences of actions\<close>

text \<open>
  Without quorum commit a node listed in the sync key may be promoted, so every listed node must be in
  \<^verbatim>\<open>synchronous_standby_names\<close> at all times. \<open>spec\<close> states that a computation started with registries \<open>r\<close> keeps
  this after each of its actions and ends, unless it raises, in registries satisfying a postcondition.
\<close>

definition registry_safe :: "registry \<Rightarrow> bool" where
  "registry_safe r \<longleftrightarrow> lower ` set (rg_voters r) \<subseteq> lower ` set (rg_sync r)"

definition safe_path :: "dcs_answer \<Rightarrow> sync_action list \<Rightarrow> sync_action list \<Rightarrow> registry \<Rightarrow> bool" where
  "safe_path dcs acts as r \<longleftrightarrow> (\<forall>j. registry_safe (run_actions dcs acts (take j as) r))"

definition spec :: "dcs_answer \<Rightarrow> registry \<Rightarrow> sync_action list \<Rightarrow> 'a sync_result \<Rightarrow> ('a \<Rightarrow> registry \<Rightarrow> bool) \<Rightarrow> bool" where
  "spec dcs r acts c Q \<longleftrightarrow> (\<exists>as. snd c = acts @ as \<and> safe_path dcs acts as r
     \<and> (\<forall>y. fst c = Inr y \<longrightarrow> Q y (run_actions dcs acts as r)))"

lemma safe_path_append:
  assumes "safe_path dcs acts as r" "safe_path dcs (acts @ as) bs (run_actions dcs acts as r)"
  shows "safe_path dcs acts (as @ bs) r"
  unfolding safe_path_def
proof
  fix j show "registry_safe (run_actions dcs acts (take j (as @ bs)) r)"
  proof (cases "j \<le> length as")
    case True
    then show ?thesis using assms(1) by (simp add: safe_path_def)
  next
    case False
    then show ?thesis using assms(2) by (simp add: safe_path_def run_actions_append)
  qed
qed

lemma safe_path_single: "registry_safe r \<Longrightarrow> registry_safe (run_actions dcs acts [a] r) \<Longrightarrow> safe_path dcs acts [a] r"
  by (auto simp: safe_path_def take_Cons' simp del: run_actions.simps) simp

lemma safe_path_Nil [simp]: "safe_path dcs acts [] r = registry_safe r"
  by (simp add: safe_path_def)

lemma spec_return: "registry_safe r \<Longrightarrow> Q y r \<Longrightarrow> spec dcs r acts (Inr y, acts) Q"
  by (simp add: spec_def)

lemma spec_error: "registry_safe r \<Longrightarrow> spec dcs r acts (Inl e, acts) Q"
  by (simp add: spec_def)

lemma spec_action:
  assumes "registry_safe r" "registry_safe (run_actions dcs acts [a] r)"
    and "spec dcs (run_actions dcs acts [a] r) (acts @ [a]) c Q"
  shows "spec dcs r acts c Q"
proof -
  obtain as where as: "snd c = (acts @ [a]) @ as" "safe_path dcs (acts @ [a]) as (run_actions dcs acts [a] r)"
    "\<forall>y. fst c = Inr y \<longrightarrow> Q y (run_actions dcs (acts @ [a]) as (run_actions dcs acts [a] r))"
    using assms(3) unfolding spec_def by blast
  have "safe_path dcs acts ([a] @ as) r"
    using safe_path_append [OF safe_path_single [OF assms(1,2)]] as(2) by blast
  then show ?thesis using as by (intro spec_def [THEN iffD2] exI [of _ "[a] @ as"]) simp
qed

lemma spec_safe: "spec dcs r acts c Q \<Longrightarrow> registry_safe r"
  by (auto simp: spec_def safe_path_def dest: spec [of _ 0])

lemma spec_then:
  assumes "spec dcs r acts c Q" "\<And>y r' acts'. Q y r' \<Longrightarrow> registry_safe r' \<Longrightarrow> spec dcs r' acts' (f y acts') P"
  shows "spec dcs r acts (then_sync c f) P"
proof -
  obtain as where as: "snd c = acts @ as" "safe_path dcs acts as r" "\<And>y. fst c = Inr y \<Longrightarrow> Q y (run_actions dcs acts as r)"
    using assms(1) unfolding spec_def by blast
  show ?thesis
  proof (cases "fst c")
    case (Inl e)
    then have "then_sync c f = (Inl e, acts @ as)" using as(1) by (cases c) (simp add: then_sync_def)
    then show ?thesis using as(2) by (simp add: spec_def)
  next
    case (Inr y)
    let ?r = "run_actions dcs acts as r"
    have "registry_safe ?r" using as(2) unfolding safe_path_def by (metis take_all order_refl)
    then obtain bs where bs: "snd (f y (acts @ as)) = (acts @ as) @ bs" "safe_path dcs (acts @ as) bs ?r"
      "\<And>z. fst (f y (acts @ as)) = Inr z \<Longrightarrow> P z (run_actions dcs (acts @ as) bs ?r)"
      using assms(2) [OF as(3) [OF Inr]] unfolding spec_def by blast
    moreover have "then_sync c f = f y (acts @ as)" using Inr as(1) by (cases c) (simp add: then_sync_def)
    ultimately show ?thesis using safe_path_append [OF as(2) bs(2)]
      by (intro spec_def [THEN iffD2] exI [of _ "as @ bs"]) (simp add: run_actions_append)
  qed
qed

lemma spec_write:
  assumes "registry_safe r" "lower ` set standbys \<subseteq> lower ` set (rg_sync r)" "Q None r"
    and "\<And>sync' r'. rg_sync r' = rg_sync r \<Longrightarrow> rg_voters r' = standbys \<Longrightarrow> Q (Some sync') r'"
  shows "spec dcs r acts (write_sync dcs ldr standbys q sync acts) Q"
proof -
  let ?a = "WriteSync ldr standbys q (s_version sync)"
  obtain x acts' where w: "write_sync dcs ldr standbys q sync acts = (x, acts')" by fastforce
  then show ?thesis
  proof (cases rule: write_sync_cases)
    case refused
    then have "run_actions dcs acts [?a] r = r" by (simp add: apply_action_def)
    then show ?thesis using refused assms(1,3) w by (intro spec_action [of r dcs acts ?a]) (auto intro: spec_return)
  next
    case (written sync')
    then have "run_actions dcs acts [?a] r = r\<lparr>rg_leader := ldr, rg_quorum := q, rg_voters := standbys\<rparr>"
      by (simp add: apply_action_def)
    then show ?thesis using written assms w
      by (intro spec_action [of r dcs acts ?a]) (auto simp: registry_safe_def intro!: spec_return)
  qed
qed

section \<open>Standbys in the key are synchronous\<close>

text \<open>What the views promise: confirmed standbys are active and listed in \<^verbatim>\<open>synchronous_standby_names\<close>.\<close>

definition view_ok :: "sync_state_view \<Rightarrow> bool" where
  "view_ok v \<longleftrightarrow> cis_inv (sv_sync v) \<and> cis_inv (sv_active v) \<and> cis_inv (sv_sync_confirmed v)
     \<and> cis_abs (sv_sync_confirmed v) \<subseteq> cis_abs (sv_active v) \<and> cis_abs (sv_sync_confirmed v) \<subseteq> cis_abs (sv_sync v)"

definition view_matches :: "sync_state_view \<Rightarrow> registry \<Rightarrow> bool" where
  "view_matches v r \<longleftrightarrow> view_ok v \<and> lower ` set (rg_sync r) = cis_abs (sv_sync v)"

lemma registry_safe_empty [simp]: "rg_voters r = [] \<Longrightarrow> registry_safe r"
  by (simp add: registry_safe_def)

lemma spec_maybe_enable:
  assumes "registry_safe r" "lower ` set (rg_voters r) \<subseteq> lower ` set (sync_voters sync)"
  shows "spec dcs r acts (maybe_enable_synchronous_mode dcs name sync acts) (\<lambda>x r'. rg_sync r' = rg_sync r
    \<and> (case x of None \<Rightarrow> True | Some sync' \<Rightarrow> lower ` set (rg_voters r') \<subseteq> lower ` set (sync_voters sync')))"
  using assms by (auto simp: maybe_enable_synchronous_mode_def intro!: spec_return spec_write)

lemma spec_claim:
  assumes "registry_safe r" "lower ` set (rg_voters r) \<subseteq> lower ` set (sync_voters sync)"
  shows "spec dcs r acts (claim_sync_key dcs name sync acts) (\<lambda>x r'. rg_sync r' = rg_sync r
    \<and> (case x of None \<Rightarrow> True | Some (sync', voters) \<Rightarrow> cis_inv voters \<and> lower ` set (rg_voters r') \<subseteq> cis_abs voters))"
  unfolding claim_sync_key_def
proof (split if_split, intro conjI impI)
  let ?Q = "\<lambda>x r'. rg_sync r' = rg_sync r \<and> (case x of None \<Rightarrow> True | Some (_ :: sync_state) \<Rightarrow> rg_voters r' = [])"
  show "spec dcs r acts (then_sync (write_sync dcs (Some name) [] 0 sync acts) (\<lambda>r acts'.
        (Inr (map_option (\<lambda>sync'. (sync', cis_of [])) r), acts'))) (\<lambda>x r'. rg_sync r' = rg_sync r
    \<and> (case x of None \<Rightarrow> True | Some (sync', voters) \<Rightarrow> cis_inv voters \<and> lower ` set (rg_voters r') \<subseteq> cis_abs voters))"
  proof (rule spec_then [where Q = ?Q])
    show "spec dcs r acts (write_sync dcs (Some name) [] 0 sync acts) ?Q" by (rule spec_write) (use assms in auto)
  qed (auto intro!: spec_return split: option.splits)
qed (use assms in \<open>auto intro!: spec_return simp: cis_abs_of\<close>)

lemma spec_repair:
  assumes "registry_safe r" "cis_inv voters" "lower ` set (rg_voters r) \<subseteq> cis_abs voters" "view_matches v r"
  shows "spec dcs r acts (repair_sync_key dcs name v sync voters acts) (\<lambda>x r'. rg_sync r' = rg_sync r
    \<and> (case x of None \<Rightarrow> True | Some (sync', voters') \<Rightarrow> cis_inv voters' \<and>
         (lower ` set (rg_voters r') \<subseteq> cis_abs voters' \<or> lower ` set (rg_voters r') \<subseteq> cis_abs (sv_active v))))"
  unfolding repair_sync_key_def
proof (split if_split, intro conjI impI)
  let ?Q = "\<lambda>x r'. rg_sync r' = rg_sync r \<and> (case x of None \<Rightarrow> True
      | Some (_ :: sync_state) \<Rightarrow> lower ` set (rg_voters r') \<subseteq> cis_abs (sv_active v))"
  have c: "lower ` set (cis_iter (sv_sync_confirmed v)) \<subseteq> cis_abs (sv_active v)"
    "lower ` set (cis_iter (sv_sync_confirmed v)) \<subseteq> lower ` set (rg_sync r)"
    using assms(4) lower_iter_abs [of "sv_sync_confirmed v"] by (auto simp: view_matches_def view_ok_def)
  show "spec dcs r acts (then_sync (write_sync dcs (Some name) (cis_iter (sv_sync_confirmed v)) 0 sync acts) (\<lambda>r acts'.
        (Inr (map_option (\<lambda>sync'. (sync', cis_of (sync_voters sync'))) r), acts'))) (\<lambda>x r'. rg_sync r' = rg_sync r
    \<and> (case x of None \<Rightarrow> True | Some (sync', voters') \<Rightarrow> cis_inv voters' \<and>
         (lower ` set (rg_voters r') \<subseteq> cis_abs voters' \<or> lower ` set (rg_voters r') \<subseteq> cis_abs (sv_active v))))"
  proof (rule spec_then [where Q = ?Q])
    show "spec dcs r acts (write_sync dcs (Some name) (cis_iter (sv_sync_confirmed v)) 0 sync acts) ?Q"
      by (rule spec_write) (use assms c in auto)
  qed (auto intro!: spec_return split: option.splits)
qed (use assms in \<open>auto intro!: spec_return\<close>)

lemma spec_narrow:
  assumes "registry_safe r" "view_matches v r" "cis_inv voters"
    and "lower ` set (rg_voters r) \<subseteq> cis_abs voters \<or> lower ` set (rg_voters r) \<subseteq> cis_abs (sv_active v)"
  shows "spec dcs r acts (narrow_sync_key dcs name (cis_and voters (sv_sync_confirmed v)) sync voters acts)
    (\<lambda>x r'. case x of None \<Rightarrow> True | Some sync' \<Rightarrow> lower ` set (rg_voters r') \<subseteq> cis_abs (sv_active v))"
proof -
  let ?common = "cis_and voters (sv_sync_confirmed v)"
  have inv: "cis_inv ?common" using assms(2) by (simp add: cis_op_inv)
  have abs: "cis_abs ?common = cis_abs voters \<inter> cis_abs (sv_sync_confirmed v)"
    using assms(2) by (simp add: cis_abs_and view_matches_def view_ok_def)
  have c: "lower ` set (cis_iter ?common) \<subseteq> cis_abs (sv_active v)" "lower ` set (cis_iter ?common) \<subseteq> lower ` set (rg_sync r)"
    using assms(2) by (auto simp: lower_iter_abs [OF inv] abs view_matches_def view_ok_def)
  have "cis_eq ?common voters \<Longrightarrow> lower ` set (rg_voters r) \<subseteq> cis_abs (sv_active v)"
    using assms(2,4) by (simp add: cis_eq_abs [OF inv assms(3)] abs view_matches_def view_ok_def) blast
  then show ?thesis using assms(1) c unfolding narrow_sync_key_def
    by (auto intro!: spec_return spec_write)
qed

lemma spec_widen:
  assumes "registry_safe r" "cis_inv (sv_active v)" "cis_abs allow \<subseteq> cis_abs (sv_active v)" "cis_inv allow"
    and picked: "picked = (if strict \<and> \<not> cis_bool (sv_active v) then cis_of [''*''] else sv_active v)"
    and r: "lower ` set (rg_sync r) = cis_abs picked"
    and view2: "\<And>v2. view2 = Inr v2 \<Longrightarrow> cis_inv (sv_sync_confirmed v2) \<and> cis_abs (sv_sync_confirmed v2) \<subseteq> cis_abs (sv_active v)"
  shows "spec dcs r acts (widen_sync_key dcs name picked allow common view2 sync acts) (\<lambda>_ _. True)"
proof (cases "if cis_bool picked \<and> \<not> cis_eq picked (cis_of [''*'']) \<and> \<not> cis_eq allow picked
            then map_sum id sv_sync_confirmed view2 else Inr allow")
  case (Inl e)
  then show ?thesis using assms(1) by (simp add: widen_sync_key_def spec_error)
next
  case (Inr allow')
  have a: "cis_inv allow'" "cis_abs allow' \<subseteq> cis_abs (sv_active v)"
    using Inr assms(3,4) view2 by (cases view2; auto split: if_splits)+
  have w: "spec dcs r acts (write_sync dcs (Some name) (cis_iter allow') 0 sync acts) (\<lambda>_ _. True)" if "cis_bool allow'"
  proof (rule spec_write)
    have "picked = sv_active v" using that a assms(2) by (auto simp: picked cis_bool_abs)
    then show "lower ` set (cis_iter allow') \<subseteq> lower ` set (rg_sync r)" using a r by (simp add: lower_iter_abs)
  qed (use assms(1) in auto)
  show ?thesis
    using Inr assms(1) w by (auto simp: widen_sync_key_def intro!: spec_return spec_then [OF w])
qed

lemma spec_update_standbys:
  assumes "registry_safe r" "view_matches v r" "cis_inv voters"
    and "lower ` set (rg_voters r) \<subseteq> cis_abs voters \<or> lower ` set (rg_voters r) \<subseteq> cis_abs (sv_active v)"
    and view2: "\<And>v2. view2 = Inr v2 \<Longrightarrow> cis_inv (sv_sync_confirmed v2) \<and> cis_abs (sv_sync_confirmed v2) \<subseteq> cis_abs (sv_active v)"
  shows "spec dcs r acts (update_standbys gc dcs name v view2 sync voters acts) (\<lambda>_ _. True)"
proof -
  let ?common = "cis_and voters (sv_sync_confirmed v)"
  let ?picked = "if is_synchronous_mode_strict gc \<and> \<not> cis_bool (sv_active v) then cis_of [''*''] else sv_active v"
  have v: "cis_inv (sv_active v)" "cis_inv (sv_sync_confirmed v)" "cis_abs (sv_sync_confirmed v) \<subseteq> cis_abs (sv_active v)"
    using assms(2) by (auto simp: view_matches_def view_ok_def)
  have "spec dcs r1 acts1 (widen_sync_key dcs name ?picked (sv_sync_confirmed v) ?common view2 sync'
          (acts1 @ [SetStandbyNames (cis_iter ?picked) None])) (\<lambda>_ _. True)"
    if r1: "lower ` set (rg_voters r1) \<subseteq> cis_abs (sv_active v)" "registry_safe r1" for r1 acts1 sync'
  proof -
    let ?a = "SetStandbyNames (cis_iter ?picked) None"
    let ?r2 = "run_actions dcs acts1 [?a] r1"
    have sync: "lower ` set (rg_sync ?r2) = cis_abs ?picked" using v by (simp add: apply_action_def lower_iter_abs)
    have "lower ` set (rg_voters ?r2) \<subseteq> cis_abs ?picked"
      using r1 v by (auto simp: apply_action_def cis_bool_abs)
    then have "registry_safe ?r2" using sync by (simp add: registry_safe_def)
    then show ?thesis
      by (intro spec_action [of r1 dcs acts1 ?a] spec_widen [OF _ v(1,3,2) refl sync view2] r1)
  qed
  then show ?thesis using assms(1)
    by (auto simp: update_standbys_def Let_def intro!: spec_return spec_then [OF spec_narrow [OF assms(1-4)]] split: option.splits)
qed

text \<open>
  C10: without quorum commit, and whatever writes DCS refuses or errors cut the procedure short, after each
  change that \<open>_process_multisync_replication\<close> makes every node named in the sync key, which may be promoted, is
  listed in \<^verbatim>\<open>synchronous_standby_names\<close>, so that no commit was acknowledged without it. This needs it to
  hold at the start and the reported states to name as confirmed only standbys that are listed.
\<close>

theorem multisync_keeps_invariant:
  assumes "process_multisync_replication gc dcs name sync (Inr v) view2 = (res, acts)"
    and r: "registry_safe r" "lower ` set (rg_voters r) \<subseteq> lower ` set (sync_voters sync)" "view_matches v r"
    and view2: "\<And>v2. view2 = Inr v2 \<Longrightarrow> cis_inv (sv_sync_confirmed v2) \<and> cis_abs (sv_sync_confirmed v2) \<subseteq> cis_abs (sv_active v)"
  shows "registry_safe (run_actions dcs [] (take j acts) r)"
proof -
  have "spec dcs r [] (process_multisync_replication gc dcs name sync (Inr v) view2) (\<lambda>_ _. True)"
    unfolding process_multisync_replication_def
  proof (rule spec_then [OF spec_maybe_enable [OF r(1,2)]], goal_cases)
    case (1 x r0 acts0)
    show ?case
    proof (cases x)
      case (Some sync0)
      then have r0: "lower ` set (rg_voters r0) \<subseteq> lower ` set (sync_voters sync0)" "view_matches v r0"
        using 1 r(3) by (auto simp: view_matches_def)
      show ?thesis unfolding Some option.case sum.case
      proof (rule spec_then [OF spec_claim [OF 1(2) r0(1)]], goal_cases)
        case (1 y r1 acts1)
        show ?case
        proof (cases y)
          case (Some p)
          then obtain sync1 voters1 where y: "y = Some (sync1, voters1)" by (cases p) auto
          have r1: "cis_inv voters1" "lower ` set (rg_voters r1) \<subseteq> cis_abs voters1" "view_matches v r1"
            using 1 r0(2) y by (auto simp: view_matches_def)
          show ?thesis unfolding y option.case prod.case
          proof (rule spec_then [OF spec_repair [OF 1(2) r1]], goal_cases)
            case (1 z r2 acts2)
            then show ?case using r1(3) view2
              by (auto split: option.splits simp: view_matches_def intro!: spec_return spec_update_standbys)
          qed
        qed (use 1 in \<open>auto intro: spec_return\<close>)
      qed
    qed (use 1 in \<open>auto intro: spec_return\<close>)
  qed
  then show ?thesis using assms(1) by (auto simp: spec_def safe_path_def)
qed

theorem multisync_keeps_invariant_witness:
  "\<exists>acts. snd (process_multisync_replication [] (\<lambda>as. Some (PInt 1)) ''a'' (SyncState PNone (Some ''a'') (Some ''b'') 0)
        (Inr demo_view) (Inr demo_view)) = acts \<and> acts = [WriteSync (Some ''a'') [] 0 PNone,
          SetStandbyNames [''c''] None]
     \<and> registry_safe (run_actions (\<lambda>as. Some (PInt 1)) [] (take 1 acts)
          \<lparr>rg_leader = Some ''a'', rg_quorum = 0, rg_voters = [''b''], rg_sync = [''b''], rg_numsync = Some 1\<rparr>)"
proof -
  let ?r = "\<lparr>rg_leader = Some ''a'', rg_quorum = 0, rg_voters = [''b''], rg_sync = [''b''], rg_numsync = Some 1\<rparr>"
  let ?sync = "SyncState PNone (Some ''a'') (Some ''b'') 0"
  have run: "process_multisync_replication [] (\<lambda>as. Some (PInt 1)) ''a'' ?sync (Inr demo_view) (Inr demo_view)
     = (Inr (), [WriteSync (Some ''a'') [] 0 PNone, SetStandbyNames [''c''] None])" by code_simp
  have "registry_safe ?r" "lower ` set (rg_voters ?r) \<subseteq> lower ` set (sync_voters ?sync)" by code_simp+
  moreover have "view_matches demo_view ?r"
    by (simp add: view_matches_def view_ok_def demo_view_def cis_abs_of lower_def)
  moreover have "cis_inv (sv_sync_confirmed demo_view) \<and> cis_abs (sv_sync_confirmed demo_view) \<subseteq> cis_abs (sv_active demo_view)"
    by (simp add: demo_view_def cis_abs_of)
  ultimately have "registry_safe (run_actions (\<lambda>as. Some (PInt 1)) []
      (take 1 [WriteSync (Some ''a'') [] 0 PNone, SetStandbyNames [''c''] None]) ?r)"
    by (intro multisync_keeps_invariant [OF run]) auto
  then show ?thesis using run by simp
qed

section \<open>Quorum commit\<close>

text \<open>
  C4: executing the transitions of the resolver refines running them. After every action of a round, also
  when a write to DCS is refused or the time is up in between, the two registries hold a state the
  resolver passed through (possibly with more confirmations demanded than it asked for, when
  \<^verbatim>\<open>min_synchronous_nodes\<close> is larger), and that state satisfies the invariants unless nothing was changed yet.
\<close>

theorem quorum_round_refines:
  assumes "qsr_wf s" "qsr_iter s = Inr ts" "represents r s"
    and run: "exec_transitions timeout dcs min_sync 0 ts sync acts = (res, acts')"
  shows "\<exists>as. acts' = acts @ as
    \<and> (\<forall>j. \<exists>s'. represents (run_actions dcs acts (take j as) r) s' \<and> (s' = s \<or> invariants_ok s'))"
proof -
  obtain as where as: "acts' = acts @ as" "tracks dcs acts as r s ts"
    using exec_transitions_refines [OF run assms(3)] by blast
  have ok: "s' = s \<or> invariants_ok s'" if "at_step s ts i s'" for i s'
    using that trace_ok_nth [OF resolver_trace_ok [OF assms(1,2)], of "i - 1"]
    by (cases i) (auto simp: at_step_def)
  show ?thesis
  proof (intro exI [of _ as] conjI allI)
    fix j
    obtain i s' where "at_step s ts i s'" "represents (run_actions dcs acts (take j as) r) s'"
      using as(2) unfolding tracks_def by metis
    then show "\<exists>s'. represents (run_actions dcs acts (take j as) r) s' \<and> (s' = s \<or> invariants_ok s')" using ok by blast
  qed (rule as(1))
qed

theorem quorum_round_refines_witness:
  "\<exists>s'. represents (run_actions (\<lambda>as. None) []
       [WriteSync (Some ''a'') [''b'', ''c'', ''d''] 2 PNone]
       \<lparr>rg_leader = Some ''a'', rg_quorum = 1, rg_voters = [''b'', ''c''], rg_sync = [''b'', ''c''], rg_numsync = Some 1\<rparr>) s'"
proof -
  let ?s = "QuorumStateResolver ''a'' 1 [''b'', ''c''] 1 [''b'', ''c''] 1 [''b'', ''c'', ''d''] 1 ''a''"
  let ?ts = "[Transition Quorum ''a'' 2 (cis_of [''b'', ''c'', ''d'']), Transition Sync ''a'' 1 (cis_of [''b'', ''c'', ''d''])]"
  let ?r = "\<lparr>rg_leader = Some ''a'', rg_quorum = 1, rg_voters = [''b'', ''c''], rg_sync = [''b'', ''c''], rg_numsync = Some 1\<rparr>"
  let ?k = "SyncState PNone (Some ''a'') (Some ''b,c'') 1"
  have "qsr_iter ?s = Inr ?ts" by code_simp
  moreover have "qsr_wf ?s" by (simp add: qsr_wf_def QuorumStateResolver_def)
  moreover have "represents ?r ?s"
    by (simp add: represents_def QuorumStateResolver_def) code_simp
  moreover have "exec_transitions (\<lambda>k. False) (\<lambda>as. None) 0 0 ?ts ?k [] =
      (Inr (False, ?k), [WriteSync (Some ''a'') [''b'', ''c'', ''d''] 2 PNone])" by code_simp
  ultimately have "\<forall>j. \<exists>s'. represents (run_actions (\<lambda>as. None) []
      (take j [WriteSync (Some ''a'') [''b'', ''c'', ''d''] 2 PNone]) ?r) s'"
    using quorum_round_refines [of ?s ?ts ?r "\<lambda>k. False" "\<lambda>as. None" 0 ?k "[]"] by fastforce
  then show ?thesis by (metis take_Suc_Cons take0)
qed

lemma int_card_minus: "finite A \<Longrightarrow> int (card (A - {x})) = int (card A) - (if x \<in> A then 1 else 0)"
  by (cases "card A") (auto simp: card_Diff_singleton_if)

text \<open>
  C11: a new leader starts from registries that satisfy the invariants. In quorum commit mode, right before
  it promotes, a node sets \<^verbatim>\<open>synchronous_standby_names\<close> so that together with the sync key its predecessor
  left behind, which is not touched, any commit it acknowledges reaches every possible election.
\<close>

theorem prepromote_invariants:
  assumes "quorum_commit_mode_is_active gc n c" "0 \<le> s_quorum (c_sync c)" "is_synchronous_mode gc"
    and "process_sync_replication_prepromote gc n dcs c = (res, acts)"
  shows "res = Inr True \<and> (\<exists>names num. acts = [SetStandbyNames names (Some num)]
    \<and> invariants_ok (QuorumStateResolver (str_or_empty (s_leader (c_sync c))) (s_quorum (c_sync c)) (sync_voters (c_sync c))
        num names confirmed active wanted (n_name n)))"
proof -
  let ?k = "c_sync c"
  obtain sync num where p: "prepromote_standbys (n_name n) ?k = (sync, num)" by fastforce
  have key: "\<not> sync_is_empty ?k" "sync_members ?k = str_or_empty (s_leader ?k) # sync_voters ?k"
    using assms(1) by (simp_all add: quorum_commit_mode_is_active_def sync_members_def)
  have mode: "is_synchronous_mode gc" "ha_is_quorum_commit_mode gc n" "n_supports_multiple_sync n"
    using assms(1,3) by (simp_all add: quorum_commit_mode_is_active_def ha_is_quorum_commit_mode_def)
  then have acts: "res = Inr True" "acts = [SetStandbyNames (cis_iter sync) (Some num)]"
    using assms(1,4) p by (auto simp: process_sync_replication_prepromote_def Let_def)
  let ?M = "lower ` set (sync_members ?k)"
  have sync: "cis_inv sync" "cis_abs sync = ?M - {lower (n_name n)}"
    "num = int (card ?M) - s_quorum ?k - (if lower (n_name n) \<in> ?M then 1 else 0)"
  proof -
    define all where "all = cis_of (sync_members ?k)"
    have all: "cis_inv all" "cis_abs all = ?M" by (simp_all add: all_def cis_abs_of)
    have p': "(if \<not> cis_contains (n_name n) all then (all, int (cis_len all) - s_quorum ?k - 1 + 1)
        else (cis_discard (n_name n) all, int (cis_len all) - s_quorum ?k - 1)) = (sync, num)"
      using p by (auto simp: prepromote_standbys_def Let_def all_def split: if_splits)
    show "cis_inv sync" "cis_abs sync = ?M - {lower (n_name n)}"
      "num = int (card ?M) - s_quorum ?k - (if lower (n_name n) \<in> ?M then 1 else 0)"
      using p' all by (auto simp: cis_contains_abs cis_len_abs cis_abs_discard cis_discard_inv split: if_splits)
  qed
  have len: "int (length (cis_iter sync)) = int (card ?M) - (if lower (n_name n) \<in> ?M then 1 else 0)"
    by (simp only: length_iter cis_len_abs [OF sync(1)] sync(2) int_card_minus [OF finite_imageI [OF finite_set]])
  let ?s = "QuorumStateResolver (str_or_empty (s_leader ?k)) (s_quorum ?k) (sync_voters ?k) num (cis_iter sync)
        confirmed active wanted (n_name n)"
  have sets: "cis_abs (cis_or (qs_voters ?s) (cis_of [qs_leader ?s])) = ?M"
    "cis_abs (cis_or (qs_sync ?s) (cis_of [qs_leader_wanted ?s])) = insert (lower (n_name n)) ?M"
    using sync(1,2) by (auto simp: QuorumStateResolver_def cis_simps key lower_iter_abs)
  have "card (insert (lower (n_name n)) ?M) = card ?M + (if lower (n_name n) \<in> ?M then 0 else 1)"
    by (simp add: card_insert_if)
  then have "clen (cis_or (cis_or (qs_voters ?s) (cis_of [qs_leader ?s])) (cis_or (qs_sync ?s) (cis_of [qs_leader_wanted ?s])))
      \<le> qs_quorum ?s + qs_numsync ?s + 1"
    using sync(3) len assms(2) sets
    by (simp add: cis_len_abs cis_abs_or QuorumStateResolver_def insert_absorb Un_absorb1)
  then have "invariants_ok ?s" using sets by (auto simp: invariants_ok_def Let_def cis_le_abs cis_issubset_def)
  then show ?thesis using acts by blast
qed

theorem prepromote_invariants_witness:
  "invariants_ok (QuorumStateResolver ''x'' 1 [''a'', ''b''] 1 [''x'', ''b''] 0 [] 1 ''a'')"
proof -
  let ?c = "Cluster_empty\<lparr>c_sync := SyncState PNone (Some ''x'') (Some ''a,b'') 1\<rparr> :: unit cluster"
  let ?gc = "[(''synchronous_mode'', PStr ''quorum'')]"
  have "quorum_commit_mode_is_active ?gc demo_node ?c" "0 \<le> s_quorum (c_sync ?c)" "is_synchronous_mode ?gc"
    "process_sync_replication_prepromote ?gc demo_node (\<lambda>as. None) ?c = (Inr True, [SetStandbyNames [''x'', ''b''] (Some 1)])"
    "str_or_empty (s_leader (c_sync ?c)) = ''x''" "s_quorum (c_sync ?c) = 1" "sync_voters (c_sync ?c) = [''a'', ''b'']"
    "n_name demo_node = ''a''"
    by code_simp+
  then show ?thesis
    using prepromote_invariants [of ?gc demo_node ?c "\<lambda>as. None" "Inr True" "[SetStandbyNames [''x'', ''b''] (Some 1)]" 0 "[]" 1]
    by simp
qed

end
