(* ===== verification/HaState.thy ===== *)
theory HaState
  imports Failsafe HaSync
begin

text \<open>
  The state of the class \<open>Ha\<close> of \<^verbatim>\<open>patroni/ha.py\<close> and the language its methods are written in. A method is a
  function on the state that returns a value or raises. What it asks of the outside, the database, the watchdog,
  the clock and DCS, is a query; the answer is given by a function that sees all queries and
  answers so far, so a theorem for all such functions covers every behaviour of the environment, including
  any exception. Queries and answers are recorded in a trace.
\<close>

section \<open>Queries and answers\<close>

text \<open>
  \<open>DCSError\<close>, the errors of the database connection, \<open>PatroniFatalException\<close>, \<^verbatim>\<open>sys.exit\<close>, and all others.
\<close>

datatype exn = DcsError | PgError | PatroniFatal | SystemExit | OtherError

datatype demote_mode = Offline | Graceful | Immediate | ImmediateNolock | DemoteCluster

text \<open>Functions handed to the asynchronous executor.\<close>

datatype task =
    TPromote | TDemote demote_mode | TFollow "member option" string | TStart | TRestart | TReinitialize
  | TCrashRecovery | TRewind string | TBootstrap | TBootstrapStandbyLeader | TClone "member option" | TPostBootstrap
  | TCopySlots "string list"

datatype dcs_query =
    GetCluster | AttemptAcquire | UpdateLeader "int option" | DeleteLeader | WriteStatus | WriteFailsafe
  | TakeLeader | Initialize bool string | CancelInitialization | SetConfig pydict pyval | ManualFailover pydict pyval
  | TouchMember pydict | SetHistory pyval | SyncInputs | SyncAction sync_action | WriteOptime int
  | MppCoordinator

datatype watchdog_query = WatchdogRunning | WatchdogActivate | WatchdogDisable | Keepalive

text \<open>What is read of the database, and the commands given to it.\<close>

datatype db_query =
    IsPrimary | IsRunning | IsStarting | IsHealthy | CheckForStartup | TimeInState | DbRole | DbState | DbSysid
  | DataDirectoryEmpty | ClusterState | CbCalled | RecoveryConfExists | RestoredFromBackup | CanCreateReplica
  | LastOperation | DbSlots

datatype db_query2 =
    NodeView | WalPosition | PendingRestart | ProxyUrl | PrimaryTimeline | DbHistory int | PostmasterStartTime
  | ServerVersion | CheckpointLocations | ArchiveCommand | MgrCycle bool | MgrStatus | CheckRecoveryConf "member option"
  | CloneName | PickMember | PauseOnFork | MgrForkMembers | ConnKwargs member

text \<open>
  The arguments of \<open>Stop\<close> are the mode, whether there is a checkpoint before, and whether the callbacks for the
  safepoint and for the shutdown are given.
\<close>

datatype db_command =
    Stop string bool bool bool | SetRole string | SetState string | FollowNow "member option" string | Callback string
  | DemoteMysql | SetReadOnly | SemiSyncCheck | SyncMetaData | HandleParameterChange | SanityChecks | ResetClusterInfo
  | CancelCancellable | TerminatePostmaster | MoveDataDirectory | NotifyMpp string pydict int | ArchiveWal | EnsureCheckpoint

datatype db_command2 = BootstrapClone "member option" bool | RemoveDataDirectory | CompleteAsync | OnDemoteMpp

datatype rewind_query =
    RwIsNeeded | RwExecuted | RwFailed | RwCanRewind | RwCanRewindOrReinitialize | RwShouldRemove
  | RwCheckpointAfterPromote | RwPossible "member option" | RwReset | RwTrigger

datatype task_query = RunAsync string task | AsyncResult | AsyncReset | AsyncCancel | CriticalCancel

datatype query =
    QTime | QDcs dcs_query | QWatchdog watchdog_query | QDb db_query | QDb2 db_query2 | QCmd db_command | QCmd2 db_command2
  | QRewind rewind_query | QTask task_query | QFailsafeReplies | QSyncSlots

text \<open>What \<open>timeline_wal_position\<close> and the calls after it return in \<open>touch_member\<close>.\<close>

record position =
  p_timeline :: int
  p_wal_position :: int
  p_pg_control_timeline :: int
  p_receive_lsn :: int
  p_replay_lsn :: int
  p_stage :: nat
  p_enriched :: "pydict \<Rightarrow> pydict"
  p_replication_state :: "string option"
  p_received_timeline :: int
  p_other_timeline :: int

text \<open>What the methods of synchronous replication read.\<close>

record sync_inputs =
  si_node :: node
  si_dcs :: dcs_answer
  si_rounds :: "quorum_round list"
  si_view1 :: "py_error + sync_state_view"
  si_view2 :: "py_error + sync_state_view"
  si_now1 :: time
  si_now2 :: time

datatype 'w ans =
    AExc exn | AUnit | ABool bool | AInt int | AOptInt "int option" | ATime time | AStr string | AOptStr "string option"
  | ADict pydict | AVal pyval | ASlots "(string, int) dict" | ANames "string list" | ACluster "'w cluster" | ANode node
  | APosition position | ASync sync_inputs | AStop bool bool "(int \<times> int) option" | ALocations "int option" "int option"
  | ABools bool bool | AReplies "string \<Rightarrow> (int \<times> string \<times> pyval) option" | APick "nat \<Rightarrow> nat"

type_synonym 'w trace = "(query \<times> 'w ans) list"
type_synonym 'w answers = "'w trace \<Rightarrow> query \<Rightarrow> 'w ans"

section \<open>State\<close>

text \<open>Properties of the database engine.\<close>

record engine =
  en_db_type :: string
  en_has_timelines :: bool
  en_needs_rewind :: bool
  en_needs_crash_recovery :: bool
  en_requires_sysid_match :: bool
  en_can_advance_slots :: bool
  en_mgr_configured :: bool
  en_has_pause_on_fork :: bool

text \<open>A restart as requested with the REST API.\<close>

record restart_data =
  rd_schedule :: "datetime option"
  rd_postmaster_start_time :: "string option"
  rd_role :: "string option"
  rd_postgres_version :: "string option"
  rd_restart_pending :: bool
  rd_timeout :: "int option"

text \<open>
  \<open>hs_executor\<close> is the scheduled action of the asynchronous executor, which the HA loop holds the lock of.
  \<open>hs_shared\<close> is explained with the leader race.
\<close>

record node_config =
  nc_name :: string
  nc_tags :: pydict
  nc_api_url :: string
  nc_conn_url :: string
  nc_version :: string
  nc_has_bootstrap :: bool
  nc_dynamic_config :: pydict
  nc_engine :: engine
  nc_is_raft :: bool
  nc_loop_wait :: int
  nc_retry_timeout :: int
  nc_mpp_group :: "int option"
  nc_mpp_type :: string
  nc_isoformat :: "datetime \<Rightarrow> string"

record 'w hs =
  hs_conf :: node_config
  hs_gc :: global_config
  hs_dcs :: "'w dcs"
  hs_cluster :: "'w cluster"
  hs_old_cluster :: "'w cluster"
  hs_shared :: bool
  hs_leader_expiry :: time
  hs_failsafe :: failsafe
  hs_was_paused :: bool
  hs_promote_timestamp :: time
  hs_leader_timeline :: pyval
  hs_recovering :: bool
  hs_crash_recovery_started :: time
  hs_start_timeout :: "int option"
  hs_executor :: "string option"
  hs_last_wal_lsn :: "int option"
  hs_last_timeline :: "int option"
  hs_disable_sync :: int
  hs_last_state :: "(string \<times> string) option"
  hs_join_aborted :: bool
  hs_released_leader_key_timestamp :: time
  hs_scheduled_restart :: "restart_data option"
  hs_bootstrapping :: bool
  hs_trace :: "'w trace"

section \<open>Methods\<close>

type_synonym ('w, 'a) hm = "'w answers \<Rightarrow> 'w hs \<Rightarrow> (exn + 'a) \<times> 'w hs"

definition hret :: "'a \<Rightarrow> ('w, 'a) hm" where
  "hret x = (\<lambda>orc s. (Inr x, s))"

definition hraise :: "exn \<Rightarrow> ('w, 'a) hm" where
  "hraise e = (\<lambda>orc s. (Inl e, s))"

definition hbind :: "('w, 'a) hm \<Rightarrow> ('a \<Rightarrow> ('w, 'b) hm) \<Rightarrow> ('w, 'b) hm" where
  "hbind m f = (\<lambda>orc s. case m orc s of (Inl e, s') \<Rightarrow> (Inl e, s') | (Inr x, s') \<Rightarrow> f x orc s')"

abbreviation hthen :: "('w, 'a) hm \<Rightarrow> ('w, 'b) hm \<Rightarrow> ('w, 'b) hm" where
  "hthen m k \<equiv> hbind m (\<lambda>_. k)"

definition hwhen :: "bool \<Rightarrow> ('w, 'a) hm \<Rightarrow> ('w, unit) hm" where
  "hwhen b m = (if b then hthen m (hret ()) else hret ())"

text \<open>\<^verbatim>\<open>try\<close>: the outcome as a value.\<close>

definition hattempt :: "('w, 'a) hm \<Rightarrow> ('w, exn + 'a) hm" where
  "hattempt m = (\<lambda>orc s. case m orc s of (r, s') \<Rightarrow> (Inr r, s'))"

definition hlift :: "exn + 'a \<Rightarrow> ('w, 'a) hm" where
  "hlift r = (\<lambda>orc s. (r, s))"

definition hget :: "('w hs \<Rightarrow> 'a) \<Rightarrow> ('w, 'a) hm" where
  "hget f = (\<lambda>orc s. (Inr (f s), s))"

definition hset :: "('w hs \<Rightarrow> 'w hs) \<Rightarrow> ('w, unit) hm" where
  "hset f = (\<lambda>orc s. (Inr (), (f s)\<lparr>hs_trace := hs_trace s\<rparr>))"

text \<open>A Python error inside a method of another component.\<close>

definition hpy :: "py_error + 'a \<Rightarrow> ('w, 'a) hm" where
  "hpy r = hlift (map_sum (\<lambda>_. OtherError) id r)"

text \<open>A query that may raise, and one that may not.\<close>

definition ask :: "query \<Rightarrow> ('w, 'w ans) hm" where
  "ask q = (\<lambda>orc s. let a = orc (hs_trace s) q; s' = s\<lparr>hs_trace := hs_trace s @ [(q, a)]\<rparr> in
     case a of AExc e \<Rightarrow> (Inl e, s') | _ \<Rightarrow> (Inr a, s'))"

definition ask_safe :: "query \<Rightarrow> ('w, 'w ans) hm" where
  "ask_safe q = (\<lambda>orc s. let a = orc (hs_trace s) q in (Inr a, s\<lparr>hs_trace := hs_trace s @ [(q, a)]\<rparr>))"

abbreviation tell :: "query \<Rightarrow> ('w, unit) hm" where
  "tell q \<equiv> hthen (ask q) (hret ())"

abbreviation tell_safe :: "query \<Rightarrow> ('w, unit) hm" where
  "tell_safe q \<equiv> hthen (ask_safe q) (hret ())"

definition ans_bool :: "'w ans \<Rightarrow> bool" where
  "ans_bool a = (case a of ABool b \<Rightarrow> b | _ \<Rightarrow> False)"

definition ans_int :: "'w ans \<Rightarrow> int" where
  "ans_int a = (case a of AInt n \<Rightarrow> n | _ \<Rightarrow> 0)"

definition ans_time :: "'w ans \<Rightarrow> time" where
  "ans_time a = (case a of ATime t \<Rightarrow> t | _ \<Rightarrow> 0)"

definition ans_str :: "'w ans \<Rightarrow> string" where
  "ans_str a = (case a of AStr t \<Rightarrow> t | _ \<Rightarrow> [])"

definition ans_opt_str :: "'w ans \<Rightarrow> string option" where
  "ans_opt_str a = (case a of AOptStr t \<Rightarrow> t | _ \<Rightarrow> None)"

definition ans_cluster :: "'w ans \<Rightarrow> 'w cluster" where
  "ans_cluster a = (case a of ACluster c \<Rightarrow> c | _ \<Rightarrow> Cluster_empty)"

definition ask_bool :: "query \<Rightarrow> ('w, bool) hm" where
  "ask_bool q = hbind (ask q) (\<lambda>a. hret (ans_bool a))"

definition ask_flag :: "query \<Rightarrow> ('w, bool) hm" where
  "ask_flag q = hbind (ask_safe q) (\<lambda>a. hret (ans_bool a))"

definition ask_str :: "query \<Rightarrow> ('w, string) hm" where
  "ask_str q = hbind (ask_safe q) (\<lambda>a. hret (ans_str a))"

definition now :: "('w, time) hm" where
  "now = hbind (ask_safe QTime) (\<lambda>a. hret (ans_time a))"

text \<open>\<^verbatim>\<open>except Exception\<close>, which does not catch \<^verbatim>\<open>SystemExit\<close>.\<close>

definition hexcept :: "('w, 'a) hm \<Rightarrow> (exn \<Rightarrow> ('w, 'a) hm) \<Rightarrow> ('w, 'a) hm" where
  "hexcept m h = hbind (hattempt m) (\<lambda>r. case r of
     Inr x \<Rightarrow> hret x | Inl e \<Rightarrow> if e = SystemExit then hraise e else h e)"

text \<open>\<^verbatim>\<open>except DCSError: raise\<close>, and any other exception stands for the value \<open>x\<close>.\<close>

definition hswallow :: "('w, 'a) hm \<Rightarrow> 'a \<Rightarrow> ('w, 'a) hm" where
  "hswallow m x = hexcept m (\<lambda>e. if e = DcsError then hraise e else hret x)"

end
