(* ===== verification/HaOps.thy ===== *)
theory HaOps
  imports HaState
begin

text \<open>
  The methods of \<open>Ha\<close> below the HA cycle: leadership and the leader lock, publishing the state of the member,
  following another node, demotion, bootstrap, recovery, restarts and promotion. Messages are the ones the
  code returns. Sleeping is left out.
\<close>

section \<open>Leadership\<close>

abbreviation my_name :: "'w hs \<Rightarrow> string" where
  "my_name s \<equiv> nc_name (hs_conf s)"

abbreviation engine_of :: "'w hs \<Rightarrow> engine" where
  "engine_of s \<equiv> nc_engine (hs_conf s)"

abbreviation paused :: "('w, bool) hm" where
  "paused \<equiv> hget (\<lambda>s. is_paused (hs_gc s))"

abbreviation standby_cluster :: "('w, bool) hm" where
  "standby_cluster \<equiv> hget (\<lambda>s. is_standby_cluster (hs_gc s))"

abbreviation unlocked :: "('w, bool) hm" where
  "unlocked \<equiv> hget (\<lambda>s. is_unlocked (hs_cluster s))"

definition is_leader :: "('w, bool) hm" where
  "is_leader = hbind now (\<lambda>t. hget (\<lambda>s. hs_leader_expiry s > t))"

definition set_is_leader :: "bool \<Rightarrow> ('w, unit) hm" where
  "set_is_leader v =
     (if v then hbind now (\<lambda>t. hset (\<lambda>s. s\<lparr>hs_leader_expiry := t + of_int (d_ttl (hs_dcs s))\<rparr>))
      else hset (\<lambda>s. s\<lparr>hs_leader_expiry := 0, hs_promote_timestamp := 0\<rparr>))"

definition has_lock :: "('w, bool) hm" where
  "has_lock = hget (\<lambda>s. leader_name (hs_cluster s) = Some (my_name s))"

definition failsafe_is_active :: "('w, bool) hm" where
  "failsafe_is_active = hbind now (\<lambda>t. hget (\<lambda>s. fs_is_active (d_ttl (hs_dcs s)) t (hs_failsafe s)))"

section \<open>The cluster view\<close>

definition dcs_get_cluster :: "('w, 'w cluster) hm" where
  "dcs_get_cluster =
     hbind (hattempt (ask (QDcs GetCluster))) (\<lambda>r.
     hbind now (\<lambda>t.
     hbind (hget hs_dcs) (\<lambda>d.
       case get_cluster t (map_sum id ans_cluster r) d of (x, d') \<Rightarrow>
         hthen (hset (\<lambda>s. s\<lparr>hs_dcs := d'\<rparr>)) (hlift x))))"

text \<open>The members of the old view are the same objects when it is shared.\<close>

definition inject_failsafe_leader :: "('w, unit) hm" where
  "inject_failsafe_leader = hbind now (\<lambda>t. hset (\<lambda>s.
     let c = fs_update_cluster (d_ttl (hs_dcs s)) t (hs_failsafe s) (hs_cluster s) in
     s\<lparr>hs_cluster := c,
       hs_old_cluster := (if hs_shared s then (hs_old_cluster s)\<lparr>c_members := c_members c\<rparr> else hs_old_cluster s)\<rparr>))"

definition load_cluster_from_dcs :: "('w, unit) hm" where
  "load_cluster_from_dcs =
     hbind dcs_get_cluster (\<lambda>c.
     hthen (hset (\<lambda>s. if \<not> is_unlocked c \<or> cluster_is_empty (hs_old_cluster s)
                      then s\<lparr>hs_old_cluster := c, hs_shared := True, hs_cluster := c\<rparr>
                      else s\<lparr>hs_shared := False, hs_cluster := c\<rparr>))
     (hbind (hget (\<lambda>s. is_unlocked (hs_cluster s) \<and> is_failsafe_mode (hs_gc s))) (\<lambda>b.
     hthen (hwhen b inject_failsafe_leader)
     (hbind has_lock (\<lambda>l.
     hthen (hwhen (\<not> l) (set_is_leader False))
       (hset (\<lambda>s. s\<lparr>hs_leader_timeline :=
          (case c_leader (hs_cluster s) of None \<Rightarrow> PNone | Some l \<Rightarrow> leader_timeline l)\<rparr>)))))))"

section \<open>The leader lock\<close>

definition dcs_acquire_leader_lock :: "('w, bool) hm" where
  "dcs_acquire_leader_lock =
     hbind (ask_bool (QDcs AttemptAcquire)) (\<lambda>acquired.
     hbind now (\<lambda>t.
     hbind (hget hs_dcs) (\<lambda>d.
       case acquire_leader_lock t acquired d of (x, d') \<Rightarrow>
         hthen (hset (\<lambda>s. s\<lparr>hs_dcs := d'\<rparr>)) (hpy x))))"

definition acquire_lock :: "('w, bool) hm" where
  "acquire_lock =
     hbind (hswallow dcs_acquire_leader_lock False) (\<lambda>ret. hthen (set_is_leader ret) (hret ret))"

definition failsafe_config :: "'w hs \<Rightarrow> (string, string) dict option" where
  "failsafe_config s =
     (if is_failsafe_mode (hs_gc s)
      then (let ret = dict_of (List.map_filter (\<lambda>m. if str_bool (api_url m) then Some (m_name m, str_or_empty (api_url m)) else None)
                         (c_members (hs_cluster s)))
            in Some (if dict_has ret (my_name s) then ret else dict_set (my_name s) (nc_api_url (hs_conf s)) ret))
      else None)"

text \<open>\<open>WriteStatus\<close> and \<open>WriteFailsafe\<close> ask whether such a write would be accepted.\<close>

definition dcs_update_leader ::
  "int option \<Rightarrow> (string, int) dict option \<Rightarrow> (string, string) dict option \<Rightarrow> ('w, bool) hm" where
  "dcs_update_leader last_lsn slots fs =
     hbind (ask_bool (QDcs (UpdateLeader last_lsn))) (\<lambda>locked.
     hbind (if locked then ask_bool (QDcs WriteStatus) else hret False) (\<lambda>st_ok.
     hbind (if locked then ask_bool (QDcs WriteFailsafe) else hret False) (\<lambda>fs_ok.
     hbind now (\<lambda>t.
     hbind (hget (\<lambda>s. update_leader (hs_gc s) t locked st_ok fs_ok (hs_cluster s) last_lsn slots fs (hs_dcs s))) (\<lambda>(x, d).
       hthen (hset (\<lambda>s. s\<lparr>hs_dcs := d\<rparr>)) (hpy (map_sum id fst x)))))))"

definition read_status :: "('w, int option \<times> (string, int) dict option) hm" where
  "read_status =
     hbind (hexcept (hbind (ask (QDb LastOperation)) (\<lambda>a. hret (Some (ans_int a)))) (\<lambda>_. hret None)) (\<lambda>last_lsn.
       case last_lsn of None \<Rightarrow> hret (None, None)
       | Some lsn \<Rightarrow>
           hthen (hset (\<lambda>s. s\<lparr>hs_last_wal_lsn := Some lsn\<rparr>))
           (hbind (hexcept (hbind (ask (QDb DbSlots)) (\<lambda>a.
                     hbind (hget (\<lambda>s. maybe_filter_permanent_slots (hs_gc s) (hs_cluster s) (my_name s)
                                        (en_can_advance_slots (engine_of s))
                                        (case a of ASlots d \<Rightarrow> d | _ \<Rightarrow> []))) (\<lambda>r. hpy (map_sum id Some r))))
                   (\<lambda>_. hret None)) (\<lambda>slots.
              hret (Some lsn, slots))))"

definition update_lock :: "bool \<Rightarrow> ('w, bool) hm" where
  "update_lock update_status =
     hbind (if update_status then read_status else hret (None, None)) (\<lambda>(last_lsn, slots).
     hbind (hget failsafe_config) (\<lambda>fs.
     hbind (hswallow (dcs_update_leader last_lsn slots fs) False) (\<lambda>ret.
     hthen (set_is_leader ret)
     (hthen (hwhen ret (tell (QWatchdog Keepalive)))
       (hret ret)))))"

definition dcs_delete_leader :: "int option \<Rightarrow> ('w, unit) hm" where
  "dcs_delete_leader last_lsn =
     hbind (if int_or_0 last_lsn \<noteq> 0 then ask_bool (QDcs WriteStatus) else hret False) (\<lambda>st_ok.
     hbind (hget (\<lambda>s. c_leader (hs_cluster s) \<noteq> None)) (\<lambda>b.
     hbind (if b then ask_bool (QDcs DeleteLeader) else hret False) (\<lambda>deleted.
     hbind now (\<lambda>t.
     hbind (hget (\<lambda>s. delete_leader t st_ok deleted (c_leader (hs_cluster s)) last_lsn (hs_dcs s))) (\<lambda>(x, d).
       hthen (hset (\<lambda>s. s\<lparr>hs_dcs := d\<rparr>)) (hpy (map_sum id (\<lambda>_. ()) x)))))))"

definition ha_delete_leader :: "int option \<Rightarrow> ('w, unit) hm" where
  "ha_delete_leader last_lsn =
     hthen (set_is_leader False)
     (hthen (dcs_delete_leader last_lsn)
       (hset (\<lambda>s. s\<lparr>hs_dcs := reset_cluster (hs_dcs s)\<rparr>)))"

section \<open>Publishing the state of the member\<close>

definition get_effective_tags :: "'w hs \<Rightarrow> pydict" where
  "get_effective_tags s =
     (if hs_disable_sync s > 0
      then dict_set ''sync_priority'' (PInt 0) (dict_set ''nosync'' (PBool True) (nc_tags (hs_conf s)))
      else nc_tags (hs_conf s))"

text \<open>
  The part of the data that is read from a running database; \<open>p_stage\<close> tells which of the calls after the first
  one raises, and what has been stored by then stays. The result includes the timeline to be remembered.
\<close>

definition position_data :: "string \<Rightarrow> position \<Rightarrow> pydict \<Rightarrow> pydict \<times> int option" where
  "position_data role p data =
     (let d0 = dict_set ''xlog_location'' (PInt (p_wal_position p)) data;
          opt = (\<lambda>k n d. if n \<noteq> 0 then dict_set k (PInt n) d else d);
          d1 = p_enriched p d0;
          d2 = opt ''receive_lsn'' (p_receive_lsn p) (opt ''replay_lsn'' (p_replay_lsn p) d1);
          d3 = (case p_replication_state p of
                  Some (c # cs) \<Rightarrow> dict_set ''replication_state'' (PStr (c # cs)) d2 | _ \<Rightarrow> d2);
          t = (if role = role_value STANDBY_LEADER \<and> p_pg_control_timeline p \<noteq> 0 then p_pg_control_timeline p
               else p_other_timeline p)
      in if p_stage p = 0 then (d0, None)
         else if p_timeline p \<noteq> 0 then (dict_set ''timeline'' (PInt (p_timeline p)) d1, None)
         else if p_stage p = 1 then (d2, None)
         else if p_stage p = 2 then (d3, None)
         else if p_received_timeline p \<noteq> 0
              then (dict_set ''timeline'' (PInt (p_received_timeline p)) d3, Some (p_received_timeline p))
         else if p_stage p = 3 \<or> t = 0 then (d3, None)
         else (dict_set ''timeline'' (PInt t) d3, Some t))"

definition add_position :: "string \<Rightarrow> pydict \<Rightarrow> ('w, pydict) hm" where
  "add_position role data =
     hexcept (hbind (ask (QDb2 WalPosition)) (\<lambda>a. case a of
         APosition p \<Rightarrow>
           (case position_data role p data of (d, timeline) \<Rightarrow>
             hthen (hset (\<lambda>s. s\<lparr>hs_last_wal_lsn := Some (p_wal_position p),
                                hs_last_timeline := (case timeline of None \<Rightarrow> hs_last_timeline s | Some t \<Rightarrow> Some t)\<rparr>)) (hret d))
       | _ \<Rightarrow> hret data)) (\<lambda>_. hret data)"

definition restart_dict :: "(datetime \<Rightarrow> string) \<Rightarrow> restart_data \<Rightarrow> pydict" where
  "restart_dict isoformat r =
     (case rd_schedule r of None \<Rightarrow> [] | Some t \<Rightarrow> [(''schedule'', PStr (isoformat t))])
     @ (if rd_restart_pending r then [(''restart_pending'', PBool True)] else [])
     @ (case rd_role r of None \<Rightarrow> [] | Some x \<Rightarrow> [(''role'', PStr x)])
     @ (case rd_postgres_version r of None \<Rightarrow> [] | Some x \<Rightarrow> [(''postgres_version'', PStr x)])
     @ (case rd_timeout r of None \<Rightarrow> [] | Some n \<Rightarrow> [(''timeout'', PInt n)])
     @ [(''postmaster_start_time'', opt_str (rd_postmaster_start_time r))]"

text \<open>The entries that do not depend on the running database.\<close>

definition member_base :: "'w hs \<Rightarrow> string \<Rightarrow> string \<Rightarrow> string option \<Rightarrow> bool \<Rightarrow> pyval \<Rightarrow> pydict" where
  "member_base s state role proxy_url no_checkpoint pending =
     [(''conn_url'', PStr (nc_conn_url (hs_conf s))), (''api_url'', PStr (nc_api_url (hs_conf s))),
      (''state'', PStr state), (''role'', PStr role), (''version'', PStr (nc_version (hs_conf s)))]
     @ (if str_bool proxy_url then [(''proxy_url'', opt_str proxy_url)] else [])
     @ (if no_checkpoint then [(''checkpoint_after_promote'', PBool False)] else [])
     @ (if get_effective_tags s \<noteq> [] then [(''tags'', PDict (get_effective_tags s))] else [])
     @ (if truthy pending then [(''pending_restart'', PBool True), (''pending_restart_reason'', pending)] else [])"

definition has_conn_url :: "member \<Rightarrow> bool" where
  "has_conn_url m \<longleftrightarrow> truthy (pyget (m_data m) ''conn_url'') \<or> truthy (pyget (m_data m) ''conn_kwargs'')"

text \<open>
  The group of an MPP node is \<open>None\<close> when MPP is not enabled; group 0 is the coordinator. A request that fails is only
  logged, and so is a failure to load the view of the coordinator.
\<close>

definition mpp_is_coordinator :: "node_config \<Rightarrow> bool" where
  "mpp_is_coordinator conf \<longleftrightarrow> nc_mpp_group conf = Some 0"

definition mpp_is_worker :: "node_config \<Rightarrow> bool" where
  "mpp_is_worker conf \<longleftrightarrow> nc_mpp_group conf \<noteq> None \<and> nc_mpp_group conf \<noteq> Some 0"

definition mpp_event :: "string \<Rightarrow> 'w hs \<Rightarrow> string \<times> pydict \<times> int" where
  "mpp_event event s =
     (if nc_mpp_type (hs_conf s) = ''Citus'' then ''citus'' else ''mpp'',
       [(''type'', PStr event), (''group'', PInt (int_or_0 (nc_mpp_group (hs_conf s)))), (''leader'', PStr (my_name s)),
        (''timeout'', PInt (d_ttl (hs_dcs s))), (''cooldown'', PInt (nc_retry_timeout (hs_conf s)))],
       if event = ''before_demote'' then d_ttl (hs_dcs s) else 2)"

definition notify_mpp_coordinator :: "string \<Rightarrow> ('w, unit) hm" where
  "notify_mpp_coordinator event =
     hbind (hget (\<lambda>s. mpp_is_worker (hs_conf s))) (\<lambda>worker.
       if \<not> worker then hret ()
       else
         hbind (ask_safe (QDcs MppCoordinator)) (\<lambda>a.
         hbind (hget (mpp_event event)) (\<lambda>(endpoint, data, timeout).
           case c_leader (ans_cluster a) of
             Some l \<Rightarrow> if has_conn_url (l_member l) then tell_safe (QCmd (NotifyMpp endpoint data timeout)) else hret ()
           | None \<Rightarrow> hret ())))"

text \<open>The role and the state that were published last are remembered.\<close>

definition publish :: "string \<Rightarrow> string \<Rightarrow> pydict \<Rightarrow> ('w, bool) hm" where
  "publish state role data =
     hbind (ask_bool (QDcs (TouchMember data))) (\<lambda>ret.
     hthen (hwhen ret
       (hbind (hget hs_last_state) (\<lambda>prev.
        hthen (hwhen (prev \<noteq> Some (state, role) \<and> (state, role) = (state_value RUNNING, role_value PRIMARY))
                (notify_mpp_coordinator ''after_promote''))
          (hset (\<lambda>s. s\<lparr>hs_last_state := Some (state, role)\<rparr>)))))
       (hret ret))"

definition ha_touch_member :: "('w, bool) hm" where
  "ha_touch_member =
     hbind (ask_str (QDb DbState)) (\<lambda>state.
     hbind (ask_str (QDb DbRole)) (\<lambda>role.
     hbind (ask_safe (QDb2 ProxyUrl)) (\<lambda>proxy.
     hbind is_leader (\<lambda>ldr.
     hbind (if ldr then ask_bool (QRewind RwCheckpointAfterPromote) else hret True) (\<lambda>ckpt.
     hbind (ask_safe (QDb2 PendingRestart)) (\<lambda>pending.
     hbind (hget (\<lambda>s. member_base s state role (ans_opt_str proxy) (\<not> ckpt) (case pending of AVal v \<Rightarrow> v | _ \<Rightarrow> PNone))) (\<lambda>data.
     hbind (hget hs_executor) (\<lambda>action.
     hbind (if action \<in> {None, Some ''promote''} \<and> state \<in> {state_value RUNNING, state_value RESTARTING, state_value STARTING}
            then add_position role data else hret data) (\<lambda>data.
     hbind (hget (\<lambda>s. data
              @ (case hs_scheduled_restart s of None \<Rightarrow> []
                 | Some r \<Rightarrow> [(''scheduled_restart'', PDict (restart_dict (nc_isoformat (hs_conf s)) r))])
              @ (if is_paused (hs_gc s) then [(''pause'', PBool True)] else []))) (\<lambda>data.
       publish state role data))))))))))"

definition release_leader_key_voluntarily :: "int option \<Rightarrow> ('w, unit) hm" where
  "release_leader_key_voluntarily last_lsn =
     hthen (ha_delete_leader last_lsn) (hthen ha_touch_member (hret ()))"

section \<open>The node to follow\<close>

text \<open>
  \<open>Ha.get_remote_member\<close>: the name \<^verbatim>\<open>remote_member:\<close> followed by a fresh identifier is the answer to \<open>CloneName\<close>.
  Connection parameters of a given member are an argument.
\<close>

definition standby_cluster_config :: "global_config \<Rightarrow> pydict" where
  "standby_cluster_config gc = as_dict (pyget gc ''standby_cluster'')"

definition remote_data :: "global_config \<Rightarrow> string \<Rightarrow> pydict option \<Rightarrow> pydict" where
  "remote_data gc db_type member_kwargs =
     (let params = standby_cluster_config gc;
          allowed = [''primary_slot_name'', ''create_replica_methods'', ''restore_command'',
                     ''archive_cleanup_command'', ''recovery_min_apply_delay'', ''no_replication_slot''];
          kwargs = (case member_kwargs of Some k \<Rightarrow> k
                    | None \<Rightarrow> List.map_filter (\<lambda>k. if dict_has params k then Some (k, pyget params k) else None) [''host'', ''port'']);
          host = pyget kwargs ''host'';
          kwargs' = (if db_type = ''mysql''
                     then (let k1 = dict_set ''db_type'' (PStr ''mysql'') kwargs in
                           if truthy host \<and> CHR '','' \<in> set (py_str host)
                           then dict_set ''host'' (PStr (strip (hd (split_on (CHR '','') (py_str host))))) k1 else k1)
                     else kwargs)
      in if params = [] then []
         else dict_set ''no_replication_slot'' (PBool (\<not> dict_has params ''primary_slot_name''))
                (filter (\<lambda>(k, v). k \<in> set allowed) params)
              @ (if kwargs = [] then [] else [(''conn_kwargs'', PDict kwargs')]))"

definition get_remote_member :: "('w, member) hm" where
  "get_remote_member =
     hbind (ask_str (QDb2 CloneName)) (\<lambda>name.
     hget (\<lambda>s. RemoteMember name (remote_data (hs_gc s) (en_db_type (engine_of s)) None)))"

text \<open>Two parameters of the standby cluster are passed along in the data of the member followed.\<close>

definition follow_params :: "global_config \<Rightarrow> member \<Rightarrow> member" where
  "follow_params gc m =
     (let params = [''restore_command'', ''archive_cleanup_command''];
          data = filter (\<lambda>(k, v). k \<notin> set params) (m_data m);
          sc = standby_cluster_config gc
      in m\<lparr>m_data := (if is_standby_cluster gc
              then dict_update data (List.map_filter (\<lambda>p. if truthy (pyget sc p) then Some (p, pyget sc p) else None) params)
              else data)\<rparr>)"

text \<open>The second component says that the node is a remote member.\<close>

definition get_node_to_follow :: "'w cluster \<Rightarrow> ('w, (member \<times> bool) option) hm" where
  "get_node_to_follow c =
     hbind (hget (\<lambda>s. (nc_tags (hs_conf s), hs_gc s, my_name s))) (\<lambda>(tags, gc, name).
       if nostream tags then hret None
       else if is_standby_cluster gc \<and> (str_bool (leader_name c) \<and> leader_name c = Some name \<or> is_unlocked c \<and> \<not> is_paused gc)
       then hbind get_remote_member (\<lambda>m. hret (if m_name m = name then None else Some (m, True)))
       else
         (let node = (if str_bool (replicatefrom tags) \<and> replicatefrom tags \<noteq> Some name
                      then get_member c (str_or_empty (replicatefrom tags)) True
                      else if str_bool (leader_name c) then map_option l_member (c_leader c) else None)
          in hret (case node of None \<Rightarrow> None
                   | Some m \<Rightarrow> if m_name m = name then None else Some (follow_params gc m, False))))"

section \<open>The asynchronous executor\<close>

definition try_run_async :: "string \<Rightarrow> task \<Rightarrow> ('w, string option) hm" where
  "try_run_async action t =
     hbind (hget hs_executor) (\<lambda>prev. case prev of
       None \<Rightarrow> hthen (hset (\<lambda>s. s\<lparr>hs_executor := Some action\<rparr>))
                (hthen (tell_safe (QTask (RunAsync action t))) (hret None))
     | Some p \<Rightarrow> hret (Some (''Failed to run '' @ action @ '', '' @ p @ '' is already in progress'')))"

text \<open>\<^verbatim>\<open>try_run_async(action, ...) or msg\<close>\<close>

definition run_async_or :: "string \<Rightarrow> task \<Rightarrow> string \<Rightarrow> ('w, string) hm" where
  "run_async_or action t msg =
     hbind (try_run_async action t) (\<lambda>r. hret (if str_bool r then str_or_empty r else msg))"

section \<open>Failover candidates\<close>

text \<open>The view of the node for the leader race, with this node's own name and tags.\<close>

definition node_view :: "('w, node) hm" where
  "node_view = hbind (ask (QDb2 NodeView)) (\<lambda>a. case a of
     ANode n \<Rightarrow> hget (\<lambda>s. n\<lparr>n_name := my_name s, n_tags := nc_tags (hs_conf s)\<rparr>)
   | _ \<Rightarrow> hraise OtherError)"

definition ha_is_failover_possible :: "int \<Rightarrow> ('w, bool) hm" where
  "ha_is_failover_possible cluster_lsn =
     hbind node_view (\<lambda>n.
     hbind (hget (\<lambda>s. is_failover_possible (hs_gc s) n (hs_cluster s) cluster_lsn False)) hpy)"

section \<open>Demotion\<close>

text \<open>The table \<^verbatim>\<open>mode_control\<close>.\<close>

definition dm_stop :: "demote_mode \<Rightarrow> string" where
  "dm_stop mode = (if mode \<in> {Immediate, ImmediateNolock} then ''immediate'' else ''fast'')"

definition dm_release :: "demote_mode \<Rightarrow> bool" where
  "dm_release mode \<longleftrightarrow> mode \<in> {Graceful, Immediate, DemoteCluster}"

definition dm_async :: "demote_mode \<Rightarrow> bool" where
  "dm_async mode \<longleftrightarrow> mode \<in> {Immediate, ImmediateNolock}"

text \<open>Once the database has shut down cleanly the key is released if a replica has all of its log.\<close>

definition demote_on_shutdown :: "demote_mode \<Rightarrow> int \<times> int \<Rightarrow> ('w, bool) hm" where
  "demote_on_shutdown mode locations = (case locations of (checkpoint_location, prev_location) \<Rightarrow>
     hbind (ha_is_failover_possible checkpoint_location) (\<lambda>possible.
       if possible then
         hthen (tell (QCmd (SetRole (role_value DEMOTED))))
         (hthen (release_leader_key_voluntarily (Some (if mode = DemoteCluster then checkpoint_location else prev_location)))
           (hret True))
       else hret False))"

text \<open>
  \<open>state_handler.stop\<close> with its callbacks, in the order in which it calls them: before the shutdown, when no
  user backends are left, and when the database reports that it is shut down.
\<close>

definition stop_with_callbacks ::
  "string \<Rightarrow> bool \<Rightarrow> ('w, unit) hm option \<Rightarrow> (int \<times> int \<Rightarrow> ('w, bool) hm) option \<Rightarrow> ('w, bool) hm" where
  "stop_with_callbacks mode checkpoint before_shutdown on_shutdown =
     hbind (ask_flag (QWatchdog WatchdogRunning)) (\<lambda>wd.
     hbind (ask (QCmd (Stop mode checkpoint wd (on_shutdown \<noteq> None)))) (\<lambda>a. case a of
       AStop before_called safepoint locations \<Rightarrow>
         hthen (case before_shutdown of None \<Rightarrow> hret () | Some m \<Rightarrow> hwhen before_called m)
         (hthen (hwhen (wd \<and> safepoint) (tell (QWatchdog WatchdogDisable)))
           (case (on_shutdown, locations) of (Some f, Some l) \<Rightarrow> f l | _ \<Rightarrow> hret False))
     | _ \<Rightarrow> hret False))"

definition before_demote_mpp :: "('w, unit) hm" where
  "before_demote_mpp =
     hbind (hget (\<lambda>s. mpp_is_coordinator (hs_conf s))) (\<lambda>coordinator.
       if coordinator then tell (QCmd2 OnDemoteMpp) else notify_mpp_coordinator ''before_demote'')"

text \<open>After the stop: whom to follow, by a fresh view of the cluster; any failure there means nobody.\<close>

definition new_leader_to_follow :: "demote_mode \<Rightarrow> ('w, (member \<times> bool) option \<times> leader option) hm" where
  "new_leader_to_follow mode =
     (if mode = Offline then hret (None, None)
      else hexcept (hbind dcs_get_cluster (\<lambda>c. hbind (get_node_to_follow c) (\<lambda>node. hret (node, c_leader c))))
             (\<lambda>_. hret (None, None)))"

definition start_after_demotion :: "demote_mode \<Rightarrow> bool \<Rightarrow> ('w, unit) hm" where
  "start_after_demotion mode standby_leader =
     hbind (new_leader_to_follow mode) (\<lambda>(node, ldr).
     hbind (hget (\<lambda>s. is_synchronous_mode (hs_gc s))) (\<lambda>sync.
     hthen (hwhen sync (tell (QDcs (SyncAction (SetStandbyNames [] None)))))
       (let role = role_value (if standby_leader then STANDBY_LEADER else REPLICA) in
        if dm_async mode then hthen (try_run_async ''starting after demotion'' (TFollow (map_option fst node) role)) (hret ())
        else hbind (ask_bool (QRewind (RwPossible (map_option l_member ldr)))) (\<lambda>rewind.
          if rewind then hret () else tell (QCmd (FollowNow (map_option fst node) role))))))"

definition demote_postgresql :: "demote_mode \<Rightarrow> ('w, unit) hm" where
  "demote_postgresql mode =
     hthen (tell_safe (QRewind RwTrigger))
     (hbind (ask_safe (QDb2 ArchiveCommand)) (\<lambda>arch.
      let with_archive = (mode = DemoteCluster \<and> ans_opt_str arch \<noteq> None);
          release = (dm_release mode \<and> \<not> with_archive)
      in
      hbind (stop_with_callbacks (dm_stop mode) (mode = Graceful)
               (if mode = Graceful then Some before_demote_mpp else None)
               (if release then Some (demote_on_shutdown mode) else None)) (\<lambda>released.
      hthen (tell (QCmd (SetRole (role_value DEMOTED))))
      (hbind (if mode = Graceful then ask (QDb2 CheckpointLocations) else hret (ALocations None None)) (\<lambda>a.
      let (checkpoint_lsn, prev_lsn) = (case a of ALocations x y \<Rightarrow> (x, y) | _ \<Rightarrow> (None, None));
          standby_leader = (mode = DemoteCluster \<and> \<not> released)
      in
      hthen (if standby_leader
             then hbind (hget failsafe_config) (\<lambda>fs. hthen (dcs_update_leader checkpoint_lsn None fs) (hret ()))
             else set_is_leader False)
      (hthen (hwhen (release \<and> \<not> standby_leader \<and> \<not> released) (release_leader_key_voluntarily prev_lsn))
      (hthen (hwhen with_archive (tell (QCmd ArchiveWal)))
        (start_after_demotion mode standby_leader))))))))"

text \<open>MySQL is not stopped; every step is attempted whatever the ones before it did.\<close>

definition attempt_all :: "('w, 'a) hm \<Rightarrow> ('w, unit) hm" where
  "attempt_all m = hexcept (hthen m (hret ())) (\<lambda>_. hret ())"

definition mysql_follow_new_leader :: "('w, unit) hm" where
  "mysql_follow_new_leader =
     hbind (hexcept (hbind dcs_get_cluster (\<lambda>c. hthen (hset (\<lambda>s. s\<lparr>hs_cluster := c, hs_shared := False\<rparr>)) (hret c)))
              (\<lambda>_. hthen load_cluster_from_dcs (hget hs_cluster))) (\<lambda>c.
     hbind (if cluster_is_empty c then hret None else get_node_to_follow c) (\<lambda>node. case node of
       None \<Rightarrow> hret ()
     | Some (m, _) \<Rightarrow>
         if has_conn_url m
         then tell (QCmd (FollowNow (Some m) (role_value REPLICA))) else hret ()))"

definition demote_mysql :: "demote_mode \<Rightarrow> ('w, unit) hm" where
  "demote_mysql mode =
     hthen (attempt_all (tell (QCmd SetReadOnly)))
     (hthen (attempt_all (tell (QCmd DemoteMysql)))
       (if mode = DemoteCluster then
          hthen (attempt_all (hbind get_remote_member (\<lambda>m. tell (QCmd (FollowNow (Some m) (role_value STANDBY_LEADER))))))
            (attempt_all ha_touch_member)
        else
          hthen (set_is_leader False)
          (hthen (hwhen (mode \<in> {Graceful, Immediate}) (attempt_all (release_leader_key_voluntarily None)))
          (hthen (hwhen (mode \<noteq> Offline) (attempt_all mysql_follow_new_leader))
            (attempt_all ha_touch_member)))))"

definition demote :: "demote_mode \<Rightarrow> ('w, unit) hm" where
  "demote mode = hbind (hget (\<lambda>s. en_db_type (engine_of s) = ''mysql'')) (\<lambda>mysql.
     if mysql then demote_mysql mode else demote_postgresql mode)"

section \<open>Rewind\<close>

definition handle_crash_recovery :: "('w, string option) hm" where
  "handle_crash_recovery =
     hbind (hget (\<lambda>s. (hs_crash_recovery_started s = 0, is_unlocked (hs_cluster s)))) (\<lambda>(fresh, unl).
     hbind (if fresh \<and> \<not> unl then ask_bool (QRewind RwCanRewind) else hret False) (\<lambda>can.
       if fresh \<and> (unl \<or> can) then
         hbind now (\<lambda>t.
         hthen (hset (\<lambda>s. s\<lparr>hs_crash_recovery_started := t\<rparr>))
           (hbind (run_async_or ''doing crash recovery in a single user mode'' TCrashRecovery
                     ''doing crash recovery in a single user mode'') (\<lambda>m. hret (Some m))))
       else hret None))"

definition run_rewind :: "member \<Rightarrow> ('w, string option) hm" where
  "run_rewind ldr =
     (let msg = ''running pg_rewind from '' @ m_name ldr in
      hbind (run_async_or msg (TRewind (m_name ldr)) msg) (\<lambda>m. hret (Some m)))"

definition handle_rewind_or_reinitialize :: "('w, string option) hm" where
  "handle_rewind_or_reinitialize =
     hbind standby_cluster (\<lambda>sc.
     hbind (if sc then hbind get_remote_member (\<lambda>m. hret (Some m))
            else hget (\<lambda>s. map_option l_member (c_leader (hs_cluster s)))) (\<lambda>ldr.
     hbind (ask_bool (QRewind (RwPossible ldr))) (\<lambda>possible. case (possible, ldr) of
       (True, Some l) \<Rightarrow>
         hbind (ask_bool (QRewind RwCanRewind)) (\<lambda>can.
           if can then
             hbind (ask_bool (QDb IsRunning)) (\<lambda>running.
             hbind (if running then hret [] else ask_str (QDb ClusterState)) (\<lambda>cs.
             hbind (if \<not> running \<and> cs = ''in archive recovery'' then handle_crash_recovery else hret None) (\<lambda>msg.
               if str_bool msg then hret msg else run_rewind l)))
           else
             hbind (ask_bool (QRewind RwShouldRemove)) (\<lambda>remove.
               if remove \<and> \<not> sc
               then hbind (run_async_or ''reinitializing due to diverged timelines'' TReinitialize
                             ''reinitializing due to diverged timelines'') (\<lambda>m. hret (Some m))
               else hret None))
     | _ \<Rightarrow> hret None)))"

section \<open>Following\<close>

text \<open>In pause a primary stays a primary. The result is the message when nothing else is to be done.\<close>

definition follow_in_pause :: "bool \<Rightarrow> (member \<times> bool) option \<Rightarrow> ('w, string option) hm" where
  "follow_in_pause primary node =
     hbind (ask_bool (QRewind RwIsNeeded)) (\<lambda>needed.
     hbind (if needed then ask_bool (QRewind RwCanRewindOrReinitialize) else hret False) (\<lambda>allowed.
     hbind unlocked (\<lambda>unl.
       if \<not> (needed \<and> allowed) \<or> unl then
         (if primary then
            hthen (tell (QCmd (SetRole (role_value PRIMARY)))) (hret (Some ''continue to run as primary without lock''))
          else
            hbind (ask_str (QDb DbRole)) (\<lambda>role.
            hthen (hwhen (role \<noteq> role_value STANDBY_LEADER) (tell (QCmd (SetRole (role_value REPLICA)))))
              (hget (\<lambda>s. if node = None then Some (''no action. I am ('' @ my_name s @ '')'') else None))))
       else hret None)))"

text \<open>Pointing the replica to the node, and checking for a rewind when the leader has a newer timeline.\<close>

definition timeline_behind :: "int option \<Rightarrow> pyval \<Rightarrow> bool" where
  "timeline_behind last_timeline leader_tl = (case (last_timeline, leader_tl) of
     (Some t, PInt l) \<Rightarrow> t \<noteq> 0 \<and> l \<noteq> 0 \<and> t < l | _ \<Rightarrow> False)"

definition adjust_recovery_conf :: "(member \<times> bool) option \<Rightarrow> string \<Rightarrow> string \<Rightarrow> ('w, string) hm" where
  "adjust_recovery_conf node role follow_reason =
     hbind (ask (QDb2 (CheckRecoveryConf (map_option fst node)))) (\<lambda>a.
       let (change, restart) = (case a of ABools x y \<Rightarrow> (x, y) | _ \<Rightarrow> (False, False)) in
       if change then
         hthen (if restart then hthen (try_run_async ''changing primary_conninfo and restarting''
                                          (TFollow (map_option fst node) role)) (hret ())
                else tell (QCmd (FollowNow (map_option fst node) role)))
         (hthen (tell_safe (QRewind RwTrigger)) (hret follow_reason))
       else
         hbind (if role = role_value STANDBY_LEADER then ask_str (QDb DbRole) else hret role) (\<lambda>cur.
         hthen (hwhen (cur \<noteq> role) (hthen (tell (QCmd (SetRole role))) (tell (QCmd (Callback ''on_role_change'')))))
         (hbind (hget (\<lambda>s. timeline_behind (hs_last_timeline s) (hs_leader_timeline s))) (\<lambda>behind.
           if behind then
             hthen (tell_safe (QRewind RwTrigger))
             (hbind (ask_bool (QDb IsStarting)) (\<lambda>starting.
              hbind (if starting then hret None else handle_rewind_or_reinitialize) (\<lambda>msg.
                hret (if str_bool msg then str_or_empty msg else follow_reason))))
           else hret follow_reason))))"

definition follow_node :: "(member \<times> bool) option \<Rightarrow> string \<Rightarrow> ('w, string) hm" where
  "follow_node node follow_reason =
     hbind (hget (\<lambda>s. (is_standby_cluster (hs_gc s), hs_leader_timeline s, is_paused (hs_gc s)))) (\<lambda>(sc, ltl, p).
     hbind (if sc then (case ltl of PInt t \<Rightarrow> if t \<noteq> 0 then ask_bool (QDb2 (DbHistory (t + 1))) else hret False | _ \<Rightarrow> hret False)
            else hret False) (\<lambda>has_history.
     hthen (hwhen has_history (tell_safe (QRewind RwTrigger)))
     (hbind (ask_bool (QDb IsStarting)) (\<lambda>starting.
      hbind (if starting then hret None else handle_rewind_or_reinitialize) (\<lambda>msg.
        if str_bool msg then hret (str_or_empty msg)
        else
          hthen (hwhen (\<not> p) (tell (QCmd HandleParameterChange)))
          (hbind has_lock (\<lambda>lock.
             let role = (if (case node of Some (_, True) \<Rightarrow> True | _ \<Rightarrow> False) \<and> lock
                         then role_value STANDBY_LEADER else role_value REPLICA);
                 has_url = (case node of None \<Rightarrow> False | Some (m, _) \<Rightarrow> has_conn_url m)
             in if sc \<and> role = role_value REPLICA \<and> \<not> has_url
                then hret ''continue following the old known standby leader''
                else adjust_recovery_conf node role follow_reason)))))))"

definition follow :: "string \<Rightarrow> string \<Rightarrow> bool \<Rightarrow> ('w, string) hm" where
  "follow demote_reason follow_reason refresh =
     hthen (hwhen refresh load_cluster_from_dcs)
     (hbind (ask_bool (QDb IsPrimary)) (\<lambda>primary.
      hbind (hget hs_cluster) (\<lambda>c.
      hbind (get_node_to_follow c) (\<lambda>node.
      hbind paused (\<lambda>p.
        if p then
          hbind (follow_in_pause primary node) (\<lambda>msg. case msg of
            Some m \<Rightarrow> hret m | None \<Rightarrow> follow_node node follow_reason)
        else if primary then
          hbind standby_cluster (\<lambda>sc.
          hthen (if sc then hthen (try_run_async ''demoting to a standby cluster'' (TDemote DemoteCluster)) (hret ())
                 else demote ImmediateNolock)
            (hret demote_reason))
        else follow_node node follow_reason)))))"

section \<open>Bootstrap\<close>

definition clone_member :: "('w, member option) hm" where
  "clone_member = hbind (ask_safe (QDb2 PickMember)) (\<lambda>a.
     hget (\<lambda>s. get_clone_member (case a of APick f \<Rightarrow> f | _ \<Rightarrow> (\<lambda>_. 0)) has_conn_url (hs_cluster s) (my_name s)))"

text \<open>Cloning runs in the background.\<close>

definition clone :: "member option \<Rightarrow> bool \<Rightarrow> bool \<Rightarrow> ('w, bool option) hm" where
  "clone source remote from_leader =
     hbind standby_cluster (\<lambda>sc.
     hbind (if sc \<and> \<not> remote
            then (case source of None \<Rightarrow> hbind get_remote_member (\<lambda>m. hret (Some m))
                  | Some m \<Rightarrow> hbind (ask_safe (QDb2 (ConnKwargs m))) (\<lambda>a.
                      hget (\<lambda>s. Some (RemoteMember (m_name m) (remote_data (hs_gc s) (en_db_type (engine_of s))
                                   (Some (case a of ADict d \<Rightarrow> d | _ \<Rightarrow> [])))))))
            else hret source) (\<lambda>source.
     hthen (tell_safe (QRewind RwReset))
     (hbind (ask_bool (QCmd2 (BootstrapClone source from_leader))) (\<lambda>ok.
       if ok then
         hbind dcs_get_cluster (\<lambda>c.
         hbind (get_node_to_follow c) (\<lambda>node.
         hbind (ask (QCmd (FollowNow (map_option fst node)
                  (if sc \<and> (case node of Some (_, True) \<Rightarrow> True | _ \<Rightarrow> False) then role_value STANDBY_LEADER else [])))) (\<lambda>a.
           hret (Some (case a of ABool b \<Rightarrow> b | _ \<Rightarrow> True)))))
       else hthen (tell (QCmd2 RemoveDataDirectory)) (hret None)))))"

text \<open>\<open>Ha._do_reinitialize\<close>, in the background; the view is the one \<open>reinitialize\<close> was called with.\<close>

definition do_reinitialize :: "'w cluster \<Rightarrow> bool \<Rightarrow> ('w, bool option) hm" where
  "do_reinitialize c from_leader =
     hthen (tell (QCmd (Stop ''immediate'' False False False)))
     (hbind (if from_leader then hret (map_option l_member (c_leader c))
             else hbind (ask_safe (QDb2 PickMember)) (\<lambda>a.
                    hget (\<lambda>s. get_clone_member (case a of APick f \<Rightarrow> f | _ \<Rightarrow> (\<lambda>_. 0)) has_conn_url c (my_name s)))) (\<lambda>source.
        case source of None \<Rightarrow> hret None | Some m \<Rightarrow> clone (Some m) False from_leader))"

definition bootstrap_standby_leader :: "('w, bool option) hm" where
  "bootstrap_standby_leader =
     hbind get_remote_member (\<lambda>m.
     hbind (clone (Some m) True False) (\<lambda>result.
     hthen (tell_safe (QCmd2 CompleteAsync))
     (hthen (hwhen (result = Some True) (tell (QCmd (SetRole (role_value STANDBY_LEADER)))))
       (hret result))))"

definition new_cluster :: "('w, string) hm" where
  "new_cluster =
     hbind (ask_bool (QDcs (Initialize True []))) (\<lambda>won.
       if won then
         hthen (hset (\<lambda>s. s\<lparr>hs_bootstrapping := True\<rparr>))
         (hthen (tell_safe (QTask AsyncReset))
         (hbind standby_cluster (\<lambda>sc.
           if sc then run_async_or ''bootstrap_standby_leader'' TBootstrapStandbyLeader ''trying to bootstrap a new standby leader''
           else run_async_or ''bootstrap'' TBootstrap ''trying to bootstrap a new cluster'')))
       else hret ''failed to acquire initialize lock'')"

definition bootstrap_without_leader :: "('w, string) hm" where
  "bootstrap_without_leader =
     hbind (ask_bool (QDb CanCreateReplica)) (\<lambda>can.
     hbind (hget (\<lambda>s. (c_initialize (hs_cluster s), is_standby_cluster (hs_gc s)))) (\<lambda>(init, sc).
       if can \<and> init \<noteq> Some []
       then run_async_or ''bootstrap (without leader)'' (TClone None) ''trying to bootstrap (without leader)''
       else hret (''waiting for '' @ (if sc then ''standby_'' else []) @ ''leader to bootstrap'')))"

definition bootstrap :: "('w, string) hm" where
  "bootstrap =
     hbind (hget (\<lambda>s. is_unlocked (hs_cluster s) \<and> c_initialize (hs_cluster s) = None)) (\<lambda>fresh.
     hbind (if fresh then hbind (hget (\<lambda>s. nofailover (nc_tags (hs_conf s)))) hpy else hret True) (\<lambda>nofo.
     hbind (hget (\<lambda>s. nc_has_bootstrap (hs_conf s))) (\<lambda>has_bootstrap.
       if fresh \<and> \<not> nofo \<and> has_bootstrap then new_cluster
       else
         hbind clone_member (\<lambda>source.
         hbind (hget (\<lambda>s. leader_name (hs_cluster s))) (\<lambda>ldr. case source of
           Some m \<Rightarrow>
             if str_bool ldr then
               (let msg = ''bootstrap from '' @ (if Some (m_name m) = ldr then ''leader'' else ''replica'')
                            @ [CHR '' '', CHR 0x27] @ m_name m @ [CHR 0x27]
                in run_async_or msg (TClone (Some m)) (''trying to '' @ msg))
             else bootstrap_without_leader
         | None \<Rightarrow> bootstrap_without_leader)))))"

definition cancel_initialization :: "('w, unit) hm" where
  "cancel_initialization =
     hthen (tell (QDcs CancelInitialization))
     (hthen (tell (QCmd (Stop ''immediate'' False False False)))
     (hthen (tell (QCmd MoveDataDirectory))
       (hraise PatroniFatal)))"

definition post_bootstrap :: "('w, string) hm" where
  "post_bootstrap =
     hbind (ask_safe (QTask AsyncResult)) (\<lambda>result.
     hbind (ask_bool (QDb IsRunning)) (\<lambda>running.
     hthen (hwhen (\<not> running \<or> (case result of ABool False \<Rightarrow> True | _ \<Rightarrow> False)) cancel_initialization)
       (if \<not> (case result of ABool _ \<Rightarrow> True | _ \<Rightarrow> False) then
          hbind (ask_bool (QDb IsPrimary)) (\<lambda>primary.
            if \<not> primary then hret ''waiting for end of recovery after bootstrap''
            else hthen (tell (QCmd (SetRole (role_value PRIMARY))))
                   (run_async_or ''post_bootstrap'' TPostBootstrap ''running post_bootstrap''))
        else
          hthen (hset (\<lambda>s. s\<lparr>hs_bootstrapping := False\<rparr>))
          (hbind (ask_bool (QWatchdog WatchdogActivate)) (\<lambda>active.
           hthen (hwhen (\<not> active) cancel_initialization)
           (hthen (tell (QCmd EnsureCheckpoint))
           (hbind (ask_str (QDb DbSysid)) (\<lambda>sysid.
            hbind (hget (\<lambda>s. c_initialize (hs_cluster s) = None)) (\<lambda>create_new.
            hthen (tell (QDcs (Initialize create_new sysid)))
            (hbind (hget (\<lambda>s. nc_dynamic_config (hs_conf s))) (\<lambda>cfg.
            hthen (tell (QDcs (SetConfig cfg PNone)))
            (hthen (tell (QDcs TakeLeader))
            (hthen (set_is_leader True)
            (hbind (hget hs_gc) (\<lambda>gc.
            hthen (hwhen (is_synchronous_mode gc)
                     (tell (QDcs (SyncAction (SetStandbyNames (if is_synchronous_mode_strict gc then [''*''] else []) None)))))
            (hthen (tell (QCmd (Callback ''on_start'')))
            (hthen load_cluster_from_dcs
              (hret ''initialized a new cluster''))))))))))))))))))"

end
