(* ===== verification/HaCycle.thy ===== *)
theory HaCycle
  imports HaOps
begin

text \<open>
  The HA cycle of \<^verbatim>\<open>patroni/ha.py\<close>: recovery of a dead database, promotion, the decisions in a cluster with and
  without a leader, scheduled actions and restarts, and \<open>run_cycle\<close> itself with the handling of DCS errors.
\<close>

section \<open>Recovery\<close>

definition start_timeout_of :: "('w, int) hm" where
  "start_timeout_of = hbind (hget (\<lambda>s. primary_start_timeout (hs_gc s))) hpy"

text \<open>The first part: the owner of the lock may fail over at once when the start timeout is zero.\<close>

definition recover_lock :: "('w, string option \<times> int option) hm" where
  "recover_lock =
     hbind has_lock (\<lambda>lock.
     hbind (if lock then update_lock False else hret False) (\<lambda>locked.
       if \<not> locked then hret (None, None)
       else hbind start_timeout_of (\<lambda>timeout.
         if timeout = 0 then
           hbind (ha_is_failover_possible 0) (\<lambda>possible.
             if possible then
               hthen (tell (QWatchdog WatchdogDisable))
               (hthen (demote Immediate) (hret (Some ''stopped PostgreSQL to fail over after a crash'', Some timeout)))
             else hret (None, Some timeout))
         else hret (None, Some timeout))))"

text \<open>A crashed primary that still owns the lock is started as a primary again.\<close>

definition start_crashed_primary :: "int option \<Rightarrow> string \<Rightarrow> ('w, string option) hm" where
  "start_crashed_primary timeout cluster_state =
     (if int_or_0 timeout \<noteq> 0 \<and> cluster_state \<in> {''in production'', ''in crash recovery'', ''shutting down'', ''shut down''} then
        hbind (ask_str (QDb DbState)) (\<lambda>state.
        hbind (ask_str (QDb DbRole)) (\<lambda>role.
          if state = state_value CRASHED \<and> role = role_value PRIMARY then
            hbind (ask_bool (QDb RecoveryConfExists)) (\<lambda>conf.
              if conf then hret None
              else hbind (try_run_async ''starting primary after failure'' TStart) (\<lambda>r.
                if r = None then hthen (hset (\<lambda>s. s\<lparr>hs_recovering := True\<rparr>)) (hret (Some ''starting primary after failure''))
                else hret None))
          else hret None))
      else hret None)"

definition recover_crash :: "string \<Rightarrow> ('w, string option) hm" where
  "recover_crash cluster_state =
     (if cluster_state \<in> {''in production'', ''shutting down'', ''in crash recovery''} then
        hbind (ask_bool (QDb RestoredFromBackup)) (\<lambda>restored.
          if restored then hret None else handle_crash_recovery)
      else hret None)"

definition recover_role :: "bool \<Rightarrow> bool \<Rightarrow> bool \<Rightarrow> string \<times> string" where
  "recover_role lock sc unl =
     (if lock \<and> \<not> sc then (''starting as readonly because i had the session lock'', role_value REPLICA)
      else if lock then (''starting as a standby leader because i had the session lock'', role_value STANDBY_LEADER)
      else if sc \<and> unl then (''trying to follow a remote member because standby cluster is unhealthy'', role_value REPLICA)
      else (''starting as a secondary'', role_value REPLICA))"

text \<open>The last part: the database is started as a replica of the right node.\<close>

definition recover_follow :: "bool \<Rightarrow> ('w, string) hm" where
  "recover_follow needs_rewind =
     hthen load_cluster_from_dcs
     (hbind has_lock (\<lambda>lock.
      hbind (hget (\<lambda>s. (is_standby_cluster (hs_gc s), is_unlocked (hs_cluster s), is_synchronous_mode (hs_gc s)))) (\<lambda>(sc, unl, sync).
      let (msg, role) = recover_role lock sc unl;
          start = (\<lambda>node. hbind (try_run_async ''restarting after failure'' (TFollow node role)) (\<lambda>r.
                     hthen (hwhen (r = None) (hset (\<lambda>s. s\<lparr>hs_recovering := True\<rparr>))) (hret msg)))
      in
      if lock \<and> \<not> sc then
        hthen (hwhen needs_rewind (tell_safe (QRewind RwReset))) (start None)
      else
        hbind (if needs_rewind
               then hbind (ask_bool (QRewind RwExecuted)) (\<lambda>executed.
                      hthen (hwhen (\<not> executed) (tell_safe (QRewind RwTrigger))) handle_rewind_or_reinitialize)
               else hret None) (\<lambda>rw.
          if str_bool rw then hret (str_or_empty rw)
          else
            hbind (if \<not> lock \<and> sc \<and> unl then hbind get_remote_member (\<lambda>m. hret (Some m))
                   else hbind (hget hs_cluster) (\<lambda>c. hbind (get_node_to_follow c) (\<lambda>n. hret (map_option fst n)))) (\<lambda>node.
            hthen (hwhen sync (tell (QDcs (SyncAction (SetStandbyNames [] None)))))
              (start node))))))"

definition recover :: "('w, string) hm" where
  "recover =
     hbind (hget (\<lambda>s. (en_needs_rewind (engine_of s), en_needs_crash_recovery (engine_of s)))) (\<lambda>(needs_rewind, needs_crash).
     hbind recover_lock (\<lambda>(msg, timeout). case msg of Some m \<Rightarrow> hret m | None \<Rightarrow>
     hbind (ask_str (QDb ClusterState)) (\<lambda>cluster_state.
     hbind (if needs_crash then start_crashed_primary timeout cluster_state else hret None) (\<lambda>msg. case msg of Some m \<Rightarrow> hret m | None \<Rightarrow>
     hthen (tell (QWatchdog WatchdogDisable))
     (hbind (if needs_crash then recover_crash cluster_state else hret None) (\<lambda>msg. case msg of Some m \<Rightarrow> hret m | None \<Rightarrow>
       recover_follow needs_rewind))))))"

definition post_recover :: "('w, string option) hm" where
  "post_recover =
     hbind (ask_bool (QDb IsRunning)) (\<lambda>running.
       if running then hret None
       else
         hthen (tell (QWatchdog WatchdogDisable))
         (hbind has_lock (\<lambda>lock.
           if lock then
             hbind (ask_str (QDb DbRole)) (\<lambda>role.
             hthen (hwhen (role \<in> {role_value PRIMARY, role_value STANDBY_LEADER})
                      (hthen (tell (QCmd (SetRole (role_value DEMOTED)))) (tell (QCmd (Callback ''on_role_change'')))))
             (hthen (ha_delete_leader None)
               (hret (Some ''removed leader key after trying and failing to start postgres''))))
           else hret (Some ''failed to start postgres''))))"

section \<open>Scheduled actions\<close>

text \<open>
  \<open>Ha.should_run_scheduled_action\<close>. Subtracting the current time from a timestamp without time zone raises
  \<^verbatim>\<open>TypeError\<close>, which cleans up. \<open>None\<close> for no action, and whether to clean up.
\<close>

datatype schedule = Wait | Stale | Due | NoAction

definition schedule_of :: "global_config \<Rightarrow> int \<Rightarrow> time \<Rightarrow> datetime option \<Rightarrow> schedule" where
  "schedule_of gc loop_wait t scheduled_at = (case scheduled_at of
     None \<Rightarrow> NoAction
   | Some sched \<Rightarrow>
       if is_paused gc then NoAction
       else (case sched of
           Naive _ \<Rightarrow> Stale
         | Aware a \<Rightarrow>
             (let delta = of_int a - t in
              if delta > of_int loop_wait then Wait
              else if delta < - of_int ((loop_wait * 3) div 2) then Stale else Due)))"

definition should_run_scheduled_action :: "datetime option \<Rightarrow> ('w, unit) hm \<Rightarrow> ('w, bool) hm" where
  "should_run_scheduled_action scheduled_at cleanup =
     hbind (if scheduled_at = None then hret 0 else now) (\<lambda>t.
     hbind (hget (\<lambda>s. schedule_of (hs_gc s) (nc_loop_wait (hs_conf s)) t scheduled_at)) (\<lambda>r. case r of
       Due \<Rightarrow> hret True
     | Stale \<Rightarrow> hthen cleanup (hret False)
     | _ \<Rightarrow> hret False))"

definition ha_manual_failover :: "string option \<Rightarrow> string option \<Rightarrow> datetime option \<Rightarrow> pyval \<Rightarrow> ('w, unit) hm" where
  "ha_manual_failover ldr candidate scheduled_at version =
     hbind (hget (\<lambda>s. manual_failover_value ldr candidate (map_option (nc_isoformat (hs_conf s)) scheduled_at))) (\<lambda>v.
       tell (QDcs (ManualFailover v version)))"

definition process_manual_failover_from_leader :: "('w, string option) hm" where
  "process_manual_failover_from_leader =
     hbind (hget (\<lambda>s. (if failover_bool (c_failover (hs_cluster s)) then c_failover (hs_cluster s) else None,
                        is_paused (hs_gc s), get_failover_action_name (hs_cluster s), my_name s))) (\<lambda>(fo, p, action, name).
     case fo of None \<Rightarrow> hret None
     | Some f \<Rightarrow>
         hbind (if p then ask_bool (QDb IsPrimary) else hret True) (\<lambda>go.
           if \<not> go then hret None
           else
             hbind (if f_scheduled_at f = None then hret True
                    else should_run_scheduled_action (f_scheduled_at f)
                           (ha_manual_failover (Some []) (Some []) None (f_version f))) (\<lambda>due.
               if \<not> due then hret None
               else
                 hbind (if (\<not> str_bool (f_leader f) \<or> f_leader f = Some name)
                           \<and> (\<not> str_bool (f_candidate f) \<or> f_candidate f \<noteq> Some name)
                           \<and> (str_bool (f_candidate f) \<or> \<not> p)
                        then ha_is_failover_possible 0 else hret False) (\<lambda>possible.
                   if possible
                   then hbind (run_async_or (action @ '': demote'') (TDemote Graceful) (action @ '': demoting myself'')) (\<lambda>m. hret (Some m))
                   else hthen (ha_manual_failover (Some []) (Some []) None (f_version f)) (hret None)))))"

section \<open>Restarts\<close>

definition delete_future_restart :: "('w, bool) hm" where
  "delete_future_restart =
     hbind (hget (\<lambda>s. hs_scheduled_restart s \<noteq> None)) (\<lambda>b.
       if b then hthen (hset (\<lambda>s. s\<lparr>hs_scheduled_restart := None\<rparr>)) (hthen ha_touch_member (hret True)) else hret False)"

definition schedule_future_restart :: "restart_data \<Rightarrow> ('w, bool) hm" where
  "schedule_future_restart r =
     hbind (ask (QDb2 PostmasterStartTime)) (\<lambda>a.
     hbind (hget (\<lambda>s. hs_scheduled_restart s = None)) (\<lambda>free.
       if free then
         hthen (hset (\<lambda>s. s\<lparr>hs_scheduled_restart := Some (r\<lparr>rd_postmaster_start_time := ans_opt_str a\<rparr>)\<rparr>))
           (hthen ha_touch_member (hret True))
       else hret False))"

text \<open>All three filters are evaluated; \<open>version\<close> is the one of the running server.\<close>

definition restart_matches ::
  "string option \<Rightarrow> string option \<Rightarrow> bool \<Rightarrow> string \<Rightarrow> int \<Rightarrow> bool \<Rightarrow> py_error + bool" where
  "restart_matches role postgres_version pending_restart cur_role cur_version has_reason =
     bind_err (if str_bool postgres_version
               then map_sum id (\<lambda>v. v \<le> cur_version) (postgres_version_to_int (str_or_empty postgres_version))
               else Inr False) (\<lambda>version_mismatch.
       Inr (\<not> (str_bool role \<and> role \<noteq> Some cur_role) \<and> \<not> version_mismatch \<and> \<not> (pending_restart \<and> \<not> has_reason)))"

definition ha_restart_matches :: "restart_data \<Rightarrow> ('w, bool) hm" where
  "ha_restart_matches r =
     hbind (ask_str (QDb DbRole)) (\<lambda>role.
     hbind (ask (QDb2 ServerVersion)) (\<lambda>v.
     hbind (ask_safe (QDb2 PendingRestart)) (\<lambda>pending.
       hpy (restart_matches (rd_role r) (rd_postgres_version r) (rd_restart_pending r) role (ans_int v)
              (case pending of AVal x \<Rightarrow> truthy x | _ \<Rightarrow> False)))))"

text \<open>\<open>Ha.restart\<close> run in the background, as the HA loop does.\<close>

definition restart :: "restart_data \<Rightarrow> ('w, bool \<times> string) hm" where
  "restart r =
     hbind (ha_restart_matches r) (\<lambda>ok.
       if \<not> ok then hret (False, ''restart conditions are not satisfied'')
       else hbind (hget hs_executor) (\<lambda>prev. case prev of
         Some p \<Rightarrow> hret (False, p @ '' already in progress'')
       | None \<Rightarrow>
           hthen (hset (\<lambda>s. s\<lparr>hs_executor := Some ''restart'', hs_recovering := True\<rparr>))
           (hbind (case rd_timeout r of Some t \<Rightarrow> hret t | None \<Rightarrow> start_timeout_of) (\<lambda>timeout.
            hthen (hset (\<lambda>s. s\<lparr>hs_start_timeout := Some timeout\<rparr>))
            (hthen (tell_safe (QTask (RunAsync ''restart'' TRestart)))
              (hret (True, ''restart initiated'')))))))"

text \<open>The scheduled restart is deleted whatever the attempt ends with.\<close>

definition evaluate_scheduled_restart :: "('w, string option) hm" where
  "evaluate_scheduled_restart =
     hbind (hget (\<lambda>s. (hs_executor s, hs_scheduled_restart s))) (\<lambda>(busy, sched). case (busy, sched) of
       (None, Some r) \<Rightarrow>
         hbind (ask (QDb2 PostmasterStartTime)) (\<lambda>a.
           let recent = ans_opt_str a; requested = rd_postmaster_start_time r in
           if str_bool recent \<and> str_bool requested \<and> recent \<noteq> requested
           then hthen delete_future_restart (hret None)
           else
             hbind (should_run_scheduled_action (rd_schedule r) (hthen delete_future_restart (hret ()))) (\<lambda>run.
               if \<not> run then hret None
               else
                 hbind (hattempt (restart r)) (\<lambda>res.
                 hthen delete_future_restart
                 (hbind (hlift res) (\<lambda>(ok, msg). hret (if ok then Some msg else None))))))
     | _ \<Rightarrow> hret None)"

text \<open>\<open>AsyncExecutor.cancel\<close>, as seen by its caller.\<close>

definition executor_cancel :: "('w, unit) hm" where
  "executor_cancel = hbind (hget hs_executor) (\<lambda>action. case action of
     None \<Rightarrow> hret ()
   | Some _ \<Rightarrow> hthen (tell (QCmd CancelCancellable)) (hset (\<lambda>s. s\<lparr>hs_executor := None\<rparr>)))"

text \<open>\<open>Ha.reinitialize\<close>: the text of a refusal.\<close>

definition reinitialize :: "bool \<Rightarrow> ('w, string option) hm" where
  "reinitialize force =
     hthen load_cluster_from_dcs
     (hbind unlocked (\<lambda>unl.
      hbind has_lock (\<lambda>lock.
        if unl then hret (Some ''Cluster has no leader, can not reinitialize'')
        else if lock then hret (Some ''I am the leader, can not reinitialize'')
        else
          hthen (hwhen force executor_cancel)
          (hbind (hget hs_executor) (\<lambda>prev. case prev of
             Some action \<Rightarrow> hret (Some (action @ '' already in progress''))
           | None \<Rightarrow>
               hthen (hset (\<lambda>s. s\<lparr>hs_executor := Some ''reinitialize''\<rparr>))
               (hthen (tell_safe (QTask (RunAsync ''reinitialize'' TReinitialize))) (hret None)))))))"

section \<open>Timeline history\<close>

definition line_items :: "pyval \<Rightarrow> pyval list" where
  "line_items v = (case v of PList xs \<Rightarrow> xs | _ \<Rightarrow> [])"

definition line_at :: "pyval list \<Rightarrow> nat \<Rightarrow> pyval" where
  "line_at xs i = (if i < length xs then xs ! i else PNone)"

text \<open>\<^verbatim>\<open>xs[-n:]\<close>\<close>

definition py_last :: "int \<Rightarrow> 'a list \<Rightarrow> 'a list" where
  "py_last n xs = (if n > 0 then drop (length xs - nat n) xs else drop (nat (- n)) xs)"

definition enrich_line :: "pyval list \<Rightarrow> pyval list \<Rightarrow> pyval list" where
  "enrich_line known line =
     (let old = (case List.find (\<lambda>l. line_at (line_items l) 0 = line_at line 0) (rev known) of
                   None \<Rightarrow> [] | Some l \<Rightarrow> line_items l)
      in if length line = 3 \<and> length old \<ge> 4 \<and> line_at old 1 = line_at line 1
         then line @ [line_at old 3] @ (if length old = 5 then [line_at old 4] else []) else line)"

definition update_cluster_history :: "('w, unit) hm" where
  "update_cluster_history =
     hbind (hget (\<lambda>s. (en_has_timelines (engine_of s), hs_cluster s))) (\<lambda>(has_timelines, c).
       if \<not> has_timelines then hret ()
       else
         hbind (ask (QDb2 PrimaryTimeline)) (\<lambda>a.
           let tl1 = ans_int a; known = (case c_history c of None \<Rightarrow> [] | Some h \<Rightarrow> h_lines h) in
           if tl1 = 1 then hwhen (known \<noteq> []) (tell (QDcs (SetHistory (PList []))))
           else if known = [] \<or> line_at (line_items (last known)) 0 \<noteq> PInt (tl1 - 1) \<or> length (line_items (last known)) \<noteq> 5 then
             hbind (ask (QDb2 (DbHistory tl1))) (\<lambda>h.
             hbind (hget (\<lambda>s. max_timelines_history (hs_gc s))) (\<lambda>mx.
             hbind (if c_config c = None then hret 0 else hpy mx) (\<lambda>n.
               let lines = map (enrich_line known)
                     (py_last n (case h of AVal v \<Rightarrow> map line_items (line_items v) | _ \<Rightarrow> []))
               in hwhen (lines \<noteq> []) (tell (QDcs (SetHistory (PList (map PList lines))))))))
           else hret ()))"

section \<open>Promotion\<close>

text \<open>The actions of the methods for synchronous replication, then their outcome.\<close>

primrec do_sync_actions :: "sync_action list \<Rightarrow> ('w, unit) hm" where
  "do_sync_actions [] = hret ()"
| "do_sync_actions (a # as) = hthen (tell_safe (QDcs (SyncAction a))) (do_sync_actions as)"

definition sync_outcome :: "'a sync_result \<Rightarrow> ('w, 'a) hm" where
  "sync_outcome r = (case r of (x, acts) \<Rightarrow>
     hthen (do_sync_actions acts) (hlift (map_sum (\<lambda>_. OtherError) id x)))"

definition sync_inputs :: "('w, sync_inputs) hm" where
  "sync_inputs = hbind (ask (QDcs SyncInputs)) (\<lambda>a. case a of
     ASync i \<Rightarrow> hget (\<lambda>s. i\<lparr>si_node := (si_node i)\<lparr>n_name := my_name s, n_tags := nc_tags (hs_conf s)\<rparr>\<rparr>)
   | _ \<Rightarrow> hraise OtherError)"

definition ha_process_sync_replication :: "('w, unit) hm" where
  "ha_process_sync_replication =
     hbind sync_inputs (\<lambda>i.
     hbind (hget (\<lambda>s. process_sync_replication (hs_gc s) (si_node i) (si_dcs i) (c_sync (hs_cluster s)) (si_rounds i)
                        (si_view1 i) (si_view2 i) (si_now1 i) (si_now2 i) (nc_loop_wait (hs_conf s))
                        (hs_promote_timestamp s))) (\<lambda>(r, ts).
     hthen (hset (\<lambda>s. s\<lparr>hs_promote_timestamp := ts\<rparr>)) (sync_outcome r)))"

definition ha_prepromote :: "('w, bool) hm" where
  "ha_prepromote =
     hbind sync_inputs (\<lambda>i.
     hbind (hget (\<lambda>s. process_sync_replication_prepromote (hs_gc s) (si_node i) (si_dcs i) (hs_cluster s))) sync_outcome)"

text \<open>Outside of pause: the watchdog must be running, and the pre-promote script must not have failed.\<close>

definition check_watchdog :: "('w, string option) hm" where
  "check_watchdog =
     hbind (ask_flag (QWatchdog WatchdogRunning)) (\<lambda>running.
     hbind (if running then hret True else ask_bool (QWatchdog WatchdogActivate)) (\<lambda>active.
       if active then hret None
       else hbind (ask_bool (QDb IsPrimary)) (\<lambda>primary.
         if primary then hthen (demote Immediate) (hret (Some ''Demoting self because watchdog could not be activated''))
         else hthen (release_leader_key_voluntarily None)
                (hret (Some ''Not promoting self because watchdog could not be activated'')))))"

definition check_pre_promote :: "('w, string option) hm" where
  "check_pre_promote =
     hbind (ask_safe (QTask AsyncResult)) (\<lambda>a.
       if (case a of ABool False \<Rightarrow> True | _ \<Rightarrow> False) then
         hbind now (\<lambda>t.
         hthen (hset (\<lambda>s. s\<lparr>hs_released_leader_key_timestamp := t\<rparr>))
         (hthen (release_leader_key_voluntarily None)
         (hthen (tell_safe (QTask AsyncReset))
           (hret (Some ''Promotion cancelled because the pre-promote script failed'')))))
       else hret None)"

definition promote :: "string \<Rightarrow> ('w, string) hm" where
  "promote promote_message =
     hbind (ask_str (QDb DbRole)) (\<lambda>role.
     hthen (hwhen (role \<notin> {role_value PRIMARY, role_value PROMOTED})
       (hthen (hset (\<lambda>s. s\<lparr>hs_failsafe := fs_set_is_active 0 (hs_failsafe s), hs_last_timeline := None\<rparr>))
       (hthen (tell_safe (QTask AsyncReset))
         (try_run_async ''promote'' TPromote))))
       (hret promote_message))"

definition lead :: "string \<Rightarrow> string \<Rightarrow> ('w, string) hm" where
  "lead message promote_message =
     hbind (ask_bool (QDb IsPrimary)) (\<lambda>primary.
       if primary then
         hbind (ask_str (QDb DbRole)) (\<lambda>role.
         hbind (hget (\<lambda>s. en_db_type (engine_of s))) (\<lambda>db.
         hthen (hwhen (\<not> (db = ''mysql'' \<and> role = ''mgr_primary'')) (tell (QCmd (SetRole (role_value PRIMARY)))))
         (hthen ha_process_sync_replication
         (hthen update_cluster_history
         (hthen (tell (QCmd SyncMetaData))
           (hret message))))))
       else
         hbind (ask_str (QDb DbRole)) (\<lambda>role.
           if role \<in> {role_value PRIMARY, role_value PROMOTED} then hthen ha_process_sync_replication (hret message)
           else
             hbind ha_prepromote (\<lambda>ok.
               if \<not> ok then hret ''Postponing promotion because synchronous replication state was updated by somebody else''
               else promote promote_message)))"

definition enforce_primary_role :: "string \<Rightarrow> string \<Rightarrow> ('w, string) hm" where
  "enforce_primary_role message promote_message =
     hbind paused (\<lambda>p.
     hbind (if p then hret None else check_watchdog) (\<lambda>msg. case msg of Some m \<Rightarrow> hret m | None \<Rightarrow>
     hbind (if p then hret None else check_pre_promote) (\<lambda>msg. case msg of Some m \<Rightarrow> hret m | None \<Rightarrow>
       lead message promote_message)))"

definition enforce_follow_remote_member :: "string \<Rightarrow> ('w, string) hm" where
  "enforce_follow_remote_member message = follow ''cannot be a real primary in standby cluster'' message True"

section \<open>A cluster without a leader\<close>

definition race_view :: "'w hs \<Rightarrow> 'w ha" where
  "race_view s = \<lparr>ha_cluster = hs_cluster s, ha_old_cluster = hs_old_cluster s, ha_shared = hs_shared s,
     ha_last_timeline = hs_last_timeline s, ha_released_leader_key_timestamp = hs_released_leader_key_timestamp s,
     ha_ttl = d_ttl (hs_dcs s), ha_failsafe_key = d_last_failsafe (hs_dcs s), ha_requests = []\<rparr>"

primrec send_requests :: "(pydict \<times> pyval) list \<Rightarrow> ('w, unit) hm" where
  "send_requests [] = hret ()"
| "send_requests (r # rs) = hthen (tell (QDcs (ManualFailover (fst r) (snd r)))) (send_requests rs)"

definition ha_is_healthiest_node :: "('w, bool) hm" where
  "ha_is_healthiest_node =
     hbind now (\<lambda>t.
     hbind node_view (\<lambda>n.
     hbind (hget (\<lambda>s. is_healthiest_node (hs_gc s) t n (race_view s))) (\<lambda>(r, h).
     hthen (hset (\<lambda>s. s\<lparr>hs_cluster := ha_cluster h, hs_old_cluster := ha_old_cluster h, hs_last_timeline := ha_last_timeline h\<rparr>))
     (hthen (send_requests (ha_requests h))
       (hpy r)))))"

definition clean_failover_key :: "('w, unit) hm" where
  "clean_failover_key =
     hbind (hget (\<lambda>s. (if failover_bool (c_failover (hs_cluster s)) then c_failover (hs_cluster s) else None,
                        is_paused (hs_gc s)))) (\<lambda>(fo, p). case fo of
       None \<Rightarrow> hret ()
     | Some f \<Rightarrow>
         if p \<and> str_bool (f_leader f) \<and> str_bool (f_candidate f)
         then ha_manual_failover (Some []) (f_candidate f) (f_scheduled_at f) (f_version f)
         else ha_manual_failover (Some []) (Some []) None PNone)"

definition process_unhealthy_cluster :: "('w, string) hm" where
  "process_unhealthy_cluster =
     hbind ha_is_healthiest_node (\<lambda>healthiest.
       if healthiest then
         hbind acquire_lock (\<lambda>acquired.
           if acquired then
             hthen clean_failover_key
             (hthen load_cluster_from_dcs
             (hbind standby_cluster (\<lambda>sc.
               if sc then enforce_follow_remote_member ''promoted self to a standby leader by acquiring session lock''
               else enforce_primary_role ''acquired session lock as a leader''
                      ''promoted self to leader by acquiring session lock'')))
           else follow ''demoted self after trying and failing to obtain lock''
                  ''following new leader after trying and failing to obtain lock'' True)
       else
         hbind (hget (\<lambda>s. (case (if failover_bool (c_failover (hs_cluster s)) then c_failover (hs_cluster s) else None) of
                             None \<Rightarrow> False | Some f \<Rightarrow> str_bool (f_candidate f), is_paused (hs_gc s),
                           nofailover (nc_tags (hs_conf s))))) (\<lambda>(candidate, p, nf).
         hbind (hpy nf) (\<lambda>nofo.
         hthen (hwhen (candidate \<or> nofo \<and> \<not> p) (tell_safe (QRewind RwTrigger)))
           (if nofo
            then follow ''demoting self because I am not allowed to become primary''
                   ''following a different leader because I am not allowed to promote'' True
            else follow ''demoting self because i am not the healthiest node''
                   ''following a different leader because i am not the healthiest node'' True))))"

section \<open>A cluster with a leader\<close>

definition fork_config :: "'w hs \<Rightarrow> pyval \<Rightarrow> pydict" where
  "fork_config s members =
     (let data = (case c_config (hs_cluster s) of Some cc \<Rightarrow> if cluster_is_empty (hs_cluster s) then [] else cc_data cc | None \<Rightarrow> [])
      in dict_set ''mgr_gtid_fork'' (PDict [(''reason'', PStr ''incomparable_gtid_sets''),
           (''detected_by'', PStr (my_name s)), (''members'', py_or members (PList []))])
           (dict_set ''pause'' (PBool True) data))"

definition handle_mgr_gtid_fork :: "('w, string) hm" where
  "handle_mgr_gtid_fork =
     hbind (ask_safe (QDb2 MgrForkMembers)) (\<lambda>a.
     hbind (hget (\<lambda>s. en_has_pause_on_fork (engine_of s))) (\<lambda>has.
     hbind (if has then ask_bool (QDb2 PauseOnFork) else hret True) (\<lambda>enabled.
     hbind paused (\<lambda>p.
     hthen (hwhen (enabled \<and> \<not> p)
       (hbind (hget (\<lambda>s. (fork_config s (case a of AVal v \<Rightarrow> v | _ \<Rightarrow> PNone),
                          case c_config (hs_cluster s) of Some cc \<Rightarrow> cc_version cc | None \<Rightarrow> PNone))) (\<lambda>(cfg, version).
        attempt_all (tell (QDcs (SetConfig cfg version))))))
     (hthen (attempt_all (tell (QCmd SetReadOnly)))
       (hret (if enabled then ''MGR GTID fork detected; cluster paused for manual intervention''
              else ''MGR GTID fork detected; automatic bootstrap refused'')))))))"

text \<open>
  What Group Replication asks for; \<open>None\<close> when the HA loop is to go on. The answer to \<open>MgrCycle\<close> is the message of
  \<open>run_mgr_cycle\<close> of \<^verbatim>\<open>patroni/mysql/__init__.py\<close>; what that method does to mysqld, following the primary elected by
  the group (it makes it writable without the leader lock), is not part of the trace.
\<close>

definition mgr_cycle :: "bool \<Rightarrow> ('w, string option) hm" where
  "mgr_cycle has_leader_lock =
     hbind (ask (QDb2 (MgrCycle has_leader_lock))) (\<lambda>a.
       let action = ans_opt_str a in
       if has_leader_lock \<and> action = Some ''mgr_yield_lock'' then
         hthen (release_leader_key_voluntarily None)
           (hret (Some ''released leader lock; peer has more GTIDs for MGR bootstrap''))
       else if action = Some ''mgr_gtid_fork'' then hbind handle_mgr_gtid_fork (\<lambda>m. hret (Some m))
       else if str_bool action then hret action
       else if has_leader_lock then hthen (tell (QCmd SemiSyncCheck)) (hret None)
       else
         hbind (hget (\<lambda>s. (en_mgr_configured (engine_of s), my_name s))) (\<lambda>(configured, name).
           if \<not> configured then hret None
           else hbind (ask (QDb2 MgrStatus)) (\<lambda>st. hret (Some (case st of
             ADict (x # xs) \<Rightarrow> ''no action. I am ('' @ name @ ''), MGR '' @ py_str (pyget (x # xs) ''role'') @ ''/''
                               @ py_str (pyget (x # xs) ''state'')
           | _ \<Rightarrow> ''waiting for MGR group recovery'')))))"

definition leader_cycle :: "('w, string) hm" where
  "leader_cycle =
     hbind process_manual_failover_from_leader (\<lambda>msg. case msg of Some m \<Rightarrow> hret m | None \<Rightarrow>
     hthen (tell (QCmd EnsureCheckpoint))
     (hbind (hget (\<lambda>s. (is_standby_cluster (hs_gc s), en_db_type (engine_of s), my_name s))) (\<lambda>(sc, db, name).
       if sc then
         hbind (ask_str (QDb DbRole)) (\<lambda>role.
           enforce_follow_remote_member
             (if role = role_value STANDBY_LEADER then ''no action. I am ('' @ name @ ''), the standby leader with the lock''
              else ''promoted self to a standby leader because i had the session lock''))
       else
         hbind (if db = ''mysql'' then mgr_cycle True else hret None) (\<lambda>msg. case msg of Some m \<Rightarrow> hret m | None \<Rightarrow>
           enforce_primary_role (''no action. I am ('' @ name @ ''), the leader with the lock'')
             ''promoted self to leader because I had the session lock''))))"

definition lock_lost :: "('w, string) hm" where
  "lock_lost =
     hbind (ask_bool (QDb IsPrimary)) (\<lambda>primary.
     hbind paused (\<lambda>p.
       if primary then
         (if p then hret ''continue to run as primary after failing to update leader lock in DCS''
          else hthen (demote ImmediateNolock) (hret ''demoted self because failed to update leader lock in DCS''))
       else hret ''not promoting because failed to update leader lock in DCS''))"

text \<open>In pause the owner of the lock may find that its database is not a primary.\<close>

definition paused_not_primary :: "('w, string option) hm" where
  "paused_not_primary =
     hbind paused (\<lambda>p.
     hbind (if p then ask_bool (QDb IsPrimary) else hret True) (\<lambda>primary.
       if primary then hret None
       else
         hbind (hget (\<lambda>s. (case (if failover_bool (c_failover (hs_cluster s)) then c_failover (hs_cluster s) else None) of
                             None \<Rightarrow> False | Some f \<Rightarrow> f_candidate f = Some (my_name s), is_standby_cluster (hs_gc s)))) (\<lambda>(me, sc).
           if me then hret (Some ''waiting to become primary after promote...'')
           else if sc then hret None
           else hthen (ha_delete_leader None) (hret (Some ''removed leader lock because postgres is not running as primary'')))))"

definition process_healthy_cluster :: "('w, string) hm" where
  "process_healthy_cluster =
     hbind has_lock (\<lambda>lock.
       if lock then
         hbind paused_not_primary (\<lambda>msg. case msg of Some m \<Rightarrow> hret m | None \<Rightarrow>
         hbind (update_lock True) (\<lambda>ok. if ok then leader_cycle else lock_lost))
       else
         hbind (hget (\<lambda>s. (is_standby_cluster (hs_gc s), en_db_type (engine_of s), my_name s,
                            str_or_empty (leader_name (hs_cluster s))))) (\<lambda>(sc, db, name, owner).
         hbind (if db = ''mysql'' \<and> \<not> sc then mgr_cycle False else hret None) (\<lambda>msg. case msg of Some m \<Rightarrow> hret m | None \<Rightarrow>
           if sc then follow ''cannot be a real primary in a standby cluster''
                        (''no action. I am ('' @ name @ ''), a secondary, and following a standby leader ('' @ owner @ '')'') False
           else follow ''demoting self because I do not have the lock and I was a leader''
                  (''no action. I am ('' @ name @ ''), a secondary, and following a leader ('' @ owner @ '')'') False)))"

section \<open>Long actions and starting\<close>

definition handle_lost_lock :: "string \<Rightarrow> ('w, string option) hm" where
  "handle_lost_lock action =
     hbind (if action = ''promote'' then ask_bool (QTask AsyncCancel) else hret False) (\<lambda>cancelled.
       if cancelled then hthen (tell (QCmd CancelCancellable)) (hret (Some ''lost leader before promote''))
       else
         hbind (ask_str (QDb DbRole)) (\<lambda>role.
           if role \<noteq> role_value PRIMARY then hret None
           else
             hthen (hwhen (action \<in> {''restart'', ''starting primary after failure''})
               (hbind (ask_bool (QTask CriticalCancel)) (\<lambda>c. hwhen (\<not> c) (tell (QCmd TerminatePostmaster)))))
             (hthen (demote ImmediateNolock)
               (hret (Some (''lost leader lock during '' @ action))))))"

definition crash_recovery_timeout :: "string \<Rightarrow> ('w, bool) hm" where
  "crash_recovery_timeout action =
     (if action = ''doing crash recovery in a single user mode'' then
        hbind start_timeout_of (\<lambda>timeout.
        hbind now (\<lambda>t.
        hbind (hget hs_crash_recovery_started) (\<lambda>started.
          if of_int timeout - (t - started) \<le> 0 then ha_is_failover_possible 0 else hret False)))
      else hret False)"

definition handle_long_action_in_progress :: "('w, string) hm" where
  "handle_long_action_in_progress =
     hbind (hget (\<lambda>s. str_or_empty (hs_executor s))) (\<lambda>action.
     hbind has_lock (\<lambda>lock.
     hbind (if lock then update_lock False else hret False) (\<lambda>locked.
       if locked then
         hbind (crash_recovery_timeout action) (\<lambda>expired.
           if expired then
             hthen (tell (QCmd CancelCancellable))
             (hthen (demote Immediate) (hret ''terminated crash recovery because of startup timeout''))
           else hret (''updated leader lock during '' @ action))
       else
         hbind (hget (\<lambda>s. hs_bootstrapping s \<or> is_paused (hs_gc s))) (\<lambda>b.
         hbind (if b then hret None else handle_lost_lock action) (\<lambda>msg. case msg of Some m \<Rightarrow> hret m | None \<Rightarrow>
           hret (action @ '' in progress''))))))"

definition starting_leader :: "('w, string) hm" where
  "starting_leader =
     hbind (update_lock False) (\<lambda>ok.
       if \<not> ok then
         hthen (demote ImmediateNolock) (hret ''stopped PostgreSQL while starting up because leader key was lost'')
       else
         hbind (hget hs_start_timeout) (\<lambda>st.
         hbind (if int_or_0 st \<noteq> 0 then hret (int_or_0 st) else start_timeout_of) (\<lambda>timeout.
         hbind (ask_safe (QDb TimeInState)) (\<lambda>a.
           let time_left = of_int timeout - ans_time a in
           if time_left \<le> 0 then
             hbind (ha_is_failover_possible 0) (\<lambda>possible.
               if possible then hthen (demote Immediate) (hret ''stopped PostgreSQL because of startup timeout'')
               else hret ''primary start has timed out, but continuing to wait because failover is not possible'')
           else
             hbind process_manual_failover_from_leader (\<lambda>msg. case msg of Some m \<Rightarrow> hret m | None \<Rightarrow>
               hret (''PostgreSQL is still starting up, '' @ show_int (round_even time_left) @ '' seconds until timeout''))))))"

definition handle_starting_instance :: "('w, string option) hm" where
  "handle_starting_instance =
     hbind (ask_bool (QDb CheckForStartup)) (\<lambda>starting.
     hbind paused (\<lambda>p.
       if \<not> starting \<or> p then
         hthen (hset (\<lambda>s. s\<lparr>hs_start_timeout := None\<rparr>))
         (hthen (hwhen p (hbind (ask_bool (QDb IsRunning)) (\<lambda>running.
                    tell (QCmd (SetState (state_value (if running then RUNNING else STOPPED)))))))
           (hret None))
       else
         hbind has_lock (\<lambda>lock.
           if lock then hbind starting_leader (\<lambda>m. hret (Some m)) else hret None)))"

section \<open>The cycle\<close>

definition sysid_valid :: "string option \<Rightarrow> bool" where
  "sysid_valid sysid = (case sysid of
     None \<Rightarrow> False
   | Some s \<Rightarrow> if CHR ''-'' \<in> set s then length s \<ge> 32 else length s \<ge> 10 \<and> list_all is_digit s)"

text \<open>Loading the view; when it fails the last position is noted for the failsafe mode.\<close>

definition load_view :: "('w, unit) hm" where
  "load_view =
     hexcept
       (hthen load_cluster_from_dcs
       (hthen (hset (\<lambda>s. s\<lparr>hs_gc := gc_update (hs_gc s) (Some (hs_cluster s)) []\<rparr>))
         (tell (QCmd ResetClusterInfo))))
       (\<lambda>e.
        hthen (tell (QCmd ResetClusterInfo))
        (hbind (hget (\<lambda>s. is_failsafe_mode (hs_gc s))) (\<lambda>b.
         hthen (hwhen b (attempt_all (hbind (ask (QDb LastOperation)) (\<lambda>a.
                   hset (\<lambda>s. s\<lparr>hs_last_wal_lsn := Some (ans_int a)\<rparr>)))))
           (hraise e))))"

definition note_pause :: "('w, unit) hm" where
  "note_pause =
     hbind paused (\<lambda>p.
       if p then hthen (tell (QWatchdog WatchdogDisable)) (hset (\<lambda>s. s\<lparr>hs_was_paused := True\<rparr>))
       else
         hbind (hget hs_was_paused) (\<lambda>was.
         hthen (hwhen was (hthen (tell (QCmd SanityChecks)) (tell_safe (QRewind RwReset))))
           (hset (\<lambda>s. s\<lparr>hs_was_paused := False\<rparr>))))"

text \<open>Keys the leader writes when they are missing.\<close>

definition write_missing_keys :: "('w, unit) hm" where
  "write_missing_keys =
     hbind (hget (\<lambda>s. has_member (hs_cluster s) (my_name s))) (\<lambda>known.
     hthen (hwhen (\<not> known) ha_touch_member)
     (hbind has_lock (\<lambda>lock.
      hbind (hget (\<lambda>s. (c_initialize (hs_cluster s), c_config (hs_cluster s), nc_dynamic_config (hs_conf s)))) (\<lambda>(init, cfg, dyn).
      hthen (hwhen (lock \<and> \<not> sysid_valid init)
               (hbind (ask_str (QDb DbSysid)) (\<lambda>sysid. tell (QDcs (Initialize (init = None) sysid)))))
        (hwhen (lock \<and> \<not> (case cfg of None \<Rightarrow> False | Some cc \<Rightarrow> cc_data cc \<noteq> []))
           (hthen (tell (QDcs (SetConfig dyn PNone)))
             (hbind dcs_get_cluster (\<lambda>c. hset (\<lambda>s. s\<lparr>hs_cluster := c, hs_shared := False\<rparr>)))))))))"

definition after_recovery :: "('w, string option) hm" where
  "after_recovery =
     hthen (hset (\<lambda>s. s\<lparr>hs_recovering := False\<rparr>))
     (hbind (ask_bool (QRewind RwIsNeeded)) (\<lambda>needed.
      hbind (if needed then hret None else post_recover) (\<lambda>msg. case msg of Some m \<Rightarrow> hret (Some m) | None \<Rightarrow>
      hthen (hset (\<lambda>s. s\<lparr>hs_crash_recovery_started := 0\<rparr>))
      (hbind (ask_bool (QRewind RwExecuted)) (\<lambda>executed.
       hbind (if executed then ask_bool (QRewind RwFailed) else hret True) (\<lambda>failed.
       hthen (hwhen (executed \<and> \<not> failed) (tell_safe (QRewind RwReset)))
         (hget (\<lambda>s. if is_unlocked (hs_cluster s) \<and> nc_is_raft (hs_conf s) then Some ''started as a secondary'' else None))))))))"

text \<open>The data directory is empty or, when a text is given, not accessible; the text of the error is not modelled.\<close>

definition no_data_directory :: "string option \<Rightarrow> ('w, string) hm" where
  "no_data_directory inaccessible =
     hthen (tell (QCmd (SetRole (role_value UNINITIALIZED))))
     (hthen (tell (QCmd (Stop ''immediate'' False False False)))
     (hthen (tell (QWatchdog WatchdogDisable))
     (hbind has_lock (\<lambda>lock.
      hbind paused (\<lambda>p.
        if lock then
          hthen (release_leader_key_voluntarily None)
            (hret (''released leader key voluntarily as data dir '' @ (if inaccessible = None then ''empty'' else ''not accessible'')
                   @ '' and currently leader''))
        else (case inaccessible of
            Some e \<Rightarrow> hret (''data directory is not accessible: '' @ e)
          | None \<Rightarrow> if p then hret ''running with empty data directory'' else bootstrap))))))"

text \<open>Whether this node belongs to the cluster.\<close>

definition check_system_id :: "('w, string option) hm" where
  "check_system_id =
     hbind (ask_str (QDb DbSysid)) (\<lambda>sysid.
     hbind (hget (\<lambda>s. (c_initialize (hs_cluster s), en_requires_sysid_match (engine_of s), is_paused (hs_gc s),
                        is_unlocked (hs_cluster s)))) (\<lambda>(init, match, p, unl).
       if \<not> sysid_valid (Some sysid) \<and> match
       then hret (Some ''data dir for the cluster is not empty, but system ID is invalid; consider doing reinitialize'')
       else if sysid_valid init \<and> sysid_valid (Some sysid) then
         (if match \<and> init \<noteq> Some sysid then
            (if p then
               hbind has_lock (\<lambda>lock.
                 if lock then hthen (release_leader_key_voluntarily None)
                                (hret (Some ''released leader key voluntarily due to the system ID mismatch''))
                 else hret None)
             else hraise SystemExit)
          else hret None)
       else
         hbind (if unl \<and> \<not> p then hbind (ask_bool (QDb CbCalled)) (\<lambda>called. hret (\<not> called)) else hret False) (\<lambda>joining.
           if \<not> joining then hret None
           else
             hbind (ask_bool (QDb IsRunning)) (\<lambda>running.
             hbind (if running then ask_bool (QDb IsPrimary) else hret True) (\<lambda>primary.
               if \<not> primary then hthen (hset (\<lambda>s. s\<lparr>hs_join_aborted := True\<rparr>)) (hraise SystemExit)
               else hthen (hwhen (sysid_valid (Some sysid)) (tell (QDcs (Initialize (init = None) sysid)))) (hret None))))))"

definition dead_database :: "('w, string) hm" where
  "dead_database =
     hbind paused (\<lambda>p.
     hbind (if p then
              hthen (tell (QCmd (SetState (state_value STOPPED))))
              (hbind has_lock (\<lambda>lock.
                if lock then hthen (ha_delete_leader None) (hret (Some ''removed leader lock because postgres is not running''))
                else
                  hbind (ask_bool (QRewind RwFailed)) (\<lambda>failed.
                  hbind (ask_bool (QRewind RwExecuted)) (\<lambda>executed.
                  hbind (ask_bool (QRewind RwIsNeeded)) (\<lambda>needed.
                  hbind (if needed then ask_bool (QRewind RwCanRewindOrReinitialize) else hret False) (\<lambda>allowed.
                    hret (if failed \<or> \<not> executed \<and> \<not> (needed \<and> allowed) then Some ''postgres is not running'' else None)))))))
            else hret None) (\<lambda>msg. case msg of Some m \<Rightarrow> hret m | None \<Rightarrow>
     hbind (ask_str (QDb DbState)) (\<lambda>state.
     hthen (hwhen (state \<in> {state_value RUNNING, state_value STARTING}) (tell (QCmd (SetState (state_value CRASHED)))))
       recover)))"

definition sync_replication_slots :: "bool \<Rightarrow> ('w, string list) hm" where
  "sync_replication_slots dcs_failed =
     hbind (hget (\<lambda>s. (cluster_is_empty (hs_cluster s), is_failsafe_mode (hs_gc s)))) (\<lambda>(empty, fs).
       if empty \<or> dcs_failed \<and> \<not> fs then hret []
       else
         hthen (hwhen fs (hbind now (\<lambda>t. hset (\<lambda>s. s\<lparr>hs_cluster := (hs_cluster s)\<lparr>c_members :=
                  c_members (fs_update_cluster (d_ttl (hs_dcs s)) t (hs_failsafe s) (hs_cluster s))\<rparr>\<rparr>))))
         (hbind (ask QSyncSlots) (\<lambda>a.
          hbind failsafe_is_active (\<lambda>active.
            hret (if active then [] else (case a of ANames ns \<Rightarrow> ns | _ \<Rightarrow> []))))))"

text \<open>The end of a cycle: replication slots and the callback for the start.\<close>

definition finish_cycle :: "string \<Rightarrow> ('w, string) hm" where
  "finish_cycle ret =
     hbind (hget hs_executor) (\<lambda>action.
     hbind (if action = None \<or> action = Some ''promote'' then hbind (ask_bool (QDb IsStarting)) (\<lambda>b. hret (\<not> b)) else hret False) (\<lambda>go.
       if \<not> go then hret ret
       else
         let promoting = (action = Some ''promote'') in
         hbind (sync_replication_slots False) (\<lambda>create_slots.
         hbind (ask_bool (QDb CbCalled)) (\<lambda>called.
         hthen (hwhen (\<not> called)
           (hthen (hwhen (\<not> promoting) (hbind (ask_bool (QDb IsPrimary)) (\<lambda>primary. hwhen (\<not> primary) (tell_safe (QRewind RwTrigger)))))
             (tell (QCmd (Callback ''on_start'')))))
         (hbind (hget (\<lambda>s. c_leader (hs_cluster s) \<noteq> None)) (\<lambda>has_leader.
           if \<not> promoting \<and> create_slots \<noteq> [] \<and> has_leader
           then hbind (try_run_async ''copy_logical_slots'' (TCopySlots create_slots)) (\<lambda>err.
                  hret (if err = None
                        then ''Copying logical slots '' @ py_str (PList (map PStr create_slots)) @ '' from the primary'' else ret))
           else hret ret))))))"

text \<open>The decision proper, once the database is known to be alive.\<close>

definition run_healthy :: "('w, string) hm" where
  "run_healthy =
     hbind unlocked (\<lambda>unl.
     hbind (if unl then process_unhealthy_cluster
            else hbind process_healthy_cluster (\<lambda>msg.
                 hbind evaluate_scheduled_restart (\<lambda>r. hret (if str_bool r then str_or_empty r else msg)))) (\<lambda>ret.
       finish_cycle ret))"

definition run_database :: "('w, string) hm" where
  "run_database =
     hbind (hattempt (ask_bool (QDb DataDirectoryEmpty))) (\<lambda>empty. case empty of
       Inl OtherError \<Rightarrow> no_data_directory (Some ''OSError'')
     | Inl e \<Rightarrow> hraise e
     | Inr True \<Rightarrow> no_data_directory None
     | Inr False \<Rightarrow>
         hbind check_system_id (\<lambda>msg. case msg of Some m \<Rightarrow> hret m | None \<Rightarrow>
         hbind (ask_bool (QDb IsHealthy)) (\<lambda>healthy.
           if healthy then run_healthy else dead_database)))"

definition run_cycle_body :: "('w, string) hm" where
  "run_cycle_body =
     hthen load_view
     (hthen note_pause
     (hthen write_missing_keys
     (hbind (hget hs_executor) (\<lambda>busy.
       if busy \<noteq> None then handle_long_action_in_progress
       else
         hbind handle_starting_instance (\<lambda>msg. case msg of Some m \<Rightarrow> hret m | None \<Rightarrow>
         hbind (hget (\<lambda>s. (hs_bootstrapping s, hs_recovering s))) (\<lambda>(bootstrapping, recovering).
           if bootstrapping then post_bootstrap
           else
             hbind (if recovering then after_recovery else hret None) (\<lambda>msg. case msg of Some m \<Rightarrow> hret m | None \<Rightarrow>
               run_database)))))))"

definition ha_check_failsafe_topology :: "('w, bool) hm" where
  "ha_check_failsafe_topology =
     hbind (ask_safe QFailsafeReplies) (\<lambda>a.
     hbind (hget (\<lambda>s. check_failsafe_topology (my_name s) (d_last_failsafe (hs_dcs s))
                        (case a of AReplies f \<Rightarrow> f | _ \<Rightarrow> (\<lambda>_. None)) (hs_failsafe s))) (\<lambda>(ok, fs).
     hthen (hset (\<lambda>s. s\<lparr>hs_failsafe := fs\<rparr>)) (hret ok)))"

definition handle_dcs_error :: "('w, string) hm" where
  "handle_dcs_error =
     hbind paused (\<lambda>p.
     hbind (if p then hret False else ask_bool (QDb IsRunning)) (\<lambda>running.
       if \<not> running then hret ''DCS is not accessible''
       else
         hbind (ask_bool (QDb IsPrimary)) (\<lambda>primary.
           if \<not> primary then hthen (sync_replication_slots True) (hret ''DCS is not accessible'')
           else
             hbind (hget (\<lambda>s. is_failsafe_mode (hs_gc s))) (\<lambda>fs.
             hbind (if fs then ha_check_failsafe_topology else hret False) (\<lambda>ok.
               if ok then
                 hthen (set_is_leader True)
                 (hbind now (\<lambda>t.
                  hthen (hset (\<lambda>s. s\<lparr>hs_failsafe := fs_set_is_active t (hs_failsafe s)\<rparr>))
                  (hthen (tell (QWatchdog Keepalive))
                  (hthen (sync_replication_slots True)
                    (hret ''continue to run as a leader because failsafe mode is enabled and all members are accessible'')))))
               else
                 hthen (hset (\<lambda>s. s\<lparr>hs_failsafe := fs_set_is_active 0 (hs_failsafe s)\<rparr>))
                 (hthen (demote Offline)
                   (hret ''demoted self because DCS is not accessible and I was a leader'')))))))"

text \<open>The \<^verbatim>\<open>finally\<close> block.\<close>

definition end_of_cycle :: "('w, unit) hm" where
  "end_of_cycle =
     hbind is_leader (\<lambda>ldr.
     hthen (hwhen ldr (hset (\<lambda>s. s\<lparr>hs_failsafe := fs_set_is_active 0 (hs_failsafe s)\<rparr>)))
     (hthen ha_touch_member (hret ())))"

definition inner_run_cycle :: "('w, string) hm" where
  "inner_run_cycle =
     hbind (hattempt run_cycle_body) (\<lambda>r. case r of
       Inr m \<Rightarrow> hthen end_of_cycle (hret m)
     | Inl DcsError \<Rightarrow> handle_dcs_error
     | Inl PgError \<Rightarrow> hthen end_of_cycle (hret ''Error communicating with PostgreSQL. Will try again later'')
     | Inl e \<Rightarrow> hthen end_of_cycle (hraise e))"

definition run_cycle :: "('w, string) hm" where
  "run_cycle =
     hexcept
       (hbind inner_run_cycle (\<lambda>info. hget (\<lambda>s. (if is_paused (hs_gc s) then ''PAUSE: '' else []) @ info)))
       (\<lambda>e. if e = PatroniFatal then hraise e else hret ''Unexpected exception raised, please report it as a BUG'')"

section \<open>Shutdown\<close>

text \<open>
  \<open>while_not_sync_standby\<close>: the node asks not to be a synchronous standby, waits until the primary agrees, at most for
  the given number of polls, and runs \<open>m\<close> in any case.
\<close>

primrec wait_not_sync :: "nat \<Rightarrow> ('w, unit) hm" where
  "wait_not_sync 0 = hret ()"
| "wait_not_sync (Suc n) =
     hbind (hattempt dcs_get_cluster) (\<lambda>r. case r of
       Inl DcsError \<Rightarrow> hret ()
     | Inl e \<Rightarrow> hraise e
     | Inr c \<Rightarrow> hbind (hget my_name) (\<lambda>name. if is_sync_standby name c then wait_not_sync n else hret ()))"

definition while_not_sync_standby :: "nat \<Rightarrow> ('w, 'a) hm \<Rightarrow> ('w, 'a) hm" where
  "while_not_sync_standby polls m =
     hbind is_leader (\<lambda>ldr.
     hbind (hget (\<lambda>s. (is_synchronous_mode (hs_gc s), nosync (nc_tags (hs_conf s))))) (\<lambda>(sync, ns).
     hbind (if \<not> ldr \<and> sync then hpy ns else hret True) (\<lambda>skip.
       if skip then m
       else
         hthen (hset (\<lambda>s. s\<lparr>hs_disable_sync := hs_disable_sync s + 1\<rparr>))
         (hbind (hattempt (hbind ha_touch_member (\<lambda>ok. hthen (hwhen ok (wait_not_sync polls)) m))) (\<lambda>r.
          hthen (hset (\<lambda>s. s\<lparr>hs_disable_sync := hs_disable_sync s - 1\<rparr>)) (hlift r))))))"

definition shutdown_on_shutdown :: "int \<times> int \<Rightarrow> ('w, bool) hm" where
  "shutdown_on_shutdown locations = (case locations of (checkpoint_location, prev_location) \<Rightarrow>
     hbind is_leader (\<lambda>ldr.
       if \<not> ldr then hret False
       else
         hbind (ha_is_failover_possible checkpoint_location) (\<lambda>possible.
           if possible then hthen (dcs_delete_leader (Some prev_location)) (hret True)
           else hthen (tell (QDcs (WriteOptime prev_location))) (hret False))))"

definition shutdown :: "nat \<Rightarrow> ('w, unit) hm" where
  "shutdown polls =
     hthen executor_cancel
     (hbind paused (\<lambda>p.
      hbind (hget hs_join_aborted) (\<lambda>aborted.
        if p then tell (QWatchdog WatchdogDisable)
        else if aborted then hret ()
        else
          hbind is_leader (\<lambda>ldr.
          hbind (while_not_sync_standby polls
                   (stop_with_callbacks ''fast'' False
                      (if ldr then Some (notify_mpp_coordinator ''before_demote'') else None)
                      (if ldr then Some shutdown_on_shutdown else None))) (\<lambda>deleted.
          hbind (ask_bool (QDb IsRunning)) (\<lambda>running.
            if running then hret ()
            else
              hbind is_leader (\<lambda>ldr.
              hthen (hwhen (ldr \<and> \<not> deleted)
                (hbind (ask (QDb2 CheckpointLocations)) (\<lambda>a.
                   dcs_delete_leader (case a of ALocations x y \<Rightarrow> y | _ \<Rightarrow> None))))
              (hthen ha_touch_member (hret ())))))))))"

text \<open>The version of the leader key to be watched for changes.\<close>

definition watch_version :: "'w hs \<Rightarrow> pyval" where
  "watch_version s =
     (if hs_executor s \<noteq> None \<or> cluster_is_empty (hs_cluster s) \<or> is_unlocked (hs_cluster s)
         \<or> leader_name (hs_cluster s) = Some (my_name s) then PNone
      else (case c_leader (hs_cluster s) of None \<Rightarrow> PNone | Some l \<Rightarrow> l_version l))"

end
