(* ===== verification/HaLogic.thy ===== *)
theory HaLogic
  imports HaCycle
begin

text \<open>
  A logic for the methods of \<open>Ha\<close>. The predicate \<open>only C m\<close> says that \<open>m\<close> makes only queries of the class \<open>C\<close>,
  whatever it is answered. Safety properties are monitors that read the trace: an automaton with a transition
  function \<open>nxt\<close> and a predicate \<open>ok\<close> for the events it allows; \<open>guarded\<close> is a Hoare triple for a monitor.
\<close>

named_theorems only_intros \<open>rules for the queries a method makes\<close>

section \<open>Classes of queries\<close>

definition only :: "(query \<Rightarrow> bool) \<Rightarrow> ('w, 'a) hm \<Rightarrow> bool" where
  "only C m \<longleftrightarrow> (\<forall>orc s. \<exists>es. hs_trace (snd (m orc s)) = hs_trace s @ es \<and> (\<forall>e \<in> set es. C (fst e)))"

lemma only_same_trace: "(\<And>orc s. hs_trace (snd (m orc s)) = hs_trace s) \<Longrightarrow> only C m"
  by (simp add: only_def)

lemma only_base [only_intros]:
  "only C (hret x)" "only C (hraise e)" "only C (hlift r)" "only C (hget f)" "only C (hset g)" "only C (hpy r')"
  by (rule only_same_trace, simp add: hret_def hraise_def hlift_def hget_def hset_def hpy_def)+

lemma only_bind [only_intros]:
  assumes "only C m" "\<And>x. only C (f x)"
  shows "only C (hbind m f)"
  unfolding only_def
proof (intro allI)
  fix orc s
  obtain r s' where m: "m orc s = (r, s')" by (cases "m orc s")
  then obtain es where es: "hs_trace s' = hs_trace s @ es" "\<forall>e \<in> set es. C (fst e)"
    using assms(1) unfolding only_def by (metis snd_conv)
  show "\<exists>es. hs_trace (snd (hbind m f orc s)) = hs_trace s @ es \<and> (\<forall>e \<in> set es. C (fst e))"
  proof (cases r)
    case (Inl e)
    then show ?thesis using es m by (auto simp: hbind_def)
  next
    case (Inr x)
    obtain es' where "hs_trace (snd (f x orc s')) = hs_trace s' @ es'" "\<forall>e \<in> set es'. C (fst e)"
      using assms(2) unfolding only_def by blast
    then show ?thesis using es m Inr by (intro exI [of _ "es @ es'"]) (auto simp: hbind_def)
  qed
qed

lemma only_attempt [only_intros]: "only C m \<Longrightarrow> only C (hattempt m)"
  by (simp add: only_def hattempt_def case_prod_beta)

lemma only_ask [only_intros]: "C q \<Longrightarrow> only C (ask q)" "C q \<Longrightarrow> only C (ask_safe q)"
  by (auto simp: only_def ask_def ask_safe_def Let_def split: ans.split)

lemma only_when [only_intros]: "(b \<Longrightarrow> only C m) \<Longrightarrow> only C (hwhen b m)"
  by (auto simp: hwhen_def intro!: only_intros)

lemma only_ask_typed [only_intros]:
  "C q \<Longrightarrow> only C (ask_bool q)" "C q \<Longrightarrow> only C (ask_flag q)" "C q \<Longrightarrow> only C (ask_str q)" "C QTime \<Longrightarrow> only C now"
  unfolding ask_bool_def ask_flag_def ask_str_def now_def by (intro only_intros; assumption)+

text \<open>Case distinctions.\<close>

lemma only_if [only_intros]: "(b \<Longrightarrow> only C x) \<Longrightarrow> (\<not> b \<Longrightarrow> only C y) \<Longrightarrow> only C (if b then x else y)"
  by simp

lemma only_let [only_intros]: "only C (f x) \<Longrightarrow> only C (Let x f)"
  by simp

lemma only_case [only_intros]:
  "only C n \<Longrightarrow> (\<And>x. only C (f x)) \<Longrightarrow> only C (case v of None \<Rightarrow> n | Some x \<Rightarrow> f x)"
  "(\<And>x y. only C (g x y)) \<Longrightarrow> only C (case p of (x, y) \<Rightarrow> g x y)"
  "(\<And>e. only C (h e)) \<Longrightarrow> (\<And>x. only C (k x)) \<Longrightarrow> only C (case r of Inl e \<Rightarrow> h e | Inr x \<Rightarrow> k x)"
  "only C m1 \<Longrightarrow> only C m2 \<Longrightarrow> only C (case b of True \<Rightarrow> m1 | False \<Rightarrow> m2)"
  by (auto split: option.split sum.split prod.split bool.split)

lemma only_case_exn [only_intros]:
  "only C a \<Longrightarrow> only C b \<Longrightarrow> only C c \<Longrightarrow> only C d \<Longrightarrow> only C e
   \<Longrightarrow> only C (case x of DcsError \<Rightarrow> a | PgError \<Rightarrow> b | PatroniFatal \<Rightarrow> c | SystemExit \<Rightarrow> d | OtherError \<Rightarrow> e)"
  by (cases x) simp_all

lemma only_case_schedule [only_intros]:
  "only C a \<Longrightarrow> only C b \<Longrightarrow> only C c \<Longrightarrow> only C d
   \<Longrightarrow> only C (case x of Wait \<Rightarrow> a | Stale \<Rightarrow> b | Due \<Rightarrow> c | NoAction \<Rightarrow> d)"
  by (cases x) simp_all

lemma only_case_ans [only_intros]:
  "(\<And>x0. only C (f0 x0)) \<Longrightarrow> only C f1 \<Longrightarrow> (\<And>x0. only C (f2 x0)) \<Longrightarrow>
   (\<And>x0. only C (f3 x0)) \<Longrightarrow> (\<And>x0. only C (f4 x0)) \<Longrightarrow> (\<And>x0. only C (f5 x0)) \<Longrightarrow>
   (\<And>x0. only C (f6 x0)) \<Longrightarrow> (\<And>x0. only C (f7 x0)) \<Longrightarrow> (\<And>x0. only C (f8 x0)) \<Longrightarrow>
   (\<And>x0. only C (f9 x0)) \<Longrightarrow> (\<And>x0. only C (f10 x0)) \<Longrightarrow> (\<And>x0. only C (f11 x0)) \<Longrightarrow>
   (\<And>x0. only C (f12 x0)) \<Longrightarrow> (\<And>x0. only C (f13 x0)) \<Longrightarrow> (\<And>x0. only C (f14 x0)) \<Longrightarrow>
   (\<And>x0. only C (f15 x0)) \<Longrightarrow> (\<And>x0 x1 x2. only C (f16 x0 x1 x2)) \<Longrightarrow> (\<And>x0 x1. only C (f17 x0 x1)) \<Longrightarrow>
   (\<And>x0 x1. only C (f18 x0 x1)) \<Longrightarrow> (\<And>x0. only C (f19 x0)) \<Longrightarrow> (\<And>x0. only C (f20 x0)) \<Longrightarrow>
   only C (case_ans f0 f1 f2 f3 f4 f5 f6 f7 f8 f9 f10 f11 f12 f13 f14 f15 f16 f17 f18 f19 f20 a)"
  by (cases a) simp_all

lemma only_case_pyval [only_intros]:
  "only C a \<Longrightarrow> (\<And>x. only C (b x)) \<Longrightarrow> (\<And>x. only C (c x)) \<Longrightarrow> (\<And>x. only C (d x)) \<Longrightarrow> (\<And>x. only C (e x))
   \<Longrightarrow> (\<And>x. only C (f x)) \<Longrightarrow> (\<And>x. only C (g x)) \<Longrightarrow> only C (case_pyval a b c d e f g v)"
  by (cases v) simp_all

lemma only_except [only_intros]: "only C m \<Longrightarrow> (\<And>e. only C (h e)) \<Longrightarrow> only C (hexcept m h)"
  unfolding hexcept_def by (intro only_intros)

lemma only_swallow [only_intros]: "only C m \<Longrightarrow> only C (hswallow m x)"
  unfolding hswallow_def by (intro only_intros)

lemma only_attempt_all [only_intros]: "only C m \<Longrightarrow> only C (attempt_all m)"
  unfolding attempt_all_def by (intro only_intros)

lemma only_mono: "only C m \<Longrightarrow> (\<And>q. C q \<Longrightarrow> D q) \<Longrightarrow> only D m"
  unfolding only_def by meson

section \<open>Interesting queries\<close>

text \<open>Queries that change who holds the leader lock, that start a primary, and that stop the database.\<close>

definition lock_query :: "query \<Rightarrow> bool" where
  "lock_query q = (case q of
     QDcs d \<Rightarrow> (case d of AttemptAcquire \<Rightarrow> True | UpdateLeader _ \<Rightarrow> True | DeleteLeader \<Rightarrow> True | TakeLeader \<Rightarrow> True | _ \<Rightarrow> False)
   | _ \<Rightarrow> False)"

text \<open>
  The tasks that make this node a primary: the promotion and the start of a crashed primary in the background.
  \<open>TBootstrap\<close> is not among them, since a new cluster is created under the initialize key before there is a leader key,
  nor is \<open>TRestart\<close>, which does not change the role.
\<close>

definition start_query :: "query \<Rightarrow> bool" where
  "start_query q = (case q of
     QTask t \<Rightarrow> (case t of RunAsync _ x \<Rightarrow> (case x of TPromote \<Rightarrow> True | TStart \<Rightarrow> True | _ \<Rightarrow> False) | _ \<Rightarrow> False)
   | _ \<Rightarrow> False)"

definition stop_query :: "query \<Rightarrow> bool" where
  "stop_query q = (case q of QCmd d \<Rightarrow> (case d of Stop _ _ _ _ \<Rightarrow> True | _ \<Rightarrow> False) | _ \<Rightarrow> False)"

definition primary_query :: "query \<Rightarrow> bool" where
  "primary_query q \<longleftrightarrow> q = QDb IsPrimary"

lemmas query_class = lock_query_def start_query_def stop_query_def primary_query_def

text \<open>
  Classes that contain every other query. The locales below add the ones that ask whether the database is a
  primary, that change the lock or stop the database, and that start a primary.
\<close>

locale footprint =
  fixes C :: "query \<Rightarrow> bool"
  assumes plain: "\<not> lock_query q \<Longrightarrow> \<not> start_query q \<Longrightarrow> \<not> stop_query q \<Longrightarrow> \<not> primary_query q \<Longrightarrow> C q"
begin

lemma plain_queries [simp]:
  "C QTime" "d \<noteq> IsPrimary \<Longrightarrow> C (QDb d)" "C (QDb2 d2)" "C (QWatchdog w)" "C (QRewind r)" "C QFailsafeReplies" "C QSyncSlots" "C (QCmd2 c2)"
  "C (QDcs GetCluster)" "C (QDcs WriteStatus)" "C (QDcs WriteFailsafe)" "C (QDcs (Initialize b sysid))"
  "C (QDcs CancelInitialization)" "C (QDcs (SetConfig cfg v))" "C (QDcs (ManualFailover mf v))" "C (QDcs (TouchMember m))"
  "C (QDcs (SetHistory h))" "C (QDcs SyncInputs)" "C (QDcs (SyncAction a))" "C (QDcs (WriteOptime n))" "C (QDcs MppCoordinator)"
  "C (QTask AsyncResult)" "C (QTask AsyncReset)" "C (QTask AsyncCancel)" "C (QTask CriticalCancel)"
  by (rule plain; simp add: query_class)+

lemma plain_commands [simp]:
  "C (QCmd (SetRole r))" "C (QCmd (SetState st))" "C (QCmd (FollowNow m r))" "C (QCmd (Callback cb))" "C (QCmd DemoteMysql)"
  "C (QCmd SetReadOnly)" "C (QCmd SemiSyncCheck)" "C (QCmd SyncMetaData)" "C (QCmd HandleParameterChange)"
  "C (QCmd SanityChecks)" "C (QCmd ResetClusterInfo)" "C (QCmd CancelCancellable)" "C (QCmd TerminatePostmaster)"
  "C (QCmd MoveDataDirectory)" "C (QCmd (NotifyMpp ev d n))" "C (QCmd ArchiveWal)" "C (QCmd EnsureCheckpoint)"
  by (rule plain; simp add: query_class)+

lemma plain_tasks [simp]:
  "C (QTask (RunAsync a (TDemote mode)))" "C (QTask (RunAsync a (TFollow m r)))" "C (QTask (RunAsync a TRestart))"
  "C (QTask (RunAsync a TReinitialize))" "C (QTask (RunAsync a TCrashRecovery))" "C (QTask (RunAsync a (TRewind n)))"
  "C (QTask (RunAsync a TBootstrap))" "C (QTask (RunAsync a TBootstrapStandbyLeader))" "C (QTask (RunAsync a (TClone m)))"
  "C (QTask (RunAsync a TPostBootstrap))" "C (QTask (RunAsync a (TCopySlots sl)))"
  by (rule plain; simp add: query_class)+

lemma only_leadership [only_intros]: "only C is_leader" "only C (set_is_leader b)" "only C has_lock" "only C failsafe_is_active"
  unfolding is_leader_def set_is_leader_def has_lock_def failsafe_is_active_def by (intro only_intros; simp)+

lemma only_view [only_intros]: "only C dcs_get_cluster" "only C inject_failsafe_leader" "only C load_cluster_from_dcs"
  unfolding load_cluster_from_dcs_def dcs_get_cluster_def inject_failsafe_leader_def by (intro only_intros; simp)+

lemma only_try_run_async [only_intros]: "C (QTask (RunAsync a t)) \<Longrightarrow> only C (try_run_async a t)"
  unfolding try_run_async_def by (intro only_intros; simp)

lemma only_run_async_or [only_intros]: "C (QTask (RunAsync a t)) \<Longrightarrow> only C (run_async_or a t msg)"
  unfolding run_async_or_def by (intro only_intros; simp)

lemma only_member_key [only_intros]:
  "only C (notify_mpp_coordinator ev)" "only C (add_position r d)" "only C (publish st r d)" "only C ha_touch_member"
  unfolding ha_touch_member_def publish_def add_position_def notify_mpp_coordinator_def by (intro only_intros; simp)+

lemma only_followed [only_intros]: "only C get_remote_member" "only C (get_node_to_follow c)"
  unfolding get_node_to_follow_def get_remote_member_def by (intro only_intros; simp)+

lemma only_candidates [only_intros]: "only C node_view" "only C (ha_is_failover_possible lsn)"
  unfolding ha_is_failover_possible_def node_view_def by (intro only_intros; simp)+

lemma only_rewind [only_intros]:
  "only C handle_crash_recovery" "only C (run_rewind m)" "only C handle_rewind_or_reinitialize"
  unfolding handle_rewind_or_reinitialize_def run_rewind_def handle_crash_recovery_def by (intro only_intros; simp)+

lemma only_follow_node [only_intros]:
  "only C (follow_in_pause p n)" "only C (adjust_recovery_conf n r msg)" "only C (follow_node n msg)"
  unfolding follow_node_def adjust_recovery_conf_def follow_in_pause_def by (intro only_intros; simp)+

lemma only_start_after_demotion [only_intros]:
  "only C (new_leader_to_follow mode)" "only C (start_after_demotion mode b)" "only C mysql_follow_new_leader" "only C before_demote_mpp"
  unfolding start_after_demotion_def new_leader_to_follow_def mysql_follow_new_leader_def before_demote_mpp_def
  by (intro only_intros; simp)+

lemma only_bootstrap [only_intros]:
  "only C clone_member" "only C (clone source remote from_leader)" "only C bootstrap_standby_leader" "only C new_cluster"
  "only C bootstrap_without_leader" "only C bootstrap"
  unfolding bootstrap_def bootstrap_without_leader_def new_cluster_def bootstrap_standby_leader_def clone_def clone_member_def
  by (intro only_intros; simp)+

lemma only_scheduled [only_intros]:
  "only C cleanup \<Longrightarrow> only C (should_run_scheduled_action sched cleanup)" "only C (ha_manual_failover l c sched v)"
  unfolding ha_manual_failover_def should_run_scheduled_action_def
  by (intro only_intros; simp)+

lemma only_restart [only_intros]:
  "only C start_timeout_of" "only C delete_future_restart" "only C (schedule_future_restart r)" "only C (ha_restart_matches r)"
  "only C (restart r)" "only C evaluate_scheduled_restart" "only C executor_cancel" "only C (reinitialize force)"
  unfolding evaluate_scheduled_restart_def restart_def ha_restart_matches_def schedule_future_restart_def
    delete_future_restart_def start_timeout_of_def executor_cancel_def reinitialize_def
  by (intro only_intros; simp)+

lemma only_sync [only_intros]:
  "only C update_cluster_history" "only C (do_sync_actions acts)" "only C (sync_outcome r)" "only C sync_inputs"
  "only C ha_process_sync_replication" "only C ha_prepromote"
proof -
  show acts: "only C (do_sync_actions acts)" for acts :: "sync_action list"
    by (induction acts) (simp_all, (intro only_intros; simp)+)
  show "only C update_cluster_history" unfolding update_cluster_history_def by (intro only_intros; simp)
  show outcome: "only C (sync_outcome r)" for r :: "'z sync_result" unfolding sync_outcome_def by (intro only_intros acts)
  show inputs: "only C sync_inputs" unfolding sync_inputs_def by (intro only_intros; simp)
  show "only C ha_process_sync_replication" unfolding ha_process_sync_replication_def by (intro only_intros inputs outcome)
  show "only C ha_prepromote" unfolding ha_prepromote_def by (intro only_intros inputs outcome)
qed

lemma only_race [only_intros]:
  "only C (send_requests rs)" "only C ha_is_healthiest_node" "only C clean_failover_key"
proof -
  show reqs: "only C (send_requests rs)" for rs :: "(pydict \<times> pyval) list"
    by (induction rs) (simp_all, (intro only_intros; simp)+)
  show "only C ha_is_healthiest_node" unfolding ha_is_healthiest_node_def by (intro only_intros reqs; simp)
  show "only C clean_failover_key" unfolding clean_failover_key_def by (intro only_intros)
qed

lemma only_recover [only_intros]: "only C (recover_crash st)" "only C (recover_follow b)"
  unfolding recover_follow_def recover_crash_def by (intro only_intros; simp)+

lemma only_cycle [only_intros]:
  "only C read_status" "only C handle_mgr_gtid_fork" "only C load_view" "only C note_pause" "only C write_missing_keys"
  "only C (sync_replication_slots b)" "only C ha_check_failsafe_topology" "only C end_of_cycle"
  unfolding read_status_def handle_mgr_gtid_fork_def load_view_def note_pause_def write_missing_keys_def
    sync_replication_slots_def ha_check_failsafe_topology_def end_of_cycle_def
  by (intro only_intros; simp)+

end

locale footprint_primary = footprint +
  assumes primary: "C (QDb IsPrimary)"
begin

lemma db_queries [simp]: "C (QDb d)"
  using primary by (cases "d = IsPrimary") simp_all

lemma only_manual_failover [only_intros]: "only C process_manual_failover_from_leader" "only C (finish_cycle msg)"
  unfolding process_manual_failover_from_leader_def finish_cycle_def by (intro only_intros; simp)+

end

locale footprint_demote = footprint +
  assumes locks: "lock_query q \<Longrightarrow> C q" and stops: "stop_query q \<Longrightarrow> C q"
begin

lemma lock_queries [simp]:
  "C (QDcs AttemptAcquire)" "C (QDcs (UpdateLeader lsn))" "C (QDcs DeleteLeader)" "C (QDcs TakeLeader)" "C (QCmd (Stop m b b' b''))"
  by (rule locks stops; simp add: query_class)+

lemma only_lock [only_intros]:
  "only C dcs_acquire_leader_lock" "only C acquire_lock" "only C (dcs_update_leader lsn slots fs)" "only C (update_lock b)"
  "only C (dcs_delete_leader lsn)" "only C (ha_delete_leader lsn)" "only C (release_leader_key_voluntarily lsn)"
  unfolding acquire_lock_def dcs_acquire_leader_lock_def update_lock_def dcs_update_leader_def release_leader_key_voluntarily_def
    ha_delete_leader_def dcs_delete_leader_def
  by (intro only_intros; simp)+

lemma only_stop [only_intros]:
  "(\<And>m. before = Some m \<Longrightarrow> only C m) \<Longrightarrow> (\<And>f l. on_shutdown = Some f \<Longrightarrow> only C (f l))
   \<Longrightarrow> only C (stop_with_callbacks mode b before on_shutdown)"
  unfolding stop_with_callbacks_def
  by (cases before; cases on_shutdown; simp; intro only_intros; simp)

lemma only_demote [only_intros]:
  "only C (demote_on_shutdown mode l)" "only C (demote_postgresql mode)" "only C (demote_mysql mode)" "only C (demote mode)"
proof -
  show sd: "only C (demote_on_shutdown mode l)" for l unfolding demote_on_shutdown_def by (intro only_intros; simp)
  show pg: "only C (demote_postgresql mode)" unfolding demote_postgresql_def
    by (intro only_intros sd) (auto split: if_splits intro: only_start_after_demotion sd)
  show my: "only C (demote_mysql mode)" unfolding demote_mysql_def by (intro only_intros; simp)
  show "only C (demote mode)" unfolding demote_def by (intro only_intros pg my)
qed

lemma only_lock_checks [only_intros]:
  "only C recover_lock" "only C post_recover" "only C check_pre_promote" "only C (mgr_cycle b)" "only C after_recovery"
  unfolding recover_lock_def post_recover_def check_pre_promote_def mgr_cycle_def after_recovery_def
  by (intro only_intros; simp)+

end

text \<open>Everything but the start of a primary.\<close>

locale footprint_decide = footprint_demote + footprint_primary
begin

lemma only_follow [only_intros]: "only C (follow d f b)" "only C (enforce_follow_remote_member msg)"
  unfolding enforce_follow_remote_member_def follow_def by (intro only_intros; simp)+

lemma only_checks [only_intros]:
  "only C check_watchdog" "only C lock_lost" "only C paused_not_primary"
  unfolding check_watchdog_def lock_lost_def paused_not_primary_def
  by (intro only_intros; simp)+

lemma only_long [only_intros]:
  "only C (handle_lost_lock a)" "only C (crash_recovery_timeout a)" "only C handle_long_action_in_progress"
  "only C starting_leader" "only C handle_starting_instance"
  unfolding handle_starting_instance_def starting_leader_def handle_long_action_in_progress_def handle_lost_lock_def
    crash_recovery_timeout_def
  by (intro only_intros; simp)+

lemma only_database [only_intros]:
  "only C (no_data_directory e)" "only C check_system_id" "only C cancel_initialization" "only C post_bootstrap"
  "only C handle_dcs_error"
  unfolding no_data_directory_def check_system_id_def cancel_initialization_def post_bootstrap_def handle_dcs_error_def
  by (intro only_intros; simp)+

end

locale footprint_start = footprint_primary +
  assumes starts: "start_query q \<Longrightarrow> C q"
begin

lemma only_starts [only_intros]:
  "only C (promote msg)" "only C (lead msg msg')" "only C (start_crashed_primary timeout st)"
proof -
  have "C (QTask (RunAsync a TPromote))" "C (QTask (RunAsync a TStart))" for a by (rule starts; simp add: start_query_def)+
  note [simp] = this
  show promote: "only C (promote msg)" for msg unfolding promote_def by (intro only_intros; simp)
  show "only C (lead msg msg')" unfolding lead_def by (intro only_intros promote; simp)
  show "only C (start_crashed_primary timeout st)" unfolding start_crashed_primary_def by (intro only_intros; simp)
qed

end

end
