(* ===== verification/HaSafe.thy ===== *)
theory HaSafe
  imports HaLogic
begin

text \<open>
  Safety of the HA cycle: a primary is started or promoted only with the leader lock, confirmed in the
  same cycle. The monitors over traces and their rules serve the theories on stopping and releasing as well.
\<close>

section \<open>Monitors\<close>

primrec accepts :: "('m \<Rightarrow> 'e \<Rightarrow> 'm) \<Rightarrow> ('m \<Rightarrow> 'e \<Rightarrow> bool) \<Rightarrow> 'm \<Rightarrow> 'e list \<Rightarrow> bool" where
  "accepts nxt ok u [] \<longleftrightarrow> True"
| "accepts nxt ok u (e # es) \<longleftrightarrow> ok u e \<and> accepts nxt ok (nxt u e) es"

definition reached :: "('m \<Rightarrow> 'e \<Rightarrow> 'm) \<Rightarrow> 'm \<Rightarrow> 'e list \<Rightarrow> 'm" where
  "reached nxt u es = fold (\<lambda>e u. nxt u e) es u"

lemma accepts_append: "accepts nxt ok u (xs @ ys) \<longleftrightarrow> accepts nxt ok u xs \<and> accepts nxt ok (reached nxt u xs) ys"
  by (induction xs arbitrary: u) (simp_all add: reached_def)

lemma reached_append: "reached nxt u (xs @ ys) = reached nxt (reached nxt u xs) ys"
  by (simp add: reached_def)

text \<open>From a monitor state with \<open>P\<close> all events are allowed, and a normal return leaves one with \<open>Q\<close>.\<close>

definition guarded ::
  "('m \<Rightarrow> query \<times> 'w ans \<Rightarrow> 'm) \<Rightarrow> ('m \<Rightarrow> query \<times> 'w ans \<Rightarrow> bool) \<Rightarrow> ('m \<Rightarrow> bool) \<Rightarrow> ('w, 'a) hm \<Rightarrow> ('a \<Rightarrow> 'm \<Rightarrow> bool) \<Rightarrow> bool" where
  "guarded nxt ok P m Q \<longleftrightarrow> (\<forall>orc s u. P u \<longrightarrow> (\<exists>es. hs_trace (snd (m orc s)) = hs_trace s @ es
     \<and> accepts nxt ok u es \<and> (\<forall>x. fst (m orc s) = Inr x \<longrightarrow> Q x (reached nxt u es))))"

lemma guarded_mono:
  "guarded nxt ok P m Q \<Longrightarrow> (\<And>u. P' u \<Longrightarrow> P u) \<Longrightarrow> (\<And>x u. Q x u \<Longrightarrow> Q' x u) \<Longrightarrow> guarded nxt ok P' m Q'"
  unfolding guarded_def by meson

lemma guarded_bind:
  assumes m: "guarded nxt ok P m R" and f: "\<And>x. guarded nxt ok (R x) (f x) Q"
  shows "guarded nxt ok P (hbind m f) Q"
  unfolding guarded_def
proof (intro allI impI)
  fix orc s u
  assume "P u"
  obtain r s' where r: "m orc s = (r, s')" by (cases "m orc s")
  then obtain es where es: "hs_trace s' = hs_trace s @ es" "accepts nxt ok u es" "\<forall>x. r = Inr x \<longrightarrow> R x (reached nxt u es)"
    using m \<open>P u\<close> unfolding guarded_def by (metis fst_conv snd_conv)
  show "\<exists>es. hs_trace (snd (hbind m f orc s)) = hs_trace s @ es \<and> accepts nxt ok u es
     \<and> (\<forall>x. fst (hbind m f orc s) = Inr x \<longrightarrow> Q x (reached nxt u es))"
  proof (cases r)
    case (Inl e)
    then show ?thesis using es r by (auto simp: hbind_def)
  next
    case (Inr x)
    then obtain es' where "hs_trace (snd (f x orc s')) = hs_trace s' @ es'" "accepts nxt ok (reached nxt u es) es'"
      "\<forall>y. fst (f x orc s') = Inr y \<longrightarrow> Q y (reached nxt (reached nxt u es) es')"
      using f [of x] es(3) unfolding guarded_def by blast
    then show ?thesis using es r Inr
      by (intro exI [of _ "es @ es'"]) (simp add: hbind_def accepts_append reached_append)
  qed
qed

lemma guarded_ret: "(\<And>u. P u \<Longrightarrow> Q x u) \<Longrightarrow> guarded nxt ok P (hret x) Q"
  by (simp add: guarded_def hret_def reached_def)

lemma guarded_raise: "guarded nxt ok P (hraise e) Q"
  by (simp add: guarded_def hraise_def reached_def)

lemma guarded_pure:
  "(\<And>orc s. hs_trace (snd (m orc s)) = hs_trace s) \<Longrightarrow> (\<And>orc s x u. fst (m orc s) = Inr x \<Longrightarrow> P u \<Longrightarrow> Q x u) \<Longrightarrow>
   guarded nxt ok P m Q"
  by (auto simp: guarded_def reached_def)

lemma guarded_attempt:
  "guarded nxt ok P m (\<lambda>x u. Q (Inr x) u) \<Longrightarrow> (\<And>e u. Q (Inl e) u) \<Longrightarrow> guarded nxt ok P (hattempt m) Q"
  unfolding guarded_def hattempt_def case_prod_beta by (metis fst_conv snd_conv sum.exhaust sum.inject(2))

lemma guarded_except:
  assumes "guarded nxt ok P m Q" "\<And>e. guarded nxt ok (\<lambda>_. True) (h e) Q"
  shows "guarded nxt ok P (hexcept m h) Q"
  unfolding hexcept_def
proof (rule guarded_bind)
  show "guarded nxt ok P (hattempt m) (\<lambda>r u. \<forall>x. r = Inr x \<longrightarrow> Q x u)"
    using assms(1) by (intro guarded_attempt) (auto elim: guarded_mono)
  show "guarded nxt ok (\<lambda>u. \<forall>x. r = Inr x \<longrightarrow> Q x u)
      (case r of Inl e \<Rightarrow> if e = SystemExit then hraise e else h e | Inr x \<Rightarrow> hret x) Q" for r
    using assms(2) by (cases r) (auto simp: guarded_def hraise_def hret_def reached_def)
qed

lemma guarded_if: "(b \<Longrightarrow> guarded nxt ok P x Q) \<Longrightarrow> (\<not> b \<Longrightarrow> guarded nxt ok P y Q) \<Longrightarrow> guarded nxt ok P (if b then x else y) Q"
  by simp

lemma guarded_option:
  "guarded nxt ok P n Q \<Longrightarrow> (\<And>x. guarded nxt ok P (f x) Q) \<Longrightarrow> guarded nxt ok P (case v of None \<Rightarrow> n | Some x \<Rightarrow> f x) Q"
  by (cases v) simp_all

lemma guarded_prod: "(\<And>x y. p = (x, y) \<Longrightarrow> guarded nxt ok P (f x y) Q) \<Longrightarrow> guarded nxt ok P (case p of (x, y) \<Rightarrow> f x y) Q"
  by (cases p) simp

lemma ask_cases: "\<exists>a. hs_trace (snd (ask q orc s)) = hs_trace s @ [(q, a)] \<and> (fst (ask q orc s) = Inr a \<or> isl (fst (ask q orc s)))"
  by (auto simp: ask_def Let_def split: ans.split)

lemma guarded_ask:
  fixes nxt :: "'m \<Rightarrow> query \<times> 'w ans \<Rightarrow> 'm"
  assumes "\<And>u a. P u \<Longrightarrow> ok u (q, a)" "\<And>u a. P u \<Longrightarrow> Q a (nxt u (q, a))"
  shows "guarded nxt ok P (ask q) Q"
  unfolding guarded_def
proof (intro allI impI)
  fix orc :: "'w answers" and s u
  assume "P u"
  obtain a where "hs_trace (snd (ask q orc s)) = hs_trace s @ [(q, a)]" "fst (ask q orc s) = Inr a \<or> isl (fst (ask q orc s))"
    using ask_cases by metis
  then show "\<exists>es. hs_trace (snd (ask q orc s)) = hs_trace s @ es \<and> accepts nxt ok u es
      \<and> (\<forall>x. fst (ask q orc s) = Inr x \<longrightarrow> Q x (reached nxt u es))"
    using assms \<open>P u\<close> by (intro exI [of _ "[(q, a)]"]) (auto simp: reached_def)
qed

lemma guarded_ask_bool:
  assumes "\<And>u a. P u \<Longrightarrow> ok u (q, a)" "\<And>u a. P u \<Longrightarrow> Q (ans_bool a) (nxt u (q, a))"
  shows "guarded nxt ok P (ask_bool q) Q"
  unfolding ask_bool_def
  by (rule guarded_bind [OF guarded_ask [where Q = "\<lambda>a u. Q (ans_bool a) u"]]) (auto intro: assms guarded_ret)

lemma guarded_false: "(\<And>u. \<not> P u) \<Longrightarrow> guarded nxt ok P m Q"
  by (simp add: guarded_def)

text \<open>
  The contract of a monitor with the classes of queries: \<open>quiet\<close> ones it ignores, \<open>safe\<close> ones it allows, and in
  its good states it also allows the ones of \<open>good\<close>.
\<close>

locale monitor =
  fixes nxt :: "'m \<Rightarrow> query \<times> 'w ans \<Rightarrow> 'm" and ok :: "'m \<Rightarrow> query \<times> 'w ans \<Rightarrow> bool"
    and quiet safe :: "query \<Rightarrow> bool" and good :: "'m \<Rightarrow> bool" and neutral :: "query \<Rightarrow> bool"
  assumes ignores: "quiet q \<Longrightarrow> nxt u (q, a) = u \<and> ok u (q, a)"
    and allows: "safe q \<Longrightarrow> ok u (q, a)"
    and keeps_good: "good u \<Longrightarrow> neutral q \<Longrightarrow> good (nxt u (q, a)) \<and> ok u (q, a)"
begin

lemma quiet_events: "\<forall>e \<in> set es. quiet (fst e) \<Longrightarrow> accepts nxt ok u es \<and> reached nxt u es = u"
  using ignores by (induction es) (auto simp: reached_def)

lemma safe_events: "\<forall>e \<in> set es. safe (fst e) \<Longrightarrow> accepts nxt ok u es"
  using allows by (induction es arbitrary: u) auto

lemma good_events: "\<forall>e \<in> set es. neutral (fst e) \<Longrightarrow> good u \<Longrightarrow> accepts nxt ok u es \<and> good (reached nxt u es)"
proof (induction es arbitrary: u)
  case (Cons e es)
  then have "good (nxt u e)" "ok u e" using keeps_good [of u "fst e" "snd e"] by simp_all
  then show ?case using Cons by (auto simp: reached_def)
qed (simp add: reached_def)

lemma guarded_quiet: "only quiet m \<Longrightarrow> guarded nxt ok P m (\<lambda>_. P)"
  unfolding guarded_def only_def using quiet_events by (metis (no_types, lifting))

lemma guarded_safe: "only safe m \<Longrightarrow> guarded nxt ok P m (\<lambda>_ _. True)"
  unfolding guarded_def only_def using safe_events by meson

lemma guarded_good: "only neutral m \<Longrightarrow> guarded nxt ok good m (\<lambda>_. good)"
  unfolding guarded_def only_def using good_events by meson

text \<open>The usual steps: something the monitor ignores, and a last step it allows.\<close>

lemma quiet_bind: "only quiet m \<Longrightarrow> (\<And>x. guarded nxt ok P (f x) Q) \<Longrightarrow> guarded nxt ok P (hbind m f) Q"
  by (rule guarded_bind [OF guarded_quiet])

lemma safe_bind: "only safe m \<Longrightarrow> (\<And>x. guarded nxt ok (\<lambda>_. True) (f x) Q) \<Longrightarrow> guarded nxt ok P (hbind m f) Q"
  by (rule guarded_bind [OF guarded_safe])

end

section \<open>The leader lock\<close>

text \<open>Whether the leader lock has been confirmed, and not been given up or lost since.\<close>

definition lock_nxt :: "bool \<Rightarrow> query \<times> 'w ans \<Rightarrow> bool" where
  "lock_nxt held e = (case e of (q, a) \<Rightarrow> (case q of
     QDcs d \<Rightarrow> (case d of AttemptAcquire \<Rightarrow> ans_bool a | UpdateLeader _ \<Rightarrow> ans_bool a | DeleteLeader \<Rightarrow> False
                | TakeLeader \<Rightarrow> True | _ \<Rightarrow> held)
   | _ \<Rightarrow> held))"

definition start_ok :: "bool \<Rightarrow> query \<times> 'w ans \<Rightarrow> bool" where
  "start_ok held e \<longleftrightarrow> (start_query (fst e) \<longrightarrow> held)"

abbreviation no_lock_start :: "query \<Rightarrow> bool" where
  "no_lock_start q \<equiv> \<not> lock_query q \<and> \<not> start_query q"

interpretation ns: footprint_decide "\<lambda>q. \<not> start_query q"
  by unfold_locales (auto simp: query_class split: query.splits dcs_query.splits db_command.splits)

interpretation nl: footprint_primary no_lock_start
  by unfold_locales (simp_all add: query_class)

interpretation pm: monitor lock_nxt start_ok no_lock_start "\<lambda>q. \<not> start_query q" "\<lambda>held. held" "\<lambda>q. \<not> lock_query q"
  by unfold_locales
    (auto simp: lock_nxt_def start_ok_def lock_query_def split: query.splits dcs_query.splits)

lemma update_leader_result: "update_leader gc t locked st fs c lsn slots f d = (Inr (b, ws), d') \<Longrightarrow> b = locked"
  by (auto simp: update_leader_def Let_def split: if_splits prod.splits sum.splits option.splits)

lemma acquire_result: "acquire_leader_lock t acquired d = (Inr b, d') \<Longrightarrow> b = acquired"
  by (auto simp: acquire_leader_lock_def split: if_splits option.splits pyval.splits)

lemma lock_acquired: "guarded lock_nxt start_ok P (ask_bool (QDcs AttemptAcquire)) (\<lambda>b held. b = held)"
  by (rule guarded_ask_bool) (simp_all add: lock_nxt_def start_ok_def start_query_def)

lemma lock_updated: "guarded lock_nxt start_ok P (ask_bool (QDcs (UpdateLeader lsn))) (\<lambda>b held. b = held)"
  by (rule guarded_ask_bool) (simp_all add: lock_nxt_def start_ok_def start_query_def)

lemma map_sum_Inr: "map_sum f g r = Inr y \<longleftrightarrow> (\<exists>x. r = Inr x \<and> y = g x)"
  by (cases r) auto

lemmas pure_defs = hbind_def hget_def hset_def hpy_def hlift_def hret_def

lemma guarded_dcs_update_leader:
  "guarded lock_nxt start_ok P (dcs_update_leader lsn slots fs) (\<lambda>b held. b \<longrightarrow> held)"
  unfolding dcs_update_leader_def
  apply (rule guarded_bind [OF lock_updated])
  apply (rule pm.quiet_bind, (intro only_intros; simp))
  apply (rule pm.quiet_bind, (intro only_intros; simp))
  apply (rule pm.quiet_bind, (intro only_intros; simp))
  apply (rule guarded_pure)
   apply (simp add: pure_defs split: prod.split sum.split)
  apply (auto simp: pure_defs map_sum_Inr dest: update_leader_result split: prod.splits)
  done

lemma guarded_acquire: "guarded lock_nxt start_ok P dcs_acquire_leader_lock (\<lambda>b held. b \<longrightarrow> held)"
  unfolding dcs_acquire_leader_lock_def
  apply (rule guarded_bind [OF lock_acquired])
  apply (rule pm.quiet_bind, (intro only_intros; simp))
  apply (rule guarded_pure)
   apply (simp add: pure_defs split: prod.split sum.split)
  apply (auto simp: pure_defs map_sum_Inr dest: acquire_result split: prod.splits)
  done

lemma guarded_swallow:
  "guarded nxt ok P m (\<lambda>b held. b \<longrightarrow> held) \<Longrightarrow> guarded nxt ok P (hswallow m False) (\<lambda>b held. b \<longrightarrow> held)"
  unfolding hswallow_def by (rule guarded_except) (auto intro: guarded_ret guarded_raise)

lemma guarded_acquire_lock: "guarded lock_nxt start_ok P acquire_lock (\<lambda>ok held. ok \<longrightarrow> held)"
  unfolding acquire_lock_def
  apply (rule guarded_bind [OF guarded_swallow [OF guarded_acquire]])
  apply (rule pm.quiet_bind, (intro only_intros; simp))
  apply (rule guarded_ret, simp)
  done

lemma guarded_update_lock: "guarded lock_nxt start_ok P (update_lock b) (\<lambda>ok held. ok \<longrightarrow> held)"
  unfolding update_lock_def
  apply (rule pm.quiet_bind, (intro only_intros; simp))
  apply (simp only: case_prod_beta)
  apply (rule pm.quiet_bind, (intro only_intros; simp))
  apply (rule guarded_bind [OF guarded_swallow [OF guarded_dcs_update_leader]])
  apply (rule pm.quiet_bind, (intro only_intros; simp))+
  apply (rule guarded_ret, simp)
  done

interpretation nk: footprint_start "\<lambda>q. \<not> lock_query q"
  by unfold_locales (auto simp: query_class split: query.splits dcs_query.splits)

text \<open>A message ends the method; without one the lock is still held.\<close>

lemma guarded_msg:
  "guarded nxt ok good k (\<lambda>_ _. True) \<Longrightarrow>
   guarded nxt ok (\<lambda>u. msg = None \<longrightarrow> good u) (case msg of None \<Rightarrow> k | Some m \<Rightarrow> hret m) (\<lambda>_ _. True)"
  by (cases msg) (auto intro: guarded_ret)

lemma guarded_checks:
  "guarded lock_nxt start_ok (\<lambda>h. h) check_watchdog (\<lambda>msg h. msg = None \<longrightarrow> h)"
  "guarded lock_nxt start_ok (\<lambda>h. h) check_pre_promote (\<lambda>msg h. msg = None \<longrightarrow> h)"
  "guarded lock_nxt start_ok (\<lambda>h. h) (mgr_cycle True) (\<lambda>msg h. msg = None \<longrightarrow> h)"
proof -
  show "guarded lock_nxt start_ok (\<lambda>h. h) check_watchdog (\<lambda>msg h. msg = None \<longrightarrow> h)"
    unfolding check_watchdog_def
    by (rule pm.quiet_bind guarded_if pm.safe_bind guarded_ret only_intros | simp)+
  show "guarded lock_nxt start_ok (\<lambda>h. h) check_pre_promote (\<lambda>msg h. msg = None \<longrightarrow> h)"
    unfolding check_pre_promote_def
    by (rule pm.quiet_bind guarded_if pm.safe_bind guarded_ret only_intros | simp)+
  show "guarded lock_nxt start_ok (\<lambda>h. h) (mgr_cycle True) (\<lambda>msg h. msg = None \<longrightarrow> h)"
    unfolding mgr_cycle_def Let_def
    by (rule pm.quiet_bind guarded_if pm.safe_bind guarded_ret only_intros | simp)+
qed

lemma guarded_enforce_primary_role: "guarded lock_nxt start_ok (\<lambda>h. h) (enforce_primary_role msg msg') (\<lambda>_ _. True)"
proof -
  have lead: "guarded lock_nxt start_ok (\<lambda>h. h) (lead msg msg') (\<lambda>_ _. True)"
    by (rule guarded_mono [OF pm.guarded_good [OF nk.only_starts(2)]]) simp_all
  have pre: "guarded lock_nxt start_ok (\<lambda>h. h) (if p then hret None else check_pre_promote) (\<lambda>msg h. msg = None \<longrightarrow> h)"
    and wd: "guarded lock_nxt start_ok (\<lambda>h. h) (if p then hret None else check_watchdog) (\<lambda>msg h. msg = None \<longrightarrow> h)" for p
    using guarded_checks by (auto intro: guarded_ret)
  show ?thesis unfolding enforce_primary_role_def
    by (intro pm.quiet_bind only_intros guarded_bind [OF wd] guarded_bind [OF pre] guarded_msg lead)
qed

lemma guarded_leader_cycle: "guarded lock_nxt start_ok (\<lambda>h. h) leader_cycle (\<lambda>_ _. True)"
proof -
  have manual: "guarded lock_nxt start_ok (\<lambda>h. h) process_manual_failover_from_leader (\<lambda>msg h. msg = None \<longrightarrow> h)"
    by (rule guarded_mono [OF pm.guarded_quiet [where P = "\<lambda>h. h", OF nl.only_manual_failover(1)]]) simp_all
  have mgr: "guarded lock_nxt start_ok (\<lambda>h. h) (if b then mgr_cycle True else hret None) (\<lambda>msg h. msg = None \<longrightarrow> h)" for b
    using guarded_checks(3) by (auto intro: guarded_ret)
  have remote: "guarded lock_nxt start_ok (\<lambda>h. h) (enforce_follow_remote_member m) (\<lambda>_ _. True)" for m
    by (rule pm.guarded_safe [OF ns.only_follow(2)])
  show ?thesis unfolding leader_cycle_def
    apply (rule guarded_bind [OF manual])
    apply (rule guarded_msg)
    apply (rule pm.quiet_bind, (intro only_intros; simp))
    apply (rule pm.quiet_bind, (intro only_intros; simp))
    apply (simp only: case_prod_beta)
    apply (rule guarded_if)
     apply (rule pm.quiet_bind, (intro only_intros; simp))
     apply (rule remote)
    apply (rule guarded_bind [OF mgr])
    apply (rule guarded_msg)
    apply (rule guarded_enforce_primary_role)
    done
qed

lemma guarded_process_healthy: "guarded lock_nxt start_ok P process_healthy_cluster (\<lambda>_ _. True)"
  unfolding process_healthy_cluster_def
  apply (rule pm.quiet_bind, (intro only_intros; simp))
  apply (rule guarded_if)
   apply (rule pm.safe_bind, (intro only_intros; simp))
   apply (rule guarded_option)
    apply (rule guarded_bind [OF guarded_update_lock])
    apply (rule guarded_if)
     apply (rule guarded_mono [OF guarded_leader_cycle], simp, simp)
    apply (rule pm.guarded_safe, (intro only_intros; simp))
   apply (rule guarded_ret, simp)
  apply (rule pm.guarded_safe, (intro only_intros; simp))
  done

lemma guarded_process_unhealthy: "guarded lock_nxt start_ok P process_unhealthy_cluster (\<lambda>_ _. True)"
  unfolding process_unhealthy_cluster_def
  apply (rule pm.quiet_bind, (intro only_intros; simp))
  apply (rule guarded_if)
   apply (rule guarded_bind [OF guarded_acquire_lock])
   apply (rule guarded_if)
    apply (rule pm.quiet_bind, (intro only_intros; simp))
    apply (rule pm.quiet_bind, (intro only_intros; simp))
    apply (rule pm.quiet_bind, (intro only_intros; simp))
    apply (rule guarded_if)
     apply (rule pm.guarded_safe, (intro only_intros; simp))
    apply (rule guarded_mono [OF guarded_enforce_primary_role], simp, simp)
   apply (rule pm.guarded_safe, (intro only_intros; simp))
  apply (rule pm.guarded_safe, (intro only_intros; simp))
  done

lemma guarded_recover_lock:
  "guarded lock_nxt start_ok P recover_lock (\<lambda>r h. r = (None, Some t) \<longrightarrow> h)"
  unfolding recover_lock_def
  apply (rule pm.quiet_bind, (intro only_intros; simp))
  apply (rule guarded_bind [where R = "\<lambda>ok held. ok \<longrightarrow> held"])
   apply (rule guarded_if)
    apply (rule guarded_update_lock)
   apply (rule guarded_ret, simp)
  apply (rule guarded_if)
   apply (rule guarded_ret, simp)
  apply (rule pm.quiet_bind, (intro only_intros; simp))
  apply (rule guarded_if)
   apply (rule pm.quiet_bind, (intro only_intros; simp))
   apply (rule guarded_if)
    apply (rule pm.safe_bind, (intro only_intros; simp))
    apply (rule pm.safe_bind, (intro only_intros; simp))
    apply (rule guarded_ret, simp)
   apply (rule guarded_ret, simp)
  apply (rule guarded_ret, simp)
  done

lemma guarded_start_crashed_primary:
  "guarded lock_nxt start_ok (\<lambda>h. timeout \<noteq> None \<longrightarrow> h) (start_crashed_primary timeout st) (\<lambda>_ _. True)"
proof (cases timeout)
  case None
  then show ?thesis by (auto simp: start_crashed_primary_def int_or_0_def intro: guarded_ret)
next
  case (Some t)
  then show ?thesis by (intro guarded_mono [OF pm.guarded_good [OF nk.only_starts(3)]]) simp_all
qed

lemma guarded_recover: "guarded lock_nxt start_ok P recover (\<lambda>_ _. True)"
proof -
  have lock: "guarded lock_nxt start_ok P recover_lock (\<lambda>r h. fst r = None \<longrightarrow> snd r \<noteq> None \<longrightarrow> h)"
    using guarded_recover_lock unfolding guarded_def by (metis option.exhaust prod.collapse)
  show ?thesis unfolding recover_def
    apply (rule pm.quiet_bind, (intro only_intros; simp))
    apply (simp only: case_prod_beta)
    apply (rule guarded_bind [OF lock])
    apply (rule guarded_prod)
    apply (hypsubst, simp only: fst_conv snd_conv)
    apply (rule guarded_mono [OF guarded_msg [where good = "\<lambda>h. timeout \<noteq> None \<longrightarrow> h" for timeout]])
      apply (rule pm.quiet_bind, (intro only_intros; simp))
      apply (rule guarded_bind [where R = "\<lambda>_ _. True"])
       apply (rule guarded_if)
        apply (rule guarded_start_crashed_primary)
       apply (rule guarded_ret, simp)
      apply (rule guarded_option)
       apply (rule pm.guarded_safe, (intro only_intros; simp))
      apply (rule guarded_ret, simp)
     apply simp
    apply simp
    done
qed

lemma guarded_run_database: "guarded lock_nxt start_ok P run_database (\<lambda>_ _. True)"
proof -
  have dead: "guarded lock_nxt start_ok P dead_database (\<lambda>_ _. True)" for P
    unfolding dead_database_def
    apply (rule pm.quiet_bind, (intro only_intros; simp))
    apply (rule pm.safe_bind, (intro only_intros; simp))
    apply (rule guarded_option)
     apply (rule pm.quiet_bind, (intro only_intros; simp))
     apply (rule pm.quiet_bind, (intro only_intros; simp))
     apply (rule guarded_recover)
    apply (rule guarded_ret, simp)
    done
  have healthy: "guarded lock_nxt start_ok P run_healthy (\<lambda>_ _. True)" for P
    unfolding run_healthy_def
    apply (rule pm.quiet_bind, (intro only_intros; simp))
    apply (rule guarded_bind [where R = "\<lambda>_ _. True"])
     apply (rule guarded_if)
      apply (rule guarded_process_unhealthy)
     apply (rule guarded_bind [OF guarded_process_healthy])
     apply (rule pm.guarded_safe, (intro only_intros; simp))
    apply (rule pm.guarded_safe, (intro only_intros; simp))
    done
  show ?thesis unfolding run_database_def
    apply (rule pm.quiet_bind, (intro only_intros; simp))
    apply (simp only: split: sum.split exn.split bool.split)
    apply (intro conjI allI impI guarded_raise pm.guarded_safe [OF ns.only_database(1)])
    apply (rule pm.safe_bind, (intro only_intros; simp))
    apply (rule guarded_option)
     apply (rule pm.quiet_bind, (intro only_intros; simp))
     apply (rule guarded_if)
      apply (rule healthy)
     apply (rule dead)
    apply (rule guarded_ret, simp)
    done
qed

lemma guarded_run_cycle_body: "guarded lock_nxt start_ok P run_cycle_body (\<lambda>_ _. True)"
  unfolding run_cycle_body_def
  apply (rule pm.quiet_bind, (intro only_intros; simp))
  apply (rule pm.quiet_bind, (intro only_intros; simp))
  apply (rule pm.quiet_bind, (intro only_intros; simp))
  apply (rule pm.quiet_bind, (intro only_intros; simp))
  apply (rule guarded_if)
   apply (rule pm.guarded_safe, (intro only_intros; simp))
  apply (rule pm.safe_bind, (intro only_intros; simp))
  apply (rule guarded_option)
   apply (rule pm.quiet_bind, (intro only_intros; simp))
   apply (rule guarded_prod)
   apply (rule guarded_if)
    apply (rule pm.guarded_safe, (intro only_intros; simp))
   apply (rule pm.safe_bind, (intro only_intros; simp))
   apply (rule guarded_option)
    apply (rule guarded_run_database)
   apply (rule guarded_ret, simp)
  apply (rule guarded_ret, simp)
  done

lemma guarded_run_cycle: "guarded lock_nxt start_ok P run_cycle (\<lambda>_ _. True)"
proof -
  have inner: "guarded lock_nxt start_ok P inner_run_cycle (\<lambda>_ _. True)"
    unfolding inner_run_cycle_def
    apply (rule guarded_bind [where R = "\<lambda>_ _. True"])
     apply (rule guarded_attempt [OF guarded_run_cycle_body], simp)
    apply (rule pm.guarded_safe, (intro only_intros; simp))
    done
  show ?thesis unfolding run_cycle_def
    apply (rule guarded_except)
     apply (rule guarded_bind [OF inner])
     apply (rule pm.guarded_safe, (intro only_intros; simp))
    apply (rule pm.guarded_safe, (intro only_intros; simp))
    done
qed

lemma accepts_nth: "accepts nxt ok u es \<longleftrightarrow> (\<forall>i < length es. ok (reached nxt u (take i es)) (es ! i))"
  by (induction es arbitrary: u) (auto simp: reached_def nth_Cons less_Suc_eq_0_disj all_conj_distrib)

text \<open>The lock at the end of a trace that starts without it.\<close>

definition lock_held :: "'w trace \<Rightarrow> bool" where
  "lock_held es = reached lock_nxt False es"

text \<open>
  C5: no primary without the lock. Whatever the database, the watchdog, the members and DCS answer, and whichever
  exceptions are raised, a run of \<open>run_cycle\<close> hands a promotion or the start of a crashed primary to the background
  executor only if earlier in the same run the leader lock has been acquired or
  renewed with success and has neither been released nor failed to be renewed since. The bootstrap of a new cluster
  (guarded by the initialize key instead), the restart of a running database and the cycle of MySQL group
  replication, one opaque call, are not counted as starts.
\<close>

theorem start_only_with_lock:
  "\<exists>es. hs_trace (snd (run_cycle orc s)) = hs_trace s @ es
     \<and> (\<forall>i < length es. start_query (fst (es ! i)) \<longrightarrow> lock_held (take i es))"
proof -
  obtain es where "hs_trace (snd (run_cycle orc s)) = hs_trace s @ es" "accepts lock_nxt start_ok False es"
    using guarded_run_cycle [of "\<lambda>_. True"] unfolding guarded_def by blast
  then show ?thesis by (auto simp: accepts_nth start_ok_def lock_held_def)
qed

text \<open>A replica \<open>a\<close> of a cluster whose leader is gone, with two members that are behind it.\<close>

definition demo_conf :: node_config where
  "demo_conf = \<lparr>nc_name = ''a'', nc_tags = [], nc_api_url = ''u'', nc_conn_url = ''c'', nc_version = ''4.0'', nc_has_bootstrap = True,
     nc_dynamic_config = [], nc_engine = \<lparr>en_db_type = ''postgresql'', en_has_timelines = True, en_needs_rewind = True,
       en_needs_crash_recovery = True, en_requires_sysid_match = True, en_can_advance_slots = True, en_mgr_configured = False,
       en_has_pause_on_fork = False\<rparr>, nc_is_raft = False, nc_loop_wait = 10, nc_retry_timeout = 10,
     nc_mpp_group = None, nc_mpp_type = ''Null'', nc_isoformat = (\<lambda>_. ''t'')\<rparr>"

definition demo_cluster :: "unit cluster" where
  "demo_cluster = Cluster_empty\<lparr>c_initialize := Some ''1234567890'',
     c_config := Some \<lparr>cc_version = PInt 1, cc_data = [(''ttl'', PInt 30)], cc_modify_version = PInt 1\<rparr>,
     c_members := [demo_peer ''a'', demo_peer ''b'', demo_peer ''c'']\<rparr>"

definition demo_hs :: "unit hs" where
  "demo_hs = \<lparr>hs_conf = demo_conf, hs_gc = [], hs_dcs = dcs_init ''a'' ''service'' ''demo'' None 30, hs_cluster = Cluster_empty,
     hs_old_cluster = Cluster_empty, hs_shared = False, hs_leader_expiry = 0, hs_failsafe = fs_reset_state, hs_was_paused = False,
     hs_promote_timestamp = 0, hs_leader_timeline = PNone, hs_recovering = False, hs_crash_recovery_started = 0,
     hs_start_timeout = None, hs_executor = None, hs_last_wal_lsn = None, hs_last_timeline = None, hs_disable_sync = 0,
     hs_last_state = None, hs_join_aborted = False, hs_released_leader_key_timestamp = 0, hs_scheduled_restart = None,
     hs_bootstrapping = False, hs_trace = []\<rparr>"

definition demo_inputs :: sync_inputs where
  "demo_inputs = \<lparr>si_node = demo_node, si_dcs = (\<lambda>_. Some (PInt 1)), si_rounds = [], si_view1 = Inl ValueError,
     si_view2 = Inl ValueError, si_now1 = 100, si_now2 = 100\<rparr>"

definition demo_answers :: "unit answers" where
  "demo_answers t q = (case q of
     QTime \<Rightarrow> ATime 100
   | QDcs d \<Rightarrow> (case d of GetCluster \<Rightarrow> ACluster demo_cluster | SyncInputs \<Rightarrow> ASync demo_inputs | _ \<Rightarrow> ABool True)
   | QWatchdog _ \<Rightarrow> ABool True
   | QDb d \<Rightarrow> (case d of DbRole \<Rightarrow> AStr ''replica'' | DbState \<Rightarrow> AStr ''running'' | DbSysid \<Rightarrow> AStr ''1234567890''
              | IsHealthy \<Rightarrow> ABool True | IsRunning \<Rightarrow> ABool True | _ \<Rightarrow> ABool False)
   | QTask _ \<Rightarrow> AUnit
   | QDb2 d \<Rightarrow> (case d of NodeView \<Rightarrow> ANode demo_node | _ \<Rightarrow> AUnit)
   | _ \<Rightarrow> ABool False)"

theorem start_only_with_lock_witness:
  "\<exists>es i. hs_trace (snd (run_cycle demo_answers demo_hs)) = es \<and> i < length es \<and> start_query (fst (es ! i)) \<and> lock_held (take i es)"
proof -
  obtain es where es: "hs_trace (snd (run_cycle demo_answers demo_hs)) = hs_trace demo_hs @ es"
    "\<forall>i < length es. start_query (fst (es ! i)) \<longrightarrow> lock_held (take i es)"
    using start_only_with_lock by blast
  moreover have "hs_trace demo_hs = []" by (simp add: demo_hs_def)
  moreover have "list_ex (\<lambda>e. start_query (fst e)) (hs_trace (snd (run_cycle demo_answers demo_hs)))" by code_simp
  ultimately have "list_ex (\<lambda>e. start_query (fst e)) es" by simp
  then obtain i where "i < length es" "start_query (fst (es ! i))" by (auto simp: list_ex_length)
  then show ?thesis using es \<open>hs_trace demo_hs = []\<close> by auto
qed

end
