(* ===== verification/HaFrame.thy ===== *)
theory HaFrame
  imports HaSafe
begin

text \<open>
  What the methods of \<open>Ha\<close> leave unchanged: all but the one that loads the configuration keep the global configuration and
  the configuration of the node.
\<close>

named_theorems stay_intros \<open>rules for what a method keeps\<close>

definition static :: "'w hs \<Rightarrow> global_config \<times> node_config" where
  "static s = (hs_gc s, hs_conf s)"

definition stays :: "('w, 'a) hm \<Rightarrow> bool" where
  "stays m \<longleftrightarrow> (\<forall>orc s. static (snd (m orc s)) = static s)"

lemma stay_base [stay_intros]:
  "stays (hret x)" "stays (hraise e)" "stays (hlift r)" "stays (hget g)" "stays (hpy r')"
  by (simp_all add: stays_def hret_def hraise_def hlift_def hget_def hpy_def)

lemma stay_set [stay_intros]: "(\<And>s. static ((g s)\<lparr>hs_trace := hs_trace s\<rparr>) = static s) \<Longrightarrow> stays (hset g)"
  by (simp add: stays_def hset_def)

lemma stay_ask [stay_intros]:
  "stays (ask q)" "stays (ask_safe q)"
  by (simp_all add: stays_def static_def ask_def ask_safe_def Let_def split: ans.split)

lemma stay_bind [stay_intros]: "stays m \<Longrightarrow> (\<And>x. stays (k x)) \<Longrightarrow> stays (hbind m k)"
  by (simp add: stays_def hbind_def split: prod.split sum.split) (metis snd_conv)

lemma stay_attempt [stay_intros]: "stays m \<Longrightarrow> stays (hattempt m)"
  by (simp add: stays_def hattempt_def case_prod_beta)

lemma stay_when [stay_intros]: "(b \<Longrightarrow> stays m) \<Longrightarrow> stays (hwhen b m)"
  by (auto simp: hwhen_def intro!: stay_intros)

lemma stay_ask_typed [stay_intros]:
  "stays (ask_bool q)" "stays (ask_flag q)" "stays (ask_str q)" "stays now"
  unfolding ask_bool_def ask_flag_def ask_str_def now_def by (intro stay_intros)+

lemma stay_if [stay_intros]: "(b \<Longrightarrow> stays x) \<Longrightarrow> (\<not> b \<Longrightarrow> stays y) \<Longrightarrow> stays (if b then x else y)"
  by simp

lemma stay_let [stay_intros]: "stays (f x) \<Longrightarrow> stays (Let x f)"
  by simp

lemma stay_case [stay_intros]:
  "stays n \<Longrightarrow> (\<And>x. stays (f x)) \<Longrightarrow> stays (case v of None \<Rightarrow> n | Some x \<Rightarrow> f x)"
  "(\<And>x y. stays (g x y)) \<Longrightarrow> stays (case p of (x, y) \<Rightarrow> g x y)"
  "(\<And>e. stays (h e)) \<Longrightarrow> (\<And>x. stays (k x)) \<Longrightarrow> stays (case r of Inl e \<Rightarrow> h e | Inr x \<Rightarrow> k x)"
  "stays m1 \<Longrightarrow> stays m2 \<Longrightarrow> stays (case b of True \<Rightarrow> m1 | False \<Rightarrow> m2)"
  by (auto split: option.split sum.split prod.split bool.split)

lemma stay_case_exn [stay_intros]:
  "stays a \<Longrightarrow> stays b \<Longrightarrow> stays c \<Longrightarrow> stays d \<Longrightarrow> stays e
   \<Longrightarrow> stays (case x of DcsError \<Rightarrow> a | PgError \<Rightarrow> b | PatroniFatal \<Rightarrow> c | SystemExit \<Rightarrow> d | OtherError \<Rightarrow> e)"
  by (cases x) simp_all

lemma stay_case_schedule [stay_intros]:
  "stays a \<Longrightarrow> stays b \<Longrightarrow> stays c \<Longrightarrow> stays d
   \<Longrightarrow> stays (case x of Wait \<Rightarrow> a | Stale \<Rightarrow> b | Due \<Rightarrow> c | NoAction \<Rightarrow> d)"
  by (cases x) simp_all

lemma stay_case_ans [stay_intros]:
  "(\<And>x0. stays (f0 x0)) \<Longrightarrow> stays f1 \<Longrightarrow> (\<And>x0. stays (f2 x0)) \<Longrightarrow>
   (\<And>x0. stays (f3 x0)) \<Longrightarrow> (\<And>x0. stays (f4 x0)) \<Longrightarrow> (\<And>x0. stays (f5 x0)) \<Longrightarrow>
   (\<And>x0. stays (f6 x0)) \<Longrightarrow> (\<And>x0. stays (f7 x0)) \<Longrightarrow> (\<And>x0. stays (f8 x0)) \<Longrightarrow>
   (\<And>x0. stays (f9 x0)) \<Longrightarrow> (\<And>x0. stays (f10 x0)) \<Longrightarrow> (\<And>x0. stays (f11 x0)) \<Longrightarrow>
   (\<And>x0. stays (f12 x0)) \<Longrightarrow> (\<And>x0. stays (f13 x0)) \<Longrightarrow> (\<And>x0. stays (f14 x0)) \<Longrightarrow>
   (\<And>x0. stays (f15 x0)) \<Longrightarrow> (\<And>x0 x1 x2. stays (f16 x0 x1 x2)) \<Longrightarrow> (\<And>x0 x1. stays (f17 x0 x1)) \<Longrightarrow>
   (\<And>x0 x1. stays (f18 x0 x1)) \<Longrightarrow> (\<And>x0. stays (f19 x0)) \<Longrightarrow> (\<And>x0. stays (f20 x0)) \<Longrightarrow>
   stays (case_ans f0 f1 f2 f3 f4 f5 f6 f7 f8 f9 f10 f11 f12 f13 f14 f15 f16 f17 f18 f19 f20 a)"
  by (cases a) simp_all

lemma stay_case_pyval [stay_intros]:
  "stays a \<Longrightarrow> (\<And>x. stays (b x)) \<Longrightarrow> (\<And>x. stays (c x)) \<Longrightarrow> (\<And>x. stays (d x)) \<Longrightarrow> (\<And>x. stays (e x))
   \<Longrightarrow> (\<And>x. stays (f x)) \<Longrightarrow> (\<And>x. stays (g x)) \<Longrightarrow> stays (case_pyval a b c d e f g v)"
  by (cases v) simp_all

lemma stay_except [stay_intros]: "stays m \<Longrightarrow> (\<And>e. stays (h e)) \<Longrightarrow> stays (hexcept m h)"
  unfolding hexcept_def by (intro stay_intros)

lemma stay_swallow [stay_intros]: "stays m \<Longrightarrow> stays (hswallow m x)"
  unfolding hswallow_def by (intro stay_intros)

lemma stay_attempt_all [stay_intros]: "stays m \<Longrightarrow> stays (attempt_all m)"
  unfolding attempt_all_def by (intro stay_intros)

lemma stay_leadership [stay_intros]: "stays is_leader" "stays (set_is_leader b)" "stays has_lock" "stays failsafe_is_active"
  unfolding is_leader_def set_is_leader_def has_lock_def failsafe_is_active_def by (intro stay_intros; simp add: static_def Let_def)+

lemma stay_view [stay_intros]: "stays dcs_get_cluster" "stays inject_failsafe_leader" "stays load_cluster_from_dcs"
  unfolding load_cluster_from_dcs_def dcs_get_cluster_def inject_failsafe_leader_def by (intro stay_intros; simp add: static_def Let_def)+

lemma stay_try_run_async [stay_intros]: "stays (try_run_async a t)"
  unfolding try_run_async_def by (intro stay_intros; simp add: static_def Let_def)

lemma stay_run_async_or [stay_intros]: "stays (run_async_or a t msg)"
  unfolding run_async_or_def by (intro stay_intros; simp add: static_def Let_def)

lemma stay_member_key [stay_intros]:
  "stays (notify_mpp_coordinator ev)" "stays (add_position r d)" "stays (publish st r d)" "stays ha_touch_member"
  unfolding ha_touch_member_def publish_def add_position_def notify_mpp_coordinator_def by (intro stay_intros; simp add: static_def Let_def)+

lemma stay_followed [stay_intros]: "stays get_remote_member" "stays (get_node_to_follow c)"
  unfolding get_node_to_follow_def get_remote_member_def by (intro stay_intros; simp add: static_def Let_def)+

lemma stay_candidates [stay_intros]: "stays node_view" "stays (ha_is_failover_possible lsn)"
  unfolding ha_is_failover_possible_def node_view_def by (intro stay_intros; simp add: static_def Let_def)+

lemma stay_rewind [stay_intros]:
  "stays handle_crash_recovery" "stays (run_rewind m)" "stays handle_rewind_or_reinitialize"
  unfolding handle_rewind_or_reinitialize_def run_rewind_def handle_crash_recovery_def by (intro stay_intros; simp add: static_def Let_def)+

lemma stay_follow_node [stay_intros]:
  "stays (follow_in_pause p n)" "stays (adjust_recovery_conf n r msg)" "stays (follow_node n msg)"
  unfolding follow_node_def adjust_recovery_conf_def follow_in_pause_def by (intro stay_intros; simp add: static_def Let_def)+

lemma stay_start_after_demotion [stay_intros]:
  "stays (new_leader_to_follow mode)" "stays (start_after_demotion mode b)" "stays mysql_follow_new_leader" "stays before_demote_mpp"
  unfolding start_after_demotion_def new_leader_to_follow_def mysql_follow_new_leader_def before_demote_mpp_def
  by (intro stay_intros; simp add: static_def Let_def)+

lemma stay_bootstrap [stay_intros]:
  "stays clone_member" "stays (clone source remote from_leader)" "stays bootstrap_standby_leader" "stays new_cluster"
  "stays bootstrap_without_leader" "stays bootstrap"
  unfolding bootstrap_def bootstrap_without_leader_def new_cluster_def bootstrap_standby_leader_def clone_def clone_member_def
  by (intro stay_intros; simp add: static_def Let_def)+

lemma stay_scheduled [stay_intros]:
  "stays cleanup \<Longrightarrow> stays (should_run_scheduled_action sched cleanup)" "stays (ha_manual_failover l c sched v)"
  unfolding ha_manual_failover_def should_run_scheduled_action_def
  by (intro stay_intros; simp add: static_def Let_def)+

lemma stay_restart [stay_intros]:
  "stays start_timeout_of" "stays delete_future_restart" "stays (schedule_future_restart r)" "stays (ha_restart_matches r)"
  "stays (restart r)" "stays evaluate_scheduled_restart" "stays executor_cancel" "stays (reinitialize force)"
  unfolding evaluate_scheduled_restart_def restart_def ha_restart_matches_def schedule_future_restart_def
    delete_future_restart_def start_timeout_of_def executor_cancel_def reinitialize_def
  by (intro stay_intros; simp add: static_def Let_def)+

lemma stay_sync [stay_intros]:
  "stays update_cluster_history" "stays (do_sync_actions acts)" "stays (sync_outcome r)" "stays sync_inputs"
  "stays ha_process_sync_replication" "stays ha_prepromote"
proof -
  show acts: "stays (do_sync_actions acts)" for acts :: "sync_action list"
    by (induction acts) (simp_all, (intro stay_intros; simp add: static_def Let_def)+)
  show "stays update_cluster_history" unfolding update_cluster_history_def by (intro stay_intros; simp add: static_def Let_def)
  show outcome: "stays (sync_outcome r)" for r :: "'z sync_result" unfolding sync_outcome_def by (intro stay_intros acts; simp add: static_def)
  show inputs: "stays sync_inputs" unfolding sync_inputs_def by (intro stay_intros; simp add: static_def Let_def)
  show "stays ha_process_sync_replication" unfolding ha_process_sync_replication_def by (intro stay_intros inputs outcome; simp add: static_def)
  show "stays ha_prepromote" unfolding ha_prepromote_def by (intro stay_intros inputs outcome; simp add: static_def)
qed

lemma stay_race [stay_intros]:
  "stays (send_requests rs)" "stays ha_is_healthiest_node" "stays clean_failover_key"
proof -
  show reqs: "stays (send_requests rs)" for rs :: "(pydict \<times> pyval) list"
    by (induction rs) (simp_all, (intro stay_intros; simp add: static_def Let_def)+)
  show "stays ha_is_healthiest_node" unfolding ha_is_healthiest_node_def by (intro stay_intros reqs; simp add: static_def Let_def)
  show "stays clean_failover_key" unfolding clean_failover_key_def by (intro stay_intros; simp add: static_def)
qed

lemma stay_recover [stay_intros]: "stays (recover_crash st)" "stays (recover_follow b)"
  unfolding recover_follow_def recover_crash_def by (intro stay_intros; simp add: static_def Let_def)+

lemma stay_cycle [stay_intros]:
  "stays read_status" "stays handle_mgr_gtid_fork" "stays note_pause" "stays write_missing_keys"
  "stays (sync_replication_slots b)" "stays ha_check_failsafe_topology" "stays end_of_cycle"
  unfolding read_status_def handle_mgr_gtid_fork_def note_pause_def write_missing_keys_def
    sync_replication_slots_def ha_check_failsafe_topology_def end_of_cycle_def
  by (intro stay_intros; simp add: static_def Let_def)+



lemma stay_manual_failover [stay_intros]: "stays process_manual_failover_from_leader" "stays (finish_cycle msg)"
  unfolding process_manual_failover_from_leader_def finish_cycle_def by (intro stay_intros; simp add: static_def Let_def)+



lemma stay_lock [stay_intros]:
  "stays dcs_acquire_leader_lock" "stays acquire_lock" "stays (dcs_update_leader lsn slots fs)" "stays (update_lock b)"
  "stays (dcs_delete_leader lsn)" "stays (ha_delete_leader lsn)" "stays (release_leader_key_voluntarily lsn)"
  unfolding acquire_lock_def dcs_acquire_leader_lock_def update_lock_def dcs_update_leader_def release_leader_key_voluntarily_def
    ha_delete_leader_def dcs_delete_leader_def
  by (intro stay_intros; simp add: static_def Let_def)+

lemma stay_stop [stay_intros]:
  "(\<And>m. before = Some m \<Longrightarrow> stays m) \<Longrightarrow> (\<And>f l. on_shutdown = Some f \<Longrightarrow> stays (f l))
   \<Longrightarrow> stays (stop_with_callbacks mode b before on_shutdown)"
  unfolding stop_with_callbacks_def
  by (cases before; cases on_shutdown; simp; intro stay_intros; simp)

lemma stay_demote [stay_intros]:
  "stays (demote_on_shutdown mode l)" "stays (demote_postgresql mode)" "stays (demote_mysql mode)" "stays (demote mode)"
proof -
  show sd: "stays (demote_on_shutdown mode l)" for l unfolding demote_on_shutdown_def by (intro stay_intros; simp add: static_def Let_def)
  show pg: "stays (demote_postgresql mode)" unfolding demote_postgresql_def
    by (intro stay_intros sd; simp add: static_def) (auto split: if_splits intro: stay_start_after_demotion sd)
  show my: "stays (demote_mysql mode)" unfolding demote_mysql_def by (intro stay_intros; simp add: static_def Let_def)
  show "stays (demote mode)" unfolding demote_def by (intro stay_intros pg my; simp add: static_def)
qed

lemma stay_lock_checks [stay_intros]:
  "stays recover_lock" "stays post_recover" "stays check_pre_promote" "stays (mgr_cycle b)" "stays after_recovery"
  unfolding recover_lock_def post_recover_def check_pre_promote_def mgr_cycle_def after_recovery_def
  by (intro stay_intros; simp add: static_def Let_def)+




lemma stay_follow [stay_intros]: "stays (follow d f b)" "stays (enforce_follow_remote_member msg)"
  unfolding enforce_follow_remote_member_def follow_def by (intro stay_intros; simp add: static_def Let_def)+

lemma stay_checks [stay_intros]:
  "stays check_watchdog" "stays lock_lost" "stays paused_not_primary"
  unfolding check_watchdog_def lock_lost_def paused_not_primary_def
  by (intro stay_intros; simp add: static_def Let_def)+

lemma stay_long [stay_intros]:
  "stays (handle_lost_lock a)" "stays (crash_recovery_timeout a)" "stays handle_long_action_in_progress"
  "stays starting_leader" "stays handle_starting_instance"
  unfolding handle_starting_instance_def starting_leader_def handle_long_action_in_progress_def handle_lost_lock_def
    crash_recovery_timeout_def
  by (intro stay_intros; simp add: static_def Let_def)+

lemma stay_database [stay_intros]:
  "stays (no_data_directory e)" "stays check_system_id" "stays cancel_initialization" "stays post_bootstrap"
  "stays handle_dcs_error"
  unfolding no_data_directory_def check_system_id_def cancel_initialization_def post_bootstrap_def handle_dcs_error_def
  by (intro stay_intros; simp add: static_def Let_def)+



lemma stay_starts [stay_intros]:
  "stays (promote msg)" "stays (lead msg msg')" "stays (start_crashed_primary timeout st)"
proof -
  show promote: "stays (promote msg)" for msg unfolding promote_def by (intro stay_intros; simp add: static_def Let_def)
  show "stays (lead msg msg')" unfolding lead_def by (intro stay_intros promote; simp add: static_def Let_def)
  show "stays (start_crashed_primary timeout st)" unfolding start_crashed_primary_def by (intro stay_intros; simp add: static_def Let_def)
qed

end
