(* ===== verification/HaHalt.thy ===== *)
theory HaHalt
  imports HaFrame
begin

text \<open>
  A primary that does not hold the leader lock is stopped. Outside of pause and of standby clusters, whenever the
  decision making of a cycle sees that the database is a primary while the lock has not been confirmed, it
  goes on to stop it, whatever is answered and whichever call fails.
\<close>

section \<open>Triples that also cover exceptions\<close>

text \<open>The lock, and whether a primary without the lock has been seen and not been stopped yet.\<close>

record halt_state =
  held :: bool
  danger :: bool

definition halt_nxt :: "halt_state \<Rightarrow> query \<times> 'w ans \<Rightarrow> halt_state" where
  "halt_nxt u e = \<lparr>held = lock_nxt (held u) e,
     danger = (if stop_query (fst e) then False
               else danger u \<or> primary_query (fst e) \<and> ans_bool (snd e) \<and> \<not> held u)\<rparr>"

abbreviation calm :: "halt_state \<Rightarrow> bool" where
  "calm u \<equiv> \<not> danger u"

definition ordinary :: "'w hs \<Rightarrow> bool" where
  "ordinary s \<longleftrightarrow> \<not> is_paused (hs_gc s) \<and> \<not> is_standby_cluster (hs_gc s) \<and> en_db_type (engine_of s) \<noteq> ''mysql''"

lemma ordinary_static: "static s = static s' \<Longrightarrow> ordinary s \<longleftrightarrow> ordinary s'"
  by (simp add: static_def ordinary_def)

text \<open>One run from an ordinary state.\<close>

definition halt_run :: "halt_state \<Rightarrow> 'w hs \<Rightarrow> (exn + 'a) \<times> 'w hs \<Rightarrow> ('a \<Rightarrow> halt_state \<Rightarrow> bool) \<Rightarrow> bool" where
  "halt_run u s r Q \<longleftrightarrow> ordinary (snd r) \<and> (\<exists>es. hs_trace (snd r) = hs_trace s @ es \<and>
     (case fst r of Inl _ \<Rightarrow> calm (reached halt_nxt u es) | Inr x \<Rightarrow> Q x (reached halt_nxt u es)))"

definition halts :: "(halt_state \<Rightarrow> bool) \<Rightarrow> ('w, 'a) hm \<Rightarrow> ('a \<Rightarrow> halt_state \<Rightarrow> bool) \<Rightarrow> bool" where
  "halts P m Q \<longleftrightarrow> (\<forall>orc s u. ordinary s \<longrightarrow> P u \<longrightarrow> halt_run u s (m orc s) Q)"

lemma halt_runI:
  "ordinary s' \<Longrightarrow> hs_trace s' = hs_trace s @ es \<Longrightarrow> (\<And>e. r = Inl e \<Longrightarrow> calm (reached halt_nxt u es)) \<Longrightarrow>
   (\<And>x. r = Inr x \<Longrightarrow> Q x (reached halt_nxt u es)) \<Longrightarrow> halt_run u s (r, s') Q"
  by (cases r) (auto simp: halt_run_def)

lemma halt_runE:
  assumes "halt_run u s (r, s') Q"
  obtains es where "ordinary s'" "hs_trace s' = hs_trace s @ es" "\<And>e. r = Inl e \<Longrightarrow> calm (reached halt_nxt u es)"
    "\<And>x. r = Inr x \<Longrightarrow> Q x (reached halt_nxt u es)"
  using assms by (cases r) (auto simp: halt_run_def)

lemma haltsD: "halts P m Q \<Longrightarrow> ordinary s \<Longrightarrow> P u \<Longrightarrow> halt_run u s (m orc s) Q"
  by (simp add: halts_def)

lemma halt_run_mono: "halt_run u s r Q \<Longrightarrow> (\<And>x u. Q x u \<Longrightarrow> Q' x u) \<Longrightarrow> halt_run u s r Q'"
  by (cases "fst r") (auto simp: halt_run_def)

lemma halts_mono: "halts P m Q \<Longrightarrow> (\<And>u. P' u \<Longrightarrow> P u) \<Longrightarrow> (\<And>x u. Q x u \<Longrightarrow> Q' x u) \<Longrightarrow> halts P' m Q'"
  unfolding halts_def by (blast intro: halt_run_mono)

lemma halts_bind:
  fixes m :: "('w, 'a) hm"
  assumes m: "halts P m R" and f: "\<And>x. halts (R x) (f x) Q"
  shows "halts P (hbind m f) Q"
  unfolding halts_def
proof (intro allI impI)
  fix orc :: "'w answers" and s :: "'w hs" and u
  assume "ordinary s" "P u"
  obtain r s' where r: "m orc s = (r, s')" by (cases "m orc s")
  with haltsD [OF m \<open>ordinary s\<close> \<open>P u\<close>, of orc]
  obtain es where es: "ordinary s'" "hs_trace s' = hs_trace s @ es" "\<And>e. r = Inl e \<Longrightarrow> calm (reached halt_nxt u es)"
    "\<And>x. r = Inr x \<Longrightarrow> R x (reached halt_nxt u es)"
    by (auto elim: halt_runE)
  show "halt_run u s (hbind m f orc s) Q"
  proof (cases r)
    case (Inl e)
    then show ?thesis using es r by (auto simp: hbind_def intro: halt_runI)
  next
    case (Inr x)
    obtain r' s'' where r': "f x orc s' = (r', s'')" by (cases "f x orc s'")
    with haltsD [OF f es(1) es(4) [OF Inr], of orc]
    obtain es' where es': "ordinary s''" "hs_trace s'' = hs_trace s' @ es'"
      "\<And>e. r' = Inl e \<Longrightarrow> calm (reached halt_nxt (reached halt_nxt u es) es')"
      "\<And>y. r' = Inr y \<Longrightarrow> Q y (reached halt_nxt (reached halt_nxt u es) es')"
      by (auto elim: halt_runE)
    have "hbind m f orc s = (r', s'')" using r r' Inr by (simp add: hbind_def)
    then show ?thesis using es(2) es' by (auto simp: reached_append intro!: halt_runI [where es = "es @ es'"])
  qed
qed

lemma halts_ret: "(\<And>u. P u \<Longrightarrow> Q x u) \<Longrightarrow> halts P (hret x) Q"
  by (auto simp: halts_def halt_run_def hret_def reached_def)

lemma halts_if: "(b \<Longrightarrow> halts P x Q) \<Longrightarrow> (\<not> b \<Longrightarrow> halts P y Q) \<Longrightarrow> halts P (if b then x else y) Q"
  by simp

text \<open>Reading the state, of which the configuration is known to be ordinary.\<close>

lemma halts_get: "(\<And>s. ordinary s \<Longrightarrow> halts P (k (f s)) Q) \<Longrightarrow> halts P (hbind (hget f) k) Q"
  by (simp add: halts_def hbind_def hget_def)

lemma halts_ask:
  fixes Q :: "'w ans \<Rightarrow> halt_state \<Rightarrow> bool"
  assumes "\<And>u a. P u \<Longrightarrow> Q a (halt_nxt u (q, a))" "\<And>u a. P u \<Longrightarrow> calm (halt_nxt u (q, AExc a :: 'w ans))"
  shows "halts P (ask q) Q"
  unfolding halts_def
proof (intro allI impI)
  fix orc :: "'w answers" and s :: "'w hs" and u
  assume o: "ordinary s" and u: "P u"
  let ?a = "orc (hs_trace s) q"
  let ?s = "s\<lparr>hs_trace := hs_trace s @ [(q, ?a)]\<rparr>"
  have o': "ordinary ?s" using o by (simp add: ordinary_def)
  have "ask q orc s = (case ?a of AExc e \<Rightarrow> (Inl e, ?s) | _ \<Rightarrow> (Inr ?a, ?s))"
    by (simp add: ask_def Let_def)
  then show "halt_run u s (ask q orc s) Q"
    using assms(1) [OF u, of ?a] assms(2) [OF u] o'
    by (cases ?a) (auto intro!: halt_runI [where es = "[(q, ?a)]"] simp: reached_def)
qed

lemma halts_ask_bool:
  assumes "\<And>u a. P u \<Longrightarrow> Q (ans_bool a) (halt_nxt u (q, a :: 'w ans))" "\<And>u a. P u \<Longrightarrow> calm (halt_nxt u (q, AExc a :: 'w ans))"
  shows "halts P (ask_bool q :: ('w, bool) hm) Q"
  unfolding ask_bool_def
  by (rule halts_bind [OF halts_ask [where Q = "\<lambda>a u. Q (ans_bool a) u"]]) (use assms in \<open>auto intro: halts_ret\<close>)

section \<open>Methods that cannot bring danger\<close>

lemma calm_events: "\<forall>e \<in> set es. \<not> primary_query (fst e) \<Longrightarrow> calm u \<Longrightarrow> calm (reached halt_nxt u es)"
  by (induction es arbitrary: u) (auto simp: reached_def halt_nxt_def)

lemma held_events: "\<forall>e \<in> set es. \<not> lock_query (fst e) \<Longrightarrow> held u \<and> calm u \<Longrightarrow> held (reached halt_nxt u es) \<and> calm (reached halt_nxt u es)"
proof (induction es arbitrary: u)
  case (Cons e es)
  have "lock_nxt (held u) e = held u"
    using Cons.prems by (cases e) (auto simp: lock_nxt_def lock_query_def split: query.splits dcs_query.splits)
  then have "held (halt_nxt u e) \<and> calm (halt_nxt u e)" using Cons.prems by (auto simp: halt_nxt_def)
  then show ?case using Cons by (simp add: reached_def)
qed (simp add: reached_def)

lemma halts_events:
  fixes m :: "('w, 'a) hm"
  assumes m: "only C m" "stays m"
    and R: "\<And>(es :: 'w trace) u. \<forall>e \<in> set es. C (fst e) \<Longrightarrow> P u \<Longrightarrow> R (reached halt_nxt u es) \<and> calm (reached halt_nxt u es)"
  shows "halts P m (\<lambda>_. R)"
  unfolding halts_def
proof (intro allI impI)
  fix orc :: "'w answers" and s :: "'w hs" and u
  assume o: "ordinary s" and u: "P u"
  obtain r s' where r: "m orc s = (r, s')" by (cases "m orc s")
  then have "static s' = static s" using m(2) unfolding stays_def by (metis snd_conv)
  then have o': "ordinary s'" using o ordinary_static by metis
  obtain es where es: "hs_trace s' = hs_trace s @ es" "\<forall>e \<in> set es. C (fst e)"
    using m(1) r unfolding only_def by (metis snd_conv)
  show "halt_run u s (m orc s) (\<lambda>_. R)"
    unfolding r using o' es(1) R [OF es(2) u] by (blast intro: halt_runI)
qed

lemma halts_calm:
  fixes m :: "('w, 'a) hm"
  assumes "only (\<lambda>q. \<not> primary_query q) m" "stays m"
  shows "halts calm m (\<lambda>_. calm)"
proof (rule halts_events [OF assms])
  show "calm (reached halt_nxt u es) \<and> calm (reached halt_nxt u es)"
    if "\<forall>e \<in> set es. \<not> primary_query (fst e)" "calm u" for es :: "'w trace" and u
    using calm_events [OF that] by blast
qed

lemma halts_held:
  fixes m :: "('w, 'a) hm"
  assumes "only (\<lambda>q. \<not> lock_query q) m" "stays m"
  shows "halts (\<lambda>u. held u \<and> calm u) m (\<lambda>_ u. held u \<and> calm u)"
proof (rule halts_events [OF assms])
  show "(held (reached halt_nxt u es) \<and> calm (reached halt_nxt u es)) \<and> calm (reached halt_nxt u es)"
    if "\<forall>e \<in> set es. \<not> lock_query (fst e)" "held u \<and> calm u" for es :: "'w trace" and u
    using held_events [OF that] by blast
qed

section \<open>The methods\<close>

interpretation np: footprint_demote "\<lambda>q. \<not> primary_query q"
  by unfold_locales (auto simp: query_class split: query.splits dcs_query.splits db_command.splits)

text \<open>What is known of the lock from the other monitor.\<close>

lemma held_reached: "held (reached halt_nxt u es) = reached lock_nxt (held u) es"
  by (induction es arbitrary: u) (simp_all add: reached_def halt_nxt_def)

lemma halts_lock:
  fixes m :: "('w, 'a) hm"
  assumes g: "guarded lock_nxt ok P' m R" and h: "halts P m Q" and P: "\<And>u. P u \<Longrightarrow> P' (held u)"
  shows "halts P m (\<lambda>x u. Q x u \<and> R x (held u))"
  unfolding halts_def
proof (intro allI impI)
  fix orc :: "'w answers" and s :: "'w hs" and u
  assume o: "ordinary s" and u: "P u"
  obtain r s' where r: "m orc s = (r, s')" by (cases "m orc s")
  with haltsD [OF h o u, of orc] obtain es where es: "ordinary s'" "hs_trace s' = hs_trace s @ es"
    "\<And>e. r = Inl e \<Longrightarrow> calm (reached halt_nxt u es)" "\<And>x. r = Inr x \<Longrightarrow> Q x (reached halt_nxt u es)"
    by (auto elim: halt_runE)
  moreover obtain es' where "hs_trace s' = hs_trace s @ es'" "\<And>x. r = Inr x \<Longrightarrow> R x (reached lock_nxt (held u) es')"
    using g P [OF u] r unfolding guarded_def by (metis fst_conv snd_conv)
  ultimately show "halt_run u s (m orc s) (\<lambda>x u. Q x u \<and> R x (held u))"
    unfolding r by (auto intro!: halt_runI simp: held_reached)
qed

lemma halts_calm_bind:
  "only (\<lambda>q. \<not> primary_query q) m \<Longrightarrow> stays m \<Longrightarrow> (\<And>x. halts calm (f x) Q) \<Longrightarrow> halts calm (hbind m f) Q"
  by (rule halts_bind [OF halts_calm])

lemma halts_held_bind:
  "only (\<lambda>q. \<not> lock_query q) m \<Longrightarrow> stays m \<Longrightarrow> (\<And>x. halts (\<lambda>u. held u \<and> calm u) (f x) Q) \<Longrightarrow>
   halts (\<lambda>u. held u \<and> calm u) (hbind m f) Q"
  by (rule halts_bind [OF halts_held])

text \<open>Demotion ends every danger.\<close>


lemma halts_stop:
  "halts (\<lambda>_. True) (ask (QCmd (Stop mode b b' b''))) (\<lambda>_. calm)"
  by (rule halts_ask) (simp_all add: halt_nxt_def stop_query_def)

lemma halts_ask_safe:
  fixes Q :: "'w ans \<Rightarrow> halt_state \<Rightarrow> bool"
  assumes "\<And>u a. P u \<Longrightarrow> Q a (halt_nxt u (q, a))"
  shows "halts P (ask_safe q) Q"
  unfolding halts_def
proof (intro allI impI)
  fix orc :: "'w answers" and s :: "'w hs" and u
  assume "ordinary s" "P u"
  then show "halt_run u s (ask_safe q orc s) Q"
    using assms [of u "orc (hs_trace s) q"]
    by (auto simp: ask_safe_def Let_def ordinary_def reached_def intro!: halt_runI [where es = "[(q, orc (hs_trace s) q)]"])
qed

lemma halts_safe_bind:
  "(\<And>x. halts (\<lambda>_. True) (f x) Q) \<Longrightarrow> halts (\<lambda>_. True) (hbind (ask_safe q) f) Q"
  by (rule halts_bind [OF halts_ask_safe [where Q = "\<lambda>_ _. True"]]) simp_all

lemma halts_stop_with_callbacks:
  "(\<And>m. before = Some m \<Longrightarrow> only (\<lambda>q. \<not> primary_query q) m) \<Longrightarrow> (\<And>f l. after = Some f \<Longrightarrow> only (\<lambda>q. \<not> primary_query q) (f l)) \<Longrightarrow>
   (\<And>m. before = Some m \<Longrightarrow> stays m) \<Longrightarrow> (\<And>f l. after = Some f \<Longrightarrow> stays (f l)) \<Longrightarrow>
   halts (\<lambda>_. True) (stop_with_callbacks mode b before after) (\<lambda>_. calm)"
  unfolding stop_with_callbacks_def ask_flag_def
  apply (rule halts_bind [where R = "\<lambda>_ _. True"])
   apply (rule halts_safe_bind)
   apply (rule halts_ret, simp)
  apply (rule halts_bind [OF halts_stop])
  apply (rule halts_calm)
  subgoal for wd a by (cases before; cases after; cases a; simp; intro only_intros; simp)
  subgoal for wd a by (cases before; cases after; cases a; simp; intro stay_intros; simp)
  done

lemma halts_demote: "halts P (demote mode) (\<lambda>_. calm)"
proof -
  have stop: "halts (\<lambda>_. True) (stop_with_callbacks (dm_stop mode) b
      (if mode = Graceful then Some before_demote_mpp else None) (if r then Some (demote_on_shutdown mode) else None)) (\<lambda>_. calm)"
    for b r
    by (rule halts_stop_with_callbacks)
       (auto split: if_splits intro: np.only_start_after_demotion np.only_demote stay_start_after_demotion stay_demote)
  have pg: "halts (\<lambda>_. True) (demote_postgresql mode) (\<lambda>_. calm)"
    unfolding demote_postgresql_def Let_def
    apply (rule halts_bind [where R = "\<lambda>_ _. True"])
     apply (rule halts_safe_bind)
     apply (rule halts_ret, simp)
    apply (rule halts_safe_bind)
    apply (rule halts_bind [OF stop])
    apply (rule halts_calm)
     apply (intro only_intros; simp)
    apply (intro stay_intros; simp)
    done
  show ?thesis unfolding demote_def
    by (rule halts_get) (simp add: ordinary_def halts_mono [OF pg])
qed

section \<open>Decisions\<close>

text \<open>The answer to the question brings danger only if it is yes.\<close>

lemma halts_is_primary: "halts calm (ask_bool (QDb IsPrimary)) (\<lambda>b u. b \<or> calm u)"
  by (rule halts_ask_bool) (auto simp: halt_nxt_def query_class ans_bool_def)

lemma halts_lock_lost: "halts calm lock_lost (\<lambda>_. calm)"
  unfolding lock_lost_def
  apply (rule halts_bind [OF halts_is_primary])
  apply (rule halts_get)
  apply (rule halts_if)
   apply (simp add: ordinary_def)
   apply (rule halts_bind [OF halts_demote])
   apply (rule halts_ret, simp)
  apply (rule halts_ret, simp)
  done

lemma halts_follow: "halts calm (follow demote_reason follow_reason refresh) (\<lambda>_. calm)"
proof -
  have node: "halts (\<lambda>u. b \<or> calm u) (get_node_to_follow c) (\<lambda>_ u. b \<or> calm u)" for b and c :: "'w cluster"
    unfolding get_node_to_follow_def
    apply (rule halts_get)
    apply (simp add: ordinary_def Let_def split: if_split)
    apply (auto intro: halts_ret)
    done
  show ?thesis
    unfolding follow_def
    apply (rule halts_calm_bind, (intro only_intros; simp), (intro stay_intros; simp))
    apply (rule halts_bind [OF halts_is_primary])
    apply (rule halts_get)
    apply (rule halts_bind [OF node])
    apply (rule halts_get)
    apply (simp add: ordinary_def split del: if_split)
    apply (rule halts_if)
     apply (rule halts_get)
     apply (simp add: ordinary_def)
     apply (rule halts_bind [OF halts_demote])
     apply (rule halts_ret, simp)
    apply (rule halts_mono [OF halts_calm])
       apply (intro only_intros; simp)
      apply (intro stay_intros; simp)
     apply simp
    apply simp
    done
qed

lemma halts_checks:
  "halts (\<lambda>u. held u \<and> calm u) check_watchdog (\<lambda>msg u. calm u \<and> (msg = None \<longrightarrow> held u))"
  "halts (\<lambda>u. held u \<and> calm u) check_pre_promote (\<lambda>msg u. calm u \<and> (msg = None \<longrightarrow> held u))"
proof -
  have "halts (\<lambda>u. held u \<and> calm u) check_watchdog (\<lambda>_. calm)"
    unfolding check_watchdog_def
    apply (rule halts_held_bind, (intro only_intros; simp), (intro stay_intros; simp))
    apply (rule halts_held_bind, (intro only_intros; simp), (intro stay_intros; simp))
    apply (rule halts_if)
     apply (rule halts_ret, simp)
    apply (rule halts_held_bind, (intro only_intros; simp), (intro stay_intros; simp))
    apply (rule halts_mono [OF halts_calm])
       apply (intro only_intros; simp)
      apply (intro stay_intros; simp)
     apply simp_all
    done
  from halts_lock [OF guarded_checks(1) this] show "halts (\<lambda>u. held u \<and> calm u) check_watchdog (\<lambda>msg u. calm u \<and> (msg = None \<longrightarrow> held u))"
    by simp
  have "halts (\<lambda>u. held u \<and> calm u) check_pre_promote (\<lambda>_. calm)"
    by (rule halts_mono [OF halts_calm [OF np.only_lock_checks(3) stay_lock_checks(3)]]) simp_all
  from halts_lock [OF guarded_checks(2) this] show "halts (\<lambda>u. held u \<and> calm u) check_pre_promote (\<lambda>msg u. calm u \<and> (msg = None \<longrightarrow> held u))"
    by simp
qed

lemma halts_msg:
  "halts (\<lambda>u. held u \<and> calm u) k (\<lambda>_. calm) \<Longrightarrow>
   halts (\<lambda>u. calm u \<and> (msg = None \<longrightarrow> held u)) (case msg of None \<Rightarrow> k | Some m \<Rightarrow> hret m) (\<lambda>_. calm)"
  by (cases msg) (auto intro: halts_ret elim: halts_mono)

lemma halts_enforce_primary_role: "halts (\<lambda>u. held u \<and> calm u) (enforce_primary_role msg msg') (\<lambda>_. calm)"
proof -
  have lead: "halts (\<lambda>u. held u \<and> calm u) (lead msg msg') (\<lambda>_. calm)"
    by (rule halts_mono [OF halts_held [OF nk.only_starts(2) stay_starts(2)]]) simp_all
  show ?thesis unfolding enforce_primary_role_def
    apply (rule halts_get)
    apply (simp only: ordinary_def if_False)
    apply (rule halts_bind [where R = "\<lambda>msg u. calm u \<and> (msg = None \<longrightarrow> held u)"])
     apply (simp add: halts_checks)
    apply (rule halts_msg)
    apply (rule halts_bind [where R = "\<lambda>msg u. calm u \<and> (msg = None \<longrightarrow> held u)"])
     apply (simp add: halts_checks)
    apply (rule halts_msg)
    apply (rule lead)
    done
qed

lemma halts_leader_cycle: "halts (\<lambda>u. held u \<and> calm u) leader_cycle (\<lambda>_. calm)"
proof -
  have manual: "halts (\<lambda>u. held u \<and> calm u) process_manual_failover_from_leader (\<lambda>msg u. calm u \<and> (msg = None \<longrightarrow> held u))"
    by (rule halts_mono [OF halts_held [OF nk.only_manual_failover(1) stay_manual_failover(1)]]) simp_all
  show ?thesis unfolding leader_cycle_def
    apply (rule halts_bind [OF manual])
    apply (rule halts_msg)
    apply (rule halts_held_bind, (intro only_intros; simp), (intro stay_intros; simp))
    apply (rule halts_get)
    apply (simp add: ordinary_def split del: if_split)
    apply (rule halts_bind [where R = "\<lambda>msg u. calm u \<and> (msg = None \<longrightarrow> held u)"])
     apply (rule halts_ret, simp)
    apply (rule halts_msg)
    apply (rule halts_enforce_primary_role)
    done
qed

lemma halts_update_lock: "halts calm (update_lock b) (\<lambda>ok u. calm u \<and> (ok \<longrightarrow> held u))"
  using halts_lock [OF guarded_update_lock [of "\<lambda>_. True"] halts_calm [OF np.only_lock(4) stay_lock(4)]] by simp

lemma halts_acquire_lock: "halts calm acquire_lock (\<lambda>ok u. calm u \<and> (ok \<longrightarrow> held u))"
  using halts_lock [OF guarded_acquire_lock [of "\<lambda>_. True"] halts_calm [OF np.only_lock(2) stay_lock(2)]] by simp

lemma halts_process_healthy_cluster: "halts calm process_healthy_cluster (\<lambda>_. calm)"
proof -
  have paused: "halts calm paused_not_primary (\<lambda>msg u. calm u)"
    unfolding paused_not_primary_def
    apply (rule halts_get)
    apply (simp add: ordinary_def)
    apply (rule halts_bind [where R = "\<lambda>b u. b \<and> calm u"])
     apply (rule halts_ret, simp)
    apply (rule halts_if)
     apply (rule halts_ret, simp)
    apply (simp add: halts_def)
    done
  show ?thesis unfolding process_healthy_cluster_def
    apply (rule halts_calm_bind, (intro only_intros; simp), (intro stay_intros; simp))
    apply (rule halts_if)
     apply (rule halts_bind [OF paused])
    subgoal for lock msg
      apply (cases msg)
       apply simp
       apply (rule halts_bind [OF halts_update_lock])
       apply (rule halts_if)
        apply (rule halts_mono [OF halts_leader_cycle], simp, simp)
       apply (rule halts_mono [OF halts_lock_lost], simp, simp)
      apply (simp, rule halts_ret, simp)
      done
    apply (rule halts_get)
    apply (simp add: ordinary_def split del: if_split)
    apply (rule halts_bind [where R = "\<lambda>msg u. msg = None \<and> calm u"])
     apply (rule halts_ret, simp)
    subgoal for lock s msg
      by (cases msg) (simp_all add: halts_def [of "\<lambda>u. False"] halts_follow)
    done
qed

lemma halts_process_unhealthy_cluster: "halts calm process_unhealthy_cluster (\<lambda>_. calm)"
  unfolding process_unhealthy_cluster_def
  apply (rule halts_calm_bind, (intro only_intros; simp), (intro stay_intros; simp))
  apply (rule halts_if)
   apply (rule halts_bind [OF halts_acquire_lock])
   apply (rule halts_if)
    apply (rule halts_bind [where R = "\<lambda>_ u. held u \<and> calm u"])
     apply (rule halts_mono [OF halts_held])
        apply (intro only_intros; simp)
       apply (intro stay_intros; simp)
      apply simp
     apply simp
    apply (rule halts_held_bind, (intro only_intros; simp), (intro stay_intros; simp))
    apply (rule halts_get)
    apply (simp add: ordinary_def halts_enforce_primary_role)
   apply (rule halts_mono [OF halts_follow], simp, simp)
  apply (rule halts_calm_bind, (intro only_intros; simp), (intro stay_intros; simp))
  apply (simp only: case_prod_beta)
  apply (rule halts_calm_bind, (intro only_intros; simp), (intro stay_intros; simp))
  apply (rule halts_calm_bind, (intro only_intros; simp), (intro stay_intros; simp))
  apply (rule halts_if)
   apply (rule halts_follow)
  apply (rule halts_follow)
  done

section \<open>The traces\<close>

lemma danger_stays: "danger u \<Longrightarrow> \<forall>e \<in> set es. \<not> stop_query (fst e) \<Longrightarrow> danger (reached halt_nxt u es)"
  by (induction es arbitrary: u) (simp_all add: reached_def halt_nxt_def)

lemma danger_resolved:
  assumes "calm (reached halt_nxt u es)" "i < length es" "primary_query (fst (es ! i))" "ans_bool (snd (es ! i))"
    "\<not> reached lock_nxt (held u) (take i es)"
  shows "\<exists>j. i < j \<and> j < length es \<and> stop_query (fst (es ! j))"
proof (rule ccontr)
  assume none: "\<not> ?thesis"
  have "\<not> stop_query (fst e)" if "e \<in> set (drop (Suc i) es)" for e
    using that none by (auto simp: in_set_conv_nth)
  moreover have "danger (halt_nxt (reached halt_nxt u (take i es)) (es ! i))"
    using assms(3-5) by (simp add: halt_nxt_def held_reached query_class)
  ultimately have "danger (reached halt_nxt (halt_nxt (reached halt_nxt u (take i es)) (es ! i)) (drop (Suc i) es))"
    using danger_stays by blast
  then have "danger (reached halt_nxt u (take i es @ es ! i # drop (Suc i) es))"
    by (simp add: reached_def)
  then show False using assms(1,2) by (simp add: id_take_nth_drop [symmetric])
qed


text \<open>A primary that is the leader in its view and fails to renew the lock.\<close>

definition demo_primary :: "unit hs" where
  "demo_primary = demo_hs\<lparr>hs_cluster := demo_cluster\<lparr>c_leader := Some \<lparr>l_version = PInt 1, l_session = PNone, l_member = demo_peer ''a''\<rparr>\<rparr>\<rparr>"

definition lost_answers :: "unit answers" where
  "lost_answers t q = (case q of
     QDcs (UpdateLeader _) \<Rightarrow> ABool False | QDb IsPrimary \<Rightarrow> ABool True | _ \<Rightarrow> demo_answers t q)"

primrec unlocked_primary :: "bool \<Rightarrow> 'w trace \<Rightarrow> bool" where
  "unlocked_primary h [] = False"
| "unlocked_primary h (e # es) =
     ((case fst e of QDb IsPrimary \<Rightarrow> ans_bool (snd e) \<and> \<not> h | _ \<Rightarrow> False) \<or> unlocked_primary (lock_nxt h e) es)"

lemma unlocked_primary_index:
  "unlocked_primary h es \<Longrightarrow>
   \<exists>i < length es. fst (es ! i) = QDb IsPrimary \<and> ans_bool (snd (es ! i)) \<and> \<not> reached lock_nxt h (take i es)"
proof (induction es arbitrary: h)
  case (Cons e es)
  show ?case
  proof (cases "fst e = QDb IsPrimary \<and> ans_bool (snd e) \<and> \<not> h")
    case True
    then show ?thesis by (intro exI [of _ 0]) (simp add: reached_def)
  next
    case False
    then have "unlocked_primary (lock_nxt h e) es" using Cons.prems by (auto split: query.splits db_query.splits)
    from Cons.IH [OF this] obtain i where "i < length es" "fst (es ! i) = QDb IsPrimary" "ans_bool (snd (es ! i))"
      "\<not> reached lock_nxt (lock_nxt h e) (take i es)" by blast
    then show ?thesis by (intro exI [of _ "Suc i"]) (simp add: reached_def)
  qed
qed simp


end
