(* ===== verification/HaDemote.thy ===== *)
theory HaDemote
  imports HaHalt
begin

text \<open>
  Demotion: the lock is released only after the database has been told to stop or to be read-only, and a primary that
  cannot reach DCS is stopped unless the failsafe mode keeps it.
\<close>

section \<open>The order of stop and release\<close>

definition halting_query :: "query \<Rightarrow> bool" where
  "halting_query q \<longleftrightarrow> stop_query q \<or> q = QCmd SetReadOnly"

definition halted_nxt :: "bool \<Rightarrow> query \<times> 'w ans \<Rightarrow> bool" where
  "halted_nxt h e \<longleftrightarrow> h \<or> halting_query (fst e)"

definition release_ok :: "bool \<Rightarrow> query \<times> 'w ans \<Rightarrow> bool" where
  "release_ok h e \<longleftrightarrow> (fst e = QDcs DeleteLeader \<longrightarrow> h)"

interpretation rm: monitor halted_nxt release_ok "\<lambda>q. \<not> halting_query q \<and> q \<noteq> QDcs DeleteLeader" "\<lambda>q. q \<noteq> QDcs DeleteLeader"
    "\<lambda>h. h" "\<lambda>_. True"
  by unfold_locales (auto simp: halted_nxt_def release_ok_def)

interpretation any: footprint_decide "\<lambda>_. True"
  by unfold_locales simp_all

lemma guarded_halt:
  fixes q :: query
  assumes "halting_query q"
  shows "guarded halted_nxt release_ok P (ask q) (\<lambda>_ h. h)"
  using assms by (intro guarded_ask) (auto simp: halted_nxt_def release_ok_def halting_query_def stop_query_def)

lemma guarded_halt_attempt:
  fixes q :: query
  assumes "halting_query q"
  shows "guarded halted_nxt release_ok P (attempt_all (tell q)) (\<lambda>_ h. h)"
  using assms
  by (auto simp: guarded_def attempt_all_def hexcept_def hattempt_def hbind_def hret_def hraise_def ask_def Let_def
        halted_nxt_def release_ok_def halting_query_def stop_query_def reached_def split: ans.split if_splits)

lemma guarded_stop_with_callbacks:
  "(\<And>m. before = Some m \<Longrightarrow> only (\<lambda>_. True) m) \<Longrightarrow> (\<And>f l. after = Some f \<Longrightarrow> only (\<lambda>_. True) (f l)) \<Longrightarrow>
   guarded halted_nxt release_ok P (stop_with_callbacks mode b before after) (\<lambda>_ h. h)"
  unfolding stop_with_callbacks_def
  apply (rule rm.quiet_bind)
   apply (intro only_intros; simp add: halting_query_def stop_query_def)
  apply (rule guarded_bind [OF guarded_halt])
   apply (simp add: halting_query_def stop_query_def)
  apply (rule rm.guarded_good)
  subgoal for wd a by (cases before; cases after; cases a; simp; intro only_intros; simp)
  done

lemma guarded_demote: "guarded halted_nxt release_ok P (demote mode) (\<lambda>_ _. True)"
proof -
  have stop: "guarded halted_nxt release_ok P (stop_with_callbacks (dm_stop mode) b
      (if mode = Graceful then Some before_demote_mpp else None) (if r then Some (demote_on_shutdown mode) else None)) (\<lambda>_ h. h)" for b r P
    by (rule guarded_stop_with_callbacks)
       (auto split: if_splits intro: any.only_start_after_demotion any.only_demote)
  have pg: "guarded halted_nxt release_ok P (demote_postgresql mode) (\<lambda>_ _. True)"
    unfolding demote_postgresql_def Let_def
    apply (rule rm.quiet_bind, (intro only_intros; simp add: halting_query_def stop_query_def))
    apply (rule rm.quiet_bind, (intro only_intros; simp add: halting_query_def stop_query_def))
    apply (rule guarded_bind [OF stop])
    apply (rule guarded_mono [OF rm.guarded_good])
      apply (intro only_intros; simp)
     apply simp
    apply simp
    done
  have my: "guarded halted_nxt release_ok P (demote_mysql mode) (\<lambda>_ _. True)"
    unfolding demote_mysql_def
    apply (rule guarded_bind [OF guarded_halt_attempt])
     apply (simp add: halting_query_def)
    apply (rule guarded_mono [OF rm.guarded_good])
      apply (intro only_intros; simp)
     apply simp
    apply simp
    done
  show ?thesis unfolding demote_def
    by (rule rm.quiet_bind) (intro only_intros guarded_if pg my)+
qed

lemma halted_reached: "reached halted_nxt False es \<longleftrightarrow> (\<exists>e \<in> set es. halting_query (fst e))"
proof -
  have "reached halted_nxt h es \<longleftrightarrow> h \<or> (\<exists>e \<in> set es. halting_query (fst e))" for h
    by (induction es arbitrary: h) (auto simp: reached_def halted_nxt_def)
  then show ?thesis by simp
qed

text \<open>
  C9: The leader key is deleted only after the database was told to stop, or, for MySQL, to be read-only. This holds for every
  mode of \<open>demote\<close>, whatever fails.
\<close>

theorem demote_releases_after_stop:
  "\<exists>es. hs_trace (snd (demote mode orc s)) = hs_trace s @ es
     \<and> (\<forall>i < length es. fst (es ! i) = QDcs DeleteLeader \<longrightarrow> (\<exists>j < i. halting_query (fst (es ! j))))"
proof -
  obtain es where es: "hs_trace (snd (demote mode orc s)) = hs_trace s @ es" "accepts halted_nxt release_ok False es"
    using guarded_demote [of "\<lambda>_. True"] unfolding guarded_def by blast
  have "\<exists>j < i. halting_query (fst (es ! j))" if "i < length es" "fst (es ! i) = QDcs DeleteLeader" for i
  proof -
    have "reached halted_nxt False (take i es)"
      using es(2) that by (auto simp: accepts_nth release_ok_def)
    then obtain j where "j < i" "halting_query (fst (es ! j))"
      using that(1) unfolding halted_reached by (metis in_set_conv_nth length_take min_less_iff_conj nth_take)
    then show ?thesis by blast
  qed
  with es(1) show ?thesis by blast
qed

theorem demote_releases_after_stop_witness:
  "\<exists>es i j. hs_trace (snd (demote Immediate demo_answers demo_primary)) = es \<and> i < length es
     \<and> fst (es ! i) = QDcs DeleteLeader \<and> j < i \<and> halting_query (fst (es ! j))"
proof -
  obtain es where es: "hs_trace (snd (demote Immediate demo_answers demo_primary)) = hs_trace demo_primary @ es"
    "\<forall>i < length es. fst (es ! i) = QDcs DeleteLeader \<longrightarrow> (\<exists>j < i. halting_query (fst (es ! j)))"
    using demote_releases_after_stop by blast
  have "hs_trace demo_primary = []" by code_simp
  with es(1) have tr: "hs_trace (snd (demote Immediate demo_answers demo_primary)) = es" by (simp only: append_Nil)
  have "list_ex (\<lambda>e. case fst e of QDcs DeleteLeader \<Rightarrow> True | _ \<Rightarrow> False) (hs_trace (snd (demote Immediate demo_answers demo_primary)))"
    by code_simp
  then obtain i where i: "i < length es" "case fst (es ! i) of QDcs DeleteLeader \<Rightarrow> True | _ \<Rightarrow> False"
    unfolding tr by (auto simp only: list_ex_length)
  then have "fst (es ! i) = QDcs DeleteLeader" by (auto split: query.splits dcs_query.splits)
  with es(2) i(1) tr show ?thesis by blast
qed

section \<open>Losing DCS\<close>

lemma stop_seen:
  assumes "danger u" "calm (reached halt_nxt u es)"
  shows "\<exists>e \<in> set es. stop_query (fst e)"
  using danger_stays [of u es] assms by blast

lemma demote_stops:
  assumes "ordinary s"
  shows "\<exists>es. hs_trace (snd (demote mode orc s)) = hs_trace s @ es \<and> (\<exists>e \<in> set es. stop_query (fst e))"
proof -
  let ?u = "\<lparr>held = False, danger = True\<rparr>"
  have "halt_run ?u s (demote mode orc s) (\<lambda>_. calm)"
    using haltsD [OF halts_demote [of "\<lambda>_. True"] assms] by simp
  then obtain es where es: "hs_trace (snd (demote mode orc s)) = hs_trace s @ es" "calm (reached halt_nxt ?u es)"
    by (auto simp: halt_run_def split: sum.splits)
  from stop_seen [OF _ es(2)] es(1) show ?thesis by auto
qed

lemma check_topology_outcome: "\<exists>b s'. ha_check_failsafe_topology orc s = (Inr b, s') \<and> static s' = static s
    \<and> (\<exists>es. hs_trace s' = hs_trace s @ es)"
  by (auto simp: ha_check_failsafe_topology_def hbind_def ask_safe_def Let_def hget_def hset_def hret_def static_def split: prod.split)

lemma ask_bool_result:
  "ask_bool q orc s = (Inr b, s') \<Longrightarrow> static s' = static s \<and> (\<exists>es. hs_trace s' = hs_trace s @ es)"
  using stay_ask_typed(1) by (auto simp: ask_bool_def hbind_def ask_def Let_def hret_def static_def split: ans.splits)

text \<open>
  C8: When DCS is not accessible, a running PostgreSQL primary is stopped, outside of pause and of standby clusters, unless
  the failsafe mode is enabled and all members agree that it goes on. (MySQL is kept running, read-only.)
\<close>

theorem dcs_error_stops_primary:
  assumes o: "ordinary s" and running: "ask_bool (QDb IsRunning) orc s = (Inr True, s1)"
    and primary: "ask_bool (QDb IsPrimary) orc s1 = (Inr True, s2)"
    and fs: "\<not> is_failsafe_mode (hs_gc s) \<or> fst (ha_check_failsafe_topology orc s2) = Inr False"
  shows "\<exists>es. hs_trace (snd (handle_dcs_error orc s)) = hs_trace s2 @ es \<and> (\<exists>e \<in> set es. stop_query (fst e))"
proof -
  have st: "static s2 = static s" "\<not> is_paused (hs_gc s)"
    using ask_bool_result [OF running] ask_bool_result [OF primary] o by (simp_all add: ordinary_def)
  then have gc: "hs_gc s2 = hs_gc s" by (simp add: static_def)
  obtain b s3 where s3: "ha_check_failsafe_topology orc s2 = (Inr b, s3)" "static s3 = static s2" "\<exists>es. hs_trace s3 = hs_trace s2 @ es"
    using check_topology_outcome by blast
  define s4 where "s4 = (if is_failsafe_mode (hs_gc s) then s3 else s2)"
  define s5 where "s5 = s4\<lparr>hs_failsafe := fs_set_is_active 0 (hs_failsafe s4)\<rparr>"
  have o5: "ordinary s5" "\<exists>es. hs_trace s5 = hs_trace s2 @ es"
    using s3(2,3) st o ordinary_static [of s3 s] ordinary_static [of s2 s] by (auto simp: s4_def s5_def ordinary_def)
  have "snd (handle_dcs_error orc s) = snd (demote Offline orc s5)"
    using st(2) gc running primary fs s3(1)
    by (auto simp: handle_dcs_error_def hbind_def hget_def hret_def hset_def s4_def s5_def split: prod.split sum.split)
  moreover obtain es where "hs_trace (snd (demote Offline orc s5)) = hs_trace s5 @ es" "\<exists>e \<in> set es. stop_query (fst e)"
    using demote_stops [OF o5(1)] by blast
  moreover obtain es' where "hs_trace s5 = hs_trace s2 @ es'" using o5(2) by blast
  ultimately have "hs_trace (snd (handle_dcs_error orc s)) = hs_trace s2 @ (es' @ es) \<and> (\<exists>e \<in> set (es' @ es). stop_query (fst e))"
    unfolding set_append by (metis UnI2 append.assoc)
  then show ?thesis by blast
qed

definition offline_answers :: "unit answers" where
  "offline_answers t q = (case q of QDcs _ \<Rightarrow> AExc DcsError | QDb d \<Rightarrow> ABool True | _ \<Rightarrow> demo_answers t q)"

theorem dcs_error_stops_primary_witness:
  "\<exists>(s2 :: unit hs) es. hs_trace (snd (handle_dcs_error offline_answers demo_primary)) = hs_trace s2 @ es \<and> (\<exists>e \<in> set es. stop_query (fst e))"
proof -
  let ?s1 = "snd (ask_bool (QDb IsRunning) offline_answers demo_primary)"
  let ?s2 = "snd (ask_bool (QDb IsPrimary) offline_answers ?s1)"
  have "ordinary demo_primary" by code_simp
  moreover have "ask_bool (QDb IsRunning) offline_answers demo_primary = (Inr True, ?s1)"
    "ask_bool (QDb IsPrimary) offline_answers ?s1 = (Inr True, ?s2)"
    by (simp_all add: ask_bool_def hbind_def ask_def Let_def hret_def offline_answers_def ans_bool_def)
  moreover have "\<not> is_failsafe_mode (hs_gc demo_primary)" by code_simp
  ultimately show ?thesis
    by (intro exI [of _ ?s2] dcs_error_stops_primary [of demo_primary offline_answers ?s1 ?s2]) simp_all
qed

section \<open>Demotion to a standby cluster\<close>

definition no_position :: "query \<Rightarrow> bool" where
  "no_position q = (case q of QDcs (UpdateLeader (Some _)) \<Rightarrow> False | _ \<Rightarrow> True)"

interpretation nu: footprint no_position
  by unfold_locales (auto simp: no_position_def query_class split: query.splits dcs_query.splits)

lemma only_no_position_release:
  "only no_position (dcs_delete_leader lsn)" "only no_position (ha_delete_leader lsn)" "only no_position (release_leader_key_voluntarily lsn)"
  "only no_position (demote_on_shutdown mode l)"
  unfolding demote_on_shutdown_def release_leader_key_voluntarily_def ha_delete_leader_def dcs_delete_leader_def
  by (intro only_intros; simp add: no_position_def)+

text \<open>
  A demotion to a standby cluster that keeps the leader key never writes the position of the shutdown checkpoint
  with it, although the comment above the code says that it has to be written: the positions are read only in the
  graceful mode.
\<close>

theorem demote_cluster_writes_no_position:
  "\<exists>es. hs_trace (snd (demote_postgresql DemoteCluster orc s)) = hs_trace s @ es
     \<and> list_all (\<lambda>e. \<forall>lsn. fst e \<noteq> QDcs (UpdateLeader (Some lsn))) es"
proof -
  have stop: "only no_position (stop_with_callbacks st b None (if r then Some (demote_on_shutdown DemoteCluster) else None))" for st b r
    unfolding stop_with_callbacks_def
    by (cases r; simp; intro only_intros only_no_position_release; simp add: no_position_def)
  have bind_ret: "hbind (hret x) f = f x" for x and f :: "'x \<Rightarrow> ('w, 'y) hm" by (simp add: hbind_def hret_def)
  have update: "only no_position (dcs_update_leader None slots fs)" for slots fs
    unfolding dcs_update_leader_def by (intro only_intros; simp add: no_position_def)
  have "only no_position (demote_postgresql DemoteCluster)"
    unfolding demote_postgresql_def Let_def
    apply (simp add: bind_ret split del: if_split)
    apply (intro only_intros stop update only_no_position_release; simp add: no_position_def)
    done
  then obtain es where "hs_trace (snd (demote_postgresql DemoteCluster orc s)) = hs_trace s @ es" "\<forall>e \<in> set es. no_position (fst e)"
    unfolding only_def by blast
  moreover have "no_position q \<Longrightarrow> q \<noteq> QDcs (UpdateLeader (Some lsn))" for q lsn by (auto simp: no_position_def)
  ultimately show ?thesis unfolding list_all_iff by blast
qed

end
