(* ===== verification/AsyncExec.thy ===== *)
theory AsyncExec
  imports Prelude
begin

text \<open>
  The classes \<open>CriticalTask\<close> and \<open>AsyncExecutor\<close> of \<^verbatim>\<open>patroni/async_executor.py\<close>, and the threads that use an executor as a
  step relation. Each step is a part of a method that runs under one lock, so the interleavings of the relation are
  those of the threads.
\<close>

section \<open>Critical tasks\<close>

record 'r critical_task =
  ct_is_cancelled :: bool
  ct_result :: "'r option"

definition ct_reset :: "'r critical_task" where
  "ct_reset = \<lparr>ct_is_cancelled = False, ct_result = None\<rparr>"

definition ct_cancel :: "'r critical_task \<Rightarrow> bool \<times> 'r critical_task" where
  "ct_cancel t = (if ct_result t \<noteq> None then (False, t) else (True, t\<lparr>ct_is_cancelled := True\<rparr>))"

definition ct_complete :: "'r \<Rightarrow> 'r critical_task \<Rightarrow> 'r critical_task" where
  "ct_complete r t = t\<lparr>ct_result := Some r\<rparr>"

section \<open>The executor\<close>

record 'r async_executor =
  ae_scheduled_action :: "string option"
  ae_is_cancelled :: bool
  ae_finish_event :: bool
  ae_critical_task :: "'r critical_task"

definition AsyncExecutor :: "'r async_executor" where
  "AsyncExecutor = \<lparr>ae_scheduled_action = None, ae_is_cancelled = False, ae_finish_event = False, ae_critical_task = ct_reset\<rparr>"

definition busy :: "'r async_executor \<Rightarrow> bool" where
  "busy e \<longleftrightarrow> ae_scheduled_action e \<noteq> None"

definition schedule_action :: "string \<Rightarrow> 'r async_executor \<Rightarrow> string option \<times> 'r async_executor" where
  "schedule_action action e = (case ae_scheduled_action e of
     Some a \<Rightarrow> (Some a, e)
   | None \<Rightarrow> (None, e\<lparr>ae_scheduled_action := Some action, ae_is_cancelled := False, ae_finish_event := True\<rparr>))"

definition reset_scheduled_action :: "'r async_executor \<Rightarrow> 'r async_executor" where
  "reset_scheduled_action e = e\<lparr>ae_scheduled_action := None\<rparr>"

text \<open>The two blocks of \<open>run\<close> that hold the lock: whether the function is to be called, and the clean-up.\<close>

definition run_begin :: "'r async_executor \<Rightarrow> bool \<times> 'r async_executor" where
  "run_begin e = (if ae_is_cancelled e then (False, e) else (True, e\<lparr>ae_finish_event := False\<rparr>))"

definition run_finally :: "'r async_executor \<Rightarrow> 'r async_executor" where
  "run_finally e = (reset_scheduled_action e)\<lparr>ae_finish_event := True, ae_critical_task := ct_reset\<rparr>"

text \<open>\<open>cancel\<close> before it waits, \<open>False\<close> when there is nothing to cancel, and after.\<close>

definition cancel_begin :: "'r async_executor \<Rightarrow> bool \<times> 'r async_executor" where
  "cancel_begin e = (if ae_scheduled_action e = None then (False, e) else (True, e\<lparr>ae_is_cancelled := True\<rparr>))"

definition cancel_end :: "'r async_executor \<Rightarrow> 'r async_executor" where
  "cancel_end e = reset_scheduled_action e"

section \<open>Threads\<close>

text \<open>
  Calls in progress: actions scheduled and not submitted yet, submitted to the pool, running, and returning; and how
  many cancellations wait for the event or are past it. The pool has several threads, so any submitted call may start.
\<close>

record 'r threads =
  th_executor :: "'r async_executor"
  th_scheduled :: "string list"
  th_submitted :: "string list"
  th_running :: "string list"
  th_returning :: "string list"
  th_waiting :: nat
  th_woken :: nat

definition threads_init :: "'r threads" where
  "threads_init = \<lparr>th_executor = AsyncExecutor, th_scheduled = [], th_submitted = [], th_running = [], th_returning = [],
     th_waiting = 0, th_woken = 0\<rparr>"

datatype 'r thread_event =
    Schedule string | Submit string | RunBegin string | RunReturn string | RunFinally string
  | Complete 'r | CancelCritical | CancelBegin | CancelWake | CancelEnd

fun thread_step :: "'r thread_event \<Rightarrow> 'r threads \<Rightarrow> 'r threads option" where
  "thread_step (Schedule a) t = (case schedule_action a (th_executor t) of
     (None, e) \<Rightarrow> Some (t\<lparr>th_executor := e, th_scheduled := a # th_scheduled t\<rparr>)
   | (Some _, e) \<Rightarrow> Some (t\<lparr>th_executor := e\<rparr>))"
| "thread_step (Submit a) t =
     (if a \<in> set (th_scheduled t)
      then Some (t\<lparr>th_scheduled := remove1 a (th_scheduled t), th_submitted := a # th_submitted t\<rparr>) else None)"
| "thread_step (RunBegin a) t =
     (if a \<in> set (th_submitted t)
      then (case run_begin (th_executor t) of (go, e) \<Rightarrow>
        let t' = t\<lparr>th_executor := e, th_submitted := remove1 a (th_submitted t)\<rparr> in
        Some (if go then t'\<lparr>th_running := a # th_running t\<rparr> else t'\<lparr>th_returning := a # th_returning t\<rparr>))
      else None)"
| "thread_step (RunReturn a) t =
     (if a \<in> set (th_running t)
      then Some (t\<lparr>th_running := remove1 a (th_running t), th_returning := a # th_returning t\<rparr>) else None)"
| "thread_step (RunFinally a) t =
     (if a \<in> set (th_returning t)
      then Some (t\<lparr>th_executor := run_finally (th_executor t), th_returning := remove1 a (th_returning t)\<rparr>) else None)"
| "thread_step (Complete r) t =
     (if th_running t \<noteq> [] \<and> \<not> ct_is_cancelled (ae_critical_task (th_executor t))
      then Some (t\<lparr>th_executor := (th_executor t)\<lparr>ae_critical_task := ct_complete r (ae_critical_task (th_executor t))\<rparr>\<rparr>) else None)"
| "thread_step CancelCritical t =
     Some (t\<lparr>th_executor := (th_executor t)\<lparr>ae_critical_task := snd (ct_cancel (ae_critical_task (th_executor t)))\<rparr>\<rparr>)"
| "thread_step CancelBegin t = (case cancel_begin (th_executor t) of
     (True, e) \<Rightarrow> Some (t\<lparr>th_executor := e, th_waiting := Suc (th_waiting t)\<rparr>)
   | (False, e) \<Rightarrow> Some (t\<lparr>th_executor := e\<rparr>))"
| "thread_step CancelWake t =
     (if th_waiting t > 0 \<and> ae_finish_event (th_executor t)
      then Some (t\<lparr>th_waiting := th_waiting t - 1, th_woken := Suc (th_woken t)\<rparr>) else None)"
| "thread_step CancelEnd t =
     (if th_woken t > 0
      then Some (t\<lparr>th_executor := cancel_end (th_executor t), th_woken := th_woken t - 1\<rparr>) else None)"

inductive threads_reach :: "('r thread_event \<Rightarrow> 'r threads \<Rightarrow> bool) \<Rightarrow> 'r threads \<Rightarrow> bool" for P where
  init: "threads_reach P threads_init"
| step: "threads_reach P t \<Longrightarrow> P ev t \<Longrightarrow> thread_step ev t = Some t' \<Longrightarrow> threads_reach P t'"

definition calls :: "'r threads \<Rightarrow> string list" where
  "calls t = th_scheduled t @ th_submitted t @ th_running t @ th_returning t"

text \<open>
  Cancellations do not interfere: one begins only when no call is waiting to be started, and nothing is
  scheduled while one is in progress.
\<close>

definition calm :: "'r thread_event \<Rightarrow> 'r threads \<Rightarrow> bool" where
  "calm ev t = (case ev of
     CancelBegin \<Rightarrow> th_scheduled t = [] \<and> th_submitted t = []
   | Schedule _ \<Rightarrow> th_waiting t = 0 \<and> th_woken t = 0
   | _ \<Rightarrow> True)"

text \<open>At most one call is in progress and it is the scheduled action; a cancellation that is past the event has none left.\<close>

definition idle :: "'r threads \<Rightarrow> bool" where
  "idle t \<longleftrightarrow> calls t = [] \<and> ae_scheduled_action (th_executor t) = None"

definition occupied :: "string \<Rightarrow> 'r threads \<Rightarrow> bool" where
  "occupied a t \<longleftrightarrow>
     calls t = [a] \<and> ae_scheduled_action (th_executor t) = Some a
     \<and> (th_running t = [] \<and> th_returning t = [] \<or> \<not> ae_finish_event (th_executor t))
     \<and> (th_waiting t = 0 \<or> th_scheduled t = [] \<and> th_submitted t = []) \<and> th_woken t = 0
     \<and> (ae_is_cancelled (th_executor t) \<longrightarrow> th_scheduled t = [] \<and> th_submitted t = [])"

definition threads_ok :: "'r threads \<Rightarrow> bool" where
  "threads_ok t \<longleftrightarrow> idle t \<or> (\<exists>a. occupied a t)"

lemma calls_single:
  "calls t = [a] \<longleftrightarrow>
     (th_scheduled t = [a] \<and> th_submitted t = [] \<and> th_running t = [] \<and> th_returning t = []
      \<or> th_scheduled t = [] \<and> th_submitted t = [a] \<and> th_running t = [] \<and> th_returning t = []
      \<or> th_scheduled t = [] \<and> th_submitted t = [] \<and> th_running t = [a] \<and> th_returning t = []
      \<or> th_scheduled t = [] \<and> th_submitted t = [] \<and> th_running t = [] \<and> th_returning t = [a])"
  by (auto simp: calls_def append_eq_Cons_conv)

lemma calls_empty:
  "calls t = [] \<longleftrightarrow> th_scheduled t = [] \<and> th_submitted t = [] \<and> th_running t = [] \<and> th_returning t = []"
  by (auto simp: calls_def)

lemmas executor_defs = schedule_action_def run_begin_def run_finally_def cancel_begin_def cancel_end_def reset_scheduled_action_def

lemma idle_step:
  assumes "idle t" "calm ev t" "thread_step ev t = Some t'"
  shows "threads_ok t'"
proof (cases ev)
  case (Schedule a)
  with assms have "occupied a t'"
    by (auto simp: idle_def occupied_def calls_single calls_empty calm_def executor_defs)
  then show ?thesis unfolding threads_ok_def by blast
next
  case (Complete r)
  with assms show ?thesis by (auto simp: idle_def calls_empty)
qed (use assms in \<open>auto simp: threads_ok_def idle_def calls_empty executor_defs split: if_splits\<close>)

lemma occupied_finally: "occupied a t \<Longrightarrow> thread_step (RunFinally x) t = Some t' \<Longrightarrow> idle t'"
  by (auto simp: occupied_def idle_def calls_single calls_empty executor_defs split: if_splits)

lemma occupiedI:
  "calls t = [a] \<Longrightarrow> ae_scheduled_action (th_executor t) = Some a \<Longrightarrow>
     th_running t = [] \<and> th_returning t = [] \<or> \<not> ae_finish_event (th_executor t) \<Longrightarrow>
     th_waiting t = 0 \<or> th_scheduled t = [] \<and> th_submitted t = [] \<Longrightarrow> th_woken t = 0 \<Longrightarrow>
     (ae_is_cancelled (th_executor t) \<Longrightarrow> th_scheduled t = [] \<and> th_submitted t = []) \<Longrightarrow> occupied a t"
  unfolding occupied_def by blast

lemma occupied_step:
  assumes o: "occupied a t" and ev: "calm ev t" "thread_step ev t = Some t'" "\<And>x. ev \<noteq> RunFinally x"
  shows "occupied a t'"
proof -
  have c: "calls t = [a]" "ae_scheduled_action (th_executor t) = Some a"
    and r: "th_running t = [] \<and> th_returning t = [] \<or> \<not> ae_finish_event (th_executor t)"
    and w: "th_waiting t = 0 \<or> th_scheduled t = [] \<and> th_submitted t = []" "th_woken t = 0"
    and k: "ae_is_cancelled (th_executor t) \<Longrightarrow> th_scheduled t = [] \<and> th_submitted t = []"
    using o by (simp_all add: occupied_def)
  show ?thesis
  proof (cases ev)
    case (RunFinally x)
    with ev(3) show ?thesis by blast
  qed (use c r w k ev(1,2) in \<open>auto intro!: occupiedI [of _ a] simp: calls_single calm_def executor_defs Let_def split: if_splits\<close>)
qed

lemma threads_ok_step:
  assumes "threads_ok t" "calm ev t" "thread_step ev t = Some t'"
  shows "threads_ok t'"
proof (cases "idle t")
  case True
  then show ?thesis by (rule idle_step [OF _ assms(2,3)])
next
  case False
  with assms(1) obtain a where a: "occupied a t" unfolding threads_ok_def by blast
  show ?thesis
  proof (cases "\<exists>x. ev = RunFinally x")
    case True
    with a assms(3) show ?thesis unfolding threads_ok_def by (blast intro: occupied_finally)
  next
    case False
    with a assms(2,3) show ?thesis unfolding threads_ok_def by (blast intro: occupied_step)
  qed
qed

lemma calm_invariant: "threads_reach calm t \<Longrightarrow> threads_ok t"
proof (induction rule: threads_reach.induct)
  case init
  show ?case by (simp add: threads_ok_def idle_def threads_init_def calls_def AsyncExecutor_def)
next
  case (step t ev t')
  then show ?case by (blast intro: threads_ok_step)
qed

text \<open>
  C17: As long as a cancellation does not begin while a call is waiting to be started, and nothing is scheduled while one
  is in progress, the executor runs at most one task, is busy exactly as long as there is one, and has none
  left when a cancellation returns.
\<close>

theorem executor_exclusive:
  assumes "threads_reach calm t"
  shows "length (calls t) \<le> 1 \<and> (busy (th_executor t) \<longleftrightarrow> calls t \<noteq> []) \<and> (th_woken t > 0 \<longrightarrow> calls t = [])"
  using calm_invariant [OF assms] by (auto simp: threads_ok_def idle_def occupied_def busy_def)

text \<open>Walking through an example.\<close>

fun thread_run :: "'r thread_event list \<Rightarrow> 'r threads \<Rightarrow> 'r threads option" where
  "thread_run [] t = Some t"
| "thread_run (ev # evs) t = (case thread_step ev t of None \<Rightarrow> None | Some t' \<Rightarrow> thread_run evs t')"

fun allowed_run :: "('r thread_event \<Rightarrow> 'r threads \<Rightarrow> bool) \<Rightarrow> 'r thread_event list \<Rightarrow> 'r threads \<Rightarrow> bool" where
  "allowed_run P [] t = True"
| "allowed_run P (ev # evs) t = (P ev t \<and> (case thread_step ev t of None \<Rightarrow> True | Some t' \<Rightarrow> allowed_run P evs t'))"

lemma reach_run: "threads_reach P t \<Longrightarrow> allowed_run P evs t \<Longrightarrow> thread_run evs t = Some t' \<Longrightarrow> threads_reach P t'"
  by (induction evs arbitrary: t) (auto split: option.splits intro: threads_reach.step)

lemma reach_from_init:
  "allowed_run P evs threads_init \<Longrightarrow> thread_run evs threads_init \<noteq> None \<Longrightarrow> threads_reach P (the (thread_run evs threads_init))"
  by (rule reach_run [OF threads_reach.init]) simp_all

lemma allowed_any [simp]: "allowed_run (\<lambda>_ _. True) evs t"
  by (induction evs arbitrary: t) (simp_all split: option.splits)

theorem executor_exclusive_witness:
  "\<exists>t :: unit threads. threads_reach calm t \<and> length (calls t) \<le> 1 \<and> th_woken t = 1 \<and> \<not> busy (th_executor t)"
proof -
  let ?evs = "[Schedule ''promote'', Submit ''promote'', RunBegin ''promote'', CancelBegin, RunReturn ''promote'',
               RunFinally ''promote'', CancelWake] :: unit thread_event list"
  let ?t = "the (thread_run ?evs threads_init)"
  have r: "threads_reach calm ?t"
    by (rule reach_from_init) code_simp+
  have "th_woken ?t = 1" by code_simp
  then have "\<not> busy (th_executor ?t) \<and> length (calls ?t) \<le> 1" using executor_exclusive [OF r] by simp
  with r \<open>th_woken ?t = 1\<close> show ?thesis by blast
qed

text \<open>
  A critical task is never both cancelled and completed, whatever the threads do: when the HA loop cancels it, either it
  gets the result or the task is not performed.
\<close>

theorem critical_task_decided:
  assumes "threads_reach (\<lambda>_ _. True) t"
  shows "\<not> (ct_is_cancelled (ae_critical_task (th_executor t)) \<and> ct_result (ae_critical_task (th_executor t)) \<noteq> None)"
  using assms
proof (induction rule: threads_reach.induct)
  case init
  show ?case by (simp add: threads_init_def AsyncExecutor_def ct_reset_def)
next
  case (step t ev t')
  then show ?case
    by (cases ev)
       (auto simp: executor_defs ct_reset_def ct_cancel_def ct_complete_def Let_def split: if_splits option.splits)
qed

theorem critical_task_decided_witness:
  "\<exists>t :: unit threads. threads_reach (\<lambda>_ _. True) t \<and> ct_result (ae_critical_task (th_executor t)) \<noteq> None
     \<and> \<not> ct_is_cancelled (ae_critical_task (th_executor t))"
proof -
  let ?evs = "[Schedule ''restart'', Submit ''restart'', RunBegin ''restart'', Complete (), CancelCritical] :: unit thread_event list"
  let ?t = "the (thread_run ?evs threads_init)"
  have r: "threads_reach (\<lambda>_ _. True) ?t"
    by (rule reach_from_init [OF allowed_any]) code_simp
  have "ct_result (ae_critical_task (th_executor ?t)) \<noteq> None" by code_simp
  with critical_task_decided [OF r] r show ?thesis by blast
qed

text \<open>
  Cancelling a task that has not been started yet does not stop it when another one is scheduled at once, as
  \<open>reinitialize\<close> with force does: \<open>cancel\<close> does not wait, since the event is set by \<open>schedule\<close>, and the next
  \<open>schedule\<close> clears the mark. Two tasks then run at the same time, and when the first one returns the
  executor is not busy although the second one still runs.
\<close>

theorem cancelled_task_still_runs:
  "(\<exists>t :: unit threads. threads_reach (\<lambda>_ _. True) t \<and> th_running t = [''reinitialize'', ''bootstrap''])
   \<and> (\<exists>t :: unit threads. threads_reach (\<lambda>_ _. True) t \<and> th_running t = [''reinitialize''] \<and> \<not> busy (th_executor t))"
proof (rule conjI)
  let ?evs = "[Schedule ''bootstrap'', Submit ''bootstrap'', CancelBegin, CancelWake, CancelEnd, Schedule ''reinitialize'',
               Submit ''reinitialize'', RunBegin ''bootstrap'', RunBegin ''reinitialize''] :: unit thread_event list"
  let ?more = "?evs @ [RunReturn ''bootstrap'', RunFinally ''bootstrap'']"
  note reach = reach_from_init [where P = "\<lambda>_ _. True", OF allowed_any]
  have "thread_run ?evs threads_init \<noteq> None" "th_running (the (thread_run ?evs threads_init)) = [''reinitialize'', ''bootstrap'']"
    by code_simp+
  with reach show "\<exists>t :: unit threads. threads_reach (\<lambda>_ _. True) t \<and> th_running t = [''reinitialize'', ''bootstrap'']"
    by blast
  have "thread_run ?more threads_init \<noteq> None" "th_running (the (thread_run ?more threads_init)) = [''reinitialize'']"
    "\<not> busy (th_executor (the (thread_run ?more threads_init)))"
    by code_simp+
  with reach show "\<exists>t :: unit threads. threads_reach (\<lambda>_ _. True) t \<and> th_running t = [''reinitialize''] \<and> \<not> busy (th_executor t)"
    by blast
qed

end
