(* ===== verification/Watchdog.thy ===== *)
theory Watchdog
  imports PyValue
begin

text \<open>
  The watchdog of \<^verbatim>\<open>patroni/watchdog\<close>: its configuration, the facade \<open>Watchdog\<close>, the null implementation and the Linux
  device. System calls are answered by a function of their number, \<open>None\<close> for an \<^verbatim>\<open>OSError\<close>; the state records how many
  descriptors of the device are open, since an open device resets the machine unless it is kept alive, and
  the timeout it was given.
\<close>

unbundle bit_operations_syntax

section \<open>Numbers of ioctl requests\<close>

definition IOC :: "int \<Rightarrow> int \<Rightarrow> int \<Rightarrow> int \<Rightarrow> int" where
  "IOC dir typ nr sz = push_bit 30 dir OR push_bit 8 typ OR nr OR push_bit 16 sz"

definition IOR :: "int \<Rightarrow> int \<Rightarrow> int \<Rightarrow> int" where
  "IOR typ nr sz = IOC 2 typ nr sz"

definition IOWR :: "int \<Rightarrow> int \<Rightarrow> int \<Rightarrow> int" where
  "IOWR typ nr sz = IOC (2 OR 1) typ nr sz"

definition WDIOC_GETSUPPORT :: int where
  "WDIOC_GETSUPPORT = IOR 0x57 0 40"

definition WDIOC_SETTIMEOUT :: int where
  "WDIOC_SETTIMEOUT = IOWR 0x57 6 4"

definition WDIOC_GETTIMEOUT :: int where
  "WDIOC_GETTIMEOUT = IOR 0x57 7 4"

section \<open>Configuration\<close>

datatype wd_mode = MODE_REQUIRED | MODE_AUTOMATIC | MODE_OFF

definition parse_mode :: "pyval \<Rightarrow> wd_mode" where
  "parse_mode mode =
     (if mode = PBool False then MODE_OFF
      else (let m = lower (py_str mode) in
        if m \<in> {''require'', ''required''} then MODE_REQUIRED
        else if m \<in> {''auto'', ''automatic''} then MODE_AUTOMATIC else MODE_OFF))"

record wd_config =
  wc_mode :: wd_mode
  wc_ttl :: int
  wc_loop_wait :: int
  wc_safety_margin :: int
  wc_driver :: pyval
  wc_driver_config :: pydict

text \<open>
  The section of the configuration. The code keeps any safety margin and computes with it later; here it is
  an integer (or a Boolean, which Python counts as one), as the schema demands, and \<open>None\<close> stands for a
  section with any other value.
\<close>

definition margin_value :: "pyval \<Rightarrow> int option" where
  "margin_value v = (case v of PInt n \<Rightarrow> Some n | PBool b \<Rightarrow> Some (of_bool b) | _ \<Rightarrow> None)"

definition WatchdogConfig :: "pydict \<Rightarrow> int \<Rightarrow> int \<Rightarrow> wd_config option" where
  "WatchdogConfig section ttl loop_wait =
     (let wc = (if section = [] then [(''mode'', PStr ''automatic'')] else section) in
      map_option (\<lambda>margin. \<lparr>wc_mode = parse_mode (dict_get_default wc ''mode'' (PStr ''automatic'')), wc_ttl = ttl, wc_loop_wait = loop_wait,
       wc_safety_margin = margin,
       wc_driver = dict_get_default wc ''driver'' (PStr ''default''),
       wc_driver_config = filter (\<lambda>(k, v). k \<notin> {''mode'', ''safety_margin'', ''driver''}) wc\<rparr>)
        (margin_value (dict_get_default wc ''safety_margin'' (PInt 5))))"

definition wc_timeout :: "wd_config \<Rightarrow> int" where
  "wc_timeout c = (if wc_safety_margin c = - 1 then wc_ttl c div 2 else wc_ttl c - wc_safety_margin c)"

definition timing_slack :: "wd_config \<Rightarrow> int" where
  "timing_slack c = wc_timeout c - wc_loop_wait c"

section \<open>Devices\<close>

text \<open>
  The Linux device: whether it is the \<open>TestingWatchdogDevice\<close>, which writes to a named pipe where the device would get
  an ioctl, whether this object has it open, and the options reported by the kernel once they are known.
\<close>

datatype wd_impl = NullWatchdog | LinuxWatchdogDevice (ld_testing: bool) (ld_fd: bool) (ld_support: "int option")

record watchdog =
  wd_config :: wd_config
  wd_active_config :: wd_config
  wd_active :: bool
  wd_impl :: wd_impl
  wd_calls :: nat
  wd_open :: nat
  wd_timeout :: int

type_synonym syscalls = "nat \<Rightarrow> int option"

text \<open>Methods raise only \<open>WatchdogError\<close>.\<close>

type_synonym 'a wm = "syscalls \<Rightarrow> watchdog \<Rightarrow> 'a option \<times> watchdog"

definition wret :: "'a \<Rightarrow> 'a wm" where
  "wret x = (\<lambda>sys w. (Some x, w))"

definition wraise :: "'a wm" where
  "wraise = (\<lambda>sys w. (None, w))"

definition wbind :: "'a wm \<Rightarrow> ('a \<Rightarrow> 'b wm) \<Rightarrow> 'b wm" where
  "wbind m f = (\<lambda>sys w. case m sys w of (None, w') \<Rightarrow> (None, w') | (Some x, w') \<Rightarrow> f x sys w')"

definition wtry :: "'a wm \<Rightarrow> 'a wm \<Rightarrow> 'a wm" where
  "wtry m h = (\<lambda>sys w. case m sys w of (None, w') \<Rightarrow> h sys w' | (Some x, w') \<Rightarrow> (Some x, w'))"

definition wget :: "(watchdog \<Rightarrow> 'a) \<Rightarrow> 'a wm" where
  "wget f = (\<lambda>sys w. (Some (f w), w))"

definition wset :: "(watchdog \<Rightarrow> watchdog) \<Rightarrow> unit wm" where
  "wset f = (\<lambda>sys w. (Some (), f w))"

abbreviation wthen :: "'a wm \<Rightarrow> 'b wm \<Rightarrow> 'b wm" where
  "wthen m k \<equiv> wbind m (\<lambda>_. k)"

text \<open>A system call; an error becomes \<open>WatchdogError\<close>.\<close>

definition syscall :: "int wm" where
  "syscall = (\<lambda>sys w. (sys (wd_calls w), w\<lparr>wd_calls := Suc (wd_calls w)\<rparr>))"

abbreviation set_impl :: "wd_impl \<Rightarrow> unit wm" where
  "set_impl i \<equiv> wset (\<lambda>w. w\<lparr>wd_impl := i\<rparr>)"

definition impl_is_null :: "wd_impl \<Rightarrow> bool" where
  "impl_is_null i \<longleftrightarrow> i = NullWatchdog"

definition impl_is_running :: "wd_impl \<Rightarrow> bool" where
  "impl_is_running i = (case i of NullWatchdog \<Rightarrow> False | LinuxWatchdogDevice _ fd _ \<Rightarrow> fd)"

definition impl_open :: "unit wm" where
  "impl_open = wbind (wget wd_impl) (\<lambda>i. case i of
     NullWatchdog \<Rightarrow> wret ()
   | LinuxWatchdogDevice tst fd opts \<Rightarrow>
       wbind syscall (\<lambda>_. wset (\<lambda>w. w\<lparr>wd_impl := LinuxWatchdogDevice tst True opts, wd_open := Suc (wd_open w)\<rparr>)))"

text \<open>Writing the magic character, then closing.\<close>

definition impl_close :: "unit wm" where
  "impl_close = wbind (wget wd_impl) (\<lambda>i. case i of
     NullWatchdog \<Rightarrow> wret ()
   | LinuxWatchdogDevice tst fd opts \<Rightarrow>
       if fd then wbind syscall (\<lambda>_. wbind syscall (\<lambda>_.
         wset (\<lambda>w. w\<lparr>wd_impl := LinuxWatchdogDevice tst False opts, wd_open := wd_open w - 1\<rparr>)))
       else wret ())"

definition ioctl :: "int wm" where
  "ioctl = wbind (wget wd_impl) (\<lambda>i. if impl_is_running i then syscall else wraise)"

definition get_support :: "int wm" where
  "get_support = wbind (wget wd_impl) (\<lambda>i. case i of
     NullWatchdog \<Rightarrow> wret 0
   | LinuxWatchdogDevice tst fd opts \<Rightarrow>
       if tst then wret (0x100 OR 0x80)
       else (case opts of
           Some options \<Rightarrow> wret options
         | None \<Rightarrow> wbind ioctl (\<lambda>options. wthen (set_impl (LinuxWatchdogDevice tst fd (Some options))) (wret options))))"

definition has_option :: "int \<Rightarrow> int \<Rightarrow> bool" where
  "has_option flag options \<longleftrightarrow> options AND flag \<noteq> 0"

definition impl_can_be_disabled :: "bool wm" where
  "impl_can_be_disabled = wbind (wget wd_impl) (\<lambda>i. case i of
     NullWatchdog \<Rightarrow> wret True
   | LinuxWatchdogDevice _ _ _ \<Rightarrow> wbind get_support (\<lambda>options. wret (has_option 0x100 options)))"

definition impl_has_set_timeout :: "bool wm" where
  "impl_has_set_timeout = wbind (wget wd_impl) (\<lambda>i. case i of
     NullWatchdog \<Rightarrow> wret False
   | LinuxWatchdogDevice _ _ _ \<Rightarrow> wbind get_support (\<lambda>options. wret (has_option 0x80 options)))"

text \<open>
  The device may be given a timeout other than the one asked for; it is what the call answers. The testing device takes
  any value; its writes to the pipe succeed.
\<close>

definition impl_set_timeout :: "int \<Rightarrow> unit wm" where
  "impl_set_timeout timeout = wbind (wget wd_impl) (\<lambda>i. case i of
     NullWatchdog \<Rightarrow> wraise
   | LinuxWatchdogDevice tst fd _ \<Rightarrow>
       if tst then if fd then wbind syscall (\<lambda>_. wset (\<lambda>w. w\<lparr>wd_timeout := timeout\<rparr>)) else wraise
       else if 0 < timeout \<and> timeout < 0xFFFF then wbind ioctl (\<lambda>t. wset (\<lambda>w. w\<lparr>wd_timeout := t\<rparr>)) else wraise)"

definition impl_get_timeout :: "int wm" where
  "impl_get_timeout = wbind (wget wd_impl) (\<lambda>i. case i of
     NullWatchdog \<Rightarrow> wret 1000000000
   | LinuxWatchdogDevice tst _ _ \<Rightarrow> if tst then wget wd_timeout else wbind ioctl (\<lambda>_. wget wd_timeout))"

definition impl_keepalive :: "unit wm" where
  "impl_keepalive = wbind (wget wd_impl) (\<lambda>i. case i of
     NullWatchdog \<Rightarrow> wret ()
   | LinuxWatchdogDevice _ fd _ \<Rightarrow> if fd then wbind syscall (\<lambda>_. wret ()) else wraise)"

definition get_impl :: "bool \<Rightarrow> wd_config \<Rightarrow> wd_impl" where
  "get_impl linux c =
     (if wc_driver c = PStr ''testing'' then LinuxWatchdogDevice True False None
      else if linux \<and> wc_driver c = PStr ''default'' then LinuxWatchdogDevice False False None
      else NullWatchdog)"

section \<open>The facade\<close>

text \<open>\<open>None\<close> when the process exits because a watchdog is required and there is none.\<close>

definition Watchdog_init :: "bool \<Rightarrow> wd_config \<Rightarrow> watchdog option" where
  "Watchdog_init linux c =
     (let i = (if wc_mode c = MODE_OFF then NullWatchdog else get_impl linux c) in
      if wc_mode c = MODE_REQUIRED \<and> impl_is_null i then None
      else Some \<lparr>wd_config = c, wd_active_config = c, wd_active = False, wd_impl = i, wd_calls = 0, wd_open = 0, wd_timeout = 60\<rparr>)"

definition wd_disable_impl :: "unit wm" where
  "wd_disable_impl =
     wtry
       (wbind (wget (\<lambda>w. impl_is_running (wd_impl w))) (\<lambda>running.
        wbind (if running then impl_can_be_disabled else wret True) (\<lambda>can.
        wthen (if can then wret () else wthen impl_keepalive (wthen impl_get_timeout (wret ())))
          impl_close)))
       (wret ())"

definition wd_disable :: "unit wm" where
  "wd_disable = wthen wd_disable_impl (wset (\<lambda>w. w\<lparr>wd_active := False\<rparr>))"

text \<open>The timeout in effect, \<open>None\<close> when the device was closed because it is too short.\<close>

definition wd_set_timeout :: "int option wm" where
  "wd_set_timeout =
     wbind (wget wd_config) (\<lambda>c.
     wbind impl_has_set_timeout (\<lambda>can_set.
     wthen (if can_set then impl_set_timeout (wc_timeout c) else wret ())
     (wbind impl_get_timeout (\<lambda>actual_timeout.
      wbind (wget (\<lambda>w. impl_is_running (wd_impl w))) (\<lambda>running.
        if running \<and> actual_timeout < wc_loop_wait c then
          wbind impl_can_be_disabled (\<lambda>can.
            if can then wthen impl_close (wthen (set_impl NullWatchdog) (wret None))
            else wret (Some actual_timeout))
        else wret (Some actual_timeout))))))"

text \<open>Opening the device; on an error the null implementation takes its place.\<close>

definition wd_open_device :: "int option wm" where
  "wd_open_device = wtry (wthen impl_open wd_set_timeout)
     (wthen (set_impl NullWatchdog) (wbind impl_get_timeout (\<lambda>t. wret (Some t))))"

definition wd_activate_impl :: "bool wm" where
  "wd_activate_impl =
     wthen (wset (\<lambda>w. w\<lparr>wd_active_config := wd_config w\<rparr>))
     (wbind (wget wd_config) (\<lambda>c.
      wthen (if timing_slack c < 0 then set_impl NullWatchdog else wret ())
      (wbind wd_open_device (\<lambda>actual_timeout.
       wbind (wget (\<lambda>w. impl_is_running (wd_impl w))) (\<lambda>running.
       wthen (if running then impl_can_be_disabled else wret True)
         (if (\<not> running \<or> (case actual_timeout of None \<Rightarrow> False | Some t \<Rightarrow> t \<noteq> 0 \<and> t > wc_timeout c)) \<and> wc_mode c = MODE_REQUIRED
          then wret False
          else wret (running \<or> wc_mode c \<noteq> MODE_REQUIRED)))))))"

definition wd_activate :: "bool wm" where
  "wd_activate = wthen (wset (\<lambda>w. w\<lparr>wd_active := True\<rparr>)) wd_activate_impl"

text \<open>Python compares dictionaries without regard to the order.\<close>

definition same_driver :: "wd_config \<Rightarrow> wd_config \<Rightarrow> bool" where
  "same_driver c d \<longleftrightarrow> wc_driver c = wc_driver d \<and> set (wc_driver_config c) = set (wc_driver_config d)"

definition wc_eq :: "wd_config \<Rightarrow> wd_config \<Rightarrow> bool" where
  "wc_eq c d \<longleftrightarrow> wc_mode c = wc_mode d \<and> wc_ttl c = wc_ttl d \<and> wc_loop_wait c = wc_loop_wait d
     \<and> wc_safety_margin c = wc_safety_margin d \<and> same_driver c d"

definition wd_reload_config :: "bool \<Rightarrow> wd_config \<Rightarrow> unit wm" where
  "wd_reload_config linux c =
     wthen (wset (\<lambda>w. w\<lparr>wd_config := c\<rparr>))
     (wthen (if wc_mode c = MODE_OFF
             then wbind (wget wd_active) (\<lambda>active.
                    wthen (if active then wd_disable_impl else wret ())
                      (wset (\<lambda>w. w\<lparr>wd_active_config := c, wd_impl := NullWatchdog\<rparr>)))
             else wret ())
     (wbind (wget (\<lambda>w. (wd_active w, wd_active_config w))) (\<lambda>(active, ac).
        if \<not> active
        then wthen (if same_driver c ac then wret () else set_impl (get_impl linux c))
               (wset (\<lambda>w. w\<lparr>wd_active_config := c\<rparr>))
        else wret ())))"

text \<open>Pending changes of the configuration are applied with the next keepalive.\<close>

definition apply_config :: "bool \<Rightarrow> unit wm" where
  "apply_config linux =
     wbind (wget wd_config) (\<lambda>c.
     wbind (wget wd_active_config) (\<lambda>ac1.
     wthen (if wc_mode c \<noteq> MODE_OFF \<and> wc_mode ac1 = MODE_OFF
            then wthen (set_impl (get_impl linux c)) (wthen wd_activate_impl (wret ())) else wret ())
     (wbind (wget wd_active_config) (\<lambda>ac2.
      wthen (if same_driver c ac2 then wret ()
             else wthen wd_disable_impl (wthen (set_impl (get_impl linux c)) (wthen wd_activate_impl (wret ()))))
      (wbind (wget wd_active_config) (\<lambda>ac3.
       wthen (if wc_timeout c \<noteq> wc_timeout ac3
              then wthen (impl_set_timeout (wc_timeout c))
                     (wbind (wget (\<lambda>w. impl_is_running (wd_impl w))) (\<lambda>running.
                        if running then wthen impl_get_timeout (wret ()) else wret ()))
              else wret ())
         (wset (\<lambda>w. w\<lparr>wd_active_config := c\<rparr>))))))))"

definition wd_keepalive :: "bool \<Rightarrow> unit wm" where
  "wd_keepalive linux =
     wtry
       (wbind (wget wd_active) (\<lambda>active.
        wthen (if active then impl_keepalive else wret ())
        (wbind (wget (\<lambda>w. wd_active w \<and> \<not> wc_eq (wd_config w) (wd_active_config w))) (\<lambda>changed.
          if changed then apply_config linux else wret ()))))
       (wret ())"

definition wd_is_running :: "watchdog \<Rightarrow> bool" where
  "wd_is_running w = impl_is_running (wd_impl w)"

text \<open>For a Linux device, whether it exists and is writable is asked of the system.\<close>

definition wd_is_healthy :: "bool \<Rightarrow> watchdog \<Rightarrow> bool" where
  "wd_is_healthy writable w =
     (wc_mode (wd_config w) \<noteq> MODE_REQUIRED \<or> timing_slack (wd_config w) \<ge> 0 \<and> \<not> impl_is_null (wd_impl w) \<and> writable)"

section \<open>What the operations keep\<close>

lemmas wm_defs = wret_def wraise_def wbind_def wtry_def wget_def wset_def syscall_def

text \<open>The configuration is changed only by the facade.\<close>

definition keeps_config :: "'a wm \<Rightarrow> bool" where
  "keeps_config m \<longleftrightarrow> (\<forall>sys w. wd_config (snd (m sys w)) = wd_config w)"

lemma keeps_config_base:
  "keeps_config (wret x)" "keeps_config wraise" "keeps_config (wget f)" "keeps_config syscall"
  "(\<And>w. wd_config (g w) = wd_config w) \<Longrightarrow> keeps_config (wset g)"
  by (simp_all add: keeps_config_def wm_defs)

lemma keeps_config_bind: "keeps_config m \<Longrightarrow> (\<And>x. keeps_config (k x)) \<Longrightarrow> keeps_config (wbind m k)"
  by (simp add: keeps_config_def wbind_def split: prod.split option.split) (metis snd_conv)

lemma keeps_config_try: "keeps_config m \<Longrightarrow> keeps_config h \<Longrightarrow> keeps_config (wtry m h)"
  by (simp add: keeps_config_def wtry_def split: prod.split option.split) (metis snd_conv)

lemma keeps_config_cases:
  "(b \<Longrightarrow> keeps_config x) \<Longrightarrow> (\<not> b \<Longrightarrow> keeps_config y) \<Longrightarrow> keeps_config (if b then x else y)"
  "keeps_config n \<Longrightarrow> (\<And>tst fd opts. keeps_config (l tst fd opts)) \<Longrightarrow>
     keeps_config (case i of NullWatchdog \<Rightarrow> n | LinuxWatchdogDevice tst fd opts \<Rightarrow> l tst fd opts)"
  "keeps_config n' \<Longrightarrow> (\<And>x. keeps_config (f x)) \<Longrightarrow> keeps_config (case v of None \<Rightarrow> n' | Some x \<Rightarrow> f x)"
  by (simp_all split: wd_impl.split option.split)

lemmas keeps_config_intros = keeps_config_base keeps_config_bind keeps_config_try keeps_config_cases

lemma keeps_config_impl:
  "keeps_config impl_open" "keeps_config impl_close" "keeps_config get_support" "keeps_config impl_can_be_disabled"
  "keeps_config impl_has_set_timeout" "keeps_config (impl_set_timeout t)" "keeps_config impl_get_timeout" "keeps_config impl_keepalive"
  unfolding impl_open_def impl_close_def ioctl_def get_support_def impl_can_be_disabled_def impl_has_set_timeout_def
    impl_set_timeout_def impl_get_timeout_def impl_keepalive_def
  by (intro keeps_config_intros; simp)+

lemma keeps_config_set_timeout: "keeps_config wd_set_timeout" "keeps_config wd_disable_impl"
  unfolding wd_set_timeout_def wd_disable_impl_def by (intro keeps_config_intros keeps_config_impl; simp)+

section \<open>Activation\<close>

text \<open>Reading the timeout changes nothing but the number of calls.\<close>

lemma get_timeout_result:
  "impl_get_timeout sys w = (Some t, w') \<Longrightarrow>
     wd_impl w' = wd_impl w \<and> wd_timeout w' = wd_timeout w \<and> (impl_is_running (wd_impl w) \<longrightarrow> t = wd_timeout w)"
  by (auto simp: impl_get_timeout_def ioctl_def wm_defs impl_is_running_def split: wd_impl.splits if_splits option.splits prod.splits)

lemma can_be_disabled_result:
  "impl_can_be_disabled sys w = (r, w') \<Longrightarrow>
     wd_timeout w' = wd_timeout w \<and> impl_is_running (wd_impl w') = impl_is_running (wd_impl w)"
  by (auto simp: impl_can_be_disabled_def get_support_def ioctl_def wm_defs impl_is_running_def
      split: wd_impl.splits if_splits option.splits prod.splits)

lemma set_timeout_result:
  "wd_set_timeout sys w = (Some t, w') \<Longrightarrow> impl_is_running (wd_impl w') \<Longrightarrow> t = Some (wd_timeout w')"
  unfolding wd_set_timeout_def wbind_def wget_def wret_def wset_def
  by (auto dest!: get_timeout_result can_be_disabled_result split: if_splits option.splits prod.splits simp: impl_is_running_def)

text \<open>The kernel said that this device goes on when it is closed.\<close>

definition never_disabled :: "wd_impl \<Rightarrow> bool" where
  "never_disabled i = (case i of
     LinuxWatchdogDevice tst fd (Some options) \<Rightarrow> \<not> tst \<and> \<not> has_option 0x100 options
   | _ \<Rightarrow> False)"

lemma can_be_disabled_false: "impl_can_be_disabled sys w = (Some False, w') \<Longrightarrow> never_disabled (wd_impl w')"
  by (auto simp: impl_can_be_disabled_def get_support_def ioctl_def wm_defs never_disabled_def has_option_def
      split: wd_impl.splits if_splits option.splits prod.splits)

lemma can_be_disabled_keeps: "impl_can_be_disabled sys w = (r, w') \<Longrightarrow> never_disabled (wd_impl w) \<Longrightarrow> never_disabled (wd_impl w')"
  by (auto simp: impl_can_be_disabled_def get_support_def ioctl_def wm_defs never_disabled_def
      split: wd_impl.splits if_splits option.splits prod.splits)

lemma set_timeout_room:
  "wd_set_timeout sys w = (Some t, w') \<Longrightarrow> impl_is_running (wd_impl w')
     \<Longrightarrow> wc_loop_wait (wd_config w) \<le> wd_timeout w' \<or> never_disabled (wd_impl w')"
  unfolding wd_set_timeout_def wbind_def wget_def wret_def wset_def
  by (auto dest!: get_timeout_result dest: can_be_disabled_result can_be_disabled_false
      split: if_splits option.splits prod.splits simp: impl_is_running_def)

lemma open_device_room:
  assumes "wd_open_device sys w = (t, w')" "impl_is_running (wd_impl w')"
  shows "wc_loop_wait (wd_config w) \<le> wd_timeout w' \<or> never_disabled (wd_impl w')"
proof -
  obtain r w1 where m: "wthen impl_open wd_set_timeout sys w = (r, w1)" by fastforce
  show ?thesis
  proof (cases r)
    case None
    then show ?thesis using assms unfolding wd_open_device_def wtry_def m
      by (auto simp: wm_defs impl_get_timeout_def impl_is_running_def)
  next
    case (Some t')
    with m obtain u w2 where "impl_open sys w = (u, w2)" "wd_set_timeout sys w2 = (Some t', w1)"
      by (auto simp: wbind_def split: prod.splits option.splits)
    moreover from this(1) have "wd_config w2 = wd_config w"
      using keeps_config_impl(1) unfolding keeps_config_def by (metis snd_conv)
    ultimately show ?thesis using set_timeout_room [of sys w2 t' w1] assms Some by (auto simp: wd_open_device_def m wtry_def)
  qed
qed

lemma open_device_result:
  assumes "wd_open_device sys w = (t, w')"
  shows "wd_config w' = wd_config w" "\<exists>t'. t = Some t'" "impl_is_running (wd_impl w') \<Longrightarrow> t = Some (Some (wd_timeout w'))"
proof -
  have "keeps_config wd_open_device"
    unfolding wd_open_device_def by (intro keeps_config_intros keeps_config_impl keeps_config_set_timeout; simp)
  then show "wd_config w' = wd_config w" using assms unfolding keeps_config_def by (metis snd_conv)
  obtain r w1 where m: "wthen impl_open wd_set_timeout sys w = (r, w1)" by fastforce
  show "\<exists>t'. t = Some t'"
    using assms unfolding wd_open_device_def wtry_def m
    by (cases r) (auto simp: wm_defs impl_get_timeout_def)
  show "t = Some (Some (wd_timeout w'))" if "impl_is_running (wd_impl w')"
  proof (cases r)
    case None
    then show ?thesis using assms that unfolding wd_open_device_def wtry_def m
      by (auto simp: wm_defs impl_get_timeout_def impl_is_running_def)
  next
    case (Some t')
    with m obtain w2 where "wd_set_timeout sys w2 = (Some t', w1)"
      by (auto simp: wbind_def split: prod.splits option.splits)
    then show ?thesis using set_timeout_result assms that Some by (auto simp: wd_open_device_def m wtry_def)
  qed
qed

text \<open>With negative slack the null implementation is activated, which is never running.\<close>

lemma open_null: "wd_impl w = NullWatchdog \<Longrightarrow> wd_open_device sys w = (Some (Some 1000000000), w)"
  by (simp add: wd_open_device_def wd_set_timeout_def wm_defs impl_open_def impl_has_set_timeout_def impl_get_timeout_def impl_is_running_def)

text \<open>
  C15: Where a watchdog is required, activation succeeds only if the device is running; its timeout is at most the configured
  one (the lease of the leader key less the safety margin, or half of the lease for a margin of -1), or is reported as
  zero; \<^verbatim>\<open>loop_wait\<close> is at most the configured timeout; and \<^verbatim>\<open>loop_wait\<close> is at most the timeout of the device, too,
  unless this is a device that cannot be disabled, which is kept although it may fire within a cycle.
\<close>

theorem activate_required_safe:
  assumes "wc_mode (wd_config w) = MODE_REQUIRED" "wd_activate sys w = (Some True, w')"
  shows "wd_is_running w' \<and> wc_loop_wait (wd_config w) \<le> wc_timeout (wd_config w)
     \<and> (wd_timeout w' \<le> wc_timeout (wd_config w) \<or> wd_timeout w' = 0)
     \<and> (wc_loop_wait (wd_config w) \<le> wd_timeout w' \<or> never_disabled (wd_impl w'))"
proof (intro conjI)
  let ?c = "wd_config w"
  let ?w0 = "w\<lparr>wd_active := True, wd_active_config := ?c\<rparr>"
  let ?w1 = "if timing_slack ?c < 0 then ?w0\<lparr>wd_impl := NullWatchdog\<rparr> else ?w0"
  obtain t w2 where o: "wd_open_device sys ?w1 = (t, w2)" by fastforce
  note res = open_device_result [OF o]
  then obtain t' where t: "t = Some t'" by blast
  obtain r w3 where d: "impl_can_be_disabled sys w2 = (r, w3)" by fastforce
  have run: "impl_is_running (wd_impl w2)" "w' = w3" "\<not> (case t' of None \<Rightarrow> False | Some t \<Rightarrow> t \<noteq> 0 \<and> t > wc_timeout ?c)"
    using assms o t d by (auto simp: wd_activate_def wd_activate_impl_def wm_defs split: if_splits prod.splits option.splits)
  have slack: "\<not> timing_slack ?c < 0"
  proof
    assume "timing_slack ?c < 0"
    then have "w2 = ?w1" using o open_null [of ?w1] by simp
    then show False using run(1) \<open>timing_slack ?c < 0\<close> by (simp add: impl_is_running_def)
  qed
  show "wd_is_running w'" using can_be_disabled_result [OF d] run by (simp add: wd_is_running_def)
  show "wc_loop_wait ?c \<le> wc_timeout ?c" using slack by (simp add: timing_slack_def)
  show "wd_timeout w' \<le> wc_timeout ?c \<or> wd_timeout w' = 0"
    using res(3) [OF run(1)] t run(2,3) can_be_disabled_result [OF d] by auto
  have "wd_config ?w1 = ?c" by simp
  then have "wc_loop_wait ?c \<le> wd_timeout w2 \<or> never_disabled (wd_impl w2)"
    using open_device_room [OF o run(1)] by (simp only:)
  then show "wc_loop_wait ?c \<le> wd_timeout w' \<or> never_disabled (wd_impl w')"
    using can_be_disabled_result [OF d] can_be_disabled_keeps [OF d] run(2) by auto
qed

definition demo_watchdog :: watchdog where
  "demo_watchdog = the (Watchdog_init True (the (WatchdogConfig [(''mode'', PStr ''required'')] 30 10)))"

theorem activate_required_safe_witness:
  "\<exists>w'. wd_activate (\<lambda>n. Some (if n = 1 then 0x180 else 25)) demo_watchdog = (Some True, w')
      \<and> wd_is_running w' \<and> wd_timeout w' = 25 \<and> wc_loop_wait (wd_config demo_watchdog) \<le> wc_timeout (wd_config demo_watchdog)
      \<and> (wc_loop_wait (wd_config demo_watchdog) \<le> wd_timeout w' \<or> never_disabled (wd_impl w'))"
proof -
  let ?sys = "\<lambda>n. Some (if n = 1 then 0x180 else 25)"
  let ?w' = "snd (wd_activate ?sys demo_watchdog)"
  have a: "fst (wd_activate ?sys demo_watchdog) = Some True" by code_simp
  then have r: "wd_activate ?sys demo_watchdog = (Some True, ?w')" by (metis prod.collapse)
  have m: "wc_mode (wd_config demo_watchdog) = MODE_REQUIRED" by code_simp
  have "wd_timeout ?w' = 25" by code_simp
  with r activate_required_safe [OF m r] show ?thesis by blast
qed

text \<open>
  When the timeout cannot be set on a device that was opened, activation gives up on it but leaves it open. Nothing
  keeps it alive or closes it any more: the null implementation is put in its place, activation succeeds unless a watchdog is
  required, and disabling does not close the device. Once its timer expires the machine is reset.
\<close>

theorem failed_activation_leaves_device_open:
  "\<exists>sys w w'. Watchdog_init True (the (WatchdogConfig [] 30 10)) = Some w \<and> wd_activate sys w = (Some True, w')
     \<and> \<not> wd_is_running w' \<and> wd_open w' = 1 \<and> wd_open (snd (wd_keepalive True sys w')) = 1 \<and> wd_open (snd (wd_disable sys w')) = 1"
proof -
  let ?sys = "\<lambda>n. if n = 2 then None else Some 0x180"
  let ?w = "the (Watchdog_init True (the (WatchdogConfig [] 30 10)))"
  let ?w' = "snd (wd_activate ?sys ?w)"
  have "Watchdog_init True (the (WatchdogConfig [] 30 10)) \<noteq> None" by code_simp
  moreover have "fst (wd_activate ?sys ?w) = Some True" by code_simp
  moreover have "\<not> wd_is_running ?w'" "wd_open ?w' = 1" "wd_open (snd (wd_keepalive True ?sys ?w')) = 1"
    "wd_open (snd (wd_disable ?sys ?w')) = 1" by code_simp+
  ultimately show ?thesis by (metis option.collapse prod.collapse)
qed

text \<open>
  While the null implementation is active, a change of the lease or of the safety margin is never applied: setting the
  timeout raises an error, which ends the keepalive before the new configuration is recorded, so this repeats in every cycle.
\<close>

theorem null_keepalive_stuck:
  assumes "wd_impl w = NullWatchdog" "wd_active w" "wc_mode (wd_active_config w) \<noteq> MODE_OFF"
    "same_driver (wd_config w) (wd_active_config w)" "wc_timeout (wd_config w) \<noteq> wc_timeout (wd_active_config w)"
  shows "wd_keepalive linux sys w = (Some (), w)"
proof -
  have "\<not> wc_eq (wd_config w) (wd_active_config w)" using assms(5) unfolding wc_eq_def wc_timeout_def by metis
  then show ?thesis using assms
    by (simp add: wd_keepalive_def apply_config_def wm_defs impl_keepalive_def impl_set_timeout_def)
qed

theorem null_keepalive_stuck_witness:
  "\<exists>w :: watchdog. wd_keepalive True (\<lambda>_. Some 0) w = (Some (), w) \<and> \<not> wc_eq (wd_config w) (wd_active_config w)"
proof -
  let ?w = "demo_watchdog\<lparr>wd_impl := NullWatchdog, wd_active := True, wd_config := (wd_config demo_watchdog)\<lparr>wc_ttl := 60\<rparr>\<rparr>"
  have "wd_keepalive True (\<lambda>_. Some 0) ?w = (Some (), ?w)"
    by (rule null_keepalive_stuck) code_simp+
  moreover have "\<not> wc_eq (wd_config ?w) (wd_active_config ?w)" by code_simp
  ultimately show ?thesis by blast
qed

section \<open>Requests\<close>

text \<open>
  The fields of an ioctl number do not overlap and can be read back, so different requests have different numbers.
\<close>

lemma IOC_fields:
  assumes "0 \<le> d" "d < 4" "0 \<le> t" "t < 256" "0 \<le> n" "n < 256" "0 \<le> s" "s < 2 ^ 14"
  shows "take_bit 8 (IOC d t n s) = n" "take_bit 8 (drop_bit 8 (IOC d t n s)) = t"
    "take_bit 14 (drop_bit 16 (IOC d t n s)) = s" "drop_bit 30 (IOC d t n s) = d"
proof -
  have [simp]: "take_bit 8 n = n" "take_bit 8 t = t" "take_bit 14 s = s"
    using assms by (simp_all add: take_bit_int_eq_self)
  have [simp]: "drop_bit 8 n = 0" "drop_bit 16 n = 0" "drop_bit 30 n = 0" "drop_bit 8 t = 0" "drop_bit 22 t = 0" "drop_bit 14 s = 0"
    using assms by (simp_all add: drop_bit_eq_div)
  have dp: "drop_bit k (push_bit l a) = (if l \<le> k then drop_bit (k - l) a else push_bit (l - k) a)" for k l and a :: int
    by (auto simp: bit_eq_iff bit_simps add.commute)
  have tp: "take_bit k (push_bit l a) = (if k \<le> l then 0 else push_bit l (take_bit (k - l) a))" for k l and a :: int
    by (auto simp: bit_eq_iff bit_simps)
  show "take_bit 8 (IOC d t n s) = n" "take_bit 8 (drop_bit 8 (IOC d t n s)) = t"
    "take_bit 14 (drop_bit 16 (IOC d t n s)) = s" "drop_bit 30 (IOC d t n s) = d"
    by (simp_all add: IOC_def take_bit_or drop_bit_or dp tp)
qed

text \<open>
  The three requests sent to the device have the numbers of the kernel interface, and every ioctl number determines the
  direction, type, number and size it was built from.
\<close>

lemma ioctl_numbers:
  "WDIOC_GETSUPPORT = 0x80285700" "WDIOC_SETTIMEOUT = 0xC0045706" "WDIOC_GETTIMEOUT = 0x80045707"
  by (simp_all add: WDIOC_GETSUPPORT_def WDIOC_SETTIMEOUT_def WDIOC_GETTIMEOUT_def IOR_def IOWR_def IOC_def push_bit_eq_mult)

lemma IOC_injective:
  assumes "0 \<le> d" "d < 4" "0 \<le> t" "t < 256" "0 \<le> n" "n < 256" "0 \<le> s" "s < 2 ^ 14"
    and "0 \<le> d'" "d' < 4" "0 \<le> t'" "t' < 256" "0 \<le> n'" "n' < 256" "0 \<le> s'" "s' < 2 ^ 14"
    and "IOC d t n s = IOC d' t' n' s'"
  shows "d = d' \<and> t = t' \<and> n = n' \<and> s = s'"
  using assms IOC_fields [of d t n s] IOC_fields [of d' t' n' s'] by metis

end
