(* ===== verification/Rewind.thy ===== *)
theory Rewind
  imports PgMisc
begin

text \<open>
  The class \<open>Rewind\<close> of \<^verbatim>\<open>patroni/postgresql/rewind.py\<close>: whether the data directory has diverged from the primary, running
  \<^verbatim>\<open>pg_rewind\<close> with missing log fetched from the archive, and the state it keeps about all that. Output of
  \<^verbatim>\<open>pg_controldata\<close>, \<^verbatim>\<open>pg_waldump\<close> and the primary's answers are arguments.
\<close>

section \<open>Strings\<close>

text \<open>\<^verbatim>\<open>s.find(p, i)\<close>\<close>

definition str_find :: "string \<Rightarrow> string \<Rightarrow> nat \<Rightarrow> nat option" where
  "str_find s p i = List.find (\<lambda>k. starts_with (drop k s) p) [i..<Suc (length s)]"

lemma str_find_iff:
  "str_find s p i = Some k \<longleftrightarrow> i \<le> k \<and> k \<le> length s \<and> starts_with (drop k s) p \<and> (\<forall>j. i \<le> j \<and> j < k \<longrightarrow> \<not> starts_with (drop j s) p)"
proof -
  have nth: "[i..<Suc (length s)] ! n = i + n" if "n < Suc (length s) - i" for n
    using that by (simp del: upt_Suc)
  show ?thesis
  proof
    assume "str_find s p i = Some k"
    then obtain n where n: "n < Suc (length s) - i" "k = [i..<Suc (length s)] ! n" "starts_with (drop k s) p"
      "\<forall>m < n. \<not> starts_with (drop ([i..<Suc (length s)] ! m) s) p"
      unfolding str_find_def find_Some_iff by (auto simp del: upt_Suc)
    have "\<not> starts_with (drop j s) p" if "i \<le> j" "j < k" for j
      using n(4) [rule_format, of "j - i"] that n(1,2) nth [of n] nth [of "j - i"] by simp
    then show "i \<le> k \<and> k \<le> length s \<and> starts_with (drop k s) p \<and> (\<forall>j. i \<le> j \<and> j < k \<longrightarrow> \<not> starts_with (drop j s) p)"
      using n nth [of n] by auto
  next
    assume a: "i \<le> k \<and> k \<le> length s \<and> starts_with (drop k s) p \<and> (\<forall>j. i \<le> j \<and> j < k \<longrightarrow> \<not> starts_with (drop j s) p)"
    then show "str_find s p i = Some k"
      unfolding str_find_def find_Some_iff
      by (intro exI [of _ "k - i"]) (auto simp: nth simp del: upt_Suc)
  qed
qed

lemma str_find_Some: "str_find s p i = Some k \<Longrightarrow> i \<le> k \<and> k + length p \<le> length s \<and> take (length p) (drop k s) = p"
proof -
  assume "str_find s p i = Some k"
  then have "i \<le> k" "k \<le> length s" "take (length p) (drop k s) = p" unfolding str_find_iff starts_with_def by auto
  moreover from this have "length p \<le> length s - k" by (metis length_drop length_take min.cobounded1)
  ultimately show ?thesis by simp
qed

definition str_in :: "string \<Rightarrow> string \<Rightarrow> bool" where
  "str_in p s \<longleftrightarrow> str_find s p 0 \<noteq> None"

definition rstrip :: "string \<Rightarrow> string" where
  "rstrip s = rev (lstrip (rev s))"

definition newline :: char where
  "newline = char_of (10 :: int)"

section \<open>The local position\<close>

text \<open>\<open>_get_checkpoint_end\<close>: the end of the checkpoint record in the output of \<^verbatim>\<open>pg_waldump\<close>, 0 when it cannot be found.\<close>

fun end_of_lsn :: "string \<Rightarrow> nat \<Rightarrow> string list \<Rightarrow> int" where
  "end_of_lsn err i [] = 0"
| "end_of_lsn err i (p # ps) =
     (case str_find (err @ [newline]) p i of
        None \<Rightarrow> end_of_lsn err i ps
      | Some j \<Rightarrow> (case parse_lsn (drop i (take j err)) of Inr n \<Rightarrow> n | Inl _ \<Rightarrow> end_of_lsn err i ps))"

definition get_checkpoint_end :: "int \<Rightarrow> (string \<times> string) option \<Rightarrow> int" where
  "get_checkpoint_end lsn dump = (case dump of
     None \<Rightarrow> 0
   | Some (stdout, stderr) \<Rightarrow>
       let lsn8 = format_lsn lsn True; lsn_str = format_lsn lsn False;
           out = split_on newline (rstrip stdout); err = split_on newline (rstrip stderr);
           pattern = ''error in WAL record at '' @ lsn_str @ '': invalid record length at ''
       in if length out = 1 \<and> length err = 1 \<and> str_in ('', lsn: '' @ lsn8 @ '', prev '') (out ! 0) \<and> str_in pattern (err ! 0)
          then (case str_find (err ! 0) pattern 0 of None \<Rightarrow> 0
                | Some k \<Rightarrow> end_of_lsn (err ! 0) (k + length pattern) ['': expected at least '', '': wanted '', [newline]])
          else 0)"

text \<open>\<open>_get_local_timeline_lsn_from_controldata\<close>\<close>

definition controldata_field :: "(string, string) dict \<Rightarrow> string \<Rightarrow> string option" where
  "controldata_field data k = dict_get data k"

definition timeline_field :: "(string, string) dict \<Rightarrow> string \<Rightarrow> int option" where
  "timeline_field data k = (case py_int (PStr (str_or_empty (controldata_field data k))) of Inr n \<Rightarrow> Some n | Inl _ \<Rightarrow> None)"

definition get_local_timeline_lsn_from_controldata ::
  "(string, string) dict \<Rightarrow> bool option \<times> int option \<times> int option" where
  "get_local_timeline_lsn_from_controldata data =
     (let state = controldata_field data ''Database cluster state'';
          recovering = (state \<in> {Some ''shut down in recovery'', Some ''in archive recovery''});
          rec_lsn = controldata_field data ''Minimum recovery ending location'';
          rec_tl = timeline_field data (''Min recovery ending loc'' @ [CHR 0x27] @ ''s timeline'');
          was_primary = (recovering \<and> rec_tl \<noteq> None \<and> (rec_lsn = Some ''0/0'' \<or> rec_tl = Some 0));
          (in_recovery, timeline, lsn) =
            (if state = Some ''shut down'' \<or> was_primary
             then (let tl = timeline_field data (''Latest checkpoint'' @ [CHR 0x27] @ ''s TimeLineID'') in
                   (Some False, (if tl = None \<and> was_primary then rec_tl else tl), controldata_field data ''Latest checkpoint location''))
             else if recovering then (Some True, rec_tl, rec_lsn)
             else (None, None, None))
      in (in_recovery, timeline, (case lsn of None \<Rightarrow> None
           | Some l \<Rightarrow> (case parse_lsn l of Inr n \<Rightarrow> Some n | Inl _ \<Rightarrow> None))))"

definition get_local_timeline_lsn ::
  "bool \<Rightarrow> int option \<Rightarrow> int option \<Rightarrow> (string, string) dict \<Rightarrow> bool option \<times> int option \<times> int option" where
  "get_local_timeline_lsn running replica_timeline replayed data =
     (if running then (Some True, replica_timeline, replayed) else get_local_timeline_lsn_from_controldata data)"

section \<open>Divergence\<close>

text \<open>The loop over the history of the primary; \<open>checkpoint_end\<close> is read only where the code calls \<^verbatim>\<open>pg_waldump\<close>.\<close>

fun scan_history :: "bool \<Rightarrow> int \<Rightarrow> int \<Rightarrow> int \<Rightarrow> (int \<times> int \<times> string) list \<Rightarrow> bool" where
  "scan_history in_recovery local_timeline local_lsn checkpoint_end [] = True"
| "scan_history in_recovery local_timeline local_lsn checkpoint_end ((parent_timeline, switchpoint, _) # history) =
     (if parent_timeline = local_timeline then
        (if in_recovery then local_lsn > switchpoint
         else if local_lsn \<ge> switchpoint then True else switchpoint \<noteq> checkpoint_end)
      else if parent_timeline > local_timeline then True
      else scan_history in_recovery local_timeline local_lsn checkpoint_end history)"

datatype REWIND_STATUS = INITIAL | CHECKPOINT | CHECK | NEED | NOT_NEED | SUCCESS | FAILED

text \<open>
  \<open>_check_timeline_and_lsn\<close>. The answer of the primary over the replication connection is \<open>None\<close> when an exception is
  raised; otherwise it is the row of \<^verbatim>\<open>IDENTIFY_SYSTEM\<close>, if any, with the history if it was asked for. The first
  argument tells whether the leader is known as a primary or is a remote member. An empty history makes
  \<open>_log_primary_history\<close> raise \<open>IndexError\<close> when it looks at the last line.
\<close>

definition need_rewind ::
  "bool \<Rightarrow> int \<Rightarrow> int \<Rightarrow> int \<Rightarrow> (int \<times> string option) option \<Rightarrow> py_error + bool" where
  "need_rewind in_recovery local_timeline local_lsn checkpoint_end row = (case row of
     None \<Rightarrow> Inr False
   | Some (primary_timeline, history) \<Rightarrow>
       if local_timeline > primary_timeline then Inr True
       else if local_timeline = primary_timeline then Inr False
       else if primary_timeline > 1
            then (case history of
                    None \<Rightarrow> Inr False
                  | Some h \<Rightarrow>
                      if parse_history h = [] then Inl IndexError
                      else Inr (scan_history in_recovery local_timeline local_lsn checkpoint_end (parse_history h)))
       else Inr False)"

definition check_timeline_and_lsn ::
  "bool \<Rightarrow> bool \<Rightarrow> bool option \<times> int option \<times> int option \<Rightarrow> (int \<times> string option) option option
     \<Rightarrow> (string \<times> string) option \<Rightarrow> REWIND_STATUS \<Rightarrow> py_error + REWIND_STATUS" where
  "check_timeline_and_lsn leader_is_primary not_in_recovery local answer dump state = (case local of
     (in_recovery, Some local_timeline, Some local_lsn) \<Rightarrow>
       if \<not> leader_is_primary \<or> \<not> not_in_recovery then Inr state
       else (case answer of
           None \<Rightarrow> Inr state
         | Some row \<Rightarrow>
             map_sum id (\<lambda>need. if need then NEED else NOT_NEED)
               (need_rewind (in_recovery = Some True) local_timeline local_lsn (get_checkpoint_end local_lsn dump) row))
   | _ \<Rightarrow> Inr state)"

section \<open>State\<close>

text \<open>The task of the checkpoint after promotion, with its result once it is completed.\<close>

record rewind =
  rw_state :: REWIND_STATUS
  rw_checkpoint_task :: "bool option option"

definition rw_reset_state :: "rewind \<Rightarrow> rewind" where
  "rw_reset_state r = r\<lparr>rw_state := INITIAL, rw_checkpoint_task := None\<rparr>"

definition configuration_allows_rewind :: "(string, string) dict \<Rightarrow> bool" where
  "configuration_allows_rewind data \<longleftrightarrow>
     dict_get_default data ''wal_log_hints setting'' ''off'' = ''on'' \<or> dict_get_default data ''Data page checksum version'' ''0'' \<noteq> ''0''"

text \<open>The exit code of \<^verbatim>\<open>pg_rewind --help\<close>, \<open>None\<close> when it cannot be executed.\<close>

definition can_rewind :: "bool \<Rightarrow> int option \<Rightarrow> (string, string) dict \<Rightarrow> bool" where
  "can_rewind enabled help_code data \<longleftrightarrow> enabled \<and> help_code = Some 0 \<and> configuration_allows_rewind data"

definition can_rewind_or_reinitialize_allowed :: "bool \<Rightarrow> bool \<Rightarrow> bool" where
  "can_rewind_or_reinitialize_allowed remove_on_diverged can \<longleftrightarrow> remove_on_diverged \<or> can"

definition trigger_check_diverged_lsn :: "bool \<Rightarrow> rewind \<Rightarrow> rewind" where
  "trigger_check_diverged_lsn allowed r =
     r\<lparr>rw_state := (if allowed \<and> rw_state r \<noteq> NEED then CHECK else rw_state r), rw_checkpoint_task := None\<rparr>"

text \<open>\<open>usable\<close>: there is a leader with a connection url; \<open>other\<close>: and it is not this node.\<close>

definition rewind_or_reinitialize_needed_and_possible ::
  "bool \<Rightarrow> bool \<Rightarrow> py_error + REWIND_STATUS \<Rightarrow> rewind \<Rightarrow> py_error + bool \<times> rewind" where
  "rewind_or_reinitialize_needed_and_possible usable other checked r =
     (if usable \<and> other \<and> rw_state r = CHECK
      then map_sum id (\<lambda>st. (st = NEED, r\<lparr>rw_state := st\<rparr>)) checked
      else Inr (usable \<and> rw_state r = NEED, r))"

definition ensure_checkpoint_after_promote :: "bool \<Rightarrow> bool \<Rightarrow> rewind \<Rightarrow> rewind" where
  "ensure_checkpoint_after_promote is_primary timeline_in_control r =
     (if rw_state r \<noteq> CHECKPOINT \<and> is_primary then
        (case rw_checkpoint_task r of
           Some result \<Rightarrow> r\<lparr>rw_state := (if result = Some True then CHECKPOINT else rw_state r),
                             rw_checkpoint_task := (if result = None then Some None else None)\<rparr>
         | None \<Rightarrow> if timeline_in_control then r\<lparr>rw_state := CHECKPOINT\<rparr> else r\<lparr>rw_checkpoint_task := Some None\<rparr>)
      else r)"

text \<open>\<open>__checkpoint\<close> in its thread; the result of a task that has been dropped is lost.\<close>

definition checkpoint_done :: "bool \<Rightarrow> rewind \<Rightarrow> rewind" where
  "checkpoint_done ok r = (case rw_checkpoint_task r of None \<Rightarrow> r | Some _ \<Rightarrow> r\<lparr>rw_checkpoint_task := Some (Some ok)\<rparr>)"

definition rw_checkpoint_after_promote :: "rewind \<Rightarrow> bool" where
  "rw_checkpoint_after_promote r \<longleftrightarrow> rw_state r = CHECKPOINT"

definition rw_is_needed :: "rewind \<Rightarrow> bool" where
  "rw_is_needed r \<longleftrightarrow> rw_state r \<in> {CHECK, NEED}"

definition rw_executed :: "rewind \<Rightarrow> bool" where
  "rw_executed r \<longleftrightarrow> rw_state r \<in> {SUCCESS, FAILED}"

definition rw_failed :: "rewind \<Rightarrow> bool" where
  "rw_failed r \<longleftrightarrow> rw_state r = FAILED"

section \<open>Archive\<close>

definition get_archive_command :: "string option \<Rightarrow> string option \<Rightarrow> string option" where
  "get_archive_command archive_mode archive_cmd =
     (if archive_mode \<in> {Some ''on'', Some ''always''} \<and> str_bool archive_cmd then archive_cmd else None)"

text \<open>\<open>_build_archiver_command\<close>: a percent sign before any other character stands for itself.\<close>

fun build_archiver_command :: "string \<Rightarrow> string \<Rightarrow> string \<Rightarrow> string" where
  "build_archiver_command wal_dir wal [] = []"
| "build_archiver_command wal_dir wal [c] = [c]"
| "build_archiver_command wal_dir wal (c # d # cs) =
     (if c = CHR ''%'' then
        (if d = CHR ''p'' then wal_dir @ ''/'' @ wal @ build_archiver_command wal_dir wal cs
         else if d = CHR ''f'' then wal @ build_archiver_command wal_dir wal cs
         else if d = CHR ''r'' then ''000000010000000000000001'' @ build_archiver_command wal_dir wal cs
         else if d = CHR ''%'' then ''%'' @ build_archiver_command wal_dir wal cs
         else ''%'' @ build_archiver_command wal_dir wal (d # cs))
      else c # build_archiver_command wal_dir wal (d # cs))"

text \<open>\<open>_find_missing_wal\<close>\<close>

definition rsplit1 :: "char \<Rightarrow> string \<Rightarrow> string \<times> string" where
  "rsplit1 c s = (let w = rev (takeWhile (\<lambda>x. x \<noteq> c) (rev s)) in (take (length s - length w - 1) s, w))"

definition ends_with :: "string \<Rightarrow> string \<Rightarrow> bool" where
  "ends_with s p \<longleftrightarrow> starts_with (rev s) (rev p)"

definition missing_wal_in_line :: "string \<Rightarrow> string \<Rightarrow> string option" where
  "missing_wal_in_line wal_name line =
     (let pattern = ''could not open file '' @ [CHR 0x22] in
      case str_find line pattern 0 of
        None \<Rightarrow> None
      | Some b0 \<Rightarrow> let b = b0 + length pattern in
          (case str_find line ([CHR 0x22] @ '': '') b of
             None \<Rightarrow> None
           | Some e \<Rightarrow> let f = drop b (take e line) in
               if CHR ''/'' \<in> set f
               then (case rsplit1 (CHR ''/'') f of (waldir, wal) \<Rightarrow>
                       if ends_with waldir (''/pg_'' @ wal_name) \<and> length wal = 24 then Some wal else None)
               else None))"

fun find_missing_wal :: "string \<Rightarrow> string list \<Rightarrow> string option" where
  "find_missing_wal wal_name [] = None"
| "find_missing_wal wal_name (l # ls) = (case missing_wal_in_line wal_name l of Some w \<Rightarrow> Some w | None \<Rightarrow> find_missing_wal wal_name ls)"

section \<open>Running pg\_rewind\<close>

text \<open>
  The loop of \<open>pg_rewind\<close>. The \<open>n\<close>-th run returns its exit code, \<open>None\<close> when it was cancelled, with its output and error output;
  \<open>fetch\<close> tells whether the restore command succeeds. \<open>restore\<close> holds when there is a restore command
  and \<^verbatim>\<open>pg_rewind\<close> cannot use it itself. \<open>None\<close> means that the loop has not ended within the given number of rounds.
\<close>

definition pg_rewind_can_restore :: "bool \<Rightarrow> int \<Rightarrow> bool \<Rightarrow> bool" where
  "pg_rewind_can_restore has_restore_command major_version conf_in_data_dir \<longleftrightarrow>
     has_restore_command \<and> (major_version \<ge> 150000 \<or> major_version \<ge> 130000 \<and> conf_in_data_dir)"

fun pg_rewind :: "string \<Rightarrow> bool \<Rightarrow> (nat \<Rightarrow> int option \<times> string \<times> string) \<Rightarrow> (nat \<Rightarrow> string \<Rightarrow> bool) \<Rightarrow> nat \<Rightarrow> nat \<Rightarrow> bool option" where
  "pg_rewind wal_name restore runs fetch n 0 = None"
| "pg_rewind wal_name restore runs fetch n (Suc fuel) = (case runs n of
     (None, _) \<Rightarrow> Some False
   | (Some ret, stdout, stderr) \<Rightarrow>
       if ret = 0 then Some True
       else if \<not> restore then Some False
       else (case (case find_missing_wal wal_name (split_on newline stderr) of Some w \<Rightarrow> Some w
                   | None \<Rightarrow> find_missing_wal wal_name (split_on newline stdout)) of
               None \<Rightarrow> Some False
             | Some w \<Rightarrow> if fetch n w then pg_rewind wal_name restore runs fetch (Suc n) fuel else Some False))"

text \<open>
  \<open>execute\<close>, with what it finds out in the order of the code: the status of the checkpoint on the leader is \<open>None\<close> when it is
  not published, \<open>leader_problem\<close> is the message of the attempt to make or check one. The result tells whether the data
  directory was removed.
\<close>

record rewind_inputs =
  ri_running :: bool
  ri_stopped :: bool
  ri_checkpoint_status :: "bool option"
  ri_leader_problem :: "string option"
  ri_leader_healthy_before :: bool
  ri_pg_rewind :: bool
  ri_leader_healthy_after :: bool
  ri_can_rewind_after :: bool
  ri_remove_on_failure :: bool
  ri_remove_on_diverged :: bool

definition execute_ready :: "rewind_inputs \<Rightarrow> bool" where
  "execute_ready i \<longleftrightarrow> (ri_running i \<longrightarrow> ri_stopped i)
     \<and> (case ri_checkpoint_status i of None \<Rightarrow> \<not> str_bool (ri_leader_problem i) | Some b \<Rightarrow> b \<and> ri_leader_healthy_before i)"

definition rewind_failure :: "rewind_inputs \<Rightarrow> rewind \<Rightarrow> rewind \<times> bool" where
  "rewind_failure i r =
     (let r' = (if ri_leader_healthy_after i \<or> \<not> ri_can_rewind_after i then r\<lparr>rw_state := FAILED\<rparr> else r) in
      if rw_failed r' \<and> (ri_remove_on_failure i \<or> ri_remove_on_diverged i) then (r'\<lparr>rw_state := INITIAL\<rparr>, True) else (r', False))"

definition rw_execute :: "rewind_inputs \<Rightarrow> rewind \<Rightarrow> rewind \<times> bool" where
  "rw_execute i r =
     (if \<not> execute_ready i then (r, False)
      else if ri_pg_rewind i then (r\<lparr>rw_state := SUCCESS\<rparr>, False)
      else rewind_failure i r)"

text \<open>\<open>read_postmaster_opts\<close>: the options of the running server from \<^verbatim>\<open>postmaster.opts\<close>.\<close>

definition strip_chars :: "string \<Rightarrow> string \<Rightarrow> string" where
  "strip_chars cs s = rev (dropWhile (\<lambda>c. c \<in> set cs) (rev (dropWhile (\<lambda>c. c \<in> set cs) s)))"

definition rstrip_chars :: "string \<Rightarrow> string \<Rightarrow> string" where
  "rstrip_chars cs s = rev (dropWhile (\<lambda>c. c \<in> set cs) (rev s))"

function split_sub :: "string \<Rightarrow> string \<Rightarrow> string list" where
  "split_sub p s = (case str_find s p 0 of
     None \<Rightarrow> [s] | Some k \<Rightarrow> if p = [] then [s] else take k s # split_sub p (drop (k + length p) s))"
  by pat_completeness auto
termination
proof (relation "measure (\<lambda>(p, s). length s)")
  fix p s k
  assume "str_find s p 0 = Some k" "p \<noteq> []"
  then have "k + length p \<le> length s" "length p > 0" using str_find_Some by auto
  then show "((p, drop (k + length p) s), p, s) \<in> measure (\<lambda>(p, s). length s)"
    by (cases p; cases s) auto
qed simp

definition read_postmaster_opts :: "string \<Rightarrow> (string, string) dict" where
  "read_postmaster_opts data = fold (\<lambda>opt d.
       if CHR ''='' \<in> set opt \<and> starts_with opt ''--''
       then dict_set (strip_chars ''-'' (takeWhile (\<lambda>c. c \<noteq> CHR ''='') opt))
              (rstrip_chars [CHR 0x22, newline] (drop 1 (dropWhile (\<lambda>c. c \<noteq> CHR ''='') opt))) d
       else d) (split_sub [CHR 0x22, CHR '' '', CHR 0x22] data) []"

section \<open>Divergence is decided correctly\<close>

text \<open>
  The reference: a position lies in the past of the primary if its timeline is the primary's, or one of its ancestors
  and the position is not behind the point where the primary left it. A server that was shut down as a primary must have
  ended exactly there, so that the checkpoint of its shutdown is the last record the primary knows of that timeline.
\<close>

definition in_past :: "bool \<Rightarrow> int \<Rightarrow> int \<Rightarrow> int \<Rightarrow> int \<Rightarrow> (int \<times> int \<times> string) list \<Rightarrow> bool" where
  "in_past in_recovery checkpoint_end tli lsn primary_timeline history \<longleftrightarrow>
     tli = primary_timeline \<or> tli < primary_timeline
       \<and> (\<exists>switchpoint reason. (tli, switchpoint, reason) \<in> set history
            \<and> (if in_recovery then lsn \<le> switchpoint else lsn < switchpoint \<and> checkpoint_end = switchpoint))"

lemma scan_history_diverged:
  assumes "sorted_wrt (<) (map fst history)"
  shows "scan_history b tli lsn ce history \<longleftrightarrow>
     \<not> (\<exists>switchpoint reason. (tli, switchpoint, reason) \<in> set history
            \<and> (if b then lsn \<le> switchpoint else lsn < switchpoint \<and> ce = switchpoint))"
  using assms
proof (induction history)
  case (Cons h history)
  obtain p sp r where h: "h = (p, sp, r)" by (cases h) auto
  have later: "x > p" if "(x, y, z) \<in> set history" for x y z
    using Cons.prems that unfolding h by (force simp: image_iff)
  show ?case
  proof (cases "p < tli")
    case True
    then show ?thesis using Cons h by auto
  next
    case False
    then have "(tli, y, z) \<notin> set history" for y z using later by fastforce
    then show ?thesis using False h by auto
  qed
qed simp

text \<open>
  C16: Once the primary has told its timeline and history, a rewind is found to be needed exactly when the local position does not
  lie in the past of the primary. The loop stops at the first timeline that is not older than the local one, which is
  right because the timelines of a history increase.
\<close>

theorem rewind_needed_iff_diverged:
  assumes "1 \<le> local_timeline" "sorted_wrt (<) (map fst (parse_history history))" "parse_history history \<noteq> []"
  shows "check_timeline_and_lsn True True (Some in_recovery, Some local_timeline, Some local_lsn)
           (Some (Some (primary_timeline, Some history))) dump state =
         Inr (if in_past in_recovery (get_checkpoint_end local_lsn dump) local_timeline local_lsn primary_timeline (parse_history history)
              then NOT_NEED else NEED)"
  using assms scan_history_diverged [OF assms(2), of in_recovery local_timeline local_lsn "get_checkpoint_end local_lsn dump"]
  by (cases in_recovery) (auto simp: check_timeline_and_lsn_def need_rewind_def in_past_def)

definition demo_history :: string where
  "demo_history = [CHR ''1'', char_of (9 :: int)] @ ''0/3000000'' @ [char_of (9 :: int)] @ ''no recovery target specified'' @ [newline]"

theorem rewind_needed_iff_diverged_witness:
  "check_timeline_and_lsn True True (Some True, Some 1, Some 0x3000000) (Some (Some (2, Some demo_history))) None CHECK = Inr NOT_NEED
   \<and> check_timeline_and_lsn True True (Some True, Some 1, Some 0x3000001) (Some (Some (2, Some demo_history))) None CHECK = Inr NEED"
proof -
  have h: "parse_history demo_history = [(1, 0x3000000, ''no recovery target specified'')]" by code_simp
  have s: "sorted_wrt (<) (map fst (parse_history demo_history))" "parse_history demo_history \<noteq> []" by (simp_all add: h)
  show ?thesis
    using rewind_needed_iff_diverged [OF _ s(1) s(2), where local_timeline = 1 and in_recovery = True and local_lsn = "0x3000000" and primary_timeline = 2 and dump = None and state = CHECK]
      rewind_needed_iff_diverged [OF _ s(1) s(2), where local_timeline = 1 and in_recovery = True and local_lsn = "0x3000001" and primary_timeline = 2 and dump = None and state = CHECK]
    by (simp add: in_past_def h)
qed

section \<open>Running pg\_rewind\<close>

text \<open>
  The data directory is removed only after \<^verbatim>\<open>pg_rewind\<close> was run and failed, and either the leader is still a healthy primary or
  the attempt left the data directory in a state from which no further one is possible; and only if the
  configuration asks for it.
\<close>

theorem execute_removes_only_after_failure:
  assumes "rw_state r = NEED" "rw_execute i r = (r', True)"
  shows "execute_ready i \<and> \<not> ri_pg_rewind i \<and> (ri_leader_healthy_after i \<or> \<not> ri_can_rewind_after i)
     \<and> (ri_remove_on_failure i \<or> ri_remove_on_diverged i) \<and> rw_state r' = INITIAL"
  using assms by (auto simp: rw_execute_def rewind_failure_def rw_failed_def Let_def split: if_splits)

theorem execute_removes_only_after_failure_witness:
  "execute_ready \<lparr>ri_running = False, ri_stopped = False, ri_checkpoint_status = Some True, ri_leader_problem = None,
      ri_leader_healthy_before = True, ri_pg_rewind = False, ri_leader_healthy_after = True, ri_can_rewind_after = True,
      ri_remove_on_failure = True, ri_remove_on_diverged = False\<rparr>"
proof -
  let ?i = "\<lparr>ri_running = False, ri_stopped = False, ri_checkpoint_status = Some True, ri_leader_problem = None,
      ri_leader_healthy_before = True, ri_pg_rewind = False, ri_leader_healthy_after = True, ri_can_rewind_after = True,
      ri_remove_on_failure = True, ri_remove_on_diverged = False\<rparr>"
  let ?r = "\<lparr>rw_state = NEED, rw_checkpoint_task = None\<rparr>"
  have "rw_execute ?i ?r = (rw_reset_state ?r, True)" by code_simp
  from execute_removes_only_after_failure [OF _ this] show ?thesis by simp
qed

text \<open>The log file a run complains about, if it is one that can be fetched.\<close>

definition wants_wal :: "string \<Rightarrow> int option \<times> string \<times> string \<Rightarrow> string option" where
  "wants_wal wal_name run = (case run of (ret, stdout, stderr) \<Rightarrow>
     if ret = None \<or> ret = Some 0 then None
     else (case find_missing_wal wal_name (split_on newline stderr) of Some w \<Rightarrow> Some w
           | None \<Rightarrow> find_missing_wal wal_name (split_on newline stdout)))"

lemma pg_rewind_step:
  "pg_rewind wal_name True runs fetch n (Suc fuel) = (case wants_wal wal_name (runs n) of
     None \<Rightarrow> Some (fst (runs n) = Some 0)
   | Some w \<Rightarrow> if fetch n w then pg_rewind wal_name True runs fetch (Suc n) fuel else Some False)"
  by (cases "runs n") (auto simp: wants_wal_def split: option.splits)

section \<open>What a run asks for\<close>

text \<open>The places at which a text occurs in another one.\<close>

definition occurs :: "string \<Rightarrow> string \<Rightarrow> nat \<Rightarrow> bool" where
  "occurs p s k \<longleftrightarrow> (\<exists>u v. s = u @ p @ v \<and> length u = k)"

lemma occurs_iff: "occurs p s k \<longleftrightarrow> k \<le> length s \<and> starts_with (drop k s) p"
proof
  assume a: "k \<le> length s \<and> starts_with (drop k s) p"
  then have "drop k s = p @ drop (length p) (drop k s)" by (metis append_take_drop_id starts_with_def)
  then have "s = take k s @ p @ drop (length p) (drop k s)" by (metis append_take_drop_id)
  moreover have "length (take k s) = k" using a by simp
  ultimately show "occurs p s k" unfolding occurs_def by blast
qed (auto simp: starts_with_def occurs_def)

text \<open>The first occurrence of \<open>p\<close> in \<open>s\<close> is after \<open>u\<close>.\<close>

definition first_at :: "string \<Rightarrow> string \<Rightarrow> string \<Rightarrow> bool" where
  "first_at p u s \<longleftrightarrow> (\<exists>v. s = u @ p @ v) \<and> (\<forall>u' v'. s = u' @ p @ v' \<longrightarrow> length u \<le> length u')"

lemma first_at_iff: "first_at p u s \<longleftrightarrow> occurs p s (length u) \<and> u = take (length u) s \<and> (\<forall>j < length u. \<not> occurs p s j)"
proof
  assume "first_at p u s"
  then obtain v where "s = u @ p @ v" and least: "\<And>u' v'. s = u' @ p @ v' \<Longrightarrow> length u \<le> length u'"
    unfolding first_at_def by blast
  then show "occurs p s (length u) \<and> u = take (length u) s \<and> (\<forall>j < length u. \<not> occurs p s j)"
    unfolding occurs_def using leD by auto
next
  assume r: "occurs p s (length u) \<and> u = take (length u) s \<and> (\<forall>j < length u. \<not> occurs p s j)"
  then obtain u' v where "s = u' @ p @ v" "length u' = length u" unfolding occurs_def by blast
  moreover from this r have "u' = u" by (metis append_eq_conv_conj)
  moreover have "length u \<le> length u'" if "s = u' @ p @ v'" for u' v' using r that not_less unfolding occurs_def by blast
  ultimately show "first_at p u s" unfolding first_at_def by blast
qed

lemma str_find_first: "str_find (a @ s) p (length a) = Some k \<longleftrightarrow> (\<exists>u. first_at p u s \<and> k = length a + length u)"
proof -
  have "str_find (a @ s) p (length a) = Some k \<longleftrightarrow>
      length a \<le> k \<and> occurs p s (k - length a) \<and> (\<forall>j < k - length a. \<not> occurs p s j)" (is "_ \<longleftrightarrow> ?r")
  proof -
    have at: "starts_with (drop j (a @ s)) p \<and> j \<le> length (a @ s) \<longleftrightarrow> occurs p s (j - length a)" if "length a \<le> j" for j
      using that by (auto simp: occurs_iff)
    have "(\<forall>j. length a \<le> j \<and> j < k \<longrightarrow> \<not> starts_with (drop j (a @ s)) p) \<longleftrightarrow> (\<forall>j < k - length a. \<not> occurs p s j)"
      if "k \<le> length (a @ s)"
    proof safe
      fix j assume h: "\<forall>j. length a \<le> j \<and> j < k \<longrightarrow> \<not> starts_with (drop j (a @ s)) p" "j < k - length a" "occurs p s j"
      from h(1) [rule_format, of "length a + j"] h(2,3) show False using at [of "length a + j"] by auto
    next
      fix j assume h: "\<forall>j < k - length a. \<not> occurs p s j" "length a \<le> j" "j < k" "starts_with (drop j (a @ s)) p"
      then show False using at [of j] that by auto
    qed
    then show ?thesis using at [of k] unfolding str_find_iff by blast
  qed
  also have "\<dots> \<longleftrightarrow> (\<exists>u. first_at p u s \<and> k = length a + length u)"
  proof
    assume r: ?r
    then have le: "length (take (k - length a) s) = k - length a" by (simp add: occurs_iff)
    then have "first_at p (take (k - length a) s) s" using r unfolding first_at_iff by simp
    moreover have "k = length a + length (take (k - length a) s)" using r le by simp
    ultimately show "\<exists>u. first_at p u s \<and> k = length a + length u" by blast
  qed (auto simp: first_at_iff)
  finally show ?thesis .
qed

lemma ends_with_iff: "ends_with s p \<longleftrightarrow> (\<exists>d. s = d @ p)"
proof
  assume "ends_with s p"
  then have "rev s = rev p @ drop (length p) (rev s)"
    by (metis append_take_drop_id ends_with_def length_rev starts_with_def)
  then have "s = rev (drop (length p) (rev s)) @ p" by (metis rev_append rev_rev_ident)
  then show "\<exists>d. s = d @ p" by blast
qed (auto simp: ends_with_def starts_with_def)

lemma rsplit1_split: "c \<in> set f \<Longrightarrow> rsplit1 c f = (d, w) \<longleftrightarrow> f = d @ c # w \<and> c \<notin> set w"
proof
  assume c: "c \<in> set f" and r: "rsplit1 c f = (d, w)"
  obtain a b where f: "f = a @ c # b" "c \<notin> set b" using split_list_last [OF c] by blast
  then have "takeWhile (\<lambda>x. x \<noteq> c) (rev f) = rev b" by (auto simp: takeWhile_append2 takeWhile_tail)
  then show "f = d @ c # w \<and> c \<notin> set w" using r f by (simp add: rsplit1_def Let_def)
next
  assume f: "f = d @ c # w \<and> c \<notin> set w"
  then have "takeWhile (\<lambda>x. x \<noteq> c) (rev f) = rev w" by (auto simp: takeWhile_append2 takeWhile_tail)
  then show "rsplit1 c f = (d, w)" using f by (simp add: rsplit1_def Let_def)
qed

lemma rsplit1_ends:
  assumes "c \<in> set f" "rsplit1 c f = (d, v)"
  shows "(\<exists>dir. f = dir @ p @ c # w) \<and> c \<notin> set w \<longleftrightarrow> ends_with d p \<and> v = w"
proof -
  have "f = dir @ p @ c # w \<and> c \<notin> set w \<longleftrightarrow> d = dir @ p \<and> v = w" for dir
    using rsplit1_split [OF assms(1), of "dir @ p" w] assms(2) by simp
  then show ?thesis unfolding ends_with_iff by metis
qed

text \<open>
  What a line of the output says: after its first \<^verbatim>\<open>could not open file "\<close> and up to the next \<^verbatim>\<open>": \<close> it names the
  file \<open>w\<close> of 24 characters in the directory of the log.
\<close>

definition complains :: "string \<Rightarrow> string \<Rightarrow> string \<Rightarrow> bool" where
  "complains wal_name line w \<longleftrightarrow> (\<exists>pre dir rest.
     line = pre @ ''could not open file '' @ [CHR 0x22] @ rest \<and> first_at (''could not open file '' @ [CHR 0x22]) pre line
     \<and> first_at ([CHR 0x22] @ '': '') (dir @ ''/pg_'' @ wal_name @ ''/'' @ w) rest \<and> CHR ''/'' \<notin> set w \<and> length w = 24)"

lemma missing_wal_complains: "missing_wal_in_line wal_name line = Some w \<longleftrightarrow> complains wal_name line w"
proof -
  define pat where "pat = ''could not open file '' @ [CHR 0x22]"
  define q where "q = [CHR 0x22] @ '': ''"
  have split: "(if CHR ''/'' \<in> set f then (case rsplit1 (CHR ''/'') f of (waldir, wal) \<Rightarrow>
                       if ends_with waldir (''/pg_'' @ wal_name) \<and> length wal = 24 then Some wal else None) else None) = Some w
      \<longleftrightarrow> (\<exists>dir. f = dir @ ''/pg_'' @ wal_name @ ''/'' @ w) \<and> CHR ''/'' \<notin> set w \<and> length w = 24" for f
  proof (cases "CHR ''/'' \<in> set f")
    case True
    obtain d v where r: "rsplit1 (CHR ''/'') f = (d, v)" by fastforce
    from rsplit1_ends [OF True this, of "''/pg_'' @ wal_name" w]
    have "(\<exists>dir. f = dir @ ''/pg_'' @ wal_name @ ''/'' @ w) \<and> CHR ''/'' \<notin> set w
        \<longleftrightarrow> ends_with d (''/pg_'' @ wal_name) \<and> v = w" by simp
    then show ?thesis using True r by simp metis
  qed auto
  have q: "(case str_find (pre @ pat @ rest) q (length (pre @ pat)) of None \<Rightarrow> None
       | Some e \<Rightarrow> let f = drop (length (pre @ pat)) (take e (pre @ pat @ rest)) in
          if CHR ''/'' \<in> set f then (case rsplit1 (CHR ''/'') f of (waldir, wal) \<Rightarrow>
                       if ends_with waldir (''/pg_'' @ wal_name) \<and> length wal = 24 then Some wal else None) else None) = Some w
     \<longleftrightarrow> (\<exists>dir. first_at q (dir @ ''/pg_'' @ wal_name @ ''/'' @ w) rest) \<and> CHR ''/'' \<notin> set w \<and> length w = 24" for pre rest
  proof (cases "str_find ((pre @ pat) @ rest) q (length (pre @ pat))")
    case None
    then show ?thesis using str_find_first [of "pre @ pat" rest q] by auto
  next
    case (Some e)
    then obtain u where u: "first_at q u rest" "e = length (pre @ pat) + length u" unfolding str_find_first by blast
    have "drop (length (pre @ pat)) (take e (pre @ pat @ rest)) = u"
      using u by (auto simp: first_at_def)
    moreover have "first_at q u' rest \<longleftrightarrow> u = u'" for u' using u(1) unfolding first_at_iff by (metis linorder_neqE_nat)
    ultimately show ?thesis using Some split by (simp add: Let_def)
  qed
  show ?thesis
  proof (cases "str_find ([] @ line) pat (length [])")
    case None
    then show ?thesis
      unfolding missing_wal_in_line_def complains_def using str_find_first [of "[]" line pat] by (auto simp: pat_def)
  next
    case (Some b)
    then obtain pre where p: "first_at pat pre line" "b = length pre" using str_find_first [of "[]" line pat b] by auto
    then obtain rest where l: "line = pre @ pat @ rest" unfolding first_at_def by blast
    have "first_at pat pre' line \<longleftrightarrow> pre' = pre" for pre' using p(1) unfolding first_at_iff by (metis linorder_neqE_nat)
    then have "complains wal_name line w \<longleftrightarrow>
        (\<exists>dir. first_at q (dir @ ''/pg_'' @ wal_name @ ''/'' @ w) rest) \<and> CHR ''/'' \<notin> set w \<and> length w = 24"
      unfolding complains_def pat_def [symmetric] q_def [symmetric] using l by (auto simp: pat_def)
    moreover have "missing_wal_in_line wal_name line = (case str_find (pre @ pat @ rest) q (length (pre @ pat)) of None \<Rightarrow> None
       | Some e \<Rightarrow> let f = drop (length (pre @ pat)) (take e (pre @ pat @ rest)) in
          if CHR ''/'' \<in> set f then (case rsplit1 (CHR ''/'') f of (waldir, wal) \<Rightarrow>
                       if ends_with waldir (''/pg_'' @ wal_name) \<and> length wal = 24 then Some wal else None) else None)"
      using Some p(2) l unfolding missing_wal_in_line_def pat_def [symmetric] q_def [symmetric]
      by (simp add: Let_def split: option.split)
    ultimately show ?thesis using q by simp
  qed
qed

definition silent :: "string \<Rightarrow> string list \<Rightarrow> bool" where
  "silent wal_name ls \<longleftrightarrow> (\<forall>l \<in> set ls. \<forall>w. \<not> complains wal_name l w)"

definition first_complaint :: "string \<Rightarrow> string list \<Rightarrow> string \<Rightarrow> bool" where
  "first_complaint wal_name ls w \<longleftrightarrow> (\<exists>before l after. ls = before @ l # after \<and> silent wal_name before \<and> complains wal_name l w)"

lemma find_missing_wal_None: "find_missing_wal wal_name ls = None \<longleftrightarrow> silent wal_name ls"
  by (induction ls) (auto simp: silent_def simp flip: missing_wal_complains split: option.splits)

lemma find_missing_wal_Some: "find_missing_wal wal_name ls = Some w \<longleftrightarrow> first_complaint wal_name ls w"
proof (induction ls)
  case (Cons l ls)
  have "first_complaint wal_name (l # ls) w \<longleftrightarrow>
      complains wal_name l w \<or> (\<forall>w. \<not> complains wal_name l w) \<and> first_complaint wal_name ls w"
  proof
    assume "first_complaint wal_name (l # ls) w"
    then obtain a k b where "l # ls = a @ k # b" "silent wal_name a" "complains wal_name k w" unfolding first_complaint_def by blast
    then show "complains wal_name l w \<or> (\<forall>w. \<not> complains wal_name l w) \<and> first_complaint wal_name ls w"
      by (cases a) (auto simp: first_complaint_def silent_def)
  next
    assume "complains wal_name l w \<or> (\<forall>w. \<not> complains wal_name l w) \<and> first_complaint wal_name ls w"
    then show "first_complaint wal_name (l # ls) w"
    proof
      assume "complains wal_name l w"
      then have "l # ls = [] @ l # ls \<and> silent wal_name [] \<and> complains wal_name l w" by (simp add: silent_def)
      then show ?thesis unfolding first_complaint_def by blast
    next
      assume r: "(\<forall>w. \<not> complains wal_name l w) \<and> first_complaint wal_name ls w"
      then obtain a k b where "ls = a @ k # b" "silent wal_name a" "complains wal_name k w" unfolding first_complaint_def by blast
      with r have "l # ls = (l # a) @ k # b \<and> silent wal_name (l # a) \<and> complains wal_name k w" by (simp add: silent_def)
      then show ?thesis unfolding first_complaint_def by blast
    qed
  qed
  then show ?case using Cons by (auto simp flip: missing_wal_complains split: option.split)
qed (simp add: first_complaint_def)

text \<open>The file a run asks for: the first one its error output complains about, or else the first one in its output.\<close>

definition asks_for :: "string \<Rightarrow> int option \<times> string \<times> string \<Rightarrow> string \<Rightarrow> bool" where
  "asks_for wal_name run w = (case run of (ret, stdout, stderr) \<Rightarrow> ret \<noteq> None \<and> ret \<noteq> Some 0
     \<and> (first_complaint wal_name (split_on newline stderr) w
        \<or> silent wal_name (split_on newline stderr) \<and> first_complaint wal_name (split_on newline stdout) w))"

lemma wants_wal_asks: "wants_wal wal_name run = Some w \<longleftrightarrow> asks_for wal_name run w"
  by (auto simp: wants_wal_def asks_for_def simp flip: find_missing_wal_Some find_missing_wal_None split: prod.split option.split)

text \<open>A round is repeated when the file asked for could be fetched.\<close>

definition repeats :: "string \<Rightarrow> (nat \<Rightarrow> int option \<times> string \<times> string) \<Rightarrow> (nat \<Rightarrow> string \<Rightarrow> bool) \<Rightarrow> nat \<Rightarrow> bool" where
  "repeats wal_name runs fetch n \<longleftrightarrow> (\<exists>w. asks_for wal_name (runs n) w \<and> fetch n w)"

lemma pg_rewind_round:
  "pg_rewind wal_name True runs fetch n (Suc fuel) =
     (if repeats wal_name runs fetch n then pg_rewind wal_name True runs fetch (Suc n) fuel
      else Some (fst (runs n) = Some 0))"
proof (cases "wants_wal wal_name (runs n)")
  case None
  then have "\<not> repeats wal_name runs fetch n" by (simp add: repeats_def flip: wants_wal_asks)
  then show ?thesis using None by (simp only: pg_rewind_step) simp
next
  case (Some w)
  then have "repeats wal_name runs fetch n \<longleftrightarrow> fetch n w" by (simp add: repeats_def flip: wants_wal_asks)
  moreover have "fst (runs n) \<noteq> Some 0" using Some by (auto simp: wants_wal_def split: prod.splits)
  ultimately show ?thesis using Some by (simp only: pg_rewind_step) simp
qed

lemma pg_rewind_forward:
  "pg_rewind wal_name True runs fetch k fuel = Some r \<Longrightarrow>
     \<exists>n \<ge> k. (\<forall>m. k \<le> m \<and> m < n \<longrightarrow> repeats wal_name runs fetch m) \<and> \<not> repeats wal_name runs fetch n
        \<and> r = (fst (runs n) = Some 0)"
proof (induction fuel arbitrary: k)
  case (Suc fuel)
  show ?case
  proof (cases "repeats wal_name runs fetch k")
    case True
    with Suc.prems have "pg_rewind wal_name True runs fetch (Suc k) fuel = Some r" by (simp only: pg_rewind_round if_True)
    from Suc.IH [OF this] obtain n where n: "Suc k \<le> n" "\<forall>m. Suc k \<le> m \<and> m < n \<longrightarrow> repeats wal_name runs fetch m"
      "\<not> repeats wal_name runs fetch n" "r = (fst (runs n) = Some 0)" by blast
    have "repeats wal_name runs fetch m" if "k \<le> m" "m < n" for m
      using n(2) True that by (cases "m = k") auto
    with n show ?thesis by (intro exI [of _ n]) auto
  next
    case False
    then have "r = (fst (runs k) = Some 0)" using Suc.prems by (simp only: pg_rewind_round if_False option.inject)
    with False show ?thesis by (intro exI [of _ k]) auto
  qed
qed simp

lemma pg_rewind_backward:
  "\<forall>m. k \<le> m \<and> m < k + j \<longrightarrow> repeats wal_name runs fetch m \<Longrightarrow> \<not> repeats wal_name runs fetch (k + j) \<Longrightarrow>
     pg_rewind wal_name True runs fetch k (Suc j) = Some (fst (runs (k + j)) = Some 0)"
proof (induction j arbitrary: k)
  case (Suc j)
  then have "pg_rewind wal_name True runs fetch (Suc k) (Suc j) = Some (fst (runs (Suc k + j)) = Some 0)" by (intro Suc.IH) auto
  moreover have "repeats wal_name runs fetch k" using Suc.prems by simp
  ultimately show ?case by (subst pg_rewind_round) (simp del: pg_rewind.simps)
qed (simp only: pg_rewind_round, simp)

text \<open>
  C29: what becomes of the loop around \<^verbatim>\<open>pg_rewind\<close> when a restore command is used. It returns exactly if some run is not
  repeated, that is, does not ask for a log file that is then fetched with success; and the result of the first such run,
  whether it ended with exit code 0, is the result of the loop. A run asks for a file if it ended with another exit code and
  some line of its error output, or else of its output, says that a file with a name of 24 characters in the
  directory of the log could not be opened; the first such line counts. In particular, a restore command that reports success
  without providing the file makes the loop run forever.
\<close>

theorem pg_rewind_outcome:
  "(\<exists>fuel. pg_rewind wal_name True runs fetch 0 fuel = Some r) \<longleftrightarrow>
   (\<exists>n. (\<forall>m < n. repeats wal_name runs fetch m) \<and> \<not> repeats wal_name runs fetch n \<and> r = (fst (runs n) = Some 0))"
proof
  assume "\<exists>fuel. pg_rewind wal_name True runs fetch 0 fuel = Some r"
  then show "\<exists>n. (\<forall>m < n. repeats wal_name runs fetch m) \<and> \<not> repeats wal_name runs fetch n \<and> r = (fst (runs n) = Some 0)"
    using pg_rewind_forward [of wal_name runs fetch 0] by blast
next
  assume "\<exists>n. (\<forall>m < n. repeats wal_name runs fetch m) \<and> \<not> repeats wal_name runs fetch n \<and> r = (fst (runs n) = Some 0)"
  then obtain n where n: "\<forall>m < n. repeats wal_name runs fetch m" "\<not> repeats wal_name runs fetch n" "r = (fst (runs n) = Some 0)"
    by blast
  with pg_rewind_backward [of 0 n wal_name runs fetch] have "pg_rewind wal_name True runs fetch 0 (Suc n) = Some r"
    by (simp del: pg_rewind.simps)
  then show "\<exists>fuel. pg_rewind wal_name True runs fetch 0 fuel = Some r" by blast
qed

text \<open>The first run misses a file, which is fetched; the second one succeeds.\<close>

theorem pg_rewind_outcome_witness:
  "\<exists>fuel. pg_rewind ''wal'' True
     (\<lambda>n. if n = 0 then (Some 1, [], ''could not open file '' @ [CHR 0x22] @ ''/d/pg_wal/0000000A00006AA100000068'' @ [CHR 0x22] @ '': No'')
          else (Some 0, [], [])) (\<lambda>_ _. True) 0 fuel = Some True"
proof -
  let ?err = "''could not open file '' @ [CHR 0x22] @ ''/d/pg_wal/0000000A00006AA100000068'' @ [CHR 0x22] @ '': No''"
  let ?runs = "\<lambda>n :: nat. if n = 0 then (Some 1, [], ?err) else (Some 0 :: int option, [], [])"
  have "wants_wal ''wal'' (Some 1, [], ?err) = Some ''0000000A00006AA100000068''" by code_simp
  then have "repeats ''wal'' ?runs (\<lambda>_ _. True) 0" unfolding repeats_def wants_wal_asks [symmetric] by simp
  moreover have "\<not> repeats ''wal'' ?runs (\<lambda>_ _. True) 1" by (simp add: repeats_def asks_for_def)
  ultimately show ?thesis
    by (intro iffD2 [OF pg_rewind_outcome] exI [of _ 1]) simp
qed

section \<open>Archive commands\<close>

definition escape_percent :: "string \<Rightarrow> string" where
  "escape_percent s = concat (map (\<lambda>c. if c = CHR ''%'' then ''%%'' else [c]) s)"

text \<open>
  A text in which every percent sign is doubled is what the archive or restore command gets to see, so any text can be
  passed to it.
\<close>

theorem archiver_command_roundtrip: "build_archiver_command wal_dir wal (escape_percent s) = s"
proof (induction s)
  case (Cons c s)
  have plain: "build_archiver_command wal_dir wal (c # t) = c # build_archiver_command wal_dir wal t" if "c \<noteq> CHR ''%''" for t
    using that by (cases t) simp_all
  show ?case using Cons plain by (auto simp: escape_percent_def)
qed (simp add: escape_percent_def)

end
