(* ===== verification/Citus.thy ===== *)
theory Citus
  imports PgMisc
begin

text \<open>
  Citus groups of \<^verbatim>\<open>patroni/postgresql/mpp/citus.py\<close>: the rows of \<^verbatim>\<open>pg_dist_node\<close>, the transitions from a registered
  topology to a new one and the constraints of the table. Python sets hold at most one node per host and
  port; they are lists here, and \<^verbatim>\<open>pop\<close> takes the first element, so the theorems hold for every order a set may have.
\<close>

section \<open>Nodes and groups\<close>

record pg_dist_node =
  dn_host :: string
  dn_port :: int
  dn_role :: string
  dn_nodeid :: "int option"

text \<open>Nodes are compared by host and port.\<close>

definition dn_key :: "pg_dist_node \<Rightarrow> string \<times> int" where
  "dn_key n = (dn_host n, dn_port n)"

definition dn_is_primary :: "pg_dist_node \<Rightarrow> bool" where
  "dn_is_primary n \<longleftrightarrow> dn_role n \<in> {''primary'', ''demoted''}"

definition dn_as_tuple :: "pg_dist_node \<Rightarrow> string \<times> int \<times> string" where
  "dn_as_tuple n = (dn_host n, dn_port n, dn_role n)"

record pg_dist_group =
  dg_failover :: bool
  dg_groupid :: int
  dg_nodes :: "pg_dist_node list"

definition dg_equals :: "pg_dist_group \<Rightarrow> pg_dist_group \<Rightarrow> bool" where
  "dg_equals g h \<longleftrightarrow> dg_groupid g = dg_groupid h \<and> dn_as_tuple ` set (dg_nodes g) = dn_as_tuple ` set (dg_nodes h)"

definition dn_primary :: "pg_dist_node list \<Rightarrow> pg_dist_node option" where
  "dn_primary ns = List.find dn_is_primary ns"

definition dn_get :: "pg_dist_node list \<Rightarrow> pg_dist_node \<Rightarrow> pg_dist_node option" where
  "dn_get ns v = List.find (\<lambda>n. dn_key n = dn_key v) ns"

text \<open>An assignment to a node changes it in the set it belongs to.\<close>

definition dn_put :: "pg_dist_node \<Rightarrow> pg_dist_node list \<Rightarrow> pg_dist_node list" where
  "dn_put n ns = map (\<lambda>m. if dn_key m = dn_key n then n else m) ns"

definition dn_minus :: "pg_dist_node list \<Rightarrow> pg_dist_node list \<Rightarrow> pg_dist_node list" where
  "dn_minus ns ms = filter (\<lambda>n. dn_key n \<notin> dn_key ` set ms) ns"

section \<open>Transitions\<close>

text \<open>What \<open>transition\<close> has yielded so far, and its variables.\<close>

record transition_state =
  ts_yield :: "pg_dist_node list"
  ts_self :: "pg_dist_node list"
  ts_old :: "pg_dist_node list"
  ts_gone :: "pg_dist_node list"
  ts_added :: "pg_dist_node list"
  ts_failover :: bool

text \<open>The new primary was registered as a secondary.\<close>

definition failover_registered ::
  "pg_dist_node \<Rightarrow> pg_dist_node \<Rightarrow> pg_dist_node \<Rightarrow> pg_dist_node option \<Rightarrow> transition_state \<Rightarrow> transition_state" where
  "failover_registered np op npo opn t =
     (let np' = np\<lparr>dn_nodeid := dn_nodeid op\<rparr> in
      if opn = None \<and> ts_added t \<noteq> [] then
        (let a = (hd (ts_added t))\<lparr>dn_nodeid := dn_nodeid npo\<rparr> in
         t\<lparr>ts_yield := ts_yield t @ [a, np'], ts_self := dn_put np' (dn_put a (ts_self t)),
           ts_old := dn_put (op\<lparr>dn_role := ''secondary''\<rparr>) (ts_old t), ts_added := List.tl (ts_added t)\<rparr>)
      else
        (let demote = (dn_role op = ''primary''); op' = (if demote then op\<lparr>dn_role := ''demoted''\<rparr> else op);
             o' = (case opn of Some x \<Rightarrow> x\<lparr>dn_nodeid := dn_nodeid npo\<rparr>
                   | None \<Rightarrow> \<lparr>dn_host = dn_host op, dn_port = dn_port op, dn_role = dn_role npo, dn_nodeid = dn_nodeid npo\<rparr>);
             self = (case opn of Some _ \<Rightarrow> dn_put o' (ts_self t) | None \<Rightarrow> ts_self t @ [o'])
         in t\<lparr>ts_yield := ts_yield t @ (if demote then [op'] else []) @ [o', np'], ts_self := dn_put np' self,
              ts_old := dn_put op' (ts_old t)\<rparr>))"

text \<open>The new primary was never registered.\<close>

definition failover_unregistered ::
  "pg_dist_node \<Rightarrow> pg_dist_node \<Rightarrow> pg_dist_node option \<Rightarrow> transition_state \<Rightarrow> transition_state" where
  "failover_unregistered np op opn t =
     (let np' = np\<lparr>dn_nodeid := dn_nodeid op\<rparr>;
          t' = t\<lparr>ts_yield := ts_yield t @ [np'], ts_self := dn_put np' (ts_self t)\<rparr>
      in if ts_gone t = [] then t'
         else
           (let g = hd (ts_gone t) in
            case opn of
              Some x \<Rightarrow>
                (let o' = x\<lparr>dn_nodeid := dn_nodeid g\<rparr> in
                 t'\<lparr>ts_yield := ts_yield t' @ [o'], ts_self := dn_put o' (ts_self t'), ts_gone := List.tl (ts_gone t)\<rparr>)
            | None \<Rightarrow>
                if dn_role op = ''demoted'' \<and> length (ts_gone t) > length (ts_added t) then
                  (let o' = \<lparr>dn_host = dn_host op, dn_port = dn_port op, dn_role = ''secondary'', dn_nodeid = dn_nodeid g\<rparr> in
                   t'\<lparr>ts_yield := ts_yield t' @ [o'], ts_self := ts_self t' @ [o'], ts_gone := List.tl (ts_gone t)\<rparr>)
                else t'))"

definition transition_primary :: "pg_dist_node \<Rightarrow> pg_dist_node option \<Rightarrow> transition_state \<Rightarrow> transition_state" where
  "transition_primary np old_primary t = (case old_primary of
     None \<Rightarrow> t\<lparr>ts_yield := ts_yield t @ [np]\<rparr>
   | Some op \<Rightarrow>
       if dn_key op = dn_key np then
         (let np' = np\<lparr>dn_nodeid := dn_nodeid op\<rparr>; changed = (dn_role op \<noteq> dn_role np) in
          t\<lparr>ts_yield := ts_yield t @ (if changed then [np'] else []), ts_self := dn_put np' (ts_self t),
            ts_failover := ts_failover t \<or> changed\<rparr>)
       else
         (let t' = t\<lparr>ts_failover := True\<rparr>; opn = dn_get (ts_self t) op in
          case dn_get (ts_old t) np of
            Some npo \<Rightarrow> failover_registered np op npo opn t'
          | None \<Rightarrow> failover_unregistered np op opn t'))"

text \<open>Secondaries that stay get the identifier of their row.\<close>

definition fill_nodeids :: "transition_state \<Rightarrow> transition_state" where
  "fill_nodeids t = t\<lparr>ts_self := map (\<lambda>n.
     if \<not> dn_is_primary n \<and> dn_nodeid n \<in> {None, Some 0}
     then (case List.find (\<lambda>m. \<not> dn_is_primary m \<and> dn_key m = dn_key n) (ts_old t) of
             None \<Rightarrow> n | Some m \<Rightarrow> n\<lparr>dn_nodeid := dn_nodeid m\<rparr>)
     else n) (ts_self t)\<rparr>"

text \<open>Rows of secondaries that are gone are reused for new ones.\<close>

fun reuse_rows :: "pg_dist_node list \<Rightarrow> pg_dist_node list \<Rightarrow> transition_state \<Rightarrow> transition_state" where
  "reuse_rows (g # gone) (a # added) t =
     (let a' = a\<lparr>dn_nodeid := dn_nodeid g\<rparr> in
      reuse_rows gone added (t\<lparr>ts_yield := ts_yield t @ [a'], ts_self := dn_put a' (ts_self t), ts_gone := gone, ts_added := added\<rparr>))"
| "reuse_rows gone added t = t"

definition finish_transition :: "transition_state \<Rightarrow> transition_state" where
  "finish_transition t =
     (if ts_failover t
      then t\<lparr>ts_self := dn_minus (ts_self t @ dn_minus (ts_gone t) (ts_self t)) (ts_added t)\<rparr>
      else t\<lparr>ts_yield := ts_yield t @ map (\<lambda>g. \<lparr>dn_host = dn_host g, dn_port = dn_port g, dn_role = [], dn_nodeid = None\<rparr>) (ts_gone t)
               @ ts_added t\<rparr>)"

text \<open>\<open>PgDistGroup.transition\<close>; \<open>None\<close> when the assertion fails that the new topology has a primary.\<close>

definition transition_start :: "bool \<Rightarrow> pg_dist_node list \<Rightarrow> pg_dist_node list \<Rightarrow> pg_dist_node \<Rightarrow> transition_state" where
  "transition_start failover self old np =
     \<lparr>ts_yield = [], ts_self = self, ts_old = old,
      ts_gone = dn_minus (dn_minus old self) (case dn_primary old of None \<Rightarrow> [] | Some op \<Rightarrow> [op]),
      ts_added = dn_minus (dn_minus self old) [np], ts_failover = failover\<rparr>"

definition pg_transition :: "pg_dist_group \<Rightarrow> pg_dist_group \<Rightarrow> (pg_dist_node list \<times> pg_dist_group) option" where
  "pg_transition g old = (case dn_primary (dg_nodes g) of
     None \<Rightarrow> None
   | Some np \<Rightarrow>
       (let t1 = transition_primary np (dn_primary (dg_nodes old))
                   (transition_start (dg_failover old) (dg_nodes g) (dg_nodes old) np);
            t2 = fill_nodeids t1;
            t3 = reuse_rows (ts_gone t2) (ts_added t2) t2;
            t4 = finish_transition t3
        in Some (ts_yield t4, g\<lparr>dg_failover := ts_failover t4, dg_nodes := ts_self t4\<rparr>)))"

text \<open>The old topology as the transition leaves it: the role of the old primary may have changed.\<close>

definition transition_old :: "pg_dist_group \<Rightarrow> pg_dist_group \<Rightarrow> pg_dist_node list" where
  "transition_old g old = (case dn_primary (dg_nodes g) of
     None \<Rightarrow> dg_nodes old
   | Some np \<Rightarrow> ts_old (transition_primary np (dn_primary (dg_nodes old)) (transition_start (dg_failover old) (dg_nodes g) (dg_nodes old) np)))"

section \<open>The table\<close>

text \<open>
  The table the transitions are applied to: the rows of a group with their identifier, name, port and whether the row is the one
  of the primary. \<open>update_node\<close> sends one statement per transition. What Citus accepts is stated by the rules in
  the documentation of \<^verbatim>\<open>transition\<close>: a row that is updated or removed exists, and name and port are unique; the result is \<open>None\<close>
  when the statement breaks one of them.
\<close>

type_synonym dist_row = "int \<times> string \<times> int \<times> bool"

definition node_name :: "pg_dist_node \<Rightarrow> string" where
  "node_name n = dn_host n @ (if dn_role n = ''demoted'' then ''-demoted'' else [])"

definition update_node :: "int \<Rightarrow> pg_dist_node \<Rightarrow> dist_row set \<Rightarrow> dist_row set option" where
  "update_node fresh n T =
     (if dn_role n \<notin> {''primary'', ''secondary'', ''demoted''} then
        (if (dn_host n, dn_port n) \<in> (\<lambda>(i, h, p, b). (h, p)) ` T then Some (Set.filter (\<lambda>(i, h, p, b). (h, p) \<noteq> (dn_host n, dn_port n)) T) else None)
      else (case dn_nodeid n of
          Some i \<Rightarrow>
            if i \<in> fst ` T \<and> (\<forall>(j, h, p, b) \<in> T. j \<noteq> i \<longrightarrow> (h, p) \<noteq> (node_name n, dn_port n))
            then Some ((\<lambda>(j, h, p, b). if j = i then (i, node_name n, dn_port n, b) else (j, h, p, b)) ` T) else None
        | None \<Rightarrow>
            if dn_role n = ''demoted'' then Some T
            else if (dn_host n, dn_port n) \<in> (\<lambda>(i, h, p, b). (h, p)) ` T then None
            else Some (insert (fresh, dn_host n, dn_port n, dn_role n = ''primary'') T)))"

fun update_nodes :: "int \<Rightarrow> pg_dist_node list \<Rightarrow> dist_row set \<Rightarrow> dist_row set option" where
  "update_nodes fresh [] T = Some T"
| "update_nodes fresh (n # ns) T = (case update_node fresh n T of None \<Rightarrow> None | Some T' \<Rightarrow> update_nodes (fresh + 1) ns T')"

end
