(* ===== verification/CitusSound.thy ===== *)
theory CitusSound
  imports Citus
begin

text \<open>
  The transitions of a Citus group respect the constraints of \<^verbatim>\<open>pg_dist_node\<close> one by one and lead to a table that
  holds the new topology.
\<close>

section \<open>Addresses\<close>

definition plain_host :: "pg_dist_node \<Rightarrow> bool" where
  "plain_host n \<longleftrightarrow> drop (length (dn_host n) - 8) (dn_host n) \<noteq> ''-demoted''"

lemma plain_host_append: "plain_host n \<Longrightarrow> dn_host n \<noteq> h @ ''-demoted''"
  by (auto simp: plain_host_def)

definition node_addr :: "pg_dist_node \<Rightarrow> string \<times> int" where
  "node_addr n = (node_name n, dn_port n)"

lemma node_addr_eq:
  "plain_host n \<Longrightarrow> plain_host m \<Longrightarrow>
   node_addr n = node_addr m \<longleftrightarrow> dn_key n = dn_key m \<and> (dn_role n = ''demoted'') = (dn_role m = ''demoted'')"
  using plain_host_append [of n "dn_host m"] plain_host_append [of m "dn_host n"]
  by (auto simp: node_addr_def node_name_def dn_key_def)

definition row_of :: "pg_dist_node \<Rightarrow> dist_row" where
  "row_of n = (the (dn_nodeid n), node_name n, dn_port n, dn_is_primary n)"

text \<open>The table holds exactly the rows of a set of nodes with identifiers.\<close>

definition rep :: "dist_row set \<Rightarrow> pg_dist_node set \<Rightarrow> bool" where
  "rep T G \<longleftrightarrow> T = row_of ` G \<and> (\<forall>n \<in> G. dn_nodeid n \<noteq> None) \<and> inj_on dn_nodeid G \<and> inj_on node_addr G"

lemma inj_on_exchange:
  assumes "inj_on f G" "\<And>x. x \<in> G \<Longrightarrow> x \<noteq> m \<Longrightarrow> f x \<noteq> f n"
  shows "inj_on f (insert n (G - {m}))"
  using assms(1) assms(2) by (intro inj_onI) (metis DiffE inj_onD insertE singletonI)

lemma filter_image_without:
  assumes "\<And>x. x \<in> G \<Longrightarrow> P (f x) \<longleftrightarrow> x \<noteq> g"
  shows "Set.filter P (f ` G) = f ` (G - {g})"
proof -
  have "{y \<in> f ` G. P y} = f ` {x \<in> G. P (f x)}" by blast
  also have "{x \<in> G. P (f x)} = G - {g}" using assms by blast
  finally show ?thesis by simp
qed

lemma rep_place:
  assumes r: "rep T G" and n: "dn_nodeid n = Some i" "dn_role n \<in> {''primary'', ''secondary'', ''demoted''}"
    and m: "m \<in> G" "dn_nodeid m = Some i" "dn_is_primary n = dn_is_primary m"
    and addr: "\<And>x. x \<in> G \<Longrightarrow> x \<noteq> m \<Longrightarrow> node_addr x \<noteq> node_addr n"
  shows "\<exists>T'. update_node f n T = Some T' \<and> rep T' (insert n (G - {m}))"
proof -
  have T: "T = row_of ` G" and ids: "\<And>x. x \<in> G \<Longrightarrow> dn_nodeid x \<noteq> None" and inj: "inj_on dn_nodeid G" "inj_on node_addr G"
    using r by (auto simp: rep_def)
  have other: "dn_nodeid x \<noteq> Some i" "the (dn_nodeid x) \<noteq> i" if "x \<in> G" "x \<noteq> m" for x
    using inj_onD [OF inj(1), of x m] m(1,2) that ids [OF that(1)] by (metis, metis option.collapse)
  let ?T' = "(\<lambda>(j, h, p, b). if j = i then (i, node_name n, dn_port n, b) else (j, h, p, b)) ` T"
  have "i \<in> fst ` T" using m by (force simp: T row_of_def)
  moreover have "\<forall>(j, h, p, b) \<in> T. j \<noteq> i \<longrightarrow> (h, p) \<noteq> (node_name n, dn_port n)"
    using addr m by (fastforce simp: T row_of_def node_addr_def)
  ultimately have up: "update_node f n T = Some ?T'" using n unfolding update_node_def by auto
  have "?T' = row_of ` insert n (G - {m})"
  proof -
    have "(\<lambda>(j, h, p, b). if j = i then (i, node_name n, dn_port n, b) else (j, h, p, b)) (row_of x)
        = (if x = m then row_of n else row_of x)" if "x \<in> G" for x
      using that other m n by (auto simp: row_of_def)
    then have "?T' = (\<lambda>x. if x = m then row_of n else row_of x) ` G"
      unfolding T image_image by (rule image_cong [OF refl])
    then show ?thesis using m(1) by auto
  qed
  moreover have "inj_on dn_nodeid (insert n (G - {m}))" "inj_on node_addr (insert n (G - {m}))"
    by (rule inj_on_exchange [OF inj(1)]; simp add: n(1) other(1)) (rule inj_on_exchange [OF inj(2) addr])
  ultimately have "rep ?T' (insert n (G - {m}))" using ids n(1) by (auto simp: rep_def)
  with up show ?thesis by blast
qed

lemma rep_remove:
  assumes r: "rep T G" and g: "g \<in> G" "dn_role g \<noteq> ''demoted''"
    and n: "dn_host n = dn_host g" "dn_port n = dn_port g" "dn_role n = []"
  shows "\<exists>T'. update_node f n T = Some T' \<and> rep T' (G - {g})"
proof -
  have T: "T = row_of ` G" and inj: "inj_on node_addr G" using r by (auto simp: rep_def)
  have g': "node_addr g = (dn_host n, dn_port n)" using g n by (simp add: node_addr_def node_name_def)
  let ?T' = "Set.filter (\<lambda>(i, h, p, b). (h, p) \<noteq> (dn_host n, dn_port n)) T"
  have "(dn_host n, dn_port n) \<in> (\<lambda>(i, h, p, b). (h, p)) ` T"
    using g' unfolding T by (intro rev_image_eqI [OF imageI [OF g(1)]]) (simp add: row_of_def node_addr_def)
  moreover have "dn_role n \<notin> {''primary'', ''secondary'', ''demoted''}" using n(3) by simp
  ultimately have "update_node f n T = Some ?T'" unfolding update_node_def by (simp only: if_True if_False simp_thms if_P)
  moreover have "?T' = row_of ` (G - {g})"
  proof -
    have "(case row_of x of (i, h, p, b) \<Rightarrow> (h, p) \<noteq> (dn_host n, dn_port n)) \<longleftrightarrow> x \<noteq> g" if "x \<in> G" for x
      using inj_onD [OF inj _ that g(1)] g' by (auto simp: row_of_def node_addr_def)
    then show ?thesis unfolding T by (rule filter_image_without)
  qed
  moreover have "inj_on dn_nodeid (G - {g})" "inj_on node_addr (G - {g})" using r by (auto simp: rep_def intro: inj_on_subset)
  ultimately show ?thesis using r by (auto simp: rep_def)
qed

text \<open>Nodes that are added get a new identifier.\<close>

definition matches :: "dist_row set \<Rightarrow> pg_dist_node set \<Rightarrow> bool" where
  "matches T M \<longleftrightarrow> inj_on fst T \<and> inj_on (\<lambda>(i, h, p, b). (h, p)) T
     \<and> (\<lambda>(i, h, p, b). (h, p, b)) ` T = (\<lambda>n. (node_name n, dn_port n, dn_is_primary n)) ` M
     \<and> (\<forall>n \<in> M. dn_nodeid n \<noteq> None \<longrightarrow> row_of n \<in> T)"

lemma rep_matches:
  assumes "rep T G"
  shows "matches T G"
proof -
  have T: "T = row_of ` G" and ids: "\<And>x. x \<in> G \<Longrightarrow> dn_nodeid x \<noteq> None" and inj: "inj_on dn_nodeid G" "inj_on node_addr G"
    using assms by (auto simp: rep_def)
  have "inj_on fst T"
  proof (rule inj_onI)
    fix r r' assume "r \<in> T" "r' \<in> T" "fst r = fst r'"
    then obtain x y where "x \<in> G" "y \<in> G" "r = row_of x" "r' = row_of y" "the (dn_nodeid x) = the (dn_nodeid y)"
      by (auto simp: T row_of_def)
    with ids inj(1) show "r = r'" by (metis inj_onD option.expand)
  qed
  moreover have "inj_on (\<lambda>(i, h, p, b). (h, p)) T"
  proof (rule inj_onI)
    fix r r' assume "r \<in> T" "r' \<in> T" "(case r of (i, h, p, b) \<Rightarrow> (h, p)) = (case r' of (i, h, p, b) \<Rightarrow> (h, p))"
    then obtain x y where "x \<in> G" "y \<in> G" "r = row_of x" "r' = row_of y" "node_addr x = node_addr y"
      by (auto simp: T row_of_def node_addr_def)
    with inj(2) show "r = r'" by (metis inj_onD)
  qed
  moreover have "(\<lambda>(i, h, p, b). (h, p, b)) ` T = (\<lambda>n. (node_name n, dn_port n, dn_is_primary n)) ` G"
    by (simp add: T image_image row_of_def)
  ultimately show ?thesis by (simp add: matches_def T)
qed

lemma matches_add:
  assumes m: "matches T M" and n: "dn_nodeid n = None" "dn_role n \<in> {''primary'', ''secondary''}"
    and fresh: "f \<notin> fst ` T" and addr: "node_addr n \<notin> node_addr ` M"
  shows "\<exists>T'. update_node f n T = Some T' \<and> matches T' (insert n M) \<and> fst ` T' = insert f (fst ` T)"
proof -
  have name: "node_name n = dn_host n" using n by (auto simp: node_name_def)
  have "(\<lambda>(i, h, p, b). (h, p)) ` T = node_addr ` M"
  proof -
    have "(\<lambda>(h, p, b). (h, p)) ` (\<lambda>(i, h, p, b). (h, p, b)) ` T = (\<lambda>(h, p, b). (h, p)) ` (\<lambda>n. (node_name n, dn_port n, dn_is_primary n)) ` M"
      using m unfolding matches_def by simp
    then show ?thesis by (simp add: image_image node_addr_def case_prod_beta)
  qed
  then have new: "(dn_host n, dn_port n) \<notin> (\<lambda>(i, h, p, b). (h, p)) ` T" using addr name by (simp add: node_addr_def)
  let ?T' = "insert (f, dn_host n, dn_port n, dn_role n = ''primary'') T"
  have "update_node f n T = Some ?T'" using n new by (auto simp: update_node_def)
  moreover have "matches ?T' (insert n M)"
    using m new fresh n name unfolding matches_def
    by (auto simp: inj_on_insert dn_is_primary_def image_iff)
  ultimately show ?thesis by auto
qed

section \<open>Running several transitions\<close>

lemma update_nodes_append:
  "update_nodes f (ms @ ns) T = (case update_nodes f ms T of None \<Rightarrow> None | Some T' \<Rightarrow> update_nodes (f + int (length ms)) ns T')"
  by (induction ms arbitrary: f T) (auto simp: algebra_simps split: option.splits)

text \<open>The transitions succeed and lead to a table that holds exactly a set of nodes.\<close>

definition leads :: "int \<Rightarrow> dist_row set \<Rightarrow> pg_dist_node list \<Rightarrow> pg_dist_node set \<Rightarrow> bool" where
  "leads f T ns G \<longleftrightarrow> (\<exists>T'. update_nodes f ns T = Some T' \<and> rep T' G)"

lemma leads_snoc:
  assumes "leads f T ns G" "\<And>f' T'. rep T' G \<Longrightarrow> \<exists>T''. update_node f' n T' = Some T'' \<and> rep T'' G'"
  shows "leads f T (ns @ [n]) G'"
proof -
  obtain T' where T': "update_nodes f ns T = Some T'" "rep T' G" using assms(1) by (auto simp: leads_def)
  with assms(2) [of T' "f + int (length ns)"] show ?thesis by (auto simp: leads_def update_nodes_append)
qed

lemma leads_place:
  assumes "leads f T ns G" "dn_nodeid n = Some i" "dn_role n \<in> {''primary'', ''secondary'', ''demoted''}"
    and "m \<in> G" "dn_nodeid m = Some i" "dn_is_primary n = dn_is_primary m"
    and "\<And>x. x \<in> G \<Longrightarrow> x \<noteq> m \<Longrightarrow> node_addr x \<noteq> node_addr n"
  shows "leads f T (ns @ [n]) (insert n (G - {m}))"
  using assms(1) by (rule leads_snoc) (rule rep_place [OF _ assms(2-7)])

lemma leads_remove_all:
  assumes "leads f T ns G" "set gs \<subseteq> G" "distinct gs" "\<forall>g \<in> set gs. dn_role g = ''secondary''"
  shows "leads f T (ns @ map (\<lambda>g. \<lparr>dn_host = dn_host g, dn_port = dn_port g, dn_role = [], dn_nodeid = None\<rparr>) gs) (G - set gs)"
  using assms
proof (induction gs arbitrary: ns G)
  case (Cons g gs)
  let ?n = "\<lparr>dn_host = dn_host g, dn_port = dn_port g, dn_role = [], dn_nodeid = None\<rparr>"
  have "leads f T (ns @ [?n]) (G - {g})"
    using Cons.prems by (intro leads_snoc [OF Cons.prems(1)] rep_remove) auto
  then have "leads f T ((ns @ [?n]) @ map (\<lambda>g. \<lparr>dn_host = dn_host g, dn_port = dn_port g, dn_role = [], dn_nodeid = None\<rparr>) gs) (G - {g} - set gs)"
    by (rule Cons.IH) (use Cons.prems in auto)
  moreover have "G - {g} - set gs = G - set (g # gs)" by auto
  ultimately show ?case by simp
qed simp

lemma matches_add_all:
  assumes "matches T M" "\<forall>i \<in> fst ` T. i < f" "\<forall>a \<in> set as. dn_nodeid a = None \<and> dn_role a \<in> {''primary'', ''secondary''}"
    and "distinct (map node_addr as)" "node_addr ` set as \<inter> node_addr ` M = {}"
  shows "\<exists>T'. update_nodes f as T = Some T' \<and> matches T' (M \<union> set as)"
  using assms
proof (induction as arbitrary: f T M)
  case (Cons a as)
  have "f \<notin> fst ` T" using Cons.prems(2) by blast
  then obtain T' where T': "update_node f a T = Some T'" "matches T' (insert a M)" "fst ` T' = insert f (fst ` T)"
    using matches_add [OF Cons.prems(1), of a f] Cons.prems(3,5) by auto
  have "\<exists>T''. update_nodes (f + 1) as T' = Some T'' \<and> matches T'' (insert a M \<union> set as)"
    using Cons.prems T'(3) by (intro Cons.IH [OF T'(2)]) (auto simp: image_iff)
  with T'(1) show ?case by auto
qed simp

section \<open>Settled topologies\<close>

text \<open>
  After the primary was handled and identifiers were filled in, the table holds the new topology without the nodes that are
  still to be added, and the secondaries that are gone.
\<close>

definition settled :: "transition_state \<Rightarrow> pg_dist_node set \<Rightarrow> bool" where
  "settled t G \<longleftrightarrow> G = (set (ts_self t) - set (ts_added t)) \<union> set (ts_gone t) \<and> set (ts_added t) \<subseteq> set (ts_self t)
     \<and> distinct (map dn_key (ts_self t @ ts_gone t)) \<and> distinct (ts_added t)
     \<and> (\<forall>a \<in> set (ts_added t). dn_nodeid a = None \<and> dn_role a = ''secondary'')
     \<and> (\<forall>g \<in> set (ts_gone t). dn_role g = ''secondary'' \<and> dn_nodeid g \<noteq> None)
     \<and> (\<forall>n \<in> set (ts_self t) \<union> set (ts_gone t). plain_host n)"

lemma settledD:
  assumes "settled t G"
  shows "G = (set (ts_self t) - set (ts_added t)) \<union> set (ts_gone t)" "set (ts_added t) \<subseteq> set (ts_self t)"
    "distinct (map dn_key (ts_self t @ ts_gone t))" "distinct (ts_added t)"
    "\<And>a. a \<in> set (ts_added t) \<Longrightarrow> dn_nodeid a = None" "\<And>a. a \<in> set (ts_added t) \<Longrightarrow> dn_role a = ''secondary''"
    "\<And>g. g \<in> set (ts_gone t) \<Longrightarrow> dn_role g = ''secondary''" "\<And>g. g \<in> set (ts_gone t) \<Longrightarrow> dn_nodeid g \<noteq> None"
    "\<And>n. n \<in> set (ts_self t) \<union> set (ts_gone t) \<Longrightarrow> plain_host n" "set (ts_gone t) \<inter> set (ts_self t) = {}"
  using assms by (auto simp: settled_def)

lemma dn_key_update [simp]: "dn_key (n\<lparr>dn_nodeid := i\<rparr>) = dn_key n" "dn_key (n\<lparr>dn_role := r\<rparr>) = dn_key n"
  by (simp_all add: dn_key_def)

lemma plain_host_update [simp]: "plain_host (n\<lparr>dn_nodeid := i\<rparr>) = plain_host n" "plain_host (n\<lparr>dn_role := r\<rparr>) = plain_host n"
  by (simp_all add: plain_host_def)

lemma dn_put_keys [simp]: "map dn_key (dn_put n ns) = map dn_key ns" "length (dn_put n ns) = length ns"
  by (auto simp: dn_put_def)

lemma key_inj: "distinct (map dn_key ns) \<Longrightarrow> x \<in> set ns \<Longrightarrow> y \<in> set ns \<Longrightarrow> dn_key x = dn_key y \<Longrightarrow> x = y"
  by (auto simp: distinct_map dest: inj_onD)

lemma set_dn_put:
  assumes "distinct (map dn_key ns)" "m \<in> set ns" "dn_key m = dn_key n"
  shows "set (dn_put n ns) = insert n (set ns - {m})"
proof -
  have "(\<lambda>x. if dn_key x = dn_key n then n else x) ` set ns = (\<lambda>x. if x = m then n else x) ` set ns"
    using key_inj [OF assms(1)] assms(2,3) by (intro image_cong) auto
  also have "\<dots> = insert n (set ns - {m})" using assms(2) by auto
  finally show ?thesis by (simp add: dn_put_def)
qed

lemma settled_key_inj:
  "settled t G \<Longrightarrow> x \<in> set (ts_self t) \<union> set (ts_gone t) \<Longrightarrow> y \<in> set (ts_self t) \<union> set (ts_gone t) \<Longrightarrow> dn_key x = dn_key y \<Longrightarrow> x = y"
  unfolding settled_def by (metis (no_types, lifting) key_inj set_append)

lemma settled_addr_ne:
  assumes "settled t G" "x \<in> set (ts_self t) \<union> set (ts_gone t)" "a \<in> set (ts_added t)" "x \<noteq> a"
  shows "node_addr x \<noteq> node_addr a"
  using assms settled_key_inj [OF assms(1), of x a] node_addr_eq [of x a] by (auto simp: settled_def)

lemma settled_reuse:
  assumes s: "settled t G" and l: "leads f T (ts_yield t) G" and g: "ts_gone t = g # gone" and a: "ts_added t = a # added"
  defines "a' \<equiv> a\<lparr>dn_nodeid := dn_nodeid g\<rparr>"
  defines "t' \<equiv> t\<lparr>ts_yield := ts_yield t @ [a'], ts_self := dn_put a' (ts_self t), ts_gone := gone, ts_added := added\<rparr>"
  shows "settled t' (insert a' (G - {g}))" "leads f T (ts_yield t') (insert a' (G - {g}))"
proof -
  have in_self: "a \<in> set (ts_self t)" and a_props: "dn_nodeid a = None" "dn_role a = ''secondary''" "plain_host a"
    and g_props: "dn_role g = ''secondary''" "dn_nodeid g \<noteq> None" "g \<in> G"
    and G: "G = (set (ts_self t) - set (ts_added t)) \<union> set (ts_gone t)"
    and keys: "distinct (map dn_key (ts_self t @ ts_gone t))" and dist: "distinct (ts_added t)"
    using s g a unfolding settled_def by auto
  have self: "set (dn_put a' (ts_self t)) = insert a' (set (ts_self t) - {a})"
    using keys in_self by (intro set_dn_put) (auto simp: a'_def)
  have "a' \<notin> set added" using s a g_props(2) by (auto simp: settled_def a'_def)
  moreover have "set gone \<inter> set (ts_self t) = {}" "g \<notin> set (ts_self t)" "g \<notin> set gone"
    using keys g by (auto simp: distinct_map image_iff)
  moreover have "a \<notin> set added" using dist a by simp
  ultimately have G': "insert a' (G - {g}) = (set (dn_put a' (ts_self t)) - set added) \<union> set gone"
    unfolding G self g a by auto
  show "settled t' (insert a' (G - {g}))"
    unfolding settled_def
  proof (intro conjI)
    show "set (ts_added t') \<subseteq> set (ts_self t')" using s a \<open>a \<notin> set added\<close> unfolding t'_def settled_def by (auto simp: self)
    show "distinct (map dn_key (ts_self t' @ ts_gone t'))" using keys g by (auto simp: t'_def)
    show "\<forall>n \<in> set (ts_self t') \<union> set (ts_gone t'). plain_host n"
      using settledD(9) [OF s] g a_props(3) by (auto simp: t'_def self) (auto simp: a'_def)
  qed (use s g a G' dist in \<open>auto simp: t'_def settled_def\<close>)
  have "node_addr x \<noteq> node_addr a'" if "x \<in> G" "x \<noteq> g" for x
  proof -
    have "x \<noteq> a" using that a_props(1) in_self \<open>set gone \<inter> set (ts_self t) = {}\<close> \<open>g \<notin> set (ts_self t)\<close> unfolding G a g by auto
    then have "node_addr x \<noteq> node_addr a" using settled_addr_ne [OF s, of x a] that a unfolding G by auto
    then show ?thesis by (simp add: a'_def node_addr_def node_name_def)
  qed
  moreover obtain i where "dn_nodeid g = Some i" using g_props(2) by blast
  ultimately show "leads f T (ts_yield t') (insert a' (G - {g}))"
    using a_props(2) g_props unfolding t'_def by (auto intro!: leads_place [OF l, of _ i g] simp: a'_def dn_is_primary_def)
qed

lemma settled_reuse_rows:
  assumes "settled t G" "leads f T (ts_yield t) G"
  shows "\<exists>G'. settled (reuse_rows (ts_gone t) (ts_added t) t) G' \<and> leads f T (ts_yield (reuse_rows (ts_gone t) (ts_added t) t)) G'
     \<and> dn_nodeid ` G' = dn_nodeid ` G"
  using assms
proof (induction "ts_gone t" "ts_added t" t arbitrary: G rule: reuse_rows.induct)
  case (1 g gone a added t)
  let ?a = "a\<lparr>dn_nodeid := dn_nodeid g\<rparr>"
  let ?t = "t\<lparr>ts_yield := ts_yield t @ [?a], ts_self := dn_put ?a (ts_self t), ts_gone := gone, ts_added := added\<rparr>"
  note eqs = 1(2,3) [symmetric]
  have "g \<in> G" using 1(4) eqs by (auto simp: settled_def)
  then have ids: "dn_nodeid ` insert ?a (G - {g}) = dn_nodeid ` G" by auto
  from 1(1) [OF refl _ _ settled_reuse [OF 1(4,5) eqs]]
  show ?case unfolding eqs ids by (simp add: Let_def)
qed (auto)

section \<open>The end of a transition\<close>

lemma settled_finish:
  assumes s: "settled t G" and l: "leads f T (ts_yield t) G" and ids: "\<forall>i \<in> dn_nodeid ` G. the i < f"
  shows "\<exists>T'. update_nodes f (ts_yield (finish_transition t)) T = Some T' \<and> matches T' (set (ts_self (finish_transition t)))"
proof (cases "ts_failover t")
  case True
  have key: "dn_key x \<in> dn_key ` set (ts_added t) \<longleftrightarrow> x \<in> set (ts_added t)" if "x \<in> set (ts_self t) \<union> set (ts_gone t)" for x
    using settled_key_inj [OF s that] settledD(2) [OF s] by blast
  have "dn_minus (ts_gone t) (ts_self t) = ts_gone t"
    unfolding dn_minus_def filter_id_conv using settledD(3) [OF s] by auto
  then have "set (ts_self (finish_transition t)) = {x \<in> set (ts_self t) \<union> set (ts_gone t). dn_key x \<notin> dn_key ` set (ts_added t)}"
    using True by (auto simp: finish_transition_def dn_minus_def)
  also have "\<dots> = {x \<in> set (ts_self t) \<union> set (ts_gone t). x \<notin> set (ts_added t)}" using key by blast
  also have "\<dots> = G" using settledD(1,2,10) [OF s] by blast
  finally have "set (ts_self (finish_transition t)) = G" .
  then show ?thesis using l rep_matches True by (auto simp: leads_def finish_transition_def)
next
  case False
  let ?rm = "map (\<lambda>g. \<lparr>dn_host = dn_host g, dn_port = dn_port g, dn_role = [], dn_nodeid = None\<rparr>) (ts_gone t)"
  let ?M = "set (ts_self t) - set (ts_added t)"
  have "leads f T (ts_yield t @ ?rm) (G - set (ts_gone t))"
    by (rule leads_remove_all [OF l]) (use settledD [OF s] in \<open>auto simp: distinct_map\<close>)
  moreover have "G - set (ts_gone t) = ?M" using settledD(1,10) [OF s] by blast
  ultimately obtain T' where T': "update_nodes f (ts_yield t @ ?rm) T = Some T'" "rep T' ?M" by (auto simp: leads_def)
  have "?M \<subseteq> G" using settledD(1) [OF s] by blast
  then have "\<forall>i \<in> fst ` T'. i < f + int (length (ts_yield t @ ?rm))"
    using T'(2) ids by (auto simp: rep_def row_of_def) force
  moreover have "distinct (map node_addr (ts_added t))"
    using settledD(2,4) [OF s] settled_addr_ne [OF s] unfolding distinct_map by (meson UnI1 inj_onI subsetD)
  moreover have "node_addr ` set (ts_added t) \<inter> node_addr ` ?M = {}"
    using settled_addr_ne [OF s] by fastforce
  ultimately obtain T'' where "update_nodes (f + int (length (ts_yield t @ ?rm))) (ts_added t) T' = Some T''" "matches T'' (?M \<union> set (ts_added t))"
    using matches_add_all [OF rep_matches [OF T'(2)], of "f + int (length (ts_yield t @ ?rm))" "ts_added t"]
      settledD(5,6) [OF s] by blast
  moreover have "?M \<union> set (ts_added t) = set (ts_self t)" using settledD(2) [OF s] by blast
  ultimately show ?thesis
    using T'(1) False update_nodes_append [of f "ts_yield t @ ?rm" "ts_added t" T] by (simp add: finish_transition_def)
qed

section \<open>Well-formed topologies\<close>

definition group_ok :: "pg_dist_node list \<Rightarrow> bool" where
  "group_ok ns \<longleftrightarrow> distinct (map dn_key ns) \<and> list_all plain_host ns \<and> length (filter dn_is_primary ns) = 1
     \<and> list_all (\<lambda>n. dn_is_primary n \<or> dn_role n = ''secondary'') ns"

text \<open>A topology as it is registered, and one as it is built from the members of a cluster.\<close>

definition registered :: "pg_dist_node list \<Rightarrow> bool" where
  "registered ns \<longleftrightarrow> group_ok ns \<and> distinct (map dn_nodeid ns) \<and> list_all (\<lambda>n. dn_nodeid n \<notin> {None, Some 0}) ns"

definition wanted :: "pg_dist_node list \<Rightarrow> bool" where
  "wanted ns \<longleftrightarrow> group_ok ns \<and> list_all (\<lambda>n. dn_nodeid n = None) ns"

lemma group_okD:
  assumes "group_ok ns"
  shows "distinct (map dn_key ns)" "\<And>n. n \<in> set ns \<Longrightarrow> plain_host n"
    and "\<And>n. n \<in> set ns \<Longrightarrow> \<not> dn_is_primary n \<Longrightarrow> dn_role n = ''secondary''"
    and "\<And>n m. n \<in> set ns \<Longrightarrow> m \<in> set ns \<Longrightarrow> dn_is_primary n \<Longrightarrow> dn_is_primary m \<Longrightarrow> n = m"
    and "\<exists>p. dn_primary ns = Some p"
proof -
  obtain p where p: "filter dn_is_primary ns = [p]"
    using assms by (auto simp: group_ok_def length_Suc_conv)
  then have "n = p" if "n \<in> set ns" "dn_is_primary n" for n
    using that p set_filter [of dn_is_primary ns] by simp blast
  then show "n = m" if "n \<in> set ns" "m \<in> set ns" "dn_is_primary n" "dn_is_primary m" for n m using that by blast
  have "List.find dn_is_primary ns \<noteq> None" using p by (auto simp: find_None_iff filter_eq_Cons_iff)
  then show "\<exists>p. dn_primary ns = Some p" by (simp add: dn_primary_def)
qed (use assms in \<open>auto simp: group_ok_def list_all_iff\<close>)

lemma dn_primaryD: "dn_primary ns = Some p \<Longrightarrow> p \<in> set ns \<and> dn_is_primary p"
  by (auto simp: dn_primary_def find_Some_iff)

lemma dn_getD: "dn_get ns v = Some n \<Longrightarrow> n \<in> set ns \<and> dn_key n = dn_key v" "dn_get ns v = None \<longleftrightarrow> dn_key v \<notin> dn_key ` set ns"
  by (auto simp: dn_get_def find_Some_iff find_None_iff image_iff)

lemma secondary_not_primary: "dn_role n = ''secondary'' \<Longrightarrow> \<not> dn_is_primary n"
  by (simp add: dn_is_primary_def)

lemma node_eqI:
  assumes "dn_key n = dn_key m" "dn_role n = dn_role m" "dn_nodeid n = dn_nodeid m"
  shows "n = (m :: pg_dist_node)"
  using assms by (simp add: dn_key_def)

section \<open>Filling in identifiers\<close>

definition fill_node :: "pg_dist_node list \<Rightarrow> pg_dist_node \<Rightarrow> pg_dist_node" where
  "fill_node old n =
     (if \<not> dn_is_primary n \<and> dn_nodeid n \<in> {None, Some 0}
      then (case List.find (\<lambda>m. \<not> dn_is_primary m \<and> dn_key m = dn_key n) old of
              None \<Rightarrow> n | Some m \<Rightarrow> n\<lparr>dn_nodeid := dn_nodeid m\<rparr>)
      else n)"

lemma fill_nodeids_eq: "fill_nodeids t = t\<lparr>ts_self := map (fill_node (ts_old t)) (ts_self t)\<rparr>"
  by (simp add: fill_nodeids_def fill_node_def [abs_def])

lemma fill_node_key [simp]: "dn_key (fill_node old n) = dn_key n"
  by (auto simp: fill_node_def split: option.splits)

lemma fill_node_known: "dn_nodeid n \<notin> {None, Some 0} \<Longrightarrow> fill_node old n = n"
  by (auto simp: fill_node_def)

lemma fill_node_new: "dn_key n \<notin> dn_key ` set old \<Longrightarrow> fill_node old n = n"
proof (cases "List.find (\<lambda>m. \<not> dn_is_primary m \<and> dn_key m = dn_key n) old")
  case (Some m)
  then have "m \<in> set old" "dn_key m = dn_key n" by (auto simp: find_Some_iff)
  moreover assume "dn_key n \<notin> dn_key ` set old"
  ultimately show ?thesis by (metis imageI)
qed (simp add: fill_node_def)

lemma fill_node_kept:
  assumes "distinct (map dn_key old)" "m \<in> set old" "dn_key m = dn_key n"
    and "dn_role m = ''secondary''" "dn_role n = ''secondary''" "dn_nodeid n = None"
  shows "fill_node old n = m"
proof -
  have "List.find (\<lambda>m. \<not> dn_is_primary m \<and> dn_key m = dn_key n) old = Some m"
  proof (cases "List.find (\<lambda>m. \<not> dn_is_primary m \<and> dn_key m = dn_key n) old")
    case None
    then show ?thesis using assms secondary_not_primary [of m] by (auto simp: find_None_iff)
  next
    case (Some x)
    then have "x \<in> set old" "dn_key x = dn_key n" by (auto simp: find_Some_iff)
    then show ?thesis using Some key_inj [OF assms(1) _ assms(2)] assms(3) by simp
  qed
  then show ?thesis using assms secondary_not_primary [of n] by (auto simp: fill_node_def intro: node_eqI)
qed

text \<open>
  Whatever happened to the primary, it changed some nodes \<open>C\<close> of the new topology, which took the rows of nodes \<open>R\<close> of
  the old one.
\<close>

record exchange =
  ex_old :: "pg_dist_node list"
  ex_new :: "pg_dist_node list"
  ex_changed :: "pg_dist_node set"
  ex_reused :: "pg_dist_node set"

definition exchange_ok :: "exchange \<Rightarrow> bool" where
  "exchange_ok x \<longleftrightarrow> registered (ex_old x) \<and> wanted (ex_new x)
     \<and> the (dn_primary (ex_old x)) \<in> ex_reused x \<and> dn_key (the (dn_primary (ex_new x))) \<in> dn_key ` ex_changed x
     \<and> (\<forall>c \<in> ex_changed x. dn_nodeid c \<notin> {None, Some 0} \<and> plain_host c)
     \<and> dn_key ` ex_changed x \<inter> dn_key ` (set (ex_old x) - ex_reused x) = {}
     \<and> (\<forall>m \<in> ex_reused x. dn_key m \<in> dn_key ` ex_changed x \<or> dn_key m \<notin> dn_key ` set (ex_new x))"

abbreviation ex_kept :: "exchange \<Rightarrow> pg_dist_node set" where
  "ex_kept x \<equiv> set (ex_old x) - ex_reused x"

abbreviation ex_rest :: "exchange \<Rightarrow> pg_dist_node set" where
  "ex_rest x \<equiv> {n \<in> set (ex_new x). dn_key n \<notin> dn_key ` ex_changed x}"

abbreviation ex_added :: "exchange \<Rightarrow> pg_dist_node set" where
  "ex_added x \<equiv> {n \<in> ex_rest x. dn_key n \<notin> dn_key ` set (ex_old x)}"

definition exchanged :: "exchange \<Rightarrow> transition_state \<Rightarrow> bool" where
  "exchanged x t \<longleftrightarrow> exchange_ok x \<and> (ts_old t = ex_old x \<or> (\<exists>r. ts_old t = dn_put ((the (dn_primary (ex_old x)))\<lparr>dn_role := r\<rparr>) (ex_old x)))
     \<and> set (ts_self t) = ex_changed x \<union> ex_rest x \<and> distinct (map dn_key (ts_self t))
     \<and> set (ts_gone t) = {m \<in> ex_kept x. dn_key m \<notin> dn_key ` set (ex_new x)} \<and> distinct (ts_gone t)
     \<and> set (ts_added t) = ex_added x \<and> distinct (ts_added t)"

lemma registeredD:
  assumes "registered ns"
  shows "group_ok ns" "\<And>n. n \<in> set ns \<Longrightarrow> dn_nodeid n \<notin> {None, Some 0}" "inj_on dn_nodeid (set ns)"
  using assms by (auto simp: registered_def list_all_iff distinct_map)

lemma wantedD:
  assumes "wanted ns"
  shows "group_ok ns" "\<And>n. n \<in> set ns \<Longrightarrow> dn_nodeid n = None"
  using assms by (auto simp: wanted_def list_all_iff)

lemma kept_secondary:
  assumes "exchange_ok x" "m \<in> ex_kept x"
  shows "dn_role m = ''secondary''"
proof -
  have ok: "group_ok (ex_old x)" using assms by (auto simp: exchange_ok_def registered_def)
  obtain p where "dn_primary (ex_old x) = Some p" using group_okD(5) [OF ok] by blast
  then show ?thesis
    using assms group_okD(3,4) [OF ok] dn_primaryD [of "ex_old x" p] unfolding exchange_ok_def by (metis DiffE option.sel)
qed

lemma rest_secondary:
  assumes "exchange_ok x" "n \<in> ex_rest x"
  shows "dn_role n = ''secondary''" "dn_nodeid n = None"
proof -
  have w: "wanted (ex_new x)" using assms by (auto simp: exchange_ok_def)
  note ok = wantedD(1) [OF w]
  obtain p where p: "dn_primary (ex_new x) = Some p" using group_okD(5) [OF ok] by blast
  then have "n \<noteq> p" using assms by (auto simp: exchange_ok_def)
  then show "dn_role n = ''secondary''" using assms(2) group_okD(3,4) [OF ok] dn_primaryD [OF p] by blast
  show "dn_nodeid n = None" using assms(2) wantedD(2) [OF w] by blast
qed

lemma fill_node_rest:
  assumes e: "exchanged x t" and n: "n \<in> ex_rest x" and m: "m \<in> set (ex_old x)" "dn_key m = dn_key n"
  shows "m \<in> ex_kept x" "fill_node (ts_old t) n = m"
proof -
  have ok: "exchange_ok x" using e by (simp add: exchanged_def)
  then have g: "distinct (map dn_key (ex_old x))" "the (dn_primary (ex_old x)) \<in> ex_reused x"
    using group_okD(1) [OF registeredD(1)] by (auto simp: exchange_ok_def)
  have "dn_key m \<in> dn_key ` set (ex_new x)" "dn_key m \<notin> dn_key ` ex_changed x" using n m(2) by auto
  then show k: "m \<in> ex_kept x" using ok m(1) unfolding exchange_ok_def by blast
  have "set (dn_put (p\<lparr>dn_role := r\<rparr>) (ex_old x)) \<supseteq> set (ex_old x) - {p}" if "p \<in> set (ex_old x)" for p r
    using set_dn_put [OF g(1) that, of "p\<lparr>dn_role := r\<rparr>"] by (simp add: subset_insertI)
  moreover have "dn_primary (ex_old x) \<noteq> None" "the (dn_primary (ex_old x)) \<in> set (ex_old x)"
    using ok group_okD(5) [OF registeredD(1)] dn_primaryD by (fastforce simp: exchange_ok_def)+
  ultimately have "m \<in> set (ts_old t)" "distinct (map dn_key (ts_old t))"
    using e k g by (auto simp: exchanged_def) blast
  then show "fill_node (ts_old t) n = m"
    using m kept_secondary [OF ok k] rest_secondary [OF ok n] by (intro fill_node_kept) auto
qed

lemma fill_node_added:
  assumes "exchanged x t" "n \<in> ex_added x"
  shows "fill_node (ts_old t) n = n"
proof (rule fill_node_new)
  have "dn_key ` set (ts_old t) = dn_key ` set (ex_old x)"
    using assms(1) unfolding exchanged_def by (metis dn_put_keys(1) list.set_map)
  then show "dn_key n \<notin> dn_key ` set (ts_old t)" using assms(2) by blast
qed

lemma fill_self:
  assumes e: "exchanged x t"
  shows "set (ts_self (fill_nodeids t)) = ex_changed x \<union> {m \<in> ex_kept x. dn_key m \<in> dn_key ` set (ex_new x)} \<union> ex_added x"
proof -
  let ?f = "fill_node (ts_old t)"
  have ok: "exchange_ok x" and self: "set (ts_self t) = ex_changed x \<union> ex_rest x" using e by (auto simp: exchanged_def)
  have "?f ` ex_changed x = ex_changed x"
    using ok fill_node_known by (auto simp: exchange_ok_def image_iff)
  moreover have "?f ` ex_added x = ex_added x" using image_cong [OF refl fill_node_added [OF e], of "ex_added x" "\<lambda>n. n"] by (simp only: image_ident)
  moreover have "?f ` (ex_rest x - ex_added x) = {m \<in> ex_kept x. dn_key m \<in> dn_key ` set (ex_new x)}" (is "_ = ?K")
  proof (intro equalityI subsetI)
    fix y assume "y \<in> ?f ` (ex_rest x - ex_added x)"
    then obtain n where n: "n \<in> ex_rest x" "dn_key n \<in> dn_key ` set (ex_old x)" "y = ?f n" by blast
    then obtain m where m: "m \<in> set (ex_old x)" "dn_key m = dn_key n" by force
    show "y \<in> ?K" using fill_node_rest [OF e n(1) m] n m by auto
  next
    fix m assume m: "m \<in> ?K"
    then obtain n where n: "n \<in> set (ex_new x)" "dn_key n = dn_key m" by force
    have "dn_key m \<notin> dn_key ` ex_changed x" using ok m unfolding exchange_ok_def by blast
    then have "n \<in> ex_rest x" "n \<notin> ex_added x" using n m by auto
    then show "m \<in> ?f ` (ex_rest x - ex_added x)" using fill_node_rest(2) [OF e, of n m] n m by force
  qed
  moreover have "set (ts_self (fill_nodeids t)) = ?f ` ex_changed x \<union> ?f ` (ex_rest x - ex_added x) \<union> ?f ` ex_added x"
    unfolding fill_nodeids_eq using self by (auto simp: image_iff)
  ultimately show ?thesis by simp
qed

lemma fill_settled:
  assumes e: "exchanged x t"
  shows "settled (fill_nodeids t) (ex_changed x \<union> ex_kept x)"
proof -
  have ok: "exchange_ok x" and gone: "set (ts_gone t) = {m \<in> ex_kept x. dn_key m \<notin> dn_key ` set (ex_new x)}"
    and added: "set (ts_added t) = ex_added x" "distinct (ts_added t)" "distinct (map dn_key (ts_self t))" "distinct (ts_gone t)"
    and self: "set (ts_self t) = ex_changed x \<union> ex_rest x"
    using e by (auto simp: exchanged_def)
  have reg: "registered (ex_old x)" and w: "wanted (ex_new x)" using ok by (auto simp: exchange_ok_def)
  note O = group_okD [OF registeredD(1) [OF reg]] and N = group_okD [OF wantedD(1) [OF w]]
  have eqs: "ts_gone (fill_nodeids t) = ts_gone t" "ts_added (fill_nodeids t) = ts_added t"
    "map dn_key (ts_self (fill_nodeids t)) = map dn_key (ts_self t)"
    by (simp_all add: fill_nodeids_eq)
  have "ex_added x \<inter> (ex_changed x \<union> set (ex_old x)) = {}" by auto
  then have G: "ex_changed x \<union> ex_kept x = (set (ts_self (fill_nodeids t)) - set (ts_added t)) \<union> set (ts_gone t)"
    unfolding fill_self [OF e] added gone by blast
  have "inj_on dn_key (set (ex_old x))" using O(1) by (simp add: distinct_map)
  then have "inj_on dn_key (set (ts_gone t))" unfolding gone by (rule inj_on_subset) blast
  moreover have "dn_key ` (ex_changed x \<union> ex_rest x) \<inter> dn_key ` set (ts_gone t) = {}"
  proof -
    have "dn_key n \<noteq> dn_key g" if "n \<in> ex_changed x \<union> ex_rest x" "g \<in> set (ts_gone t)" for n g
      using that ok unfolding gone exchange_ok_def by (metis (no_types, lifting) UnE disjoint_iff imageI mem_Collect_eq)
    then show ?thesis by force
  qed
  ultimately have "distinct (map dn_key (ts_self t) @ map dn_key (ts_gone t))"
    using added(3,4) unfolding distinct_append by (simp add: distinct_map self)
  then have keys: "distinct (map dn_key (ts_self (fill_nodeids t) @ ts_gone t))" by (simp only: map_append eqs(3))
  have "plain_host n" if "n \<in> set (ts_self (fill_nodeids t)) \<union> set (ts_gone t)" for n
  proof -
    have "n \<in> ex_changed x \<or> n \<in> set (ex_old x) \<or> n \<in> set (ex_new x)" using that unfolding fill_self [OF e] gone by blast
    then show ?thesis using ok O(2) N(2) unfolding exchange_ok_def by metis
  qed
  moreover have "dn_role g = ''secondary'' \<and> dn_nodeid g \<noteq> None" if "g \<in> set (ts_gone t)" for g
    using that kept_secondary [OF ok, of g] registeredD(2) [OF reg, of g] unfolding gone by simp
  moreover have "dn_nodeid a = None \<and> dn_role a = ''secondary''" if "a \<in> set (ts_added t)" for a
    using that rest_secondary [OF ok, of a] unfolding added by simp
  moreover have "set (ts_added t) \<subseteq> set (ts_self (fill_nodeids t))" unfolding fill_self [OF e] added by blast
  ultimately show ?thesis unfolding settled_def eqs using G keys added(2) by blast
qed

section \<open>The primary\<close>

lemma rep_registered:
  assumes "registered ol"
  shows "rep (row_of ` set ol) (set ol)"
proof -
  note ok = group_okD [OF registeredD(1) [OF assms]]
  have "inj_on node_addr (set ol)"
    using key_inj [OF ok(1)] node_addr_eq [OF ok(2) ok(2)] by (intro inj_onI) blast
  then show ?thesis using registeredD(2,3) [OF assms] by (auto simp: rep_def)
qed

text \<open>The two topologies with their primaries.\<close>

definition topologies :: "pg_dist_node list \<Rightarrow> pg_dist_node list \<Rightarrow> pg_dist_node \<Rightarrow> pg_dist_node \<Rightarrow> bool" where
  "topologies ol nl op np \<longleftrightarrow> registered ol \<and> wanted nl \<and> dn_primary ol = Some op \<and> dn_primary nl = Some np"

lemma topologiesD:
  assumes "topologies ol nl op np"
  shows "registered ol" "wanted nl" "op \<in> set ol" "np \<in> set nl" "dn_is_primary op" "dn_is_primary np"
    "distinct (map dn_key ol)" "distinct (map dn_key nl)" "the (dn_primary ol) = op" "the (dn_primary nl) = np"
    "\<And>n. n \<in> set ol \<Longrightarrow> plain_host n" "\<And>n. n \<in> set nl \<Longrightarrow> plain_host n"
    "\<And>n. n \<in> set ol \<Longrightarrow> n \<noteq> op \<Longrightarrow> dn_role n = ''secondary''" "\<And>n. n \<in> set nl \<Longrightarrow> n \<noteq> np \<Longrightarrow> dn_role n = ''secondary''"
    "dn_role np \<in> {''primary'', ''secondary'', ''demoted''}" "dn_role op \<in> {''primary'', ''secondary'', ''demoted''}"
    "\<And>n. n \<in> set ol \<Longrightarrow> dn_nodeid n \<notin> {None, Some 0}"
proof -
  have t: "registered ol" "wanted nl" "dn_primary ol = Some op" "dn_primary nl = Some np" using assms by (auto simp: topologies_def)
  note O = group_okD [OF registeredD(1) [OF t(1)]] and N = group_okD [OF wantedD(1) [OF t(2)]]
  note op = dn_primaryD [OF t(3)] and np = dn_primaryD [OF t(4)]
  show "registered ol" "wanted nl" "op \<in> set ol" "np \<in> set nl" "dn_is_primary op" "dn_is_primary np"
    "distinct (map dn_key ol)" "distinct (map dn_key nl)" "the (dn_primary ol) = op" "the (dn_primary nl) = np"
    using t op np O(1) N(1) by auto
  show "\<And>n. n \<in> set ol \<Longrightarrow> plain_host n" "\<And>n. n \<in> set nl \<Longrightarrow> plain_host n" "\<And>n. n \<in> set ol \<Longrightarrow> dn_nodeid n \<notin> {None, Some 0}"
    using O(2) N(2) registeredD(2) [OF t(1)] by auto
  show "\<And>n. n \<in> set ol \<Longrightarrow> n \<noteq> op \<Longrightarrow> dn_role n = ''secondary''" "\<And>n. n \<in> set nl \<Longrightarrow> n \<noteq> np \<Longrightarrow> dn_role n = ''secondary''"
    using O(3,4) N(3,4) op np by blast+
  show "dn_role np \<in> {''primary'', ''secondary'', ''demoted''}" "dn_role op \<in> {''primary'', ''secondary'', ''demoted''}"
    using op np by (auto simp: dn_is_primary_def)
qed

lemma start_state:
  assumes t: "topologies ol nl op np"
  shows "set (ts_gone (transition_start fo nl ol np)) = {m \<in> set ol - {op}. dn_key m \<notin> dn_key ` set nl}"
    "distinct (ts_gone (transition_start fo nl ol np))"
    "set (ts_added (transition_start fo nl ol np)) = {n \<in> set nl. dn_key n \<notin> dn_key ` set ol \<and> dn_key n \<noteq> dn_key np}"
    "distinct (ts_added (transition_start fo nl ol np))"
    "ts_yield (transition_start fo nl ol np) = []" "ts_self (transition_start fo nl ol np) = nl"
    "ts_old (transition_start fo nl ol np) = ol"
proof -
  note D = topologiesD [OF t]
  have "dn_primary ol = Some op" using t by (simp add: topologies_def)
  moreover have "dn_key m = dn_key op \<longleftrightarrow> m = op" if "m \<in> set ol" for m using key_inj [OF D(7) that D(3)] by blast
  ultimately show "set (ts_gone (transition_start fo nl ol np)) = {m \<in> set ol - {op}. dn_key m \<notin> dn_key ` set nl}"
    by (auto simp: transition_start_def dn_minus_def)
  show "distinct (ts_gone (transition_start fo nl ol np))" "distinct (ts_added (transition_start fo nl ol np))"
    using D(7,8) by (simp_all add: transition_start_def dn_minus_def distinct_map)
qed (auto simp: transition_start_def dn_minus_def)

lemma node_addr_ne:
  "plain_host n \<Longrightarrow> plain_host m \<Longrightarrow> dn_key n \<noteq> dn_key m \<Longrightarrow> node_addr n \<noteq> node_addr m"
  by (simp add: node_addr_eq)

text \<open>The primary stays.\<close>

lemma same_primary:
  assumes t: "topologies ol nl op np" and k: "dn_key op = dn_key np"
    and t'_def: "t' = transition_primary np (Some op) (transition_start fo nl ol np)" and np'_def: "np' = np\<lparr>dn_nodeid := dn_nodeid op\<rparr>"
  shows "exchanged \<lparr>ex_old = ol, ex_new = nl, ex_changed = {np'}, ex_reused = {op}\<rparr> t'"
    "leads f (row_of ` set ol) (ts_yield t') ({np'} \<union> (set ol - {op}))"
proof -
  note D = topologiesD [OF t] and S = start_state [OF t, of fo]
  have key: "dn_key m = dn_key op \<longleftrightarrow> m = op" if "m \<in> set ol" for m using key_inj [OF D(7) that D(3)] by blast
  have keyn: "dn_key m = dn_key np \<longleftrightarrow> m = np" if "m \<in> set nl" for m using key_inj [OF D(8) that D(4)] by blast
  have eqs: "ts_old t' = ol" "ts_self t' = dn_put np' nl" "ts_gone t' = ts_gone (transition_start fo nl ol np)"
    "ts_added t' = ts_added (transition_start fo nl ol np)" "ts_yield t' = (if dn_role op = dn_role np then [] else [np'])"
    using k S by (auto simp: t'_def transition_primary_def np'_def Let_def)
  have "set (dn_put np' nl) = insert np' (set nl - {np})" using D(4,8) by (intro set_dn_put) (auto simp: np'_def)
  moreover have "set nl - {np} = {n \<in> set nl. dn_key n \<noteq> dn_key np'}" using keyn by (auto simp: np'_def)
  moreover have "dn_nodeid np' \<notin> {None, Some 0}" "plain_host np'" "dn_key np' = dn_key np" using D(3,4,12,17) by (auto simp: np'_def)
  moreover have "dn_key np \<notin> dn_key ` (set ol - {op})" using key k by force
  ultimately show "exchanged \<lparr>ex_old = ol, ex_new = nl, ex_changed = {np'}, ex_reused = {op}\<rparr> t'"
    unfolding exchanged_def exchange_ok_def eqs using D S k by auto
  have rep: "leads f (row_of ` set ol) [] (set ol)" using rep_registered [OF D(1)] by (simp add: leads_def)
  obtain i where i: "dn_nodeid op = Some i" using D(17) [OF D(3)] by auto
  show "leads f (row_of ` set ol) (ts_yield t') ({np'} \<union> (set ol - {op}))"
  proof (cases "dn_role op = dn_role np")
    case True
    then have "np' = op" using k by (intro node_eqI) (auto simp: np'_def)
    then show ?thesis using rep eqs True D(3) by (auto simp: insert_absorb)
  next
    case False
    have "leads f (row_of ` set ol) ([] @ [np']) (insert np' (set ol - {op}))"
    proof (rule leads_place [OF rep, where i = i and m = op])
      fix x assume "x \<in> set ol" "x \<noteq> op"
      then show "node_addr x \<noteq> node_addr np'" using key k D(4,11,12) by (intro node_addr_ne) (auto simp: np'_def)
    qed (use i D in \<open>auto simp: np'_def dn_is_primary_def\<close>)
    then show ?thesis using False eqs by simp
  qed
qed

lemma set_dn_put_keys:
  "dn_key n \<in> dn_key ` set ns \<Longrightarrow> set (dn_put n ns) = insert n {m \<in> set ns. dn_key m \<noteq> dn_key n}"
  by (auto simp: dn_put_def)

lemma set_dn_put_two:
  assumes "dn_key c \<in> dn_key ` set ns" "dn_key d \<in> dn_key ` set ns" "dn_key c \<noteq> dn_key d"
  shows "set (dn_put d (dn_put c ns)) = {c, d} \<union> {n \<in> set ns. dn_key n \<notin> {dn_key c, dn_key d}}"
proof -
  have "dn_key d \<in> dn_key ` set (dn_put c ns)" using assms(2) by (metis dn_put_keys(1) list.set_map)
  then have "set (dn_put d (dn_put c ns)) = insert d {m \<in> set (dn_put c ns). dn_key m \<noteq> dn_key d}" by (rule set_dn_put_keys)
  also have "\<dots> = insert d {m \<in> insert c {m \<in> set ns. dn_key m \<noteq> dn_key c}. dn_key m \<noteq> dn_key d}"
    unfolding set_dn_put_keys [OF assms(1)] by (rule refl)
  also have "\<dots> = {c, d} \<union> {n \<in> set ns. dn_key n \<notin> {dn_key c, dn_key d}}" using assms(3) by auto
  finally show ?thesis .
qed

text \<open>The new primary was registered: either a new secondary takes its row, or the old primary does.\<close>

lemma leads_registered:
  assumes t: "topologies ol nl op np" and npo: "npo \<in> set ol" "dn_key npo = dn_key np" "npo \<noteq> op"
    and c: "dn_nodeid c = dn_nodeid npo" "dn_role c = ''secondary''" "plain_host c" "dn_key c \<notin> dn_key ` (set ol - {op})"
    and op': "op' = op \<and> dn_key c \<noteq> dn_key op \<or> op' = op\<lparr>dn_role := ''demoted''\<rparr>"
    and l: "leads f T ns (insert op' (set ol - {op}))"
  shows "leads f T (ns @ [c, np\<lparr>dn_nodeid := dn_nodeid op\<rparr>]) ({c, np\<lparr>dn_nodeid := dn_nodeid op\<rparr>} \<union> (set ol - {npo, op}))"
proof -
  note D = topologiesD [OF t]
  let ?np = "np\<lparr>dn_nodeid := dn_nodeid op\<rparr>" and ?G = "insert op' (set ol - {op})"
  have key: "dn_key x = dn_key y \<longleftrightarrow> x = y" if "x \<in> set ol" "y \<in> set ol" for x y using key_inj [OF D(7) that] by blast
  obtain i j where ids: "dn_nodeid npo = Some i" "dn_nodeid op = Some j" using D(17) npo(1) D(3) by (metis insertCI option.exhaust)
  have op: "dn_key op' = dn_key op" "dn_nodeid op' = Some j" "plain_host op'" "dn_is_primary op'"
    using op' ids D(3,5,11) by (auto simp: dn_is_primary_def)
  have sec: "dn_role npo = ''secondary''" using D(13) npo by blast
  have "op' \<noteq> npo" using op(1) key [OF D(3) npo(1)] npo(3) by metis
  have l2: "leads f T (ns @ [c]) (insert c (?G - {npo}))"
  proof (rule leads_place [OF l, where i = i and m = npo])
    fix x assume x: "x \<in> ?G" "x \<noteq> npo"
    show "node_addr x \<noteq> node_addr c"
    proof (cases "x = op'")
      case True
      then show ?thesis using op' op c node_addr_eq [of op' c] by auto
    next
      case False
      then have "x \<in> set ol - {op}" using x(1) by blast
      then have "dn_key x \<noteq> dn_key c" "plain_host x" using c(4) D(11) by (metis imageI, blast)
      then show ?thesis using c(3) by (intro node_addr_ne)
    qed
  qed (use ids c npo sec in \<open>auto simp: dn_is_primary_def\<close>)
  have cn: "dn_key c \<noteq> dn_key np" using c(4) npo by (metis DiffI imageI singletonD)
  have "leads f T ((ns @ [c]) @ [?np]) (insert ?np (insert c (?G - {npo}) - {op'}))"
  proof (rule leads_place [OF l2, where i = j and m = op'])
    fix x assume x: "x \<in> insert c (?G - {npo})" "x \<noteq> op'"
    then have "x = c \<or> x \<in> set ol - {op, npo}" by auto
    then have "dn_key x \<noteq> dn_key np" "plain_host x" using cn key npo c(3) D(11) by force+
    then show "node_addr x \<noteq> node_addr ?np" using D(4,12) by (intro node_addr_ne) auto
  qed (use ids op D \<open>op' \<noteq> npo\<close> in \<open>auto simp: dn_is_primary_def\<close>)
  moreover have "insert ?np (insert c (?G - {npo}) - {op'}) = {c, ?np} \<union> (set ol - {npo, op})"
  proof -
    have "c \<noteq> op'" using c(2) op(4) by (auto simp: dn_is_primary_def)
    moreover have "op' \<notin> set ol - {op}" using op(1) key D(3) by auto
    ultimately show ?thesis by auto
  qed
  ultimately show ?thesis by simp
qed

lemma exchanged_registered:
  assumes t: "topologies ol nl op np" and npo: "npo \<in> set ol" "dn_key npo = dn_key np" "npo \<noteq> op"
    and np': "np' = np\<lparr>dn_nodeid := dn_nodeid op\<rparr>"
    and c: "dn_nodeid c = dn_nodeid npo" "plain_host c" "dn_key c \<notin> dn_key ` (set ol - {op})"
      "dn_key op \<in> dn_key ` set nl \<Longrightarrow> dn_key c = dn_key op"
    and self: "set (ts_self t') = {c, np'} \<union> {n \<in> set nl. dn_key n \<notin> {dn_key c, dn_key np}}" "distinct (map dn_key (ts_self t'))"
    and old: "ts_old t' = dn_put (op\<lparr>dn_role := r\<rparr>) ol" and gone: "ts_gone t' = ts_gone (transition_start fo nl ol np)"
    and added: "set (ts_added t') = {n \<in> set nl. dn_key n \<notin> dn_key ` set ol \<and> dn_key n \<notin> {dn_key c, dn_key np}}" "distinct (ts_added t')"
  shows "exchanged \<lparr>ex_old = ol, ex_new = nl, ex_changed = {c, np'}, ex_reused = {npo, op}\<rparr> t'"
proof -
  note D = topologiesD [OF t] and S = start_state [OF t, of fo]
  have "dn_key np' = dn_key np" "plain_host np'" "dn_nodeid np' \<notin> {None, Some 0}" "dn_nodeid c \<notin> {None, Some 0}"
    using np' D(3,4,12,17) npo(1) c(1) by auto
  moreover have "dn_key np \<notin> dn_key ` (set ol - {npo, op})" "dn_key c \<notin> dn_key ` (set ol - {npo, op})"
    using key_inj [OF D(7) _ npo(1)] npo(2) c(3) by (force, force)
  moreover have "{m \<in> set ol - {op}. dn_key m \<notin> dn_key ` set nl} = {m \<in> set ol - {npo, op}. dn_key m \<notin> dn_key ` set nl}"
    using npo(2) D(4) by force
  moreover have "dn_key op \<notin> dn_key ` set nl \<or> dn_key c = dn_key op" using c(4) by blast
  ultimately show ?thesis
    unfolding exchanged_def exchange_ok_def gone using D(1,2,4,9,10) S(1,2) self old added npo(2) c(2) by auto
qed

text \<open>The outcome of all cases.\<close>

definition outcome :: "pg_dist_node list \<Rightarrow> int \<Rightarrow> pg_dist_node \<Rightarrow> transition_state \<Rightarrow> bool" where
  "outcome ol f p t \<longleftrightarrow> (\<exists>x. ex_old x = ol \<and> exchanged x t \<and> leads f (row_of ` set ol) (ts_yield t) (ex_changed x \<union> ex_kept x)
     \<and> dn_nodeid ` ex_changed x \<subseteq> dn_nodeid ` set ol \<and> p \<in> ex_changed x)"

lemma outcomeI:
  assumes "exchanged \<lparr>ex_old = ol, ex_new = nl, ex_changed = C, ex_reused = R\<rparr> t" "leads f (row_of ` set ol) (ts_yield t) (C \<union> (set ol - R))"
    and "dn_nodeid ` C \<subseteq> dn_nodeid ` set ol" "p \<in> C"
  shows "outcome ol f p t"
  unfolding outcome_def using assms by (intro exI [of _ "\<lparr>ex_old = ol, ex_new = nl, ex_changed = C, ex_reused = R\<rparr>"]) simp

lemma leads_start: "registered ol \<Longrightarrow> leads f (row_of ` set ol) [] (set ol)"
  using rep_registered by (simp add: leads_def)

lemma plain_host_key: "dn_key a = dn_key b \<Longrightarrow> plain_host a = plain_host b"
  by (simp add: plain_host_def dn_key_def)

lemma registered_new_secondary:
  assumes t: "topologies ol nl op np" and n: "npo \<in> set ol" "dn_key npo = dn_key np" "npo \<noteq> op"
    and none: "dn_get nl op = None" and added: "ts_added (transition_start fo nl ol np) = h # rest"
    and t': "t' = failover_registered np op npo None ((transition_start fo nl ol np)\<lparr>ts_failover := True\<rparr>)"
  shows "outcome ol f (np\<lparr>dn_nodeid := dn_nodeid op\<rparr>) t'"
proof -
  note D = topologiesD [OF t] and S = start_state [OF t, of fo]
  let ?np = "np\<lparr>dn_nodeid := dn_nodeid op\<rparr>"
  define a where "a = h\<lparr>dn_nodeid := dn_nodeid npo\<rparr>"
  have h: "h \<in> set nl" "dn_key h \<notin> dn_key ` set ol" "dn_key h \<noteq> dn_key np" using S(3) added by auto
  have a: "dn_nodeid a = dn_nodeid npo" "dn_key a = dn_key h" "plain_host a" "dn_role a = ''secondary''"
    using h D(12,14) by (auto simp: a_def)
  have t3: "ts_yield t' = [a, ?np]" "ts_self t' = dn_put ?np (dn_put a nl)" "ts_old t' = dn_put (op\<lparr>dn_role := ''secondary''\<rparr>) ol"
    "ts_gone t' = ts_gone (transition_start fo nl ol np)" "ts_added t' = rest"
    unfolding t' failover_registered_def using S by (simp_all add: a_def added Let_def)
  have "leads f (row_of ` set ol) ([] @ [a, ?np]) ({a, ?np} \<union> (set ol - {npo, op}))"
    using a h leads_start [OF D(1)] D(3) by (intro leads_registered [OF t n, of a op]) (auto simp: insert_absorb)
  moreover have "exchanged \<lparr>ex_old = ol, ex_new = nl, ex_changed = {a, ?np}, ex_reused = {npo, op}\<rparr> t'"
  proof (rule exchanged_registered [OF t n refl])
    show "set (ts_self t') = {a, ?np} \<union> {n \<in> set nl. dn_key n \<notin> {dn_key a, dn_key np}}"
      unfolding t3 using h(1,3) D(4) a(2) by (subst set_dn_put_two) auto
    have "set rest = set (ts_added (transition_start fo nl ol np)) - {h}" using S(4) added by auto
    then show "set (ts_added t') = {n \<in> set nl. dn_key n \<notin> dn_key ` set ol \<and> dn_key n \<notin> {dn_key a, dn_key np}}"
      unfolding t3 S(3) using key_inj [OF D(8) _ h(1)] h a(2) by auto
  qed (use a h D(8) t3 S(4) added none dn_getD(2) [of nl op] in \<open>auto simp: distinct_map\<close>)
  ultimately show ?thesis using t3(1) n(1) D(3) a(1) by (intro outcomeI) auto
qed

lemma registered_swap:
  assumes t: "topologies ol nl op np" and n: "npo \<in> set ol" "dn_key npo = dn_key np" "npo \<noteq> op" and k: "dn_key op \<noteq> dn_key np"
    and no_new: "dn_get nl op \<noteq> None \<or> ts_added (transition_start fo nl ol np) = []"
    and t': "t' = failover_registered np op npo (dn_get nl op) ((transition_start fo nl ol np)\<lparr>ts_failover := True\<rparr>)"
  shows "outcome ol f (np\<lparr>dn_nodeid := dn_nodeid op\<rparr>) t'"
proof -
  note D = topologiesD [OF t] and S = start_state [OF t, of fo]
  let ?np = "np\<lparr>dn_nodeid := dn_nodeid op\<rparr>" and ?dem = "dn_role op = ''primary''"
  define op' where "op' = op\<lparr>dn_role := ''demoted''\<rparr>"
  define c where "c = (case dn_get nl op of Some x \<Rightarrow> x\<lparr>dn_nodeid := dn_nodeid npo\<rparr>
    | None \<Rightarrow> \<lparr>dn_host = dn_host op, dn_port = dn_port op, dn_role = dn_role npo, dn_nodeid = dn_nodeid npo\<rparr>)"
  have same: "op' = op" if "\<not> ?dem" using that D(5) by (simp add: op'_def dn_is_primary_def)
  have c: "dn_nodeid c = dn_nodeid npo" "dn_key c = dn_key op" "plain_host c" "dn_role c = ''secondary''"
  proof -
    show "dn_nodeid c = dn_nodeid npo" by (cases "dn_get nl op") (simp_all add: c_def)
    show key: "dn_key c = dn_key op"
      using dn_getD(1) [of nl op] by (cases "dn_get nl op") (simp_all add: c_def, simp add: dn_key_def)
    show "plain_host c" using plain_host_key [OF key] D(11) [OF D(3)] by blast
    show "dn_role c = ''secondary''"
    proof (cases "dn_get nl op")
      case (Some x)
      then have "x \<in> set nl" "x \<noteq> np" using dn_getD(1) [OF Some] k by auto
      then show ?thesis using Some D(14) by (simp add: c_def)
    qed (use D(13) n in \<open>simp add: c_def\<close>)
  qed
  have t3: "ts_yield t' = (if ?dem then [op'] else []) @ [c, ?np]" "ts_old t' = dn_put op' ol"
    "ts_gone t' = ts_gone (transition_start fo nl ol np)" "ts_added t' = ts_added (transition_start fo nl ol np)"
    "ts_self t' = dn_put ?np (if dn_get nl op = None then nl @ [c] else dn_put c nl)"
    unfolding t' failover_registered_def using no_new S same by (auto simp: c_def op'_def Let_def split: option.splits)
  have notop: "dn_key op \<notin> dn_key ` (set ol - {op})" using key_inj [OF D(7) _ D(3)] by force
  have "leads f (row_of ` set ol) (if ?dem then [op'] else []) (insert op' (set ol - {op}))"
  proof (cases ?dem)
    case True
    obtain j where j: "dn_nodeid op = Some j" using D(17) [OF D(3)] by auto
    have "leads f (row_of ` set ol) ([] @ [op']) (insert op' (set ol - {op}))"
    proof (rule leads_place [OF leads_start [OF D(1)], where i = j and m = op])
      fix x assume "x \<in> set ol" "x \<noteq> op"
      then have "dn_key x \<noteq> dn_key op" using notop by (metis DiffI imageI singletonD)
      then show "node_addr x \<noteq> node_addr op'" using \<open>x \<in> set ol\<close> D(3,11) by (intro node_addr_ne) (auto simp: op'_def)
    qed (use j D(3) True in \<open>auto simp: op'_def dn_is_primary_def\<close>)
    then show ?thesis using True by simp
  qed (use same leads_start [OF D(1)] D(3) in \<open>auto simp: insert_absorb\<close>)
  then have "leads f (row_of ` set ol) (ts_yield t') ({c, ?np} \<union> (set ol - {npo, op}))"
    unfolding t3 using c notop by (intro leads_registered [OF t n, of c op']) (auto simp: op'_def)
  moreover have "exchanged \<lparr>ex_old = ol, ex_new = nl, ex_changed = {c, ?np}, ex_reused = {npo, op}\<rparr> t'"
  proof (rule exchanged_registered [OF t n refl])
    show "set (ts_self t') = {c, ?np} \<union> {n \<in> set nl. dn_key n \<notin> {dn_key c, dn_key np}}"
    proof (cases "dn_get nl op")
      case None
      then have "dn_key x \<noteq> dn_key op" if "x \<in> set nl" for x using that dn_getD(2) [of nl op] by (metis imageI)
      then show ?thesis unfolding t3 using None c(2) k D(4) by (subst set_dn_put_keys) auto
    next
      case (Some x)
      then have "dn_key c \<in> dn_key ` set nl" using dn_getD(1) [OF Some] c(2) by (metis imageI)
      then show ?thesis unfolding t3 Some using c(2) k D(4) set_dn_put_two [of c nl ?np] by simp
    qed
    show "distinct (map dn_key (ts_self t'))" using dn_getD(2) [of nl op] D(8) c(2) by (auto simp: t3)
  qed (use c notop t3 S D(3) in \<open>auto simp: op'_def\<close>)
  ultimately show ?thesis using n(1) D(3) c(1) by (intro outcomeI) auto
qed

text \<open>The new primary was never registered: its row is the one of the old primary, which may take the row of a secondary that is gone.\<close>

lemma leads_unregistered:
  assumes t: "topologies ol nl op np" and new: "dn_key np \<notin> dn_key ` set ol"
  shows "leads f (row_of ` set ol) [np\<lparr>dn_nodeid := dn_nodeid op\<rparr>] (insert (np\<lparr>dn_nodeid := dn_nodeid op\<rparr>) (set ol - {op}))"
proof -
  note D = topologiesD [OF t]
  let ?np = "np\<lparr>dn_nodeid := dn_nodeid op\<rparr>"
  obtain j where j: "dn_nodeid op = Some j" using D(17) [OF D(3)] by auto
  have "leads f (row_of ` set ol) ([] @ [?np]) (insert ?np (set ol - {op}))"
  proof (rule leads_place [OF leads_start [OF D(1)], where i = j and m = op])
    fix x assume x: "x \<in> set ol" "x \<noteq> op"
    then have "dn_key x \<noteq> dn_key np" using new by (metis imageI)
    then show "node_addr x \<noteq> node_addr ?np" using x D(4,11,12) by (intro node_addr_ne) auto
  qed (use j D(3,5,6,15) in \<open>auto simp: dn_is_primary_def\<close>)
  then show ?thesis by simp
qed

lemma unregistered_replace:
  assumes t: "topologies ol nl op np" and new: "dn_key np \<notin> dn_key ` set ol" and none: "dn_get nl op = None"
    and np': "np' = np\<lparr>dn_nodeid := dn_nodeid op\<rparr>"
    and t': "ts_yield t' = [np']" "ts_self t' = dn_put np' nl" "ts_old t' = ol"
      "ts_gone t' = ts_gone (transition_start fo nl ol np)" "ts_added t' = ts_added (transition_start fo nl ol np)"
  shows "outcome ol f (np\<lparr>dn_nodeid := dn_nodeid op\<rparr>) t'"
proof -
  note D = topologiesD [OF t] and S = start_state [OF t, of fo]
  have n: "dn_key np' = dn_key np" "plain_host np'" "dn_nodeid np' \<notin> {None, Some 0}" "dn_is_primary np' = dn_is_primary np"
    using np' D(3,4,12,17) by (auto simp: dn_is_primary_def)
  have "leads f (row_of ` set ol) [np'] (insert np' (set ol - {op}))" using leads_unregistered [OF t new] np' by simp
  moreover have "exchanged \<lparr>ex_old = ol, ex_new = nl, ex_changed = {np'}, ex_reused = {op}\<rparr> t'"
  proof -
    have "set (ts_self t') = {np'} \<union> {n \<in> set nl. dn_key n \<noteq> dn_key np}"
      unfolding t' using D(4) n(1) by (subst set_dn_put_keys) auto
    moreover have "dn_key np \<notin> dn_key ` (set ol - {op})" using new by blast
    moreover have "dn_key op \<notin> dn_key ` set nl" using none dn_getD(2) by blast
    ultimately show ?thesis
      unfolding exchanged_def exchange_ok_def using D(1,2,4,8,9,10) S(1-4) t' n by auto
  qed
  ultimately show ?thesis using t'(1) D(3) np' by (intro outcomeI) auto
qed

lemma unregistered_keep:
  assumes t: "topologies ol nl op np" and new: "dn_key np \<notin> dn_key ` set ol" and k: "dn_key op \<noteq> dn_key np"
    and np': "np' = np\<lparr>dn_nodeid := dn_nodeid op\<rparr>" and gone: "ts_gone (transition_start fo nl ol np) = g # gs"
    and c: "dn_nodeid c = dn_nodeid g" "dn_key c = dn_key op" "dn_role c = ''secondary''"
    and t': "ts_yield t' = [np', c]" "ts_old t' = ol" "ts_gone t' = gs" "ts_added t' = ts_added (transition_start fo nl ol np)"
    and self: "set (ts_self t') = {np', c} \<union> {n \<in> set nl. dn_key n \<notin> {dn_key op, dn_key np}}" "distinct (map dn_key (ts_self t'))"
  shows "outcome ol f (np\<lparr>dn_nodeid := dn_nodeid op\<rparr>) t'"
proof -
  note D = topologiesD [OF t] and S = start_state [OF t, of fo]
  have n: "dn_key np' = dn_key np" "plain_host np'" "dn_nodeid np' \<notin> {None, Some 0}" "dn_is_primary np' = dn_is_primary np"
    using np' D(3,4,12,17) by (auto simp: dn_is_primary_def)
  have g: "g \<in> set ol" "g \<noteq> op" "dn_key g \<notin> dn_key ` set nl" "dn_role g = ''secondary''" using S(1) gone D(13) by auto
  have notop: "dn_key x \<noteq> dn_key op" if "x \<in> set ol" "x \<noteq> op" for x using key_inj [OF D(7) that(1) D(3)] that(2) by blast
  have pc: "plain_host c" using plain_host_key [OF c(2)] D(11) [OF D(3)] by blast
  obtain i j where ids: "dn_nodeid g = Some i" "dn_nodeid op = Some j" using D(17) g(1) D(3) by (metis insertCI option.exhaust)
  have l: "leads f (row_of ` set ol) [np'] (insert np' (set ol - {op}))" using leads_unregistered [OF t new] np' by simp
  have "leads f (row_of ` set ol) ([np'] @ [c]) (insert c (insert np' (set ol - {op}) - {g}))"
  proof (rule leads_place [OF l, where i = i and m = g])
    fix x assume "x \<in> insert np' (set ol - {op})" "x \<noteq> g"
    then have "x = np' \<or> x \<in> set ol \<and> x \<noteq> op" by blast
    then have "dn_key x \<noteq> dn_key c" "plain_host x" using notop c(2) k n D(11) by auto
    then show "node_addr x \<noteq> node_addr c" using pc by (intro node_addr_ne)
  qed (use ids c g in \<open>auto simp: dn_is_primary_def\<close>)
  moreover have "insert c (insert np' (set ol - {op}) - {g}) = {np', c} \<union> (set ol - {op, g})"
  proof -
    have "np' \<noteq> g" using new n(1) g(1) by (metis imageI)
    then show ?thesis by blast
  qed
  ultimately have "leads f (row_of ` set ol) (ts_yield t') ({np', c} \<union> (set ol - {op, g}))" by (simp add: t')
  moreover have "exchanged \<lparr>ex_old = ol, ex_new = nl, ex_changed = {np', c}, ex_reused = {op, g}\<rparr> t'"
  proof -
    have "set gs = {m \<in> set ol - {op, g}. dn_key m \<notin> dn_key ` set nl}" "distinct gs" using S(1,2) gone by auto
    moreover have "dn_key np \<notin> dn_key ` (set ol - {op, g})" "dn_key op \<notin> dn_key ` (set ol - {op, g})" using new notop by (blast, force)
    moreover have "set (ts_added t') = {n \<in> set nl. dn_key n \<notin> dn_key ` set ol \<and> dn_key n \<notin> {dn_key op, dn_key np}}"
      unfolding t' S(3) using D(3) by auto
    moreover have "dn_nodeid c \<notin> {None, Some 0}" using c(1) D(17) [OF g(1)] by simp
    ultimately show ?thesis
      unfolding exchanged_def exchange_ok_def using D(1,2,9,10) S(4) t' n c(2) pc self g(3) by auto
  qed
  ultimately show ?thesis using g(1) D(3) c(1) np' by (intro outcomeI) auto
qed

section \<open>Transitions are sound\<close>

text \<open>
  The one case that goes wrong: the new primary was never registered, the old one stays as a secondary, and no secondary
  is gone whose row it could take.
\<close>

definition loses_old_primary :: "pg_dist_node list \<Rightarrow> pg_dist_node list \<Rightarrow> bool" where
  "loses_old_primary ol nl \<longleftrightarrow> (case (dn_primary ol, dn_primary nl) of
     (Some op, Some np) \<Rightarrow> dn_get ol np = None \<and> dn_get nl op \<noteq> None \<and> dn_key op \<noteq> dn_key np
        \<and> dn_minus (dn_minus ol nl) [op] = []
   | _ \<Rightarrow> False)"

lemma unregistered_outcome:
  assumes t: "topologies ol nl op np" and new: "dn_key np \<notin> dn_key ` set ol" and k: "dn_key op \<noteq> dn_key np"
    and ok: "\<not> loses_old_primary ol nl"
    and t': "t' = failover_unregistered np op (dn_get nl op) ((transition_start fo nl ol np)\<lparr>ts_failover := True\<rparr>)"
  shows "outcome ol f (np\<lparr>dn_nodeid := dn_nodeid op\<rparr>) t'"
proof -
  note D = topologiesD [OF t] and S = start_state [OF t, of fo]
  let ?np = "np\<lparr>dn_nodeid := dn_nodeid op\<rparr>"
  have put: "set (dn_put ?np nl) = insert ?np {n \<in> set nl. dn_key n \<noteq> dn_key np}"
    using D(4) by (subst set_dn_put_keys) auto
  have p: "dn_primary ol = Some op" "dn_primary nl = Some np" using t by (auto simp: topologies_def)
  have g0: "ts_gone (transition_start fo nl ol np) = dn_minus (dn_minus ol nl) [op]" by (simp add: transition_start_def p)
  show ?thesis
  proof (cases "dn_get nl op")
    case None
    then have notop: "dn_key x \<noteq> dn_key op" if "x \<in> set nl" for x using that dn_getD(2) [of nl op] by (metis imageI)
    show ?thesis
    proof (cases "ts_gone (transition_start fo nl ol np) = [] \<or>
        \<not> (dn_role op = ''demoted'' \<and> length (ts_gone (transition_start fo nl ol np)) > length (ts_added (transition_start fo nl ol np)))")
      case True
      then have "t' = (transition_start fo nl ol np)\<lparr>ts_failover := True, ts_yield := [?np], ts_self := dn_put ?np nl\<rparr>"
        unfolding t' failover_unregistered_def None by (auto simp: S Let_def)
      then show ?thesis by (intro unregistered_replace [OF t new None refl]) (simp_all add: S)
    next
      case False
      then obtain g gs where gone: "ts_gone (transition_start fo nl ol np) = g # gs" by (meson list.exhaust)
      let ?c = "\<lparr>dn_host = dn_host op, dn_port = dn_port op, dn_role = ''secondary'', dn_nodeid = dn_nodeid g\<rparr>"
      have c: "dn_key ?c = dn_key op" by (simp add: dn_key_def)
      have t3: "ts_yield t' = [?np, ?c]" "ts_old t' = ol" "ts_gone t' = gs" "ts_added t' = ts_added (transition_start fo nl ol np)"
        "ts_self t' = dn_put ?np nl @ [?c]"
        using False unfolding t' failover_unregistered_def None by (simp_all add: S gone Let_def)
      show ?thesis
        by (rule unregistered_keep [OF t new k refl gone _ c _ t3(1-4)])
           (use put c notop in \<open>auto simp: t3(5) D(8) dn_getD(2) [of nl op, unfolded None, simplified]\<close>)
    qed
  next
    case (Some x)
    then obtain g gs where gone: "ts_gone (transition_start fo nl ol np) = g # gs"
      using ok new k dn_getD(2) [of ol np] unfolding g0 loses_old_primary_def p
      by (cases "dn_minus (dn_minus ol nl) [op]") auto
    let ?c = "x\<lparr>dn_nodeid := dn_nodeid g\<rparr>"
    have x: "x \<in> set nl" "dn_key x = dn_key op" "x \<noteq> np" using dn_getD(1) [OF Some] k by auto
    have t3: "ts_yield t' = [?np, ?c]" "ts_old t' = ol" "ts_gone t' = gs" "ts_added t' = ts_added (transition_start fo nl ol np)"
      "ts_self t' = dn_put ?c (dn_put ?np nl)"
      unfolding t' failover_unregistered_def Some by (simp_all add: S gone Let_def)
    have self: "set (ts_self t') = {?np, ?c} \<union> {n \<in> set nl. dn_key n \<notin> {dn_key op, dn_key np}}"
    proof -
      have keys: "dn_key ?np = dn_key np" "dn_key ?c = dn_key op" using x(2) by simp_all
      have "set (ts_self t') = {?np, ?c} \<union> {n \<in> set nl. dn_key n \<notin> {dn_key ?np, dn_key ?c}}"
        unfolding t3(5) using k x D(4) by (intro set_dn_put_two) (metis keys(1) imageI, metis keys(2) imageI, metis keys)
      then show ?thesis unfolding keys by (simp add: insert_commute)
    qed
    show ?thesis
      by (rule unregistered_keep [OF t new k refl gone _ _ _ t3(1-4) self]) (use x D(8,14) in \<open>auto simp: t3(5)\<close>)
  qed
qed

lemma primary_outcome:
  assumes t: "topologies ol nl op np" and ok: "\<not> loses_old_primary ol nl"
    and t': "t' = transition_primary np (Some op) (transition_start fo nl ol np)"
  shows "outcome ol f (np\<lparr>dn_nodeid := dn_nodeid op\<rparr>) t'"
proof (cases "dn_key op = dn_key np")
  case True
  note D = topologiesD [OF t]
  show ?thesis using same_primary [OF t True t' refl] D(3) by (intro outcomeI) auto
next
  case k: False
  note D = topologiesD [OF t] and S = start_state [OF t, of fo]
  let ?s = "(transition_start fo nl ol np)\<lparr>ts_failover := True\<rparr>" and ?np = "np\<lparr>dn_nodeid := dn_nodeid op\<rparr>"
  show ?thesis
  proof (cases "dn_get ol np")
    case (Some npo)
    have n: "npo \<in> set ol" "dn_key npo = dn_key np" "npo \<noteq> op" using dn_getD(1) [OF Some] k by auto
    have t2: "t' = failover_registered np op npo (dn_get nl op) ?s"
      using t' k Some by (simp add: transition_primary_def S Let_def)
    show ?thesis
    proof (cases "dn_get nl op = None \<and> ts_added (transition_start fo nl ol np) \<noteq> []")
      case True
      then obtain h rest where "ts_added (transition_start fo nl ol np) = h # rest" by (meson list.exhaust)
      then show ?thesis using True t2 by (intro registered_new_secondary [OF t n]) auto
    next
      case False
      then show ?thesis using t2 by (intro registered_swap [OF t n k]) auto
    qed
  next
    case None
    then have new: "dn_key np \<notin> dn_key ` set ol" by (simp add: dn_getD(2))
    have t2: "t' = failover_unregistered np op (dn_get nl op) ?s"
      using t' k None by (simp add: transition_primary_def S Let_def)
    show ?thesis using t2 ok new k t by (intro unregistered_outcome [OF t new k ok]) auto
  qed
qed

lemma reuse_keeps:
  assumes "settled t G" "leads f T (ts_yield t) G" "p \<in> set (ts_self t)" "dn_nodeid p \<noteq> None"
  shows "p \<in> set (ts_self (reuse_rows (ts_gone t) (ts_added t) t))"
  using assms
proof (induction "ts_gone t" "ts_added t" t arbitrary: G rule: reuse_rows.induct)
  case (1 g gone a added t)
  let ?a = "a\<lparr>dn_nodeid := dn_nodeid g\<rparr>"
  note eqs = 1(2,3) [symmetric]
  have a: "a \<in> set (ts_self t)" "a \<noteq> p" "distinct (map dn_key (ts_self t))"
    using settledD(2,3,5) [OF 1(4)] eqs 1(7) by auto
  then have "p \<in> set (dn_put ?a (ts_self t))" using 1(6) by (subst set_dn_put [where m = a]) auto
  with 1(1) [OF refl _ _ settled_reuse [OF 1(4,5) eqs]] 1(7) show ?case unfolding eqs by (simp add: Let_def)
qed auto

lemma finish_keeps:
  assumes "settled t G" "p \<in> set (ts_self t)" "dn_nodeid p \<noteq> None"
  shows "p \<in> set (ts_self (finish_transition t))"
proof -
  have "p \<notin> set (ts_added t)" using settledD(5) [OF assms(1), of p] assms(3) by auto
  moreover have "a = p" if "a \<in> set (ts_added t)" "dn_key p = dn_key a" for a
    using that settled_key_inj [OF assms(1), of a p] settledD(2) [OF assms(1)] assms(2) by auto
  ultimately have "dn_key p \<notin> dn_key ` set (ts_added t)" by (metis imageE)
  then show ?thesis using assms(2) by (simp add: finish_transition_def dn_minus_def)
qed

text \<open>
  C13: a transition respects the constraints of the table one by one. Let a topology be registered with distinct addresses
  and row identifiers and one primary, and let the wanted one be well-formed. Except in the one case above (the new primary was
  never registered, the old one stays as a secondary and no other secondary is gone), each of the
  yielded changes is accepted: no row is written that does not exist, and no host and port are used twice at any
  time. In the end the table holds exactly the topology that is remembered, and the row of the primary, which keeps
  its identifier, holds the wanted primary.
\<close>

theorem citus_transition_sound:
  assumes old: "registered (dg_nodes old)" and new: "wanted (dg_nodes g)" and ok: "\<not> loses_old_primary (dg_nodes old) (dg_nodes g)"
    and fresh: "\<forall>n \<in> set (dg_nodes old). the (dn_nodeid n) < f"
  shows "\<exists>ns g' T op np. pg_transition g old = Some (ns, g') \<and> update_nodes f ns (row_of ` set (dg_nodes old)) = Some T
     \<and> matches T (set (dg_nodes g')) \<and> dn_primary (dg_nodes old) = Some op \<and> dn_primary (dg_nodes g) = Some np
     \<and> (the (dn_nodeid op), node_name np, dn_port np, True) \<in> T"
proof -
  obtain op np where p: "dn_primary (dg_nodes old) = Some op" "dn_primary (dg_nodes g) = Some np"
    using group_okD(5) [OF registeredD(1) [OF old]] group_okD(5) [OF wantedD(1) [OF new]] by blast
  then have t: "topologies (dg_nodes old) (dg_nodes g) op np" using old new by (simp add: topologies_def)
  note D = topologiesD [OF t]
  define t1 where "t1 = transition_primary np (Some op) (transition_start (dg_failover old) (dg_nodes g) (dg_nodes old) np)"
  define t2 where "t2 = fill_nodeids t1"
  define t3 where "t3 = reuse_rows (ts_gone t2) (ts_added t2) t2"
  let ?T = "row_of ` set (dg_nodes old)" and ?p = "np\<lparr>dn_nodeid := dn_nodeid op\<rparr>"
  have id: "dn_nodeid op \<noteq> None" using D(17) [OF D(3)] by auto
  obtain x where x: "ex_old x = dg_nodes old" "exchanged x t1" "leads f ?T (ts_yield t1) (ex_changed x \<union> ex_kept x)"
    "dn_nodeid ` ex_changed x \<subseteq> dn_nodeid ` set (dg_nodes old)" "?p \<in> ex_changed x"
    using primary_outcome [OF t ok t1_def, of f] by (auto simp: outcome_def)
  have s2: "settled t2 (ex_changed x \<union> ex_kept x)" "leads f ?T (ts_yield t2) (ex_changed x \<union> ex_kept x)" "?p \<in> set (ts_self t2)"
    using fill_settled [OF x(2)] fill_self [OF x(2)] x(3,5) by (auto simp: t2_def fill_nodeids_eq)
  then obtain G where G: "settled t3 G" "leads f ?T (ts_yield t3) G" "dn_nodeid ` G = dn_nodeid ` (ex_changed x \<union> ex_kept x)"
    using settled_reuse_rows [OF s2(1,2)] unfolding t3_def by blast
  then have "dn_nodeid ` G \<subseteq> dn_nodeid ` set (dg_nodes old)" using x(1,4) by auto
  then have "\<forall>i \<in> dn_nodeid ` G. the i < f" using fresh by fastforce
  then obtain T where T: "update_nodes f (ts_yield (finish_transition t3)) ?T = Some T" "matches T (set (ts_self (finish_transition t3)))"
    using settled_finish [OF G(1,2)] by blast
  have "?p \<in> set (ts_self (finish_transition t3))"
    using finish_keeps [OF G(1)] reuse_keeps [OF s2] id by (simp add: t3_def)
  then have "row_of ?p \<in> T" using T(2) id by (auto simp: matches_def)
  then have "(the (dn_nodeid op), node_name np, dn_port np, True) \<in> T"
    using D(6) by (simp add: row_of_def node_name_def dn_is_primary_def)
  moreover have "pg_transition g old = Some (ts_yield (finish_transition t3),
      g\<lparr>dg_failover := ts_failover (finish_transition t3), dg_nodes := ts_self (finish_transition t3)\<rparr>)"
    by (simp add: pg_transition_def p t1_def t2_def t3_def Let_def)
  ultimately show ?thesis using T p by auto
qed

text \<open>The switchover of the documentation: the primary in row 4 and the secondary in row 5 change places.\<close>

definition dist_node :: "string \<Rightarrow> string \<Rightarrow> int option \<Rightarrow> pg_dist_node" where
  "dist_node h r i = \<lparr>dn_host = h, dn_port = 5432, dn_role = r, dn_nodeid = i\<rparr>"

definition dist_group :: "pg_dist_node list \<Rightarrow> pg_dist_group" where
  "dist_group ns = \<lparr>dg_failover = False, dg_groupid = 1, dg_nodes = ns\<rparr>"

theorem citus_transition_sound_witness:
  "\<exists>ns g' T. pg_transition (dist_group [dist_node ''node2'' ''primary'' None, dist_node ''node1'' ''secondary'' None])
       (dist_group [dist_node ''node1'' ''primary'' (Some 4), dist_node ''node2'' ''secondary'' (Some 5)]) = Some (ns, g')
     \<and> update_nodes 6 ns {(4, ''node1'', 5432, True), (5, ''node2'', 5432, False)} = Some T
     \<and> matches T (set (dg_nodes g')) \<and> (4, ''node2'', 5432, True) \<in> T"
proof -
  let ?ol = "[dist_node ''node1'' ''primary'' (Some 4), dist_node ''node2'' ''secondary'' (Some 5)]"
  let ?nl = "[dist_node ''node2'' ''primary'' None, dist_node ''node1'' ''secondary'' None]"
  have pre: "registered ?ol" "wanted ?nl" "\<not> loses_old_primary ?ol ?nl" "\<forall>n \<in> set ?ol. the (dn_nodeid n) < 6" by code_simp+
  have T0: "row_of ` set ?ol = {(4, ''node1'', 5432, True), (5, ''node2'', 5432, False)}" by code_simp
  have p: "dn_primary ?ol = Some (dist_node ''node1'' ''primary'' (Some 4))" "dn_primary ?nl = Some (dist_node ''node2'' ''primary'' None)" by code_simp+
  have row: "(the (dn_nodeid (dist_node ''node1'' ''primary'' (Some 4))), node_name (dist_node ''node2'' ''primary'' None),
      dn_port (dist_node ''node2'' ''primary'' None), True) = (4, ''node2'', 5432, True)" by code_simp
  show ?thesis
    using citus_transition_sound [of "dist_group ?ol" "dist_group ?nl" 6] pre T0 p row by (auto simp: dist_group_def)
qed

lemma unregistered_address_gone:
  assumes t: "topologies ol nl op np" and k: "dn_key op \<noteq> dn_key np"
    and T: "rep T (insert (np\<lparr>dn_nodeid := dn_nodeid op\<rparr>) (set ol - {op}))"
  shows "(i, dn_host op, dn_port op, b) \<notin> T"
proof
  note D = topologiesD [OF t]
  let ?np = "np\<lparr>dn_nodeid := dn_nodeid op\<rparr>" and ?op = "op\<lparr>dn_role := ''secondary''\<rparr>"
  assume "(i, dn_host op, dn_port op, b) \<in> T"
  moreover have "T = row_of ` insert ?np (set ol - {op})" using T by (simp only: rep_def)
  ultimately obtain x where x: "x \<in> insert ?np (set ol - {op})" "(i, dn_host op, dn_port op, b) = row_of x" by blast
  have "node_addr x \<noteq> node_addr ?op"
  proof (rule node_addr_ne)
    show "plain_host ?op" using D(11) [OF D(3)] by (simp add: plain_host_def)
    show "plain_host x" using x(1) D(4,11,12) by (auto simp: plain_host_def)
    show "dn_key x \<noteq> dn_key ?op" using x(1) k key_inj [OF D(7) _ D(3), of x] by (auto simp: dn_key_def)
  qed
  moreover have "node_name x = dn_host op" "dn_port x = dn_port op" using x(2) unfolding row_of_def by simp_all
  ultimately show False by (simp add: node_addr_def node_name_def)
qed

lemma unregistered_old_primary_kept:
  assumes t: "topologies ol nl op np" and lost: "loses_old_primary ol nl"
    and g: "dg_nodes g = nl" "dg_nodes old = ol"
  shows "\<exists>g' o'. pg_transition g old = Some ([np\<lparr>dn_nodeid := dn_nodeid op\<rparr>], g')
    \<and> o' \<in> set (dg_nodes g') \<and> dn_key o' = dn_key op \<and> dn_role o' = ''secondary''"
proof -
  note D = topologiesD [OF t] and S = start_state [OF t, of "dg_failover old"]
  let ?np = "np\<lparr>dn_nodeid := dn_nodeid op\<rparr>" and ?s = "transition_start (dg_failover old) nl ol np"
  have p: "dn_primary ol = Some op" "dn_primary nl = Some np" using t by (auto simp: topologies_def)
  have l: "dn_get ol np = None" "dn_get nl op \<noteq> None" "dn_key op \<noteq> dn_key np" "ts_gone ?s = []"
    using lost by (auto simp: loses_old_primary_def p transition_start_def)
  then obtain x where x: "x \<in> set nl" "dn_key x = dn_key op" using dn_getD(1) by blast
  have sec: "dn_role x = ''secondary''" using D(14) [OF x(1)] x(2) l(3) by metis
  define t1 where "t1 = transition_primary np (Some op) ?s"
  have t1: "t1 = ?s\<lparr>ts_failover := True, ts_yield := [?np], ts_self := dn_put ?np nl\<rparr>"
    using l by (simp add: t1_def transition_primary_def failover_unregistered_def S Let_def)
  define t2 where "t2 = fill_nodeids t1"
  have t2: "ts_gone t2 = []" "ts_yield t2 = [?np]" "ts_failover t2" "ts_added t2 = ts_added ?s"
    "ts_self t2 = map (fill_node ol) (dn_put ?np nl)"
    by (simp_all add: t2_def fill_nodeids_eq t1 l(4) S(7))
  define o' where "o' = fill_node ol x"
  have o': "dn_key o' = dn_key op" "dn_role o' = ''secondary''"
    using x(2) sec by (auto simp: o'_def fill_node_def split: option.split)
  have "x \<in> set (dn_put ?np nl)" using x l(3) by (force simp: dn_put_def)
  then have "o' \<in> set (ts_self t2)" by (simp add: t2(5) o'_def)
  moreover have "dn_key o' \<notin> dn_key ` set (ts_added t2)" unfolding t2(4) S(3) o'(1) using imageI [OF D(3), of dn_key] by auto
  ultimately have "o' \<in> set (ts_self (finish_transition t2))"
    using t2(3) by (simp add: finish_transition_def dn_minus_def)
  moreover have "pg_transition g old = Some ([?np], g\<lparr>dg_failover := ts_failover (finish_transition t2), dg_nodes := ts_self (finish_transition t2)\<rparr>)"
    using t2(1-3) by (simp add: pg_transition_def g p Let_def finish_transition_def flip: t1_def t2_def)
  ultimately show ?thesis using o' by auto
qed

text \<open>
  C37: the case that goes wrong. Let the primary of a registered group fail over to a node that was never registered and come
  back as a secondary of the wanted topology, with no other secondary gone. Then, whatever the other nodes are, the only change
  that is yielded puts the new primary in the row of the old one. It is accepted, and afterwards no row of the table has
  the address of the old primary; but the topology that is remembered contains it, so it is taken to be registered and later
  transitions do not add it.
\<close>

theorem citus_loses_old_primary:
  assumes old: "registered (dg_nodes old)" and new: "wanted (dg_nodes g)" and lost: "loses_old_primary (dg_nodes old) (dg_nodes g)"
  shows "\<exists>op np g' T. dn_primary (dg_nodes old) = Some op \<and> dn_primary (dg_nodes g) = Some np
     \<and> pg_transition g old = Some ([np\<lparr>dn_nodeid := dn_nodeid op\<rparr>], g')
     \<and> update_nodes f [np\<lparr>dn_nodeid := dn_nodeid op\<rparr>] (row_of ` set (dg_nodes old)) = Some T
     \<and> (\<forall>i b. (i, dn_host op, dn_port op, b) \<notin> T) \<and> dn_get (dg_nodes g') op \<noteq> None \<and> \<not> matches T (set (dg_nodes g'))"
proof -
  obtain op np where p: "dn_primary (dg_nodes old) = Some op" "dn_primary (dg_nodes g) = Some np"
    using group_okD(5) [OF registeredD(1) [OF old]] group_okD(5) [OF wantedD(1) [OF new]] by blast
  then have t: "topologies (dg_nodes old) (dg_nodes g) op np" using old new by (simp add: topologies_def)
  note D = topologiesD [OF t]
  let ?np = "np\<lparr>dn_nodeid := dn_nodeid op\<rparr>"
  obtain g' o' where g': "pg_transition g old = Some ([?np], g')" "o' \<in> set (dg_nodes g')" "dn_key o' = dn_key op" "dn_role o' = ''secondary''"
    using unregistered_old_primary_kept [OF t lost refl refl] by blast
  have n: "dn_key np \<notin> dn_key ` set (dg_nodes old)" "dn_key op \<noteq> dn_key np"
    using lost dn_getD(2) by (auto simp: loses_old_primary_def p)
  obtain T where T: "update_nodes f [?np] (row_of ` set (dg_nodes old)) = Some T" "rep T (insert ?np (set (dg_nodes old) - {op}))"
    using leads_unregistered [OF t n(1), of f] unfolding leads_def by auto
  note out = unregistered_address_gone [OF t n(2) T(2)]
  have "(node_name o', dn_port o', dn_is_primary o') = (dn_host op, dn_port op, False)"
    using g'(3,4) by (simp add: node_name_def dn_key_def dn_is_primary_def)
  then have "(dn_host op, dn_port op, False) \<in> (\<lambda>n. (node_name n, dn_port n, dn_is_primary n)) ` set (dg_nodes g')"
    using imageI [OF g'(2), of "\<lambda>n. (node_name n, dn_port n, dn_is_primary n)"] by (simp only:)
  moreover have "(dn_host op, dn_port op, False) \<notin> (\<lambda>(i, h, p, b). (h, p, b)) ` T" using out by auto
  ultimately have "(\<lambda>(i, h, p, b). (h, p, b)) ` T \<noteq> (\<lambda>n. (node_name n, dn_port n, dn_is_primary n)) ` set (dg_nodes g')"
    by (intro notI) (simp only: simp_thms)
  then have "\<not> matches T (set (dg_nodes g'))" by (simp only: matches_def simp_thms)
  moreover have "dn_get (dg_nodes g') op \<noteq> None" using imageI [OF g'(2), of dn_key] g'(3) by (simp add: dn_getD(2))
  ultimately show ?thesis using p g'(1) T(1) out by blast
qed

text \<open>A group with the primary \<open>node1\<close> only; \<open>node2\<close> joins and is promoted before it is registered.\<close>

theorem citus_loses_old_primary_witness:
  "\<exists>g' T. pg_transition (dist_group [dist_node ''node2'' ''primary'' None, dist_node ''node1'' ''secondary'' None])
       (dist_group [dist_node ''node1'' ''primary'' (Some 4)]) = Some ([dist_node ''node2'' ''primary'' (Some 4)], g')
     \<and> update_nodes 6 [dist_node ''node2'' ''primary'' (Some 4)] {(4, ''node1'', 5432, True)} = Some T
     \<and> (\<forall>i b. (i, ''node1'', 5432, b) \<notin> T) \<and> \<not> matches T (set (dg_nodes g'))"
proof -
  let ?ol = "[dist_node ''node1'' ''primary'' (Some 4)]"
  let ?nl = "[dist_node ''node2'' ''primary'' None, dist_node ''node1'' ''secondary'' None]"
  have pre: "registered ?ol" "wanted ?nl" "loses_old_primary ?ol ?nl" by code_simp+
  have T0: "row_of ` set ?ol = {(4, ''node1'', 5432, True)}" by code_simp
  have p: "dn_primary ?ol = Some (dist_node ''node1'' ''primary'' (Some 4))" "dn_primary ?nl = Some (dist_node ''node2'' ''primary'' None)" by code_simp+
  have e: "(dist_node ''node2'' ''primary'' None)\<lparr>dn_nodeid := dn_nodeid (dist_node ''node1'' ''primary'' (Some 4))\<rparr> = dist_node ''node2'' ''primary'' (Some 4)"
    "dn_host (dist_node ''node1'' ''primary'' (Some 4)) = ''node1''" "dn_port (dist_node ''node1'' ''primary'' (Some 4)) = 5432"
    by (simp_all add: dist_node_def)
  have g: "dg_nodes (dist_group ns) = ns" for ns by (simp add: dist_group_def)
  show ?thesis
    using citus_loses_old_primary [of "dist_group ?ol" "dist_group ?nl" 6] pre unfolding g T0 p option.inject by (metis e)
qed

end
