(* ===== verification/CitusTasks.thy ===== *)
theory CitusTasks
  imports Citus Dcs
begin

text \<open>
  The queue of \<^verbatim>\<open>CitusHandler\<close> (\<^verbatim>\<open>patroni/postgresql/mpp/citus.py\<close>): requests to change a group come from the REST API and from
  the HA loop, and one thread turns them into transactions. Steps under the lock of the handler are atomic; between
  picking a task and recording its outcome other threads may change the queue. The theory ends with what
  holds of the queue whatever the interleaving, and with the requests that are never answered.
\<close>

section \<open>Tasks\<close>

text \<open>Tasks are compared by identity in one place; \<open>dt_ref\<close> is their identity.\<close>

record dist_task =
  dt_ref :: nat
  dt_group :: pg_dist_group
  dt_event :: string
  dt_timeout :: "rat option"
  dt_cooldown :: rat
  dt_deadline :: rat

definition PgDistTask :: "nat \<Rightarrow> int \<Rightarrow> pg_dist_node list \<Rightarrow> string \<Rightarrow> rat option \<Rightarrow> rat option \<Rightarrow> dist_task" where
  "PgDistTask r groupid nodes event timeout cooldown =
     \<lparr>dt_ref = r, dt_group = \<lparr>dg_failover = False, dg_groupid = groupid, dg_nodes = nodes\<rparr>, dt_event = event, dt_timeout = timeout,
      dt_cooldown = (case cooldown of Some c \<Rightarrow> if c \<noteq> 0 then c else 10000 | None \<Rightarrow> 10000), dt_deadline = 0\<rparr>"

abbreviation dt_groupid :: "dist_task \<Rightarrow> int" where
  "dt_groupid t \<equiv> dg_groupid (dt_group t)"

abbreviation dt_nodes :: "dist_task \<Rightarrow> pg_dist_node list" where
  "dt_nodes t \<equiv> dg_nodes (dt_group t)"

definition task_eq :: "dist_task \<Rightarrow> dist_task option \<Rightarrow> bool" where
  "task_eq t other = (case other of None \<Rightarrow> False | Some u \<Rightarrow> dt_event t = dt_event u \<and> dg_equals (dt_group t) (dt_group u))"

text \<open>A task is a set, so an empty one counts as false.\<close>

definition if_task :: "dist_task option \<Rightarrow> dist_task option" where
  "if_task t = (case t of None \<Rightarrow> None | Some u \<Rightarrow> if dt_nodes u = [] then None else Some u)"

record citus_handler =
  ch_groups :: "(int, dist_task) dict"
  ch_tasks :: "dist_task list"
  ch_in_flight :: "dist_task option"
  ch_reload :: bool

definition CitusHandler :: citus_handler where
  "CitusHandler = \<lparr>ch_groups = [], ch_tasks = [], ch_in_flight = None, ch_reload = True\<rparr>"

definition schedule_cache_rebuild :: "citus_handler \<Rightarrow> citus_handler" where
  "schedule_cache_rebuild h = h\<lparr>ch_reload := True\<rparr>"

definition ch_on_demote :: "citus_handler \<Rightarrow> citus_handler" where
  "ch_on_demote h = h\<lparr>ch_groups := [], ch_tasks := [], ch_in_flight := None\<rparr>"

text \<open>\<open>load_pg_dist_group\<close>; the rows are \<open>None\<close> when the query fails, which drops the transaction and asks for another attempt.\<close>

definition add_row :: "int \<times> string \<times> int \<times> string \<times> int \<Rightarrow> (int, dist_task) dict \<Rightarrow> (int, dist_task) dict" where
  "add_row row groups = (case row of (groupid, name, port, role, nodeid) \<Rightarrow>
     let t = dict_get_default groups groupid (PgDistTask 0 groupid [] ''after_promote'' None None);
         n = \<lparr>dn_host = name, dn_port = port, dn_role = role, dn_nodeid = Some nodeid\<rparr>
     in dict_set groupid (if dn_get (dt_nodes t) n = None then t\<lparr>dt_group := (dt_group t)\<lparr>dg_nodes := dt_nodes t @ [n]\<rparr>\<rparr> else t) groups)"

definition load_pg_dist_group :: "(int \<times> string \<times> int \<times> string \<times> int) list option \<Rightarrow> citus_handler \<Rightarrow> bool \<times> citus_handler" where
  "load_pg_dist_group rows h =
     (if \<not> ch_reload h then (True, h)
      else (case rows of
          None \<Rightarrow> (False, h\<lparr>ch_in_flight := None, ch_reload := True\<rparr>)
        | Some rs \<Rightarrow> (True, h\<lparr>ch_reload := False, ch_groups := fold add_row rs []\<rparr>)))"

section \<open>The queue\<close>

fun find_task_by_groupid :: "int \<Rightarrow> dist_task list \<Rightarrow> nat option" where
  "find_task_by_groupid groupid [] = None"
| "find_task_by_groupid groupid (t # ts) = (if dt_groupid t = groupid then Some 0 else map_option Suc (find_task_by_groupid groupid ts))"

definition pop_task :: "nat \<Rightarrow> dist_task list \<Rightarrow> dist_task list" where
  "pop_task i ts = take i ts @ drop (Suc i) ts"

definition next_task :: "dist_task list \<Rightarrow> nat option" where
  "next_task ts = (case find_task_by_groupid 0 ts of Some i \<Rightarrow> Some i | None \<Rightarrow> if ts \<noteq> [] then Some 0 else None)"

lemma find_task_Some: "find_task_by_groupid g ts = Some i \<Longrightarrow> i < length ts \<and> dt_groupid (ts ! i) = g"
  by (induction ts arbitrary: i) (auto split: if_splits)

lemma next_task_Some: "next_task ts = Some i \<Longrightarrow> i < length ts"
  by (auto simp: next_task_def find_task_Some split: option.splits if_splits)

function pick_queue :: "(int, dist_task) dict \<Rightarrow> dist_task list \<Rightarrow> nat option \<times> dist_task list" where
  "pick_queue groups ts = (case next_task ts of
     None \<Rightarrow> (None, ts)
   | Some i \<Rightarrow> if task_eq (ts ! i) (dict_get groups (dt_groupid (ts ! i))) then pick_queue groups (pop_task i ts) else (Some i, ts))"
  by pat_completeness auto
termination
  by (relation "measure (\<lambda>(groups, ts). length ts)") (auto simp: pop_task_def dest: next_task_Some)

declare pick_queue.simps [simp del]

definition pick_task :: "citus_handler \<Rightarrow> (nat \<times> dist_task) option \<times> citus_handler" where
  "pick_task h = (case if_task (ch_in_flight h) of
     Some t \<Rightarrow> (map_option (\<lambda>i. (i, ch_tasks h ! i)) (find_task_by_groupid (dt_groupid t) (ch_tasks h)), h)
   | None \<Rightarrow> (case pick_queue (ch_groups h) (ch_tasks h) of (i, ts) \<Rightarrow> (map_option (\<lambda>i. (i, ts ! i)) i, h\<lparr>ch_tasks := ts\<rparr>)))"

definition in_flight_group :: "citus_handler \<Rightarrow> int \<Rightarrow> bool" where
  "in_flight_group h groupid = (case if_task (ch_in_flight h) of None \<Rightarrow> False | Some u \<Rightarrow> dt_groupid u = groupid)"

text \<open>A task without a timeout comes from \<open>sync_meta_data\<close> and gives way to one that comes from the REST API.\<close>

definition gives_way :: "rat \<Rightarrow> dist_task \<Rightarrow> citus_handler \<Rightarrow> bool" where
  "gives_way now t h \<longleftrightarrow> dt_timeout t = None
     \<and> ((case find_task_by_groupid (dt_groupid t) (ch_tasks h) of None \<Rightarrow> False | Some k \<Rightarrow> dt_timeout (ch_tasks h ! k) \<noteq> None)
        \<or> in_flight_group h (dt_groupid t)
          \<and> (case ch_in_flight h of None \<Rightarrow> False | Some u \<Rightarrow> dt_timeout u \<noteq> None \<and> dt_deadline u > now))"

definition add_task_to_queue :: "rat \<Rightarrow> dist_task \<Rightarrow> citus_handler \<Rightarrow> bool \<times> citus_handler" where
  "add_task_to_queue now t h =
     (if gives_way now t h then (False, h)
      else (case find_task_by_groupid (dt_groupid t) (ch_tasks h) of
          Some k \<Rightarrow> if \<not> task_eq t (Some (ch_tasks h ! k)) then (True, h\<lparr>ch_tasks := (ch_tasks h)[k := t]\<rparr>) else (False, h)
        | None \<Rightarrow>
            if ch_reload h \<or> \<not> task_eq t (dict_get (ch_groups h) (dt_groupid t)) \<or> in_flight_group h (dt_groupid t)
            then (True, h\<lparr>ch_tasks := ch_tasks h @ [t]\<rparr>) else (False, h)))"

text \<open>
  \<open>add_task\<close>. The address in the connection URL of a member is what \<^verbatim>\<open>urlparse\<close> finds, with the default port; \<open>None\<close> if
  there is no URL, it cannot be parsed or has no host. A node that is already in the set is not added again.
\<close>

definition pg_dist_node_of :: "string \<Rightarrow> (string \<times> int) option \<Rightarrow> pg_dist_node option" where
  "pg_dist_node_of role a = map_option (\<lambda>(host, port). \<lparr>dn_host = host, dn_port = port, dn_role = role, dn_nodeid = None\<rparr>) a"

definition add_node :: "pg_dist_node \<Rightarrow> pg_dist_node list \<Rightarrow> pg_dist_node list" where
  "add_node n ns = (if dn_get ns n = None then ns @ [n] else ns)"

definition add_member :: "(member \<Rightarrow> (string \<times> int) option) \<Rightarrow> string \<Rightarrow> member \<Rightarrow> pg_dist_node list \<Rightarrow> pg_dist_node list" where
  "add_member addr lname m ns =
     (if m_name m \<noteq> lname \<and> \<not> noloadbalance (m_tags m) \<and> is_running m
      then (case pg_dist_node_of ''secondary'' (addr m) of None \<Rightarrow> ns | Some n \<Rightarrow> add_node n ns) else ns)"

definition add_task ::
  "(member \<Rightarrow> (string \<times> int) option) \<Rightarrow> rat \<Rightarrow> nat \<Rightarrow> string \<Rightarrow> int \<Rightarrow> 'w cluster \<Rightarrow> string \<Rightarrow> (string \<times> int) option
     \<Rightarrow> rat option \<Rightarrow> rat option \<Rightarrow> citus_handler \<Rightarrow> dist_task option \<times> citus_handler" where
  "add_task addr now r event groupid c lname leader_addr timeout cooldown h =
     (case pg_dist_node_of (if event = ''before_demote'' then ''demoted'' else ''primary'') leader_addr of
        None \<Rightarrow> (None, h)
      | Some p \<Rightarrow>
          let t = PgDistTask r groupid (fold (add_member addr lname) (c_members c) [p]) event timeout cooldown
          in (case add_task_to_queue now t h of (True, h') \<Rightarrow> (Some t, h') | (False, h') \<Rightarrow> (None, h')))"

text \<open>\<open>sync_meta_data\<close> on the coordinator; tasks are numbered from \<open>r\<close>.\<close>

definition worker_ready :: "leader \<Rightarrow> bool" where
  "worker_ready l \<longleftrightarrow> pyget (m_data (l_member l)) ''role'' \<in> {PStr ''master'', PStr ''primary''}
     \<and> pyget (m_data (l_member l)) ''state'' = PStr ''running''"

fun sync_workers :: "(member \<Rightarrow> (string \<times> int) option) \<Rightarrow> rat \<Rightarrow> nat \<Rightarrow> (int \<times> 'w cluster) list \<Rightarrow> citus_handler \<Rightarrow> citus_handler" where
  "sync_workers addr now r [] h = h"
| "sync_workers addr now r ((groupid, worker) # ws) h =
     sync_workers addr now (Suc r) ws (case c_leader worker of
         None \<Rightarrow> h
       | Some l \<Rightarrow> if worker_ready l
           then snd (add_task addr now r ''after_promote'' groupid worker (l_name l) (addr (l_member l)) None None h) else h)"

definition sync_meta_data ::
  "(member \<Rightarrow> (string \<times> int) option) \<Rightarrow> rat \<Rightarrow> nat \<Rightarrow> bool \<Rightarrow> string \<Rightarrow> (string \<times> int) option \<Rightarrow> 'w cluster cluster
     \<Rightarrow> citus_handler \<Rightarrow> citus_handler" where
  "sync_meta_data addr now r coordinator name own_addr c h =
     (if \<not> coordinator then h
      else sync_workers addr now (Suc r) (c_workers c) (snd (add_task addr now r ''after_promote'' 0 c name own_addr None None h)))"

text \<open>\<open>handle_event\<close>; the second result tells whether the request waits for the task.\<close>

record dist_event =
  de_type :: string
  de_group :: int
  de_leader :: string
  de_timeout :: "rat option"
  de_cooldown :: rat

definition handle_event ::
  "(member \<Rightarrow> (string \<times> int) option) \<Rightarrow> rat \<Rightarrow> nat \<Rightarrow> bool \<Rightarrow> 'w cluster cluster \<Rightarrow> dist_event \<Rightarrow> citus_handler
     \<Rightarrow> nat option \<times> citus_handler" where
  "handle_event addr now r ready c ev h =
     (if \<not> ready then (None, h)
      else (case dict_get (c_workers c) (de_group ev) of
          None \<Rightarrow> (None, h)
        | Some worker \<Rightarrow>
            (case c_leader worker of
               None \<Rightarrow> (None, h)
             | Some l \<Rightarrow>
                 if l_name l \<noteq> de_leader ev then (None, h)
                 else (case add_task addr now r (de_type ev) (de_group ev) worker (l_name l) (addr (l_member l)) (de_timeout ev)
                              (Some (de_cooldown ev * 1000)) h of
                     (Some t, h') \<Rightarrow> (if de_type ev = ''before_demote'' then Some (dt_ref t) else None, h')
                   | (None, h') \<Rightarrow> (None, h')))))"

section \<open>Transactions\<close>

datatype citus_sql = BEGIN | COMMIT | RemoveNode string int | UpdateNode int string int rat | AddNode string int int string

definition node_sql :: "int \<Rightarrow> rat \<Rightarrow> pg_dist_node \<Rightarrow> citus_sql list" where
  "node_sql groupid cooldown n =
     (if dn_role n \<notin> {''primary'', ''secondary'', ''demoted''} then [RemoveNode (dn_host n) (dn_port n)]
      else (case dn_nodeid n of
          Some i \<Rightarrow> [UpdateNode i (node_name n) (dn_port n) cooldown]
        | None \<Rightarrow> if dn_role n \<noteq> ''demoted'' then [AddNode (dn_host n) (dn_port n) groupid (dn_role n)] else []))"

text \<open>
  \<open>update_group\<close>: the statements and the task with the topology that the transition leaves. The identifiers of rows that are
  added are answers of the database and are filled in by \<open>assign_ids\<close>.
\<close>

definition current_group :: "citus_handler \<Rightarrow> int \<Rightarrow> pg_dist_group" where
  "current_group h groupid = (case if_task (ch_in_flight h) of
     Some t \<Rightarrow> dt_group t
   | None \<Rightarrow> (case if_task (dict_get (ch_groups h) groupid) of
       Some t \<Rightarrow> dt_group t | None \<Rightarrow> \<lparr>dg_failover = False, dg_groupid = groupid, dg_nodes = []\<rparr>))"

text \<open>A transition may change the role of the old primary, in the object of the transaction in progress or of the cache.\<close>

definition set_current :: "int \<Rightarrow> pg_dist_node list \<Rightarrow> citus_handler \<Rightarrow> citus_handler" where
  "set_current groupid ns h = (case if_task (ch_in_flight h) of
     Some t \<Rightarrow> h\<lparr>ch_in_flight := Some (t\<lparr>dt_group := (dt_group t)\<lparr>dg_nodes := ns\<rparr>\<rparr>)\<rparr>
   | None \<Rightarrow> (case if_task (dict_get (ch_groups h) groupid) of
       Some t \<Rightarrow> h\<lparr>ch_groups := dict_set groupid (t\<lparr>dt_group := (dt_group t)\<lparr>dg_nodes := ns\<rparr>\<rparr>) (ch_groups h)\<rparr>
     | None \<Rightarrow> h))"

fun assign_ids :: "int list \<Rightarrow> pg_dist_node list \<Rightarrow> pg_dist_node list \<Rightarrow> pg_dist_node list" where
  "assign_ids (i # ids) (n # ns) self =
     (if dn_nodeid n = None \<and> dn_role n \<in> {''primary'', ''secondary''}
      then assign_ids ids ns (dn_put (n\<lparr>dn_nodeid := Some i\<rparr>) self) else assign_ids (i # ids) ns self)"
| "assign_ids _ _ self = self"

definition update_group ::
  "dist_task \<Rightarrow> bool \<Rightarrow> int list \<Rightarrow> citus_handler \<Rightarrow> (citus_sql list \<times> dist_task \<times> citus_handler) option" where
  "update_group t transaction ids h =
     (let old = current_group h (dt_groupid t) in
      case pg_transition (dt_group t) old of
        None \<Rightarrow> None
      | Some (ns, g) \<Rightarrow>
          let g' = g\<lparr>dg_nodes := assign_ids ids ns (dg_nodes g)\<rparr>; sql = concat (map (node_sql (dt_groupid t) (dt_cooldown t)) ns);
              h' = set_current (dt_groupid t) (transition_old (dt_group t) old) h
          in if \<not> transaction \<and> length ns > 1
             then Some ([BEGIN] @ sql @ [COMMIT], t\<lparr>dt_group := g'\<lparr>dg_failover := False\<rparr>\<rparr>, h')
             else Some (sql, t\<lparr>dt_group := g'\<rparr>, h'))"

definition process_task ::
  "rat \<Rightarrow> int list \<Rightarrow> dist_task \<Rightarrow> citus_handler \<Rightarrow> (bool \<times> citus_sql list \<times> dist_task \<times> citus_handler) option" where
  "process_task now ids t h =
     (let flying = (if_task (ch_in_flight h) \<noteq> None) in
      if dt_event t = ''after_promote'' then
        (case update_group t (ch_in_flight h \<noteq> None) ids h of
           None \<Rightarrow> None
         | Some (sql, t', h') \<Rightarrow>
             Some (True, sql @ (if flying then [COMMIT] else []), t'\<lparr>dt_group := (dt_group t')\<lparr>dg_failover := False\<rparr>\<rparr>, h'))
      else
        (let t1 = (case dt_timeout t of Some d \<Rightarrow> if d \<noteq> 0 then t\<lparr>dt_deadline := now + d\<rparr> else t | None \<Rightarrow> t)
         in case update_group t1 True ids h of
              None \<Rightarrow> None
            | Some (sql, t', h') \<Rightarrow> Some (False, (if flying then [] else [BEGIN]) @ sql, t', h')))"

text \<open>
  The end of an iteration of \<open>process_tasks\<close>. The argument tells whether the cache is to be updated, \<open>None\<close> after an
  exception; one of a query has cleared the transaction and asked for the cache to be read again. The index is the one that was picked, while the queue may have
  changed in the meantime: if it became shorter, looking at that index raises \<open>IndexError\<close> and nobody is woken up.
\<close>

definition query_failed :: "citus_handler \<Rightarrow> citus_handler" where
  "query_failed h = schedule_cache_rebuild (h\<lparr>ch_in_flight := None\<rparr>)"

definition conclude_task :: "nat \<Rightarrow> dist_task \<Rightarrow> bool option \<Rightarrow> citus_handler \<Rightarrow> (py_error + nat) \<times> citus_handler" where
  "conclude_task i t update_cache h =
     (if ch_tasks h = [] then (Inr (dt_ref t), h)
      else
        (let h1 = (if update_cache = Some True then h\<lparr>ch_groups := dict_set (dt_groupid t) t (ch_groups h)\<rparr> else h);
             h2 = h1\<lparr>ch_in_flight := (if update_cache = Some False then Some t else None)\<rparr>
         in if i \<ge> length (ch_tasks h) then (Inl IndexError, h2)
            else if dt_ref (ch_tasks h ! i) = dt_ref t then (Inr (dt_ref t), h2\<lparr>ch_tasks := pop_task i (ch_tasks h)\<rparr>)
            else (Inr (dt_ref t), h2)))"

text \<open>\<open>run\<close> rolls a transaction back when its deadline has passed; the query may fail.\<close>

definition rollback :: "bool \<Rightarrow> citus_handler \<Rightarrow> citus_handler" where
  "rollback ok h = (if ok then h\<lparr>ch_in_flight := None\<rparr> else query_failed h)"

section \<open>Interleaving\<close>

text \<open>
  The thread of the handler and the threads that make requests. \<open>cs_current\<close> is the task being processed, with the index it
  was picked from and the outcome once it is known; \<open>cs_waiting\<close> are the tasks whose requests wait for them and
  \<open>cs_woken\<close> those that have been woken up.
\<close>

record citus_state =
  cs_handler :: citus_handler
  cs_current :: "(nat \<times> dist_task \<times> bool option option) option"
  cs_next :: nat
  cs_waiting :: "nat set"
  cs_woken :: "nat set"

definition citus_init :: citus_state where
  "citus_init = \<lparr>cs_handler = CitusHandler, cs_current = None, cs_next = 0, cs_waiting = {}, cs_woken = {}\<rparr>"

datatype citus_event =
  Request rat int "pg_dist_node list" string "rat option" "rat option"
  | Demoted | Rebuild | Load "(int \<times> string \<times> int \<times> string \<times> int) list option"
  | Pick | Process rat "int list" bool | Conclude | Rollback bool

definition update_task :: "dist_task \<Rightarrow> dist_task list \<Rightarrow> dist_task list" where
  "update_task t ts = map (\<lambda>u. if dt_ref u = dt_ref t then t else u) ts"

fun citus_step :: "citus_event \<Rightarrow> citus_state \<Rightarrow> citus_state option" where
  "citus_step (Request now groupid nodes event timeout cooldown) s =
     (let t = PgDistTask (cs_next s) groupid nodes event timeout cooldown in
      case add_task_to_queue now t (cs_handler s) of (added, h) \<Rightarrow>
        Some (s\<lparr>cs_handler := h, cs_next := Suc (cs_next s),
                cs_waiting := (if added \<and> event = ''before_demote'' then insert (cs_next s) (cs_waiting s) else cs_waiting s)\<rparr>))"
| "citus_step Demoted s = Some (s\<lparr>cs_handler := ch_on_demote (cs_handler s)\<rparr>)"
| "citus_step Rebuild s = Some (s\<lparr>cs_handler := schedule_cache_rebuild (cs_handler s)\<rparr>)"
| "citus_step (Load rows) s = (if cs_current s = None \<and> if_task (ch_in_flight (cs_handler s)) = None
      then Some (s\<lparr>cs_handler := snd (load_pg_dist_group rows (cs_handler s))\<rparr>) else None)"
| "citus_step Pick s =
     (if cs_current s = None
      then (case pick_task (cs_handler s) of (picked, h) \<Rightarrow>
              Some (s\<lparr>cs_handler := h, cs_current := map_option (\<lambda>(i, t). (i, t, None)) picked\<rparr>))
      else None)"
| "citus_step (Process now ids sql_ok) s = (case cs_current s of
     Some (i, t, None) \<Rightarrow>
       (case process_task now ids t (cs_handler s) of
          None \<Rightarrow> Some (s\<lparr>cs_current := Some (i, t, Some None)\<rparr>)
        | Some (update_cache, sql, t', h) \<Rightarrow>
            let h' = h\<lparr>ch_tasks := update_task t' (ch_tasks h)\<rparr> in
            if sql_ok \<or> sql = [] then Some (s\<lparr>cs_handler := h', cs_current := Some (i, t', Some (Some update_cache))\<rparr>)
            else Some (s\<lparr>cs_handler := query_failed h', cs_current := Some (i, t', Some None)\<rparr>))
   | _ \<Rightarrow> None)"
| "citus_step Conclude s = (case cs_current s of
     Some (i, t, Some update_cache) \<Rightarrow>
       (case conclude_task i t update_cache (cs_handler s) of (r, h) \<Rightarrow>
          Some (s\<lparr>cs_handler := h, cs_current := None, cs_woken := (case r of Inr n \<Rightarrow> insert n (cs_woken s) | Inl _ \<Rightarrow> cs_woken s)\<rparr>))
   | _ \<Rightarrow> None)"
| "citus_step (Rollback sql_ok) s =
     (if cs_current s = None \<and> ch_in_flight (cs_handler s) \<noteq> None then Some (s\<lparr>cs_handler := rollback sql_ok (cs_handler s)\<rparr>) else None)"

inductive citus_reach :: "citus_state \<Rightarrow> citus_state \<Rightarrow> bool" for s0 :: citus_state where
  start: "citus_reach s0 s0"
| step: "citus_reach s0 s \<Longrightarrow> citus_step ev s = Some s' \<Longrightarrow> citus_reach s0 s'"

section \<open>One task per group\<close>

lemma find_task_None: "find_task_by_groupid g ts = None \<longleftrightarrow> g \<notin> dt_groupid ` set ts"
  by (induction ts) auto

lemma map_pop_task: "map f (pop_task i ts) = take i (map f ts) @ drop (Suc i) (map f ts)"
  by (simp add: pop_task_def take_map drop_map)

lemma distinct_pop: "distinct xs \<Longrightarrow> distinct (take i xs @ drop (Suc i) xs)"
proof (induction xs arbitrary: i)
  case (Cons x xs)
  then show ?case by (cases i) (auto dest: in_set_takeD in_set_dropD)
qed simp

lemma set_pop_task: "set (pop_task i ts) \<subseteq> set ts"
  by (auto simp: pop_task_def dest: in_set_takeD in_set_dropD)

text \<open>The queue, with tasks that are known by their identity.\<close>

definition queue_ok :: "nat \<Rightarrow> dist_task list \<Rightarrow> bool" where
  "queue_ok n ts \<longleftrightarrow> distinct (map dt_groupid ts) \<and> distinct (map dt_ref ts) \<and> (\<forall>t \<in> set ts. dt_ref t < n)"

lemma queue_ok_pop: "queue_ok n ts \<Longrightarrow> queue_ok n (pop_task i ts)"
  using set_pop_task unfolding queue_ok_def map_pop_task by (blast intro: distinct_pop)

lemma queue_ok_pick: "queue_ok n ts \<Longrightarrow> queue_ok n (snd (pick_queue groups ts))"
proof (induction groups ts rule: pick_queue.induct)
  case (1 groups ts)
  then show ?case by (subst pick_queue.simps) (auto simp: queue_ok_pop split: option.splits)
qed

lemma queue_ok_request:
  assumes "queue_ok n (ch_tasks h)" "add_task_to_queue now t h = (added, h')" "dt_ref t = n"
  shows "queue_ok (Suc n) (ch_tasks h')"
proof (cases "find_task_by_groupid (dt_groupid t) (ch_tasks h)")
  case None
  then have "ch_tasks h' = ch_tasks h \<or> ch_tasks h' = ch_tasks h @ [t]"
    using assms(2) by (auto simp: add_task_to_queue_def split: if_splits)
  moreover have "dt_ref t \<notin> dt_ref ` set (ch_tasks h)" using assms(1,3) unfolding queue_ok_def by (metis imageE less_irrefl)
  ultimately show ?thesis using assms(1,3) None by (auto simp: queue_ok_def find_task_None less_Suc_eq)
next
  case (Some k)
  note k = find_task_Some [OF Some]
  have "ch_tasks h' = ch_tasks h \<or> ch_tasks h' = (ch_tasks h)[k := t]"
    using assms(2) Some by (auto simp: add_task_to_queue_def split: if_splits)
  moreover have "distinct (map dt_groupid ((ch_tasks h)[k := t]))"
  proof -
    have "(map dt_groupid (ch_tasks h))[k := dt_groupid t] = map dt_groupid (ch_tasks h)"
      using k by (metis list_update_id nth_map)
    then show ?thesis using assms(1) by (simp add: map_update queue_ok_def)
  qed
  moreover have "distinct (map dt_ref ((ch_tasks h)[k := t]))"
    unfolding map_update by (rule distinct_list_update) (use assms k in \<open>auto simp: queue_ok_def\<close>)
  moreover have "\<forall>u \<in> set ((ch_tasks h)[k := t]). dt_ref u < Suc n"
    using assms(1,3) set_update_subset_insert [of "ch_tasks h" k t] unfolding queue_ok_def by fastforce
  ultimately show ?thesis using assms(1) by (auto simp: queue_ok_def less_SucI)
qed

lemma request_tasks:
  assumes "add_task_to_queue now t h = (added, h')"
  shows "set (ch_tasks h') \<subseteq> insert t (set (ch_tasks h))"
proof -
  have "ch_tasks h' = ch_tasks h \<or> (\<exists>k. ch_tasks h' = (ch_tasks h)[k := t]) \<or> ch_tasks h' = ch_tasks h @ [t]"
    using assms by (auto simp: add_task_to_queue_def split: if_splits option.splits)
  then show ?thesis by (auto dest: subsetD [OF set_update_subset_insert])
qed

lemma update_task_refs: "map dt_ref (update_task t ts) = map dt_ref ts"
  by (auto simp: update_task_def)

lemma update_task_groups:
  "\<forall>u \<in> set ts. dt_ref u = dt_ref t \<longrightarrow> dt_groupid u = dt_groupid t \<Longrightarrow> map dt_groupid (update_task t ts) = map dt_groupid ts"
  by (auto simp: update_task_def)

lemma queue_ok_update:
  assumes "queue_ok n ts" "\<forall>u \<in> set ts. dt_ref u = dt_ref t \<longrightarrow> dt_groupid u = dt_groupid t"
  shows "queue_ok n (update_task t ts)"
  unfolding queue_ok_def update_task_groups [OF assms(2)] update_task_refs
  using assms(1) by (auto simp: queue_ok_def update_task_def)

lemma transition_group: "pg_transition g old = Some (ns, g') \<Longrightarrow> dg_groupid g' = dg_groupid g"
  by (auto simp: pg_transition_def Let_def split: option.splits)

lemma set_current_tasks [simp]: "ch_tasks (set_current groupid ns h) = ch_tasks h"
  by (auto simp: set_current_def split: option.splits)

lemma update_group_same:
  "update_group t tr ids h = Some (sql, t', h') \<Longrightarrow> dt_ref t' = dt_ref t \<and> dt_groupid t' = dt_groupid t \<and> ch_tasks h' = ch_tasks h"
  by (auto simp: update_group_def Let_def transition_group split: option.splits if_splits)

lemma process_task_same:
  assumes "process_task now ids t h = Some (uc, sql, t', h')"
  shows "dt_ref t' = dt_ref t \<and> dt_groupid t' = dt_groupid t \<and> ch_tasks h' = ch_tasks h"
proof (cases "dt_event t = ''after_promote''")
  case True
  then show ?thesis using assms by (auto simp: process_task_def Let_def split: option.splits dest!: update_group_same)
next
  case False
  obtain t1 where "t1 = (case dt_timeout t of Some d \<Rightarrow> if d \<noteq> 0 then t\<lparr>dt_deadline := now + d\<rparr> else t | None \<Rightarrow> t)" by blast
  moreover from this have "dt_ref t1 = dt_ref t" "dt_groupid t1 = dt_groupid t" by (auto split: option.splits)
  ultimately show ?thesis using assms False by (auto simp: process_task_def Let_def split: option.splits dest!: update_group_same)
qed

text \<open>A task that is being processed is the one in the queue with its identity, if it is still there.\<close>

definition citus_ok :: "citus_state \<Rightarrow> bool" where
  "citus_ok s \<longleftrightarrow> queue_ok (cs_next s) (ch_tasks (cs_handler s))
     \<and> (case cs_current s of None \<Rightarrow> True
        | Some (i, t, r) \<Rightarrow> dt_ref t < cs_next s
            \<and> (\<forall>u \<in> set (ch_tasks (cs_handler s)). dt_ref u = dt_ref t \<longrightarrow> dt_groupid u = dt_groupid t))"

lemma pick_queue_subset: "set (snd (pick_queue groups ts)) \<subseteq> set ts"
proof (induction groups ts rule: pick_queue.induct)
  case (1 groups ts)
  show ?case
  proof (cases "next_task ts")
    case None
    then show ?thesis by (simp add: pick_queue.simps [of groups ts])
  next
    case (Some k)
    then show ?thesis using 1 [OF Some] set_pop_task [of k ts] by (auto simp: pick_queue.simps [of groups ts])
  qed
qed

lemma pick_queue_index: "fst (pick_queue groups ts) = Some i \<Longrightarrow> i < length (snd (pick_queue groups ts))"
proof (induction groups ts rule: pick_queue.induct)
  case (1 groups ts)
  show ?case
  proof (cases "next_task ts")
    case None
    then show ?thesis using 1(2) by (simp add: pick_queue.simps [of groups ts])
  next
    case (Some k)
    then show ?thesis using 1(1) [OF Some] 1(2) next_task_Some [OF Some] by (auto simp: pick_queue.simps [of groups ts] split: if_splits)
  qed
qed

lemma pick_task_result:
  assumes "pick_task h = (picked, h')"
  shows "set (ch_tasks h') \<subseteq> set (ch_tasks h)" "queue_ok n (ch_tasks h) \<Longrightarrow> queue_ok n (ch_tasks h')"
    "picked = Some (i, t) \<Longrightarrow> t \<in> set (ch_tasks h')"
proof -
  show "set (ch_tasks h') \<subseteq> set (ch_tasks h)" "queue_ok n (ch_tasks h) \<Longrightarrow> queue_ok n (ch_tasks h')"
    using assms pick_queue_subset [of "ch_groups h" "ch_tasks h"] queue_ok_pick [of n "ch_tasks h" "ch_groups h"]
    by (auto simp: pick_task_def split: option.splits prod.splits)
  show "t \<in> set (ch_tasks h')" if "picked = Some (i, t)"
    using assms that pick_queue_index [of "ch_groups h" "ch_tasks h"]
    by (auto simp: pick_task_def find_task_Some split: option.splits prod.splits)
qed

lemma conclude_tasks:
  "conclude_task i t uc h = (r, h') \<Longrightarrow> ch_tasks h' = ch_tasks h \<or> ch_tasks h' = pop_task i (ch_tasks h)"
  by (auto simp: conclude_task_def Let_def split: if_splits)

lemma handler_tasks [simp]:
  "ch_tasks (ch_on_demote h) = []" "ch_tasks (schedule_cache_rebuild h) = ch_tasks h" "ch_tasks (query_failed h) = ch_tasks h"
  "ch_tasks (rollback b h) = ch_tasks h" "ch_tasks (snd (load_pg_dist_group rows h)) = ch_tasks h"
  by (auto simp: ch_on_demote_def schedule_cache_rebuild_def query_failed_def rollback_def load_pg_dist_group_def split: option.splits)

lemma citus_ok_step:
  assumes "citus_ok s" "citus_step ev s = Some s'"
  shows "citus_ok s'"
proof -
  have q: "queue_ok (cs_next s) (ch_tasks (cs_handler s))" using assms(1) by (simp add: citus_ok_def)
  show ?thesis
  proof (cases ev)
    case (Request now groupid nodes event timeout cooldown)
    let ?t = "PgDistTask (cs_next s) groupid nodes event timeout cooldown"
    obtain added h where a: "add_task_to_queue now ?t (cs_handler s) = (added, h)" by fastforce
    note sub = request_tasks [OF a]
    have r: "dt_ref ?t = cs_next s" by (simp add: PgDistTask_def)
    have "dt_groupid u = dt_groupid t" if "cs_current s = Some (i, t, x)" "u \<in> set (ch_tasks h)" "dt_ref u = dt_ref t" for i t x u
    proof -
      have "dt_ref t < cs_next s" using assms(1) that(1) by (simp add: citus_ok_def)
      then have "u \<in> set (ch_tasks (cs_handler s))" using sub that(2,3) r by auto
      then show ?thesis using assms(1) that by (simp add: citus_ok_def)
    qed
    then show ?thesis
      using assms Request a queue_ok_request [OF q a r] by (auto simp: citus_ok_def Let_def less_SucI split: option.splits)
  next
    case Pick
    obtain picked h where p: "pick_task (cs_handler s) = (picked, h)" by fastforce
    note res = pick_task_result [OF p]
    have "dt_ref t < cs_next s \<and> (\<forall>u \<in> set (ch_tasks h). dt_ref u = dt_ref t \<longrightarrow> dt_groupid u = dt_groupid t)"
      if "picked = Some (i, t)" for i t
      using res(2) [OF q] res(3) [OF that] by (auto simp: queue_ok_def distinct_map dest: inj_onD)
    then show ?thesis using assms Pick p res(2) [OF q] by (cases picked) (auto simp: citus_ok_def split: if_splits)
  next
    case (Process now ids sql_ok)
    then obtain i t where c: "cs_current s = Some (i, t, None)"
      using assms(2) by (auto split: option.splits)
    show ?thesis
    proof (cases "process_task now ids t (cs_handler s)")
      case None
      then show ?thesis using assms Process c by (auto simp: citus_ok_def)
    next
      case (Some r)
      obtain uc sql t' h where r: "r = (uc, sql, t', h)" by (cases r) auto
      note same = process_task_same [OF Some [unfolded r]]
      have cur: "dt_ref t < cs_next s" "\<forall>u \<in> set (ch_tasks (cs_handler s)). dt_ref u = dt_ref t \<longrightarrow> dt_groupid u = dt_groupid t"
        using assms(1) c by (auto simp: citus_ok_def)
      have ts: "queue_ok (cs_next s) (update_task t' (ch_tasks h))"
        using q same cur(2) by (intro queue_ok_update) auto
      have "dt_groupid u = dt_groupid t'" if "u \<in> set (update_task t' (ch_tasks h))" "dt_ref u = dt_ref t'" for u
        using that same by (auto simp: update_task_def split: if_splits)
      then show ?thesis using assms(2) Process c Some r ts cur(1) same by (auto simp: citus_ok_def Let_def split: if_splits)
    qed
  next
    case Conclude
    then obtain i t uc where c: "cs_current s = Some (i, t, Some uc)" using assms(2) by (auto split: option.splits)
    obtain r h where r: "conclude_task i t uc (cs_handler s) = (r, h)" by fastforce
    then show ?thesis using assms(2) Conclude c conclude_tasks [OF r] q queue_ok_pop by (auto simp: citus_ok_def)
  qed (use assms in \<open>auto simp: citus_ok_def queue_ok_def split: if_splits option.splits\<close>)
qed

lemma citus_ok_reach: "citus_reach citus_init s \<Longrightarrow> citus_ok s"
proof (induction rule: citus_reach.induct)
  case start
  show ?case by (simp add: citus_ok_def citus_init_def CitusHandler_def queue_ok_def)
qed (rule citus_ok_step)

text \<open>
  C30: Whatever the threads do, the queue never holds two tasks of one group, and the task that is being processed is not
  mistaken for another one: the task in the queue with its identity is of the same group.
\<close>

theorem citus_one_task_per_group:
  assumes "citus_reach citus_init s"
  shows "distinct (map dt_groupid (ch_tasks (cs_handler s)))
     \<and> (case cs_current s of None \<Rightarrow> True
        | Some (i, t, r) \<Rightarrow> \<forall>u \<in> set (ch_tasks (cs_handler s)). dt_ref u = dt_ref t \<longrightarrow> dt_groupid u = dt_groupid t)"
  using citus_ok_reach [OF assms] by (auto simp: citus_ok_def queue_ok_def split: option.splits)

fun citus_run :: "citus_event list \<Rightarrow> citus_state \<Rightarrow> citus_state option" where
  "citus_run [] s = Some s"
| "citus_run (ev # evs) s = (case citus_step ev s of None \<Rightarrow> None | Some s' \<Rightarrow> citus_run evs s')"

lemma citus_run_reach: "citus_run evs s = Some s' \<Longrightarrow> citus_reach s0 s \<Longrightarrow> citus_reach s0 s'"
  by (induction evs arbitrary: s) (auto split: option.splits intro: citus_reach.step)

lemma citus_run_result: "map_option f (citus_run evs citus_init) = Some y \<Longrightarrow> \<exists>s. citus_reach citus_init s \<and> f s = y"
  by (auto dest: citus_run_reach intro: citus_reach.start)

section \<open>Requests that are never answered\<close>

definition forgotten :: "nat \<Rightarrow> citus_state \<Rightarrow> bool" where
  "forgotten r s \<longleftrightarrow> r < cs_next s \<and> (\<forall>t \<in> set (ch_tasks (cs_handler s)). dt_ref t \<noteq> r) \<and> r \<notin> cs_woken s
     \<and> (case cs_current s of None \<Rightarrow> True | Some (i, t, x) \<Rightarrow> dt_ref t \<noteq> r)"

lemma forgotten_tasks:
  "forgotten r s \<Longrightarrow> set ts \<subseteq> set (ch_tasks (cs_handler s)) \<Longrightarrow> t \<in> set ts \<Longrightarrow> dt_ref t \<noteq> r"
  unfolding forgotten_def by (metis subsetD)

lemma conclude_wakes: "fst (conclude_task i t uc h) \<in> {Inr (dt_ref t), Inl IndexError}"
  by (auto simp: conclude_task_def Let_def)

lemma forgotten_step:
  assumes f: "forgotten r s" and st: "citus_step ev s = Some s'"
  shows "forgotten r s'"
proof (cases ev)
  case (Request now groupid nodes event timeout cooldown)
  let ?t = "PgDistTask (cs_next s) groupid nodes event timeout cooldown"
  obtain added h where a: "add_task_to_queue now ?t (cs_handler s) = (added, h)" by fastforce
  have "dt_ref u \<noteq> r" if "u \<in> set (ch_tasks h)" for u
    using subsetD [OF request_tasks [OF a] that] f by (auto simp: forgotten_def PgDistTask_def)
  then have "\<forall>u \<in> set (ch_tasks h). dt_ref u \<noteq> r" by blast
  moreover have "cs_handler s' = h" "cs_next s' = Suc (cs_next s)" "cs_woken s' = cs_woken s" "cs_current s' = cs_current s"
    using st Request a by (auto simp: Let_def)
  ultimately show ?thesis using f by (simp add: forgotten_def less_SucI)
next
  case Pick
  obtain picked h where p: "pick_task (cs_handler s) = (picked, h)" by fastforce
  note res = pick_task_result [OF p]
  have "\<forall>u \<in> set (ch_tasks h). dt_ref u \<noteq> r" using forgotten_tasks [OF f res(1)] by blast
  moreover from this have "dt_ref t \<noteq> r" if "picked = Some (i, t)" for i t using res(3) [OF that] by blast
  ultimately show ?thesis using f st Pick p by (cases picked) (auto simp: forgotten_def split: if_splits)
next
  case (Process now ids sql_ok)
  then obtain i t where c: "cs_current s = Some (i, t, None)" using st by (auto split: option.splits)
  show ?thesis
  proof (cases "process_task now ids t (cs_handler s)")
    case None
    then show ?thesis using f st Process c by (auto simp: forgotten_def)
  next
    case (Some x)
    obtain uc sql t' h where x: "x = (uc, sql, t', h)" by (cases x) auto
    note same = process_task_same [OF Some [unfolded x]]
    have "\<forall>u \<in> set (update_task t' (ch_tasks h)). dt_ref u \<noteq> r"
      using f c same by (auto simp: update_task_def forgotten_def)
    then show ?thesis using f st Process c Some x same by (auto simp: forgotten_def Let_def split: if_splits)
  qed
next
  case Conclude
  then obtain i t uc where c: "cs_current s = Some (i, t, Some uc)" using st by (auto split: option.splits)
  obtain x h where x: "conclude_task i t uc (cs_handler s) = (x, h)" by fastforce
  have "set (ch_tasks h) \<subseteq> set (ch_tasks (cs_handler s))" using conclude_tasks [OF x] set_pop_task [of i "ch_tasks (cs_handler s)"] by auto
  then have "\<forall>u \<in> set (ch_tasks h). dt_ref u \<noteq> r" using forgotten_tasks [OF f] by blast
  moreover have "x = Inr (dt_ref t) \<or> x = Inl IndexError" using conclude_wakes [of i t uc "cs_handler s"] x by simp
  ultimately show ?thesis using f st Conclude c x by (auto simp: forgotten_def)
qed (use f st in \<open>auto simp: forgotten_def split: if_splits option.splits\<close>)

lemma forgotten_forever: "citus_reach s s' \<Longrightarrow> forgotten r s \<Longrightarrow> forgotten r s'"
  by (induction rule: citus_reach.induct) (auto intro: forgotten_step)

definition demo_nodes :: "string \<Rightarrow> pg_dist_node list" where
  "demo_nodes role = [\<lparr>dn_host = ''worker'', dn_port = 5432, dn_role = role, dn_nodeid = None\<rparr>]"

theorem citus_one_task_per_group_witness:
  "\<exists>s. citus_reach citus_init s \<and> map dt_groupid (ch_tasks (cs_handler s)) = [1, 2] \<and> distinct (map dt_groupid (ch_tasks (cs_handler s)))"
proof -
  let ?evs = "[Request 0 1 (demo_nodes ''demoted'') ''before_demote'' (Some 30) (Some 10),
               Request 0 2 (demo_nodes ''primary'') ''after_promote'' None None,
               Request 0 1 (demo_nodes ''primary'') ''before_promote'' (Some 30) (Some 10)]"
  have run: "map_option (\<lambda>s. map dt_groupid (ch_tasks (cs_handler s))) (citus_run ?evs citus_init) = Some [1, 2]" by code_simp
  obtain s where s: "citus_reach citus_init s" "map dt_groupid (ch_tasks (cs_handler s)) = [1, 2]"
    using citus_run_result [OF run] by (elim exE conjE) (rule that)
  from s citus_one_task_per_group [OF s(1)] show ?thesis by (intro exI [of _ s] conjI) auto
qed

text \<open>
  The request of a worker that is about to be demoted waits until its task was processed. If the task is replaced in the
  queue by another one of the same group, or the coordinator is demoted, nobody will ever wake that request up, whatever happens
  afterwards: its thread waits forever.
\<close>

theorem citus_waiter_lost:
  "(\<exists>s. citus_reach citus_init s \<and> 0 \<in> cs_waiting s \<and> map dt_ref (ch_tasks (cs_handler s)) = [1] \<and> 0 \<notin> \<Union> (cs_woken ` Collect (citus_reach s)))
   \<and> (\<exists>s. citus_reach citus_init s \<and> 0 \<in> cs_waiting s \<and> map dt_ref (ch_tasks (cs_handler s)) = [] \<and> 0 \<notin> \<Union> (cs_woken ` Collect (citus_reach s)))"
proof (rule conjI)
  have lost: "\<exists>s. citus_reach citus_init s \<and> 0 \<in> cs_waiting s \<and> map dt_ref (ch_tasks (cs_handler s)) = rs \<and> 0 \<notin> \<Union> (cs_woken ` Collect (citus_reach s))"
    if run: "map_option (\<lambda>s. (0 \<in> cs_waiting s, forgotten 0 s, map dt_ref (ch_tasks (cs_handler s)))) (citus_run evs citus_init) = Some (True, True, rs)" for evs rs
  proof -
    obtain s where s: "citus_reach citus_init s" "0 \<in> cs_waiting s" "forgotten 0 s" "map dt_ref (ch_tasks (cs_handler s)) = rs"
      using citus_run_result [OF run] by auto
    moreover have "0 \<notin> cs_woken s'" if "citus_reach s s'" for s' using forgotten_forever [OF that s(3)] by (simp add: forgotten_def)
    ultimately show ?thesis by blast
  qed
  let ?r = "Request 0 1 (demo_nodes ''demoted'') ''before_demote'' (Some 30) (Some 10)"
  show "\<exists>s. citus_reach citus_init s \<and> 0 \<in> cs_waiting s \<and> map dt_ref (ch_tasks (cs_handler s)) = [1] \<and> 0 \<notin> \<Union> (cs_woken ` Collect (citus_reach s))"
    by (rule lost [where evs = "[?r, Request 0 1 (demo_nodes ''primary'') ''before_promote'' (Some 30) (Some 10)]"]) code_simp
  show "\<exists>s. citus_reach citus_init s \<and> 0 \<in> cs_waiting s \<and> map dt_ref (ch_tasks (cs_handler s)) = [] \<and> 0 \<notin> \<Union> (cs_woken ` Collect (citus_reach s))"
    by (rule lost [where evs = "[?r, Demoted]"]) code_simp
qed

section \<open>The cache after a rollback\<close>

text \<open>
  A transaction that moves the primary marks the old primary as demoted in the cached topology. When its deadline passes and
  it is rolled back, the table is as it was before but the cache is not read again: the next attempt leaves out the
  step that makes room for the old primary and is refused, because it would use host and port twice.
\<close>

definition rolled_back :: "citus_state option" where
  "rolled_back = citus_run
     [Load (Some [(1, ''node1'', 5432, ''primary'', 4), (1, ''node2'', 5432, ''secondary'', 5)]),
      Request 0 1 [\<lparr>dn_host = ''node2'', dn_port = 5432, dn_role = ''primary'', dn_nodeid = None\<rparr>,
                   \<lparr>dn_host = ''node1'', dn_port = 5432, dn_role = ''secondary'', dn_nodeid = None\<rparr>] ''before_promote'' (Some 30) None,
      Pick, Process 0 [] True, Conclude, Rollback True] citus_init"

definition retried_topology :: pg_dist_group where
  "retried_topology = \<lparr>dg_failover = False, dg_groupid = 1,
     dg_nodes = [\<lparr>dn_host = ''node2'', dn_port = 5432, dn_role = ''primary'', dn_nodeid = None\<rparr>,
                 \<lparr>dn_host = ''node1'', dn_port = 5432, dn_role = ''secondary'', dn_nodeid = None\<rparr>]\<rparr>"

theorem citus_rollback_stale:
  "\<exists>s ns g. rolled_back = Some s \<and> ch_in_flight (cs_handler s) = None \<and> \<not> ch_reload (cs_handler s)
     \<and> pg_transition retried_topology (current_group (cs_handler s) 1) = Some (ns, g)
     \<and> update_nodes 6 ns {(4, ''node1'', 5432, True), (5, ''node2'', 5432, False)} = None"
proof -
  let ?f = "\<lambda>s. (ch_in_flight (cs_handler s), ch_reload (cs_handler s),
      map_option (\<lambda>(ns, g). update_nodes 6 ns {(4, ''node1'', 5432, True), (5, ''node2'', 5432, False)})
        (pg_transition retried_topology (current_group (cs_handler s) 1)))"
  have "map_option ?f rolled_back = Some (None, False, Some None)" by code_simp
  then obtain s where s: "rolled_back = Some s" "?f s = (None, False, Some None)" unfolding map_option_eq_Some by (elim exE conjE) (rule that)
  then show ?thesis by (intro exI [of _ s]) auto
qed

end
