(* ===== verification/QuorumConverge.thy ===== *)
theory QuorumConverge
  imports QuorumSound
begin

text \<open>
  Liveness of \<open>QuorumStateResolver\<close>: from a steady state and with enough confirmed standbys the
  generator never raises, whatever nodes join or leave, and the transitions lead to the optimal
  state of the active nodes; there it yields nothing.
\<close>

text \<open>
  Both registries list the nodes \<open>X\<close> and \<^verbatim>\<open>quorum\<close> complements \<^verbatim>\<open>numsync\<close>. In the optimal
  state for \<open>X\<close>, as documented in the class, the replication factor is the wanted one as far as
  \<open>X\<close> allows. The proofs are about \<open>steady\<close> states, in which moreover at least one synchronous
  standby is wanted and as many as wanted are confirmed.
\<close>

definition balanced :: "qsr \<Rightarrow> string set \<Rightarrow> bool" where
  "balanced s X \<longleftrightarrow> qsr_wf s \<and> qs_leader s = qs_leader_wanted s
     \<and> cis_abs (qs_voters s) = X \<and> cis_abs (qs_sync s) = X \<and> 0 \<le> qs_numsync s
     \<and> qs_quorum s = int (card X) - qs_numsync s"

definition optimal :: "qsr \<Rightarrow> string set \<Rightarrow> bool" where
  "optimal s X \<longleftrightarrow> balanced s X \<and> qs_numsync s = min (qs_sync_wanted s) (int (card X))"

definition steady :: "qsr \<Rightarrow> string set \<Rightarrow> bool" where
  "steady s X \<longleftrightarrow> optimal s X \<and> 1 \<le> qs_sync_wanted s \<and> qs_sync_wanted s \<le> qs_numsync_confirmed s"

definition same_goal :: "qsr \<Rightarrow> qsr \<Rightarrow> bool" where
  "same_goal s t \<longleftrightarrow> qs_active t = qs_active s \<and> qs_sync_wanted t = qs_sync_wanted s
     \<and> qs_numsync_confirmed t = qs_numsync_confirmed s \<and> qs_leader_wanted t = qs_leader_wanted s"

definition reaches :: "gen \<Rightarrow> qsr \<Rightarrow> (qsr \<Rightarrow> bool) \<Rightarrow> bool" where
  "reaches g s P \<longleftrightarrow> (\<exists>ts t. g s = (ts, t, None) \<and> P t \<and> (\<forall>u \<in> set ts. transition_type u \<noteq> Restart))"

definition raises :: "gen \<Rightarrow> qsr \<Rightarrow> qerror \<Rightarrow> bool" where
  "raises g s e \<longleftrightarrow> (\<exists>ts t. g s = (ts, t, Some e))"

lemma reaches_gskip [simp]: "reaches gskip s P \<longleftrightarrow> P s"
  by (simp add: reaches_def gskip_def)

lemma reaches_gseq: "reaches g s (\<lambda>t. reaches h t P) \<Longrightarrow> reaches (gseq g h) s P"
  by (fastforce simp: reaches_def gseq_def)

lemma reaches_gstate [simp]: "reaches (gstate f) s P \<longleftrightarrow> reaches (f s) s P"
  by (simp add: reaches_def gstate_def)

lemma reaches_gassert [simp]: "reaches (gassert Q) s P \<longleftrightarrow> Q s \<and> P s"
  by (simp add: reaches_def gassert_def)

lemma reaches_gmodify [simp]: "reaches (gmodify f) s P \<longleftrightarrow> P (f s)"
  by (simp add: reaches_def gmodify_def)

lemma reaches_gwhen [simp]: "reaches (gwhen b g) s P \<longleftrightarrow> (if b then reaches g s P else P s)"
  by (simp add: gwhen_def)

lemma reaches_mono: "reaches g s P \<Longrightarrow> (\<And>t. P t \<Longrightarrow> Q t) \<Longrightarrow> reaches g s Q"
  by (auto simp: reaches_def)

lemma raises_gseqL: "raises g s e \<Longrightarrow> raises (gseq g h) s e"
  by (auto simp: raises_def gseq_def)

lemma raises_gseqR: "reaches g s (\<lambda>t. raises h t e) \<Longrightarrow> raises (gseq g h) s e"
  by (fastforce simp: raises_def reaches_def gseq_def)

lemma raises_gstate [simp]: "raises (gstate f) s e \<longleftrightarrow> raises (f s) s e"
  by (simp add: raises_def gstate_def)

lemma raises_gwhen [simp]: "raises (gwhen b g) s e \<longleftrightarrow> b \<and> raises g s e"
  by (simp add: raises_def gwhen_def gskip_def)

lemma invariants_okI:
  assumes "cis_inv (qs_voters s)" "cis_inv (qs_sync s)" "qs_leader s = qs_leader_wanted s"
    "cis_abs (qs_voters s) \<subseteq> cis_abs (qs_sync s) \<or> cis_abs (qs_sync s) \<subseteq> cis_abs (qs_voters s)"
    "cis_abs (qs_voters s) = {} \<or> int (card (cis_abs (qs_voters s) \<union> cis_abs (qs_sync s))) \<le> qs_quorum s + qs_numsync s"
  shows "invariants_ok s"
proof -
  let ?U = "cis_abs (qs_voters s) \<union> cis_abs (qs_sync s)" and ?l = "lower (qs_leader s)"
  have "insert ?l (cis_abs (qs_voters s)) \<union> insert ?l (cis_abs (qs_sync s)) = insert ?l ?U" by auto
  moreover have "card (insert ?l ?U) \<le> card ?U + 1" by (simp add: card_insert_if)
  ultimately show ?thesis using assms by (auto simp: invariants_ok_abs Let_def)
qed

lemma reaches_quorum_update:
  assumes "qs_numsync_confirmed s \<noteq> 0" "adj \<longrightarrow> qs_numsync s \<le> qs_numsync_confirmed s"
    "0 \<le> q" "q = 0 \<or> q < clen vs" "cis_inv vs" "cis_inv (qs_voters s)"
    "cis_abs vs \<noteq> cis_abs (qs_voters s)"
    "invariants_ok (s\<lparr>qs_quorum := q, qs_voters := vs\<rparr>)"
    "P (s\<lparr>qs_quorum := q, qs_voters := vs\<rparr>)"
  shows "reaches (quorum_update q vs None adj) s P"
proof -
  have "\<not> cis_eq vs (qs_voters s)" using assms by (simp add: cis_eq_abs)
  then have "quorum_update q vs None adj s = commit_quorum q vs s"
    using assms(1-4) by (auto simp: quorum_update_def Let_def)
  then show ?thesis using assms(8,9) by (simp add: reaches_def commit_quorum_eq)
qed

lemma reaches_sync_update:
  assumes "0 \<le> n" "n \<le> clen ss" "invariants_ok (s\<lparr>qs_numsync := n, qs_sync := ss\<rparr>)"
    "P (s\<lparr>qs_numsync := n, qs_sync := ss\<rparr>)"
  shows "reaches (sync_update n ss) s P"
  using assms by (simp add: reaches_def sync_update_def commit_sync_eq)

lemma steady_sets:
  assumes "steady s X"
  shows "cis_abs (qs_voters s) = X" "cis_abs (qs_sync s) = X" "finite X" "cis_inv (qs_voters s)"
    "cis_inv (qs_sync s)" "cis_inv (qs_active s)" "qs_numsync_confirmed s \<noteq> 0"
    "qs_numsync s \<le> qs_numsync_confirmed s" "0 \<le> qs_numsync s" "qs_leader s = qs_leader_wanted s"
  using assms cis_abs_finite [of "qs_sync s"] by (auto simp: steady_def optimal_def balanced_def qsr_wf_def)

lemma steady_handle_non_steady_cases:
  assumes "steady s X"
  shows "reaches handle_non_steady_cases s (\<lambda>t. t = s)"
proof -
  have "cis_abs (qs_voters s) = cis_abs (qs_sync s)" using steady_sets [OF assms] by simp
  then have lt: "\<not> cis_lt (qs_sync s) (qs_voters s)" "\<not> cis_lt (qs_voters s) (qs_sync s)"
    "cis_eq (qs_voters s) (qs_sync s)" "clen (cis_or (qs_voters s) (qs_sync s)) = int (card X)"
    using steady_sets [OF assms] by (simp_all add: cis_simps)
  have c: "\<not> int (card X) < qs_quorum s + min (qs_numsync s) (qs_numsync_confirmed s)"
    "\<not> int (card X) < qs_quorum s + qs_numsync s"
    using assms by (auto simp: steady_def optimal_def balanced_def)
  show ?thesis unfolding handle_non_steady_cases_def
    apply (rule reaches_gseq)
    apply (simp add: lt)
    apply (rule reaches_gseq)
    apply (simp add: lt c)
    done
qed

lemma steadyI:
  assumes "cis_inv (qs_voters s)" "cis_inv (qs_sync s)" "cis_inv (qs_active s)"
    "qs_leader s = qs_leader_wanted s" "cis_abs (qs_voters s) = X" "cis_abs (qs_sync s) = X"
    "qs_numsync s = min (qs_sync_wanted s) (int (card X))" "qs_quorum s = int (card X) - qs_numsync s"
    "1 \<le> qs_sync_wanted s" "qs_sync_wanted s \<le> qs_numsync_confirmed s"
  shows "steady s X"
  using assms by (simp add: steady_def optimal_def balanced_def qsr_wf_def)

lemma steady_goal:
  assumes "steady s X"
  shows "1 \<le> qs_sync_wanted s" "qs_sync_wanted s \<le> qs_numsync_confirmed s"
    "qs_numsync s = min (qs_sync_wanted s) (int (card X))" "qs_quorum s = int (card X) - qs_numsync s"
  using assms by (simp_all add: steady_def optimal_def balanced_def)

lemma steady_remove_rest:
  assumes st: "steady s X" and R: "cis_inv R" "cis_abs R \<subset> X" and q: "cis_abs R \<noteq> {} \<Longrightarrow> qs_quorum s = 0"
  shows "reaches (remove_rest R) s (\<lambda>t. steady t (X - cis_abs R) \<and> same_goal s t)"
proof (cases "cis_abs R = {}")
  case True
  with st R show ?thesis by (simp add: remove_rest_def cis_bool_abs same_goal_def)
next
  case False
  note S = steady_sets [OF st] and G = steady_goal [OF st]
  define ss where "ss = cis_sub (qs_sync s) R"
  define vs where "vs = cis_sub (qs_voters s) R"
  have abs: "cis_abs ss = X - cis_abs R" "cis_abs vs = X - cis_abs R" "cis_inv ss" "cis_inv vs"
    using S by (simp_all add: ss_def vs_def cis_simps R)
  have card: "int (card (X - cis_abs R)) = int (card X) - int (card (cis_abs R))"
    using R S by (simp add: card_Diff_subset finite_subset psubset_imp_subset of_nat_diff card_mono)
  have pos: "0 < card (cis_abs R)" "card (cis_abs R) < card X"
    using False R S by (auto simp: card_gt_0_iff psubset_card_mono)
  have n: "qs_numsync s = int (card X)" using q False G by simp
  have ne: "X - cis_abs R \<noteq> {}" "X - cis_abs R \<noteq> X" using R False by auto
  let ?n = "int (card X) - int (card (cis_abs R))"
  let ?s1 = "s\<lparr>qs_quorum := 0, qs_voters := vs\<rparr>"
  let ?s2 = "?s1\<lparr>qs_numsync := ?n, qs_sync := ss\<rparr>"
  have dec: "?n - min (qs_sync_wanted s) (int (card (X - cis_abs R))) = 0"
    using G n card pos by simp
  have iv1: "invariants_ok ?s1"
    using S abs n ne by (intro invariants_okI) (auto simp: Un_absorb1)
  have iv2: "invariants_ok ?s2"
    using S abs card by (intro invariants_okI) simp_all
  have st2: "steady ?s2 (X - cis_abs R)"
    using S G abs card n by (intro steadyI) simp_all
  have fin: "reaches (sync_update ?n ss) ?s1 (\<lambda>t. steady t (X - cis_abs R) \<and> same_goal s t)"
    using pos card iv2 st2 by (intro reaches_sync_update) (simp_all add: cis_len_abs abs same_goal_def)
  have up: "reaches (quorum_update 0 vs None False) s (\<lambda>t. reaches (sync_update ?n ss) t
              (\<lambda>t. steady t (X - cis_abs R) \<and> same_goal s t))"
    by (rule reaches_quorum_update) (use S abs ne iv1 fin in simp_all)
  show ?thesis
    unfolding remove_rest_def
    apply (simp add: False cis_bool_abs R)
    apply (rule reaches_gseq)
    apply (simp add: q [OF False] Let_def cis_len_abs R n abs flip: ss_def vs_def)
    using dec reaches_gseq [OF up] by simp
qed

text \<open>Slicing a sorted list of the members: the slice has as many members as the bound allows.\<close>

lemma cis_slice:
  assumes "cis_inv R" "0 \<le> k" "distinct ys = distinct (cis_iter R)" "set ys = set (cis_iter R)"
    "length ys = length (cis_iter R)"
  shows "cis_abs (cis_of (py_take k ys)) \<subseteq> cis_abs R"
    "int (card (cis_abs (cis_of (py_take k ys)))) = min k (int (card (cis_abs R)))"
proof -
  have l: "lower ` set ys = cis_abs R" using assms lower_iter_abs by simp
  then show "cis_abs (cis_of (py_take k ys)) \<subseteq> cis_abs R"
    using set_py_take_subset [of k ys] by (auto simp: cis_abs_of)
  have "card (lower ` set ys) = length ys" using l assms by (simp add: cis_simps)
  moreover have "card (lower ` set ys) \<le> card (set ys)" by (simp add: card_image_le)
  ultimately have d: "distinct ys" and inj: "inj_on lower (set ys)"
    using card_length [of ys] by (auto intro: card_distinct eq_card_imp_inj_on)
  have "card (lower ` set (py_take k ys)) = card (set (py_take k ys))"
    using inj by (intro card_image inj_on_subset [OF inj] set_py_take_subset)
  also have "\<dots> = length (py_take k ys)" using d by (simp add: distinct_card)
  also have "int \<dots> = min k (int (length ys))" using assms(2) by (auto simp: length_py_take_nonneg)
  finally show "int (card (cis_abs (cis_of (py_take k ys)))) = min k (int (card (cis_abs R)))"
    using assms by (simp add: cis_simps)
qed

lemma cis_slice_sorted:
  assumes "cis_inv R" "0 \<le> k"
  shows "cis_abs (cis_of (py_take k (sort (cis_iter R)))) \<subseteq> cis_abs R"
    "int (card (cis_abs (cis_of (py_take k (sort (cis_iter R)))))) = min k (int (card (cis_abs R)))"
    "cis_abs (cis_of (py_take k (rev (sort (cis_iter R))))) \<subseteq> cis_abs R"
    "int (card (cis_abs (cis_of (py_take k (rev (sort (cis_iter R))))))) = min k (int (card (cis_abs R)))"
  using cis_slice [OF assms, of "sort (cis_iter R)"] cis_slice [OF assms, of "rev (sort (cis_iter R))"]
  by simp_all

lemma same_goal_trans: "same_goal s t \<Longrightarrow> same_goal t u \<Longrightarrow> same_goal s u"
  by (simp add: same_goal_def)

lemma int_card_Diff: "finite X \<Longrightarrow> Y \<subseteq> X \<Longrightarrow> int (card (X - Y)) = int (card X) - int (card Y)"
  by (simp add: card_Diff_subset finite_subset of_nat_diff card_mono)

text \<open>Dropping up to \<open>quorum\<close> nodes from both registries.\<close>

lemma steady_reduce:
  assumes st: "steady s X" and rem: "cis_inv rem" "cis_abs rem \<subseteq> X" "cis_abs rem \<noteq> {}"
    "int (card (cis_abs rem)) \<le> qs_quorum s"
    and k: "\<And>t. steady t (X - cis_abs rem) \<Longrightarrow> same_goal s t \<Longrightarrow> qs_quorum t = qs_quorum s - int (card (cis_abs rem))
             \<Longrightarrow> qs_sync t = cis_sub (qs_sync s) rem \<Longrightarrow> reaches (h (qs_sync t)) t P"
    and nn: "nn = min (if qs_sync_wanted s > qs_numsync s then qs_sync_wanted s else qs_numsync s)
             (clen (cis_sub (qs_sync s) rem))"
  shows "reaches (gseq (sync_update nn (cis_sub (qs_sync s) rem))
            (gstate (\<lambda>t. gseq (quorum_update (clen (cis_sub (qs_voters t) rem) - qs_numsync t)
                                (cis_sub (qs_voters t) rem) None (adj t)) (h (qs_sync t))))) s P"
proof -
  note S = steady_sets [OF st] and G = steady_goal [OF st]
  define ss where "ss = cis_sub (qs_sync s) rem"
  define vs where "vs = cis_sub (qs_voters s) rem"
  have abs: "cis_abs ss = X - cis_abs rem" "cis_abs vs = X - cis_abs rem" "cis_inv ss" "cis_inv vs"
    using S by (simp_all add: ss_def vs_def cis_simps rem)
  have card: "int (card (X - cis_abs rem)) = int (card X) - int (card (cis_abs rem))"
    using rem S by (intro int_card_Diff)
  have pos: "0 < card (cis_abs rem)" using rem by (simp add: card_gt_0_iff)
  have n: "qs_numsync s = qs_sync_wanted s" "nn = qs_numsync s"
    using G rem pos nn card by (auto simp: abs cis_len_abs simp flip: ss_def)
  let ?s1 = "s\<lparr>qs_numsync := qs_numsync s, qs_sync := ss\<rparr>"
  let ?q = "int (card (X - cis_abs rem)) - qs_numsync s"
  let ?s2 = "?s1\<lparr>qs_quorum := ?q, qs_voters := vs\<rparr>"
  have iv1: "invariants_ok ?s1"
    using S abs G by (intro invariants_okI) (auto simp: Un_absorb2)
  have iv2: "invariants_ok ?s2"
    using S abs card by (intro invariants_okI) simp_all
  have st2: "steady ?s2 (X - cis_abs rem)"
    using S G abs card n rem by (intro steadyI) simp_all
  have fin: "reaches (h ss) ?s2 P"
    using k [OF st2] card G by (simp add: same_goal_def ss_def)
  have up: "reaches (quorum_update ?q vs None (adj ?s1)) ?s1 (\<lambda>t. reaches (h ss) t P)"
    by (rule reaches_quorum_update)
      (use S G abs rem card n iv2 fin in \<open>auto simp: cis_len_abs\<close>)
  have up': "reaches (sync_update nn ss) s (\<lambda>t. reaches (gseq (quorum_update (clen (cis_sub (qs_voters t) rem) - qs_numsync t)
                                (cis_sub (qs_voters t) rem) None (adj t)) (h (qs_sync t))) t P)"
    using S G abs card rem n iv1 reaches_gseq [OF up]
    by (intro reaches_sync_update) (simp_all add: cis_len_abs flip: vs_def)
  show ?thesis using up' by (intro reaches_gseq) (simp flip: ss_def)
qed

lemma steady_remove_gone_nodes:
  assumes st: "steady s X"
  shows "reaches remove_gone_nodes s (\<lambda>t. steady t (X \<inter> cis_abs (qs_active s)) \<and> same_goal s t)"
proof -
  note S = steady_sets [OF st] and G = steady_goal [OF st]
  let ?A = "cis_abs (qs_active s)"
  let ?P = "\<lambda>t. steady t (X \<inter> ?A) \<and> same_goal s t"
  define R where "R = cis_sub (qs_sync s) (qs_active s)"
  have R: "cis_inv R" "cis_abs R = X - ?A" using S by (simp_all add: R_def cis_simps)
  consider (none) "cis_abs R = {}" | (all) "cis_abs R = X" "X \<noteq> {}" | (some) "cis_abs R \<noteq> {}" "cis_abs R \<subset> X"
    using R by auto
  then show ?thesis
  proof cases
    case none
    then have "X \<inter> ?A = X" using R by auto
    with none st R show ?thesis by (simp add: remove_gone_nodes_def cis_bool_abs same_goal_def flip: R_def)
  next
    case all
    then have e: "X \<inter> ?A = {}" using R by auto
    let ?s1 = "s\<lparr>qs_quorum := 0, qs_voters := cis_of []\<rparr>"
    let ?s2 = "?s1\<lparr>qs_numsync := 0, qs_sync := cis_of []\<rparr>"
    have "invariants_ok ?s1" "invariants_ok ?s2" using S by (intro invariants_okI; simp add: cis_simps)+
    moreover have "steady ?s2 {}" using S G by (intro steadyI) (simp_all add: cis_simps)
    ultimately have "reaches (sync_update 0 (cis_of [])) ?s1 ?P"
      by (intro reaches_sync_update) (simp_all add: e same_goal_def)
    then have "reaches (quorum_update 0 (cis_of []) None False) s (\<lambda>t. reaches (sync_update 0 (cis_of [])) t ?P)"
      using S all \<open>invariants_ok ?s1\<close> by (intro reaches_quorum_update) (simp_all add: cis_simps)
    from reaches_gseq [OF this] show ?thesis
      using all R S by (simp add: remove_gone_nodes_def cis_bool_abs cis_eq_abs flip: R_def)
  next
    case some
    have nall: "\<not> cis_eq (qs_sync s) R" "cis_bool R" using some R S by (auto simp: cis_simps)
    have d: "X - cis_abs R = X \<inter> ?A" using R by auto
    show ?thesis
    proof (cases "qs_quorum s = 0")
      case True
      with steady_remove_rest [OF st R(1) some(2)] nall d show ?thesis
        by (simp add: remove_gone_nodes_def flip: R_def)
    next
      case False
      then have qpos: "0 < qs_quorum s" using G by simp
      define rem where "rem = cis_of (py_take (qs_quorum s) (rev (sort (cis_iter R))))"
      have rem: "cis_inv rem" "cis_abs rem \<subseteq> cis_abs R"
        "int (card (cis_abs rem)) = min (qs_quorum s) (int (card (cis_abs R)))"
        using cis_slice_sorted(3,4) [OF R(1), of "qs_quorum s"] qpos by (simp_all add: rem_def)
      have "0 < card (cis_abs R)" using some by (simp add: card_gt_0_iff)
      then have ne: "cis_abs rem \<noteq> {}" using rem(3) qpos by auto
      let ?h = "\<lambda>S. remove_rest (cis_iand R S)"
      have k: "reaches (?h (qs_sync t)) t ?P"
        if t: "steady t (X - cis_abs rem)" "same_goal s t" "qs_quorum t = qs_quorum s - int (card (cis_abs rem))"
          "qs_sync t = cis_sub (qs_sync s) rem" for t
      proof -
        have abs: "cis_abs (cis_iand R (qs_sync t)) = cis_abs R - cis_abs rem"
          using R S t(4) by (auto simp: cis_simps)
        have full: "qs_quorum t = 0" if "cis_abs R - cis_abs rem \<noteq> {}"
        proof -
          have "cis_abs rem \<subset> cis_abs R" using that rem(2) by auto
          then have "card (cis_abs rem) < card (cis_abs R)" by (simp add: psubset_card_mono)
          then show ?thesis using rem(3) t(3) by auto
        qed
        have "X - cis_abs rem - (cis_abs R - cis_abs rem) = X \<inter> ?A" using rem(2) d by auto
        moreover have "cis_abs R - cis_abs rem \<subset> X - cis_abs rem" using some rem(2) by auto
        ultimately show ?thesis
          using steady_remove_rest [OF t(1), of "cis_iand R (qs_sync t)"] R full
          by (auto simp: abs intro: reaches_mono same_goal_trans [OF t(2)])
      qed
      have sub: "cis_abs rem \<subseteq> X" "int (card (cis_abs rem)) \<le> qs_quorum s"
        using rem(2,3) some by auto
      note red = steady_reduce [where h = ?h and adj = "\<lambda>t. \<not> cis_bool (cis_iand R (qs_sync t))",
          OF st rem(1) sub(1) ne sub(2) k refl]
      show ?thesis
        unfolding remove_gone_nodes_def reaches_gstate Let_def R_def [symmetric] rem_def [symmetric]
        using red nall False by (simp only: if_False if_True simp_thms)
    qed
  qed
qed

text \<open>Adding the remaining nodes once the replication factor is the wanted one.\<close>

lemma steady_extend:
  assumes st: "steady s X" and D: "cis_inv D" "cis_abs D \<noteq> {}" "cis_abs D \<inter> X = {}"
    and w: "w = min (qs_sync_wanted s) (int (card (X \<union> cis_abs D)))" "qs_numsync s = w"
  shows "reaches (gseq (quorum_update (clen (cis_or (qs_voters s) D) - w) (cis_or (qs_voters s) D) None
             (w > qs_numsync_confirmed s)) (gstate (\<lambda>s. sync_update w (cis_or (qs_sync s) D)))) s
           (\<lambda>t. steady t (X \<union> cis_abs D) \<and> same_goal s t)"
proof -
  note S = steady_sets [OF st] and G = steady_goal [OF st]
  define vs where "vs = cis_or (qs_voters s) D"
  define ss where "ss = cis_or (qs_sync s) D"
  let ?Y = "X \<union> cis_abs D"
  have abs: "cis_abs vs = ?Y" "cis_abs ss = ?Y" "cis_inv vs" "cis_inv ss"
    using S D by (simp_all add: vs_def ss_def cis_simps)
  have pos: "0 < card ?Y" "finite ?Y" using S D by (auto simp: card_gt_0_iff)
  let ?q = "int (card ?Y) - w"
  let ?s1 = "s\<lparr>qs_quorum := ?q, qs_voters := vs\<rparr>"
  let ?s2 = "?s1\<lparr>qs_numsync := w, qs_sync := ss\<rparr>"
  have iv1: "invariants_ok ?s1" using S abs w by (intro invariants_okI) (auto simp: Un_absorb2)
  have iv2: "invariants_ok ?s2" using S abs by (intro invariants_okI) simp_all
  have st2: "steady ?s2 ?Y" using S G abs w by (intro steadyI) simp_all
  have fin: "reaches (gstate (\<lambda>s. sync_update w (cis_or (qs_sync s) D))) ?s1 (\<lambda>t. steady t ?Y \<and> same_goal s t)"
    using w pos S G iv2 st2 abs
    by (simp flip: ss_def, intro reaches_sync_update) (simp_all add: cis_len_abs same_goal_def)
  show ?thesis
    unfolding vs_def [symmetric]
    by (rule reaches_gseq, rule reaches_quorum_update)
      (use S G D abs w pos iv1 fin in \<open>auto simp: cis_len_abs\<close>)
qed

text \<open>Raising the replication factor while adding \<open>D\<close>.\<close>

lemma steady_increase:
  assumes st: "steady s X" and D: "cis_inv D" "cis_abs D \<noteq> {}" "cis_abs D \<inter> X = {}"
    and w: "w = min (qs_sync_wanted s) (int (card (X \<union> cis_abs D)))"
    and alt: "X = {} \<or> int (card (X \<union> cis_abs D)) = w"
    and k: "\<And>t. steady t (X \<union> cis_abs D) \<Longrightarrow> same_goal s t \<Longrightarrow> qs_numsync t = w
              \<Longrightarrow> qs_sync t = cis_or (qs_sync s) D \<Longrightarrow> reaches (h (qs_sync t)) t P"
  shows "reaches (gseq (sync_update w (cis_or (qs_sync s) D))
           (gstate (\<lambda>s. gseq (quorum_update (clen (cis_or (qs_voters s) D) - w) (cis_or (qs_voters s) D) None True)
              (gstate (\<lambda>s. h (qs_sync s)))))) s P"
proof -
  note S = steady_sets [OF st] and G = steady_goal [OF st]
  define vs where "vs = cis_or (qs_voters s) D"
  define ss where "ss = cis_or (qs_sync s) D"
  let ?Y = "X \<union> cis_abs D"
  have abs: "cis_abs vs = ?Y" "cis_abs ss = ?Y" "cis_inv vs" "cis_inv ss"
    using S D by (simp_all add: vs_def ss_def cis_simps)
  have pos: "0 < card ?Y" "finite ?Y" using S D by (auto simp: card_gt_0_iff)
  let ?q = "int (card ?Y) - w"
  let ?s1 = "s\<lparr>qs_numsync := w, qs_sync := ss\<rparr>"
  let ?s2 = "?s1\<lparr>qs_quorum := ?q, qs_voters := vs\<rparr>"
  have iv1: "invariants_ok ?s1"
    using S abs alt G by (intro invariants_okI) (auto simp: Un_absorb1)
  have iv2: "invariants_ok ?s2" using S abs by (intro invariants_okI) simp_all
  have st2: "steady ?s2 ?Y" using S G abs w by (intro steadyI) simp_all
  have fin: "reaches (gstate (\<lambda>s. h (qs_sync s))) ?s2 P"
    using k [OF st2] by (simp add: same_goal_def ss_def)
  have up: "reaches (quorum_update ?q vs None True) ?s1 (\<lambda>t. reaches (gstate (\<lambda>s. h (qs_sync s))) t P)"
    by (rule reaches_quorum_update)
      (use S G D abs w pos iv2 fin in \<open>auto simp: cis_len_abs\<close>)
  have "reaches (sync_update w ss) s (\<lambda>t. reaches (gseq (quorum_update (clen (cis_or (qs_voters t) D) - w)
            (cis_or (qs_voters t) D) None True) (gstate (\<lambda>s. h (qs_sync s)))) t P)"
    using w pos G iv1 abs reaches_gseq [OF up]
    by (intro reaches_sync_update) (simp_all add: cis_len_abs flip: vs_def)
  from reaches_gseq [of _ _ "gstate (\<lambda>t. gseq (quorum_update (clen (cis_or (qs_voters t) D) - w)
            (cis_or (qs_voters t) D) None True) (gstate (\<lambda>s. h (qs_sync s))))"] this
  show ?thesis by (simp flip: ss_def)
qed

lemma steady_add_new_nodes:
  assumes st: "steady s X" and sub: "X \<subseteq> cis_abs (qs_active s)"
  shows "reaches add_new_nodes s (\<lambda>t. steady t (cis_abs (qs_active s)) \<and> same_goal s t)"
proof -
  note S = steady_sets [OF st] and G = steady_goal [OF st]
  let ?A = "cis_abs (qs_active s)"
  let ?P = "\<lambda>t. steady t ?A \<and> same_goal s t"
  define D where "D = cis_sub (qs_active s) (qs_sync s)"
  have D: "cis_inv D" "cis_abs D = ?A - X" using S by (simp_all add: D_def cis_simps)
  define w where "w = min (qs_sync_wanted s) (clen (cis_or (qs_sync s) D))"
  have XA: "X \<union> (?A - X) = ?A" "X \<union> ?A = ?A" using sub by auto
  have w: "w = min (qs_sync_wanted s) (int (card ?A))" using S D by (simp add: w_def cis_simps XA Un_Diff_cancel)
  have cd: "int (card (?A - X)) = int (card ?A) - int (card X)" using sub S by (intro int_card_Diff) simp_all
  have le: "card X \<le> card ?A" using sub by (simp add: card_mono)
  define rest where "rest = (\<lambda>to_add. gwhen (cis_bool to_add) (gstate (\<lambda>s.
                      let vs = cis_or (qs_voters s) to_add in
                      gseq (quorum_update (clen vs - w) vs None (w > qs_numsync_confirmed s))
                        (gstate (\<lambda>s. sync_update w (cis_or (qs_sync s) to_add))))))"
  have rest: "reaches (rest E) t ?P"
    if t: "steady t Y" "same_goal s t" "qs_numsync t = w" "Y \<subseteq> ?A" and E: "cis_inv E" "cis_abs E = ?A - Y" for t Y E
  proof (cases "?A - Y = {}")
    case True
    then have "Y = ?A" using t by auto
    with t E show ?thesis by (simp add: rest_def cis_bool_abs True)
  next
    case False
    have "Y \<union> cis_abs E = ?A" using t E by auto
    then have "reaches (gseq (quorum_update (clen (cis_or (qs_voters t) E) - w) (cis_or (qs_voters t) E) None
             (w > qs_numsync_confirmed t)) (gstate (\<lambda>s. sync_update w (cis_or (qs_sync s) E)))) t
           (\<lambda>u. steady u ?A \<and> same_goal t u)"
      using steady_extend [OF t(1) E(1), of w] E False t w by (auto simp: same_goal_def)
    then show ?thesis using False E t(2)
      by (auto simp: rest_def cis_bool_abs Let_def intro: reaches_mono same_goal_trans)
  qed
  have unf: "reaches add_new_nodes s ?P \<longleftrightarrow> reaches (gwhen (cis_bool D)
       (let increase_numsync_by = w - qs_numsync s in
        if increase_numsync_by > 0 then
             (let (add, inc) =
                (if cis_bool (qs_sync s)
                 then (let add = cis_of (py_take increase_numsync_by (sort (cis_iter D)))
                       in (add, clen add))
                 else (D, increase_numsync_by))
              in gseq (sync_update (qs_numsync s + inc) (cis_or (qs_sync s) add))
                   (gstate (\<lambda>s.
                      let vs = cis_or (qs_voters s) add in
                      gseq (quorum_update (clen vs - w) vs None True)
                        (gstate (\<lambda>s. rest (cis_isub D (qs_sync s)))))))
           else rest D)) s ?P"
    by (simp add: add_new_nodes_def rest_def w_def D_def Let_def)
  consider (none) "cis_abs D = {}" | (only) "cis_abs D \<noteq> {}" "w - qs_numsync s \<le> 0"
    | (init) "cis_abs D \<noteq> {}" "w - qs_numsync s > 0" "X = {}"
    | (incr) "cis_abs D \<noteq> {}" "w - qs_numsync s > 0" "X \<noteq> {}" by linarith
  then show ?thesis
  proof cases
    case none
    then have "X = ?A" using D sub by auto
    with none st D show ?thesis unfolding unf by (simp add: cis_bool_abs same_goal_def)
  next
    case only
    have "qs_numsync s = w" using only G w le by auto
    from rest [OF st _ this sub D] show ?thesis
      using only D unfolding unf by (simp add: cis_bool_abs same_goal_def)
  next
    case init
    have n: "qs_numsync s = 0" using init(3) G by simp
    have inc: "reaches (gseq (sync_update w (cis_or (qs_sync s) D))
           (gstate (\<lambda>s. gseq (quorum_update (clen (cis_or (qs_voters s) D) - w) (cis_or (qs_voters s) D) None True)
              (gstate (\<lambda>s. rest (cis_isub D (qs_sync s))))))) s ?P"
    proof (rule steady_increase [where h = "\<lambda>S. rest (cis_isub D S)", OF st D(1) init(1)])
      fix t assume t: "steady t (X \<union> cis_abs D)" "same_goal s t" "qs_numsync t = w" "qs_sync t = cis_or (qs_sync s) D"
      show "reaches (rest (cis_isub D (qs_sync t))) t ?P"
        using t(1) D init S by (intro rest [OF _ t(2,3), of ?A]) (auto simp: cis_simps t(4))
    qed (use D w init XA in auto)
    show ?thesis unfolding unf using init inc D S n by (simp add: cis_bool_abs Let_def)
  next
    case incr
    define add where "add = cis_of (py_take (w - qs_numsync s) (sort (cis_iter D)))"
    have n: "qs_numsync s = int (card X)" using incr(2) G w le by (auto simp: min_def split: if_splits)
    have add: "cis_inv add" "cis_abs add \<subseteq> ?A - X" "int (card (cis_abs add)) = w - qs_numsync s"
      using cis_slice_sorted(1,2) [OF D(1), of "w - qs_numsync s"] incr(2) D n w cd by (auto simp: add_def)
    then have ne: "cis_abs add \<noteq> {}" using incr(2) by auto
    have cu: "int (card (X \<union> cis_abs add)) = w"
      using add n S by (subst card_Un_disjoint) auto
    have inc: "reaches (gseq (sync_update w (cis_or (qs_sync s) add))
           (gstate (\<lambda>s. gseq (quorum_update (clen (cis_or (qs_voters s) add) - w) (cis_or (qs_voters s) add) None True)
              (gstate (\<lambda>s. rest (cis_isub D (qs_sync s))))))) s ?P"
    proof (rule steady_increase [where h = "\<lambda>S. rest (cis_isub D S)", OF st add(1) ne])
      fix t assume t: "steady t (X \<union> cis_abs add)" "same_goal s t" "qs_numsync t = w" "qs_sync t = cis_or (qs_sync s) add"
      show "reaches (rest (cis_isub D (qs_sync t))) t ?P"
        using D add sub S by (intro rest [OF t(1,2,3)]) (auto simp: cis_simps t(4))
    qed (use add cu w in auto)
    have "qs_numsync s + clen add = w" using add by (simp add: cis_len_abs)
    then show ?thesis unfolding unf using incr inc D S by (simp add: cis_bool_abs Let_def flip: add_def)
  qed
qed

lemma steady_same_goal_mono:
  "reaches g s (\<lambda>t. steady t X \<and> same_goal s t) \<Longrightarrow> (\<And>t. steady t X \<Longrightarrow> same_goal s t \<Longrightarrow> P t) \<Longrightarrow> reaches g s P"
  by (auto intro: reaches_mono)

lemma steady_replication_factor:
  assumes "steady s X"
  shows "reaches handle_replication_factor_change s (\<lambda>t. t = s)"
  using steady_sets [OF assms] steady_goal [OF assms]
  by (auto simp: handle_replication_factor_change_def cis_len_abs min_def)

lemma steady_main_block:
  assumes st: "steady s X"
  shows "reaches main_block s (\<lambda>t. steady t (cis_abs (qs_active s)) \<and> same_goal s t)"
proof -
  note S = steady_sets [OF st]
  let ?A = "cis_abs (qs_active s)"
  let ?P = "\<lambda>t. steady t ?A \<and> same_goal s t"
  have last: "reaches (gseq add_new_nodes handle_replication_factor_change) t ?P"
    if t: "steady t (X \<inter> ?A)" "same_goal s t" for t
  proof (rule reaches_gseq, rule steady_same_goal_mono)
    show "reaches add_new_nodes t (\<lambda>u. steady u ?A \<and> same_goal t u)"
      using steady_add_new_nodes [OF t(1)] t(2) by (simp add: same_goal_def)
    fix u assume "steady u ?A" "same_goal t u"
    then show "reaches handle_replication_factor_change u ?P"
      using t(2) by (auto intro: reaches_mono [OF steady_replication_factor] same_goal_trans)
  qed
  have "reaches remove_gone_nodes s (\<lambda>t. reaches (gseq add_new_nodes handle_replication_factor_change) t ?P)"
    by (rule steady_same_goal_mono [OF steady_remove_gone_nodes [OF st]]) (rule last)
  then have rest: "reaches (gseq remove_gone_nodes (gseq add_new_nodes handle_replication_factor_change)) s ?P"
    by (rule reaches_gseq)
  have "reaches (gseq handle_non_steady_cases (gseq remove_gone_nodes
           (gseq add_new_nodes handle_replication_factor_change))) s ?P"
    by (rule reaches_gseq, rule reaches_mono [OF steady_handle_non_steady_cases [OF st]]) (use rest in simp)
  then show ?thesis unfolding main_block_def
    by (intro reaches_gseq) (simp add: S, intro reaches_gseq, simp add: S)
qed

lemma steady_invariants: "steady s X \<Longrightarrow> invariants_ok s"
  using steady_sets [of s X] steady_goal [of s X] by (intro invariants_okI) simp_all

text \<open>From a steady state the resolver always reaches the steady state of the active nodes.\<close>

lemma steady_generates:
  assumes st: "steady s X"
  shows "\<exists>ts t. generate_transitions s = (ts, t, None) \<and> main_block s = (ts, t, None)
    \<and> steady t (cis_abs (qs_active s)) \<and> (\<forall>u \<in> set ts. transition_type u \<noteq> Restart) \<and> same_goal s t"
proof -
  have "failover_block s = (([], s, None), False)"
    using steady_invariants [OF st] steady_sets(10) [OF st]
    by (simp add: failover_block_def check_invariants_def gskip_def)
  with steady_main_block [OF st] show ?thesis
    by (auto simp: generate_transitions_def reaches_def)
qed

lemma run_transitions_goal: "same_goal s (run_transitions ts s)"
  by (induction ts arbitrary: s)
    (auto simp: same_goal_def apply_transition_def split: transition_kind.splits)

lemma steady_core: "core s = core t \<Longrightarrow> same_goal s t \<Longrightarrow> steady s X = steady t X"
  by (simp add: steady_def optimal_def balanced_def core_def same_goal_def qsr_wf_def)

lemma steady_skips:
  assumes st: "steady s X" and A: "cis_abs (qs_active s) = X"
  shows "handle_non_steady_cases s = ([], s, None)" "remove_gone_nodes s = ([], s, None)"
    "add_new_nodes s = ([], s, None)" "handle_replication_factor_change s = ([], s, None)"
proof -
  note S = steady_sets [OF st] and G = steady_goal [OF st]
  have b: "\<not> cis_bool (cis_sub (qs_sync s) (qs_active s))" "\<not> cis_bool (cis_sub (qs_active s) (qs_sync s))"
    using S A by (auto simp: cis_simps)
  have lt: "\<not> cis_lt (qs_sync s) (qs_voters s)" "\<not> cis_lt (qs_voters s) (qs_sync s)"
    "cis_eq (qs_voters s) (qs_sync s)" "clen (cis_or (qs_voters s) (qs_sync s)) = int (card X)"
    using S by (simp_all add: cis_simps)
  have c: "\<not> int (card X) < qs_quorum s + min (qs_numsync s) (qs_numsync_confirmed s)"
    "\<not> int (card X) < qs_quorum s + qs_numsync s"
    using G by auto
  show "handle_non_steady_cases s = ([], s, None)"
    unfolding handle_non_steady_cases_def
    by (simp add: gseq_def gstate_def lt gskip_def gassert_def c)
  show "remove_gone_nodes s = ([], s, None)" "add_new_nodes s = ([], s, None)"
    by (simp_all add: remove_gone_nodes_def add_new_nodes_def gstate_def gwhen_def gskip_def b)
  show "handle_replication_factor_change s = ([], s, None)"
    using S G by (auto simp: handle_replication_factor_change_def cis_len_abs min_def gstate_def gskip_def)
qed

section \<open>A replication factor that grows faster than the cluster\<close>

lemma balanced_sets:
  assumes "balanced s X"
  shows "cis_abs (qs_voters s) = X" "cis_abs (qs_sync s) = X" "finite X" "cis_inv (qs_voters s)"
    "cis_inv (qs_sync s)" "cis_inv (qs_active s)" "0 \<le> qs_numsync s"
    "qs_leader s = qs_leader_wanted s" "qs_quorum s = int (card X) - qs_numsync s"
  using assms cis_abs_finite [of "qs_sync s"] by (auto simp: balanced_def qsr_wf_def)

lemma balanced_invariants: "balanced s X \<Longrightarrow> invariants_ok s"
  using balanced_sets [of s X] by (intro invariants_okI) simp_all

lemma balanced_skips:
  assumes b: "balanced s X" and A: "X \<subseteq> cis_abs (qs_active s)"
  shows "handle_non_steady_cases s = ([], s, None)" "remove_gone_nodes s = ([], s, None)"
proof -
  note S = balanced_sets [OF b]
  have lt: "\<not> cis_lt (qs_sync s) (qs_voters s)" "\<not> cis_lt (qs_voters s) (qs_sync s)"
    "cis_eq (qs_voters s) (qs_sync s)" "clen (cis_or (qs_voters s) (qs_sync s)) = int (card X)"
    using S by (simp_all add: cis_simps)
  have c: "\<not> int (card X) < qs_quorum s + min (qs_numsync s) (qs_numsync_confirmed s)"
    "\<not> int (card X) < qs_quorum s + qs_numsync s"
    using S by auto
  show "handle_non_steady_cases s = ([], s, None)"
    unfolding handle_non_steady_cases_def
    by (simp add: gseq_def gstate_def lt gskip_def gassert_def c)
  have "\<not> cis_bool (cis_sub (qs_sync s) (qs_active s))" using S A by (auto simp: cis_simps)
  then show "remove_gone_nodes s = ([], s, None)"
    by (simp add: remove_gone_nodes_def gstate_def gwhen_def gskip_def)
qed

lemma raises_quorum_update:
  assumes "qs_numsync_confirmed s \<noteq> 0" "0 \<le> q" "q = 0 \<or> q < clen vs" "cis_inv vs" "cis_inv (qs_voters s)"
    "cis_abs vs \<noteq> cis_abs (qs_voters s)"
    "\<not> invariants_ok (s\<lparr>qs_quorum := q + max (qs_numsync s - qs_numsync_confirmed s) 0, qs_voters := vs\<rparr>)"
  shows "raises (quorum_update q vs None True) s QuorumError"
proof -
  have "\<not> cis_eq vs (qs_voters s)" using assms by (simp add: cis_eq_abs)
  then have "quorum_update q vs None True s = commit_quorum (q + max (qs_numsync s - qs_numsync_confirmed s) 0) vs s"
    using assms(1-3) by (auto simp: quorum_update_def Let_def)
  then show ?thesis using assms(7)
    by (simp add: raises_def commit_quorum_def gseq_def gmodify_def check_invariants_def graise_def)
qed

lemma py_take_all: "int (length xs) \<le> k \<Longrightarrow> py_take k xs = xs"
  by (simp add: py_take_def)

lemma balanced_growth_raises:
  assumes b: "balanced s X" and A: "X \<subseteq> cis_abs (qs_active s)" "X \<noteq> {}" "cis_abs (qs_active s) \<noteq> X"
    and l: "lower (qs_leader s) \<notin> cis_abs (qs_active s)" and c: "1 \<le> qs_numsync_confirmed s"
    and m: "m = qs_numsync s + int (card (cis_abs (qs_active s) - X))"
    and g: "m + max (m - qs_numsync_confirmed s) 0 < min (qs_sync_wanted s) (int (card (cis_abs (qs_active s))))"
  shows "raises add_new_nodes s QuorumError"
proof -
  note S = balanced_sets [OF b]
  let ?A = "cis_abs (qs_active s)"
  define D where "D = cis_sub (qs_active s) (qs_sync s)"
  have D: "cis_inv D" "cis_abs D = ?A - X" using S by (simp_all add: D_def cis_simps)
  have XA: "X \<union> (?A - X) = ?A" "X \<union> ?A = ?A" using A by auto
  define w where "w = min (qs_sync_wanted s) (int (card ?A))"
  have gw: "m + max (m - qs_numsync_confirmed s) 0 < w" using g by (simp only: w_def)
  then have mw: "0 \<le> m" "m < w" "w \<le> int (card ?A)" using m S(7) by (auto simp: w_def)
  have w: "min (qs_sync_wanted s) (clen (cis_or (qs_sync s) D)) = w"
    using S D by (simp add: w_def cis_simps XA Un_Diff_cancel)
  have len: "int (length (cis_iter D)) \<le> w - qs_numsync s"
    using D mw m by (simp add: cis_simps)
  define E where "E = cis_of (sort (cis_iter D))"
  have E: "cis_inv E" "cis_abs E = ?A - X"
    using D lower_iter_abs [of D] by (simp_all add: E_def cis_abs_of)
  have cd: "int (card (?A - X)) = int (card ?A) - int (card X)" using A S by (intro int_card_Diff) simp_all
  have pos: "0 < card (?A - X)" "finite ?A" using A S by (auto simp: card_gt_0_iff)
  define vs where "vs = cis_or (qs_voters s) E"
  define ss where "ss = cis_or (qs_sync s) E"
  have abs: "cis_abs vs = ?A" "cis_abs ss = ?A" "cis_inv vs" "cis_inv ss"
    using S E XA by (simp_all add: vs_def ss_def cis_simps)
  let ?s1 = "s\<lparr>qs_numsync := m, qs_sync := ss\<rparr>"
  have iv1: "invariants_ok ?s1" using S abs cd m A by (intro invariants_okI) (auto simp: Un_absorb1)
  have up: "raises (quorum_update (clen vs - w) vs None True) ?s1 QuorumError"
  proof (rule raises_quorum_update)
    let ?t = "?s1\<lparr>qs_quorum := clen vs - w + max (m - qs_numsync_confirmed s) 0, qs_voters := vs\<rparr>"
    have "\<not> int (card (insert (lower (qs_leader s)) ?A)) \<le> qs_quorum ?t + qs_numsync ?t + 1"
      using l pos gw abs by (simp add: cis_len_abs)
    then show "\<not> invariants_ok (?s1\<lparr>qs_quorum := clen vs - w + max (qs_numsync ?s1 - qs_numsync_confirmed ?s1) 0,
                   qs_voters := vs\<rparr>)"
      using S abs A by (auto simp: invariants_ok_abs Let_def)
  qed (use c abs mw A S in \<open>auto simp: cis_len_abs\<close>)
  have sy: "reaches (sync_update m ss) s (\<lambda>t. t = ?s1)"
    using mw iv1 abs by (intro reaches_sync_update) (simp_all add: cis_len_abs)
  have inc: "clen E = int (card (?A - X))" using E by (simp add: cis_len_abs)
  have seq: "raises (gseq (sync_update m ss) (gstate (\<lambda>t. gseq (quorum_update (clen (cis_or (qs_voters t) E) - w)
          (cis_or (qs_voters t) E) None True) (h t)))) s QuorumError" for h
    by (rule raises_gseqR, rule reaches_mono [OF sy]) (use up in \<open>simp add: raises_gseqL flip: vs_def\<close>)
  have "cis_bool D" "cis_bool (qs_sync s)" "w - qs_numsync s > 0" "qs_numsync s + clen E = m"
    "cis_of (py_take (w - qs_numsync s) (sort (cis_iter D))) = E"
    using pos D S A mw m len inc by (auto simp: cis_bool_abs py_take_all E_def)
  moreover from this(3) w have "qs_numsync s < qs_sync_wanted s" "qs_numsync s < clen (cis_or (qs_sync s) D)"
    by linarith+
  ultimately show ?thesis
    by (simp add: add_new_nodes_def Let_def w seq flip: D_def ss_def)
qed

lemma balanced_growth_fails:
  assumes b: "balanced s X" and A: "X \<subseteq> cis_abs (qs_active s)" "X \<noteq> {}" "cis_abs (qs_active s) \<noteq> X"
    and l: "lower (qs_leader s) \<notin> cis_abs (qs_active s)" and c: "1 \<le> qs_numsync_confirmed s"
    and m: "m = qs_numsync s + int (card (cis_abs (qs_active s) - X))"
    and g: "m + max (m - qs_numsync_confirmed s) 0 < min (qs_sync_wanted s) (int (card (cis_abs (qs_active s))))"
  shows "qsr_iter s = Inl QuorumError"
proof -
  have "failover_block s = (([], s, None), False)"
    using balanced_invariants [OF b] balanced_sets(8) [OF b]
    by (simp add: failover_block_def check_invariants_def gskip_def)
  moreover have "raises main_block s QuorumError"
    using balanced_growth_raises [OF assms] balanced_skips [OF b A(1)] balanced_sets(8) [OF b] c
    by (auto simp: main_block_def raises_def gseq_def gassert_def gmodify_def)
  ultimately show ?thesis by (auto simp: raises_def qsr_iter_def generate_transitions_def)
qed

section \<open>Properties\<close>

text \<open>
  C2: from the optimal state of some nodes (both registries list them, \<^verbatim>\<open>numsync\<close> is the wanted
  replication factor capped by their number and \<^verbatim>\<open>quorum\<close> complements it), provided that at
  least one synchronous standby is wanted and that at least as many as wanted are confirmed,
  iterating over the resolver does not raise, for any set of active nodes, and executing the
  transitions leads to the optimal state of exactly the active nodes.
\<close>

theorem resolver_converges:
  assumes "optimal s X" "1 \<le> qs_sync_wanted s" "qs_sync_wanted s \<le> qs_numsync_confirmed s"
  shows "\<exists>ts. qsr_iter s = Inr ts \<and> optimal (run_transitions ts s) (cis_abs (qs_active s))"
proof -
  have "steady s X" using assms by (simp add: steady_def)
  then obtain ts t where g: "generate_transitions s = (ts, t, None)" "main_block s = (ts, t, None)"
    "steady t (cis_abs (qs_active s))" "\<forall>u \<in> set ts. transition_type u \<noteq> Restart" "same_goal s t"
    using steady_generates by blast
  have "core (run_transitions ts s) = core t" using sound_genD [OF sound_main_block g(2)] by simp
  moreover have "same_goal (run_transitions ts s) t"
    using run_transitions_goal [of s ts] g(5) by (simp add: same_goal_def)
  ultimately have "steady (run_transitions ts s) (cis_abs (qs_active s))"
    using g(3) steady_core by blast
  then show ?thesis using g by (simp add: qsr_iter_def merge_no_restart steady_def)
qed

theorem resolver_converges_witness:
  "\<exists>ts. qsr_iter (QuorumStateResolver ''a'' 1 [''b'', ''c''] 1 [''b'', ''c''] 1 [''c'', ''d'', ''e''] 1 ''a'') = Inr ts
     \<and> optimal (run_transitions ts (QuorumStateResolver ''a'' 1 [''b'', ''c''] 1 [''b'', ''c''] 1 [''c'', ''d'', ''e''] 1 ''a''))
         {''c'', ''d'', ''e''}"
proof -
  let ?s = "QuorumStateResolver ''a'' 1 [''b'', ''c''] 1 [''b'', ''c''] 1 [''c'', ''d'', ''e''] 1 ''a''"
  have "steady ?s {''b'', ''c''}"
    by (intro steadyI) (simp_all add: QuorumStateResolver_def cis_simps lower_def lower_char_def)
  moreover have "cis_abs (qs_active ?s) = {''c'', ''d'', ''e''}"
    by (simp add: QuorumStateResolver_def cis_simps lower_def lower_char_def)
  ultimately show ?thesis using resolver_converges [of ?s "{''b'', ''c''}"] by (simp add: steady_def)
qed

text \<open>
  in the steady state of the active nodes the resolver yields no transition, so the
  synchronous configuration is left alone.
\<close>

theorem resolver_fixpoint:
  assumes "steady s X" "cis_abs (qs_active s) = X"
  shows "qsr_iter s = Inr []"
  using steady_skips [OF assms] steady_invariants [OF assms(1)] steady_sets(7,10) [OF assms(1)]
  by (simp add: qsr_iter_def generate_transitions_def failover_block_def check_invariants_def
      main_block_def gseq_def gassert_def gmodify_def gskip_def)

theorem resolver_fixpoint_witness:
  "qsr_iter (QuorumStateResolver ''a'' 1 [''b'', ''c''] 1 [''b'', ''c''] 1 [''c'', ''b''] 1 ''a'') = Inr []"
proof -
  let ?s = "QuorumStateResolver ''a'' 1 [''b'', ''c''] 1 [''b'', ''c''] 1 [''c'', ''b''] 1 ''a''"
  have "steady ?s {''b'', ''c''}"
    by (intro steadyI) (simp_all add: QuorumStateResolver_def cis_simps lower_def lower_char_def)
  moreover have "cis_abs (qs_active ?s) = {''b'', ''c''}"
    by (auto simp add: QuorumStateResolver_def cis_simps lower_def lower_char_def)
  ultimately show ?thesis by (rule resolver_fixpoint)
qed

text \<open>
  C38: the resolver does not always return. Whenever both registries agree on a non-empty set
  of nodes (the leader is not one of them), all of them are active, other nodes join, some
  standby is confirmed, and the wanted replication factor, capped by the number of active nodes,
  exceeds the one the joining nodes alone bring (plus the part of it that is not confirmed),
  then the invariants hold and yet the iteration ends with \<open>QuorumError\<close>: \<open>__add_new_nodes\<close>
  subtracts the wanted number from the quorum although \<^verbatim>\<open>numsync\<close> has only grown by the number
  of joining nodes.
\<close>

theorem resolver_can_fail:
  assumes "balanced s X" "X \<noteq> {}" "X \<subset> cis_abs (qs_active s)"
    "lower (qs_leader s) \<notin> cis_abs (qs_active s)" "1 \<le> qs_numsync_confirmed s"
    "m = qs_numsync s + int (card (cis_abs (qs_active s) - X))"
    "m + max (m - qs_numsync_confirmed s) 0 < min (qs_sync_wanted s) (int (card (cis_abs (qs_active s))))"
  shows "invariants_ok s \<and> qsr_iter s = Inl QuorumError"
  using balanced_growth_fails [OF assms(1) _ assms(2) _ assms(4-7)] balanced_invariants [OF assms(1)] assms(3)
  by blast

theorem resolver_can_fail_witness:
  "invariants_ok (QuorumStateResolver ''a'' 2 [''b'', ''c'', ''d''] 1 [''b'', ''c'', ''d''] 1 [''b'', ''c'', ''d'', ''e''] 4 ''a'')
   \<and> qsr_iter (QuorumStateResolver ''a'' 2 [''b'', ''c'', ''d''] 1 [''b'', ''c'', ''d''] 1 [''b'', ''c'', ''d'', ''e''] 4 ''a'')
       = Inl QuorumError"
proof -
  let ?s = "QuorumStateResolver ''a'' 2 [''b'', ''c'', ''d''] 1 [''b'', ''c'', ''d''] 1 [''b'', ''c'', ''d'', ''e''] 4 ''a''"
  note ev = QuorumStateResolver_def cis_simps lower_def lower_char_def
  have A: "cis_abs (qs_active ?s) = {''b'', ''c'', ''d'', ''e''}" by (simp add: ev)
  have f: "qs_numsync ?s = 1" "qs_numsync_confirmed ?s = 1" "qs_sync_wanted ?s = 4" "qs_leader ?s = ''a''"
    by (simp_all add: QuorumStateResolver_def)
  have D: "{''b'', ''c'', ''d'', ''e''} - {''b'', ''c'', ''d''} = {''e''}" by auto
  have l: "lower (qs_leader ?s) \<notin> cis_abs (qs_active ?s)" unfolding A f by (simp add: lower_def lower_char_def)
  have X: "{''b'', ''c'', ''d''} \<subset> cis_abs (qs_active ?s)" unfolding A
  proof (rule psubsetI)
    show "{''b'', ''c'', ''d''} \<noteq> {''b'', ''c'', ''d'', ''e''}" using D by (metis Diff_cancel insert_not_empty)
  qed simp
  have "balanced ?s {''b'', ''c'', ''d''}" by (simp add: balanced_def qsr_wf_def ev)
  from resolver_can_fail [OF this _ X l, of 2] show ?thesis by (simp add: A D f)
qed

text \<open>
  A state that satisfies the invariants and is left behind by an interrupted run can fail the
  assertion of \<open>__handle_non_steady_cases\<close>.
\<close>

lemma resolver_assertion_can_fail:
  "invariants_ok (QuorumStateResolver ''a'' 1 [''b'', ''c''] 2 [''b'', ''c'', ''d''] 1 [''b''] 1 ''a'')
   \<and> qsr_iter (QuorumStateResolver ''a'' 1 [''b'', ''c''] 2 [''b'', ''c'', ''d''] 1 [''b''] 1 ''a'') = Inl QAssertionError"
  by (intro conjI; code_simp)

end
