(* ===== verification/Raft.thy ===== *)
theory Raft
  imports DcsOps
begin

text \<open>
  The Raft backend of \<^verbatim>\<open>patroni/dcs/raft.py\<close>: a key-value store with expiring keys, replicated by the
  PySyncObj library, and the leader lock built on it. The library delivers the replicated commands to
  every node in one order; the model is the effect of one command on the store, with the position in
  that order as an argument, and the client methods that submit commands. A client checks its
  requirements first on its own copy of the store, which may be behind, and they are checked again when the
  command is applied. What \<^verbatim>\<open>time.time()\<close> returns is an argument.
\<close>

section \<open>The store\<close>

record kv_entry =
  e_value :: string
  e_updated :: time
  e_created :: time
  e_expire :: "time option"
  e_index :: int

record kv_store =
  kv_data :: "(string, kv_entry) dict"
  kv_limb :: "(string, kv_entry) dict"

text \<open>The keyword arguments \<^verbatim>\<open>prevExist\<close>, \<^verbatim>\<open>prevValue\<close> and \<^verbatim>\<open>prevIndex\<close>, where given.\<close>

record kv_cond =
  prevExist :: "bool option"
  prevValue :: "string option"
  prevIndex :: "int option"

abbreviation no_cond :: kv_cond where
  "no_cond \<equiv> \<lparr>prevExist = None, prevValue = None, prevIndex = None\<rparr>"

definition check_requirements :: "kv_entry option \<Rightarrow> kv_cond \<Rightarrow> bool" where
  "check_requirements old_value c \<longleftrightarrow>
     (case prevExist c of None \<Rightarrow> True | Some b \<Rightarrow> b = (old_value \<noteq> None))
     \<and> (case prevValue c of None \<Rightarrow> True | Some v \<Rightarrow> (case old_value of None \<Rightarrow> False | Some e \<Rightarrow> e_value e = v))
     \<and> (case prevIndex c of None \<Rightarrow> True | Some i \<Rightarrow> (case old_value of None \<Rightarrow> False | Some e \<Rightarrow> e_index e = i))"

definition values_match :: "kv_entry \<Rightarrow> kv_entry \<Rightarrow> bool" where
  "values_match old new \<longleftrightarrow> e_created old = e_created new \<and> e_updated old = e_updated new
     \<and> e_expire old = e_expire new \<and> e_value old = e_value new"

section \<open>Replicated commands\<close>

datatype kv_command = CSet string kv_entry kv_cond | CDelete string bool kv_cond | CExpire string kv_entry

datatype kv_reply = RFalse | RTrue | REntry kv_entry | RNone | RError py_error

definition kv_apply_set :: "int \<Rightarrow> string \<Rightarrow> kv_entry \<Rightarrow> kv_cond \<Rightarrow> kv_store \<Rightarrow> kv_reply \<times> kv_store" where
  "kv_apply_set idx key val c s =
     (let old_value = dict_get (kv_data s) key in
      if \<not> check_requirements old_value c then (RFalse, s)
      else (let val1 = (case old_value of
                          None \<Rightarrow> val
                        | Some old \<Rightarrow> if e_created old \<noteq> e_created val then val\<lparr>e_created := e_updated val\<rparr> else val);
                val2 = val1\<lparr>e_index := idx\<rparr>
            in (REntry val2, s\<lparr>kv_data := dict_set key val2 (kv_data s)\<rparr>)))"

text \<open>Removing an absent key raises \<^verbatim>\<open>KeyError\<close>.\<close>

definition kv_apply_delete :: "string \<Rightarrow> bool \<Rightarrow> kv_cond \<Rightarrow> kv_store \<Rightarrow> kv_reply \<times> kv_store" where
  "kv_apply_delete key recursive c s =
     (if recursive then (RTrue, s\<lparr>kv_data := filter (\<lambda>(k, v). \<not> starts_with k key) (kv_data s)\<rparr>)
      else if \<not> check_requirements (dict_get (kv_data s) key) c then (RFalse, s)
      else if dict_has (kv_data s) key then (RTrue, s\<lparr>kv_data := dict_pop key (kv_data s)\<rparr>)
      else (RError KeyError, s))"

definition kv_apply_expire :: "string \<Rightarrow> kv_entry \<Rightarrow> kv_store \<Rightarrow> kv_reply \<times> kv_store" where
  "kv_apply_expire key val s = (case dict_get (kv_data s) key of
     None \<Rightarrow> (RNone, s)
   | Some current \<Rightarrow> (RNone, if values_match current val then s\<lparr>kv_data := dict_pop key (kv_data s)\<rparr> else s))"

definition kv_apply :: "int \<Rightarrow> kv_command \<Rightarrow> kv_store \<Rightarrow> kv_reply \<times> kv_store" where
  "kv_apply idx cmd s = (case cmd of
     CSet key val c \<Rightarrow> kv_apply_set idx key val c s
   | CDelete key recursive c \<Rightarrow> kv_apply_delete key recursive c s
   | CExpire key val \<Rightarrow> kv_apply_expire key val s)"

text \<open>A log of commands with their positions.\<close>

type_synonym kv_log = "(int \<times> kv_command) list"

definition kv_step :: "int \<times> kv_command \<Rightarrow> kv_store \<Rightarrow> kv_store" where
  "kv_step p s = snd (kv_apply (fst p) (snd p) s)"

section \<open>Submitting commands\<close>

text \<open>
  The loop of \<open>retry\<close>: every attempt ends with a reply and an error code; \<open>True\<close> in the third place means
  that the deadline has passed. \<open>None\<close> stands for \<open>RaftError\<close>.
\<close>

datatype fail_reason = SUCCESS | REQUEST_DENIED | OTHER_REASON

fun kv_retry :: "(kv_reply \<times> fail_reason \<times> bool) list \<Rightarrow> kv_reply option" where
  "kv_retry [] = None"
| "kv_retry ((result, error, expired) # rest) =
     (if error = SUCCESS then Some result
      else if error = REQUEST_DENIED then Some RFalse
      else if expired then None else kv_retry rest)"

text \<open>\<open>local\<close> is this node's copy of the store; \<open>None\<close> means that no command is submitted.\<close>

definition kv_set_command :: "time \<Rightarrow> kv_store \<Rightarrow> string \<Rightarrow> string \<Rightarrow> int option \<Rightarrow> kv_cond \<Rightarrow> kv_command option" where
  "kv_set_command now local key val ttl c =
     (let old_value = dict_get (kv_data local) key in
      if \<not> check_requirements old_value c then None
      else Some (CSet key \<lparr>e_value = val, e_updated = now,
          e_created = (case old_value of None \<Rightarrow> now | Some e \<Rightarrow> e_created e),
          e_expire = (if int_or_0 ttl \<noteq> 0 then Some (now + of_int (int_or_0 ttl)) else None), e_index = 0\<rparr> c))"

definition kv_delete_command :: "kv_store \<Rightarrow> string \<Rightarrow> bool \<Rightarrow> kv_cond \<Rightarrow> kv_command option" where
  "kv_delete_command local key recursive c =
     (if \<not> recursive \<and> \<not> check_requirements (dict_get (kv_data local) key) c then None
      else Some (CDelete key recursive c))"

definition kv_get :: "kv_store \<Rightarrow> string \<Rightarrow> kv_entry option" where
  "kv_get s key = dict_get (kv_data s) key"

definition kv_get_recursive :: "kv_store \<Rightarrow> string \<Rightarrow> (string, kv_entry) dict" where
  "kv_get_recursive s key = filter (\<lambda>(k, v). starts_with k key) (kv_data s)"

section \<open>Expiry\<close>

text \<open>
  Run on the leader at every tick: for each expired key that is not in limb already, the key is put in
  limb and an expire command is submitted.
\<close>

definition due :: "time \<Rightarrow> (string, kv_entry) dict \<Rightarrow> string \<times> kv_entry \<Rightarrow> bool" where
  "due now limb p = (case p of (key, val) \<Rightarrow>
     (case e_expire val of None \<Rightarrow> False | Some t \<Rightarrow> t \<le> now)
     \<and> \<not> (case dict_get limb key of None \<Rightarrow> False | Some l \<Rightarrow> values_match l val))"

fun expire_loop :: "time \<Rightarrow> (string, kv_entry) dict \<Rightarrow> (string, kv_entry) dict \<Rightarrow> (string, kv_entry) dict \<times> kv_command list" where
  "expire_loop now [] limb = (limb, [])"
| "expire_loop now ((key, val) # rest) limb =
     (if due now limb (key, val)
      then (case expire_loop now rest (dict_set key val limb) of (limb', cmds) \<Rightarrow> (limb', CExpire key val # cmds))
      else expire_loop now rest limb)"

definition expire_keys :: "time \<Rightarrow> kv_store \<Rightarrow> kv_store \<times> kv_command list" where
  "expire_keys now s = (case expire_loop now (kv_data s) (kv_limb s) of (limb, cmds) \<Rightarrow> (s\<lparr>kv_limb := limb\<rparr>, cmds))"

text \<open>
  The callback of an expire command. It refers to the variables of the loop, which after the loop hold
  the last item of the store, whatever key the command was for.
\<close>

definition expire_callback :: "(string, kv_entry) dict \<Rightarrow> kv_store \<Rightarrow> kv_store" where
  "expire_callback items s = (case items of
     [] \<Rightarrow> s
   | _ \<Rightarrow> (case last items of (key, val) \<Rightarrow>
       (case dict_get (kv_limb s) key of
          None \<Rightarrow> s
        | Some l \<Rightarrow> if values_match l val then s\<lparr>kv_limb := dict_pop key (kv_limb s)\<rparr> else s)))"

definition on_tick :: "bool \<Rightarrow> time \<Rightarrow> kv_store \<Rightarrow> kv_store \<times> kv_command list" where
  "on_tick is_leader now s = (if is_leader then expire_keys now s else (s\<lparr>kv_limb := []\<rparr>, []))"

section \<open>The backend\<close>

definition raft_attempt_to_acquire_leader :: "time \<Rightarrow> 'w dcs \<Rightarrow> kv_store \<Rightarrow> kv_command option" where
  "raft_attempt_to_acquire_leader now d local =
     kv_set_command now local (leader_path d) (d_name d) (Some (d_ttl d)) (no_cond\<lparr>prevExist := Some False\<rparr>)"

definition raft_refresh_leader :: "time \<Rightarrow> 'w dcs \<Rightarrow> kv_store \<Rightarrow> kv_command option" where
  "raft_refresh_leader now d local =
     kv_set_command now local (leader_path d) (d_name d) (Some (d_ttl d)) (no_cond\<lparr>prevValue := Some (d_name d)\<rparr>)"

text \<open>
  \<open>_update_leader\<close> after the first command: \<open>reply\<close> is its reply, \<open>None\<close> when none was submitted. When the
  refresh failed and the key is gone it falls back to an acquisition, whose command is the result.
\<close>

definition raft_update_leader :: "time \<Rightarrow> 'w dcs \<Rightarrow> kv_reply option \<Rightarrow> kv_store \<Rightarrow> bool + kv_command option" where
  "raft_update_leader now d reply local =
     (let ret = (reply \<noteq> None \<and> reply \<noteq> Some RFalse) in
      if \<not> ret \<and> kv_get local (leader_path d) = None then Inr (raft_attempt_to_acquire_leader now d local) else Inl ret)"

definition raft_take_leader :: "time \<Rightarrow> 'w dcs \<Rightarrow> kv_store \<Rightarrow> kv_command option" where
  "raft_take_leader now d local =
     kv_set_command now local (leader_path d) (d_name d) (Some (d_ttl d)) no_cond"

definition raft_delete_leader :: "'w dcs \<Rightarrow> kv_store \<Rightarrow> kv_command option" where
  "raft_delete_leader d local = kv_delete_command local (leader_path d) False (no_cond\<lparr>prevValue := Some (d_name d)\<rparr>)"

definition raft_initialize :: "time \<Rightarrow> 'w dcs \<Rightarrow> kv_store \<Rightarrow> bool \<Rightarrow> string \<Rightarrow> kv_command option" where
  "raft_initialize now d local create_new sysid =
     kv_set_command now local (client_path d ''initialize'') sysid None (no_cond\<lparr>prevExist := Some (\<not> create_new)\<rparr>)"

definition raft_cancel_initialization :: "'w dcs \<Rightarrow> kv_store \<Rightarrow> kv_command option" where
  "raft_cancel_initialization d local = kv_delete_command local (client_path d ''initialize'') False no_cond"

definition raft_delete_cluster :: "'w dcs \<Rightarrow> kv_store \<Rightarrow> kv_command option" where
  "raft_delete_cluster d local = kv_delete_command local (client_path d []) True no_cond"

definition raft_set_sync_state_value :: "time \<Rightarrow> 'w dcs \<Rightarrow> kv_store \<Rightarrow> string \<Rightarrow> int option \<Rightarrow> kv_command option" where
  "raft_set_sync_state_value now d local val version =
     kv_set_command now local (sync_path d) val None (no_cond\<lparr>prevIndex := version\<rparr>)"

definition raft_delete_sync_state :: "'w dcs \<Rightarrow> kv_store \<Rightarrow> int option \<Rightarrow> kv_command option" where
  "raft_delete_sync_state d local version =
     kv_delete_command local (sync_path d) False (no_cond\<lparr>prevIndex := version\<rparr>)"

text \<open>The reply of the command as returned to the caller: the new version of the key, or whether it succeeded.\<close>

definition raft_sync_version :: "kv_reply \<Rightarrow> int + bool" where
  "raft_sync_version reply = (case reply of REntry e \<Rightarrow> Inl (e_index e) | _ \<Rightarrow> Inr False)"

definition raft_set_failover_value :: "time \<Rightarrow> 'w dcs \<Rightarrow> kv_store \<Rightarrow> string \<Rightarrow> int option \<Rightarrow> kv_command option" where
  "raft_set_failover_value now d local val version =
     kv_set_command now local (client_path d ''failover'') val None (no_cond\<lparr>prevIndex := version\<rparr>)"

definition raft_set_config_value :: "time \<Rightarrow> 'w dcs \<Rightarrow> kv_store \<Rightarrow> string \<Rightarrow> int option \<Rightarrow> kv_command option" where
  "raft_set_config_value now d local val version =
     kv_set_command now local (client_path d ''config'') val None (no_cond\<lparr>prevIndex := version\<rparr>)"

definition raft_set_history_value :: "time \<Rightarrow> 'w dcs \<Rightarrow> kv_store \<Rightarrow> string \<Rightarrow> kv_command option" where
  "raft_set_history_value now d local val = kv_set_command now local (client_path d ''history'') val None no_cond"

definition raft_write_leader_optime :: "time \<Rightarrow> 'w dcs \<Rightarrow> kv_store \<Rightarrow> string \<Rightarrow> kv_command option" where
  "raft_write_leader_optime now d local last_lsn =
     kv_set_command now local (client_path d ''optime/leader'') last_lsn None no_cond"

definition raft_write_status :: "time \<Rightarrow> 'w dcs \<Rightarrow> kv_store \<Rightarrow> string \<Rightarrow> kv_command option" where
  "raft_write_status now d local val = kv_set_command now local (client_path d ''status'') val None no_cond"

definition raft_write_failsafe :: "time \<Rightarrow> 'w dcs \<Rightarrow> kv_store \<Rightarrow> string \<Rightarrow> kv_command option" where
  "raft_write_failsafe now d local val = kv_set_command now local (client_path d ''failsafe'') val None no_cond"

definition raft_touch_member :: "time \<Rightarrow> 'w dcs \<Rightarrow> kv_store \<Rightarrow> string \<Rightarrow> kv_command option" where
  "raft_touch_member now d local val = kv_set_command now local (member_path d) val (Some (d_ttl d)) no_cond"

text \<open>
  Whether a change wakes up the HA loop. The comparison \<^verbatim>\<open>key == value['created'] == value['updated']\<close> is between
  a string and a number and always false.
\<close>

definition raft_on_set :: "'w dcs \<Rightarrow> string \<Rightarrow> kv_store \<Rightarrow> bool" where
  "raft_on_set d key local =
     (let ldr = map_option e_value (kv_get local (leader_path d)) in
      key \<in> {client_path d ''optime/leader'', client_path d ''status''} \<and> ldr \<noteq> Some (d_name d)
      \<or> key \<in> {client_path d ''config'', sync_path d})"

definition raft_on_delete :: "'w dcs \<Rightarrow> string \<Rightarrow> bool" where
  "raft_on_delete d key = (key = leader_path d)"

section \<open>The cluster view\<close>

definition basename :: "string \<Rightarrow> string" where
  "basename s = last (split_on (CHR ''/'') s)"

definition raft_member ::
  "(string \<Rightarrow> py_error + pyval) \<Rightarrow> (string \<Rightarrow> string \<times> string option) \<Rightarrow> string \<times> kv_entry \<Rightarrow> py_error + member" where
  "raft_member loads parse_conn p = (case p of (key, e) \<Rightarrow>
     Member_from_node loads parse_conn (PInt (e_index e)) (basename key) PNone (e_value e))"

text \<open>
  A value that is no JSON object counts as absent, and entries whose URL is not a string are left out: the
  annotation of \<open>Cluster.failsafe\<close> promises a dictionary of strings.
\<close>

definition raft_failsafe :: "(string \<Rightarrow> py_error + pyval) \<Rightarrow> kv_entry option \<Rightarrow> (string, string) dict option" where
  "raft_failsafe loads e = (case e of
     None \<Rightarrow> None
   | Some e \<Rightarrow> (case loads (e_value e) of
       Inr (PDict fs) \<Rightarrow> Some (List.map_filter (\<lambda>(k, v). map_option (Pair k) (as_str v)) fs)
     | _ \<Rightarrow> None))"

definition opt_node :: "(kv_entry \<Rightarrow> 'e + 'a) \<Rightarrow> kv_entry option \<Rightarrow> 'e + 'a option" where
  "opt_node f e = (case e of None \<Rightarrow> Inr None | Some x \<Rightarrow> map_sum id Some (f x))"

definition raft_leader :: "member list \<Rightarrow> kv_entry option \<Rightarrow> leader option" where
  "raft_leader members e = map_option (\<lambda>e.
     \<lparr>l_version = PInt (e_index e), l_session = PNone,
      l_member = (case filter (\<lambda>m. m_name m = e_value e) members of
                    m # _ \<Rightarrow> m | [] \<Rightarrow> Member (PInt (- 1)) (e_value e) PNone [])\<rparr>) e"

definition cluster_from_nodes ::
  "(string \<Rightarrow> py_error + pyval) \<Rightarrow> (pyval \<Rightarrow> py_error + pyval) \<Rightarrow> (string \<Rightarrow> string \<times> string option)
   \<Rightarrow> (pyval \<Rightarrow> py_error + datetime) \<Rightarrow> (string, kv_entry) dict \<Rightarrow> py_error + 'w cluster" where
  "cluster_from_nodes loads loads_history parse_conn parse_date nodes =
     (let node = dict_get nodes;
          status = (case node ''status'' of None \<Rightarrow> node ''optime/leader'' | Some e \<Rightarrow> Some e)
      in
      bind_err (opt_node (\<lambda>e. ClusterConfig_from_node loads (PInt (e_index e)) (e_value e) PNone) (node ''config'')) (\<lambda>config.
      bind_err (opt_node (\<lambda>e. TimelineHistory_from_node loads_history (PInt (e_index e)) (PStr (e_value e))) (node ''history'')) (\<lambda>history.
      bind_err (mapM (raft_member loads parse_conn)
                 (filter (\<lambda>(k, e). starts_with k ''members/'' \<and> count_list k (CHR ''/'') = 1) nodes)) (\<lambda>members.
      bind_err (opt_node (\<lambda>e. Failover_from_node loads parse_date (PInt (e_index e)) (PStr (e_value e))) (node ''failover'')) (\<lambda>fo.
      bind_err (case node ''sync'' of
                  None \<Rightarrow> SyncState_from_node loads PNone PNone
                | Some e \<Rightarrow> SyncState_from_node loads (PInt (e_index e)) (PStr (e_value e))) (\<lambda>sync.
        Inr \<lparr>c_initialize = map_option e_value (node ''initialize''), c_config = config,
             c_leader = raft_leader members (node ''leader''),
             c_status = Status_from_node loads (case status of None \<Rightarrow> PNone | Some e \<Rightarrow> PStr (e_value e)),
             c_members = members, c_failover = fo, c_sync = sync, c_history = history,
             c_failsafe = raft_failsafe loads (node ''failsafe''), c_workers = []\<rparr>))))))"

definition postgresql_cluster_loader ::
  "(string \<Rightarrow> py_error + pyval) \<Rightarrow> (pyval \<Rightarrow> py_error + pyval) \<Rightarrow> (string \<Rightarrow> string \<times> string option)
   \<Rightarrow> (pyval \<Rightarrow> py_error + datetime) \<Rightarrow> kv_store \<Rightarrow> string \<Rightarrow> py_error + 'w cluster" where
  "postgresql_cluster_loader loads loads_history parse_conn parse_date s path =
     (case kv_get_recursive s path of
        [] \<Rightarrow> Inr Cluster_empty
      | response \<Rightarrow> cluster_from_nodes loads loads_history parse_conn parse_date
          (map (\<lambda>(k, e). (drop (length path) k, e)) response))"

definition demo_entry :: "int \<Rightarrow> kv_entry" where
  "demo_entry i = \<lparr>e_value = ''a'', e_updated = 1, e_created = 1, e_expire = Some 31, e_index = i\<rparr>"

section \<open>Locks\<close>

text \<open>
  The contract of a lock kept in a replicated store: whoever holds it keeps it unless a command makes the
  holder give it up.
\<close>

locale lease_lock =
  fixes step :: "'c \<Rightarrow> 's \<Rightarrow> 's" and holder :: "'s \<Rightarrow> 'n option" and gives_up :: "'n \<Rightarrow> 'c \<Rightarrow> 's \<Rightarrow> bool"
  assumes keeps: "holder s = Some n \<Longrightarrow> \<not> gives_up n c s \<Longrightarrow> holder (step c s) = Some n"
begin

lemma lost_lock:
  "holder s = Some n \<Longrightarrow> holder (fold step cs s) \<noteq> Some n \<Longrightarrow>
   \<exists>xs c ys. cs = xs @ c # ys \<and> holder (fold step xs s) = Some n \<and> gives_up n c (fold step xs s)"
proof (induction cs arbitrary: s)
  case (Cons c cs)
  show ?case
  proof (cases "gives_up n c s")
    case True
    then show ?thesis using Cons.prems(1) by (intro exI [of _ "[]"] exI [of _ c] exI [of _ cs]) simp
  next
    case False
    then have "holder (step c s) = Some n" using keeps Cons.prems(1) by blast
    moreover have "holder (fold step cs (step c s)) \<noteq> Some n" using Cons.prems(2) by simp
    ultimately obtain xs d ys where "cs = xs @ d # ys" "holder (fold step xs (step c s)) = Some n"
      "gives_up n d (fold step xs (step c s))"
      using Cons.IH by blast
    then show ?thesis by (intro exI [of _ "c # xs"] exI [of _ d] exI [of _ ys]) simp
  qed
qed simp

end

definition kv_holder :: "string \<Rightarrow> kv_store \<Rightarrow> string option" where
  "kv_holder k s = map_option e_value (kv_get s k)"

definition kv_gives_up :: "string \<Rightarrow> string \<Rightarrow> int \<times> kv_command \<Rightarrow> kv_store \<Rightarrow> bool" where
  "kv_gives_up k n p s = (case snd p of
     CSet k' v c \<Rightarrow> k' = k \<and> e_value v \<noteq> n \<and> check_requirements (kv_get s k) c
   | CDelete k' recursive c \<Rightarrow> if recursive then starts_with k k' else k' = k \<and> check_requirements (kv_get s k) c
   | CExpire k' v \<Rightarrow> k' = k \<and> (case kv_get s k of None \<Rightarrow> False | Some e \<Rightarrow> values_match e v))"

lemma kv_get_simps [simp]:
  "kv_get (s\<lparr>kv_data := dict_set k' e d\<rparr>) k = (if k = k' then Some e else dict_get d k)"
  "kv_get (s\<lparr>kv_data := dict_pop k' d\<rparr>) k = (if k = k' then None else dict_get d k)"
  by (auto simp: kv_get_def dict_get_set dict_get_pop)

lemma map_of_filter_key: "map_of (filter (\<lambda>(k, v). P k) d) k = (if P k then map_of d k else None)"
  by (induction d) auto

lemma kv_step_keeps:
  assumes "kv_holder k s = Some n" "\<not> kv_gives_up k n p s"
  shows "kv_holder k (kv_step p s) = Some n"
proof (cases p)
  case (Pair idx cmd)
  show ?thesis
  proof (cases cmd)
    case (CSet k' v c)
    then show ?thesis using assms Pair
      by (auto simp: kv_step_def kv_apply_def kv_apply_set_def kv_holder_def kv_gives_up_def Let_def kv_get_def
          dict_get_set split: option.splits if_splits)
  next
    case (CDelete k' r c)
    then show ?thesis using assms Pair map_of_filter_key [of "\<lambda>x. \<not> starts_with x k'" "kv_data s" k]
      by (auto simp: kv_step_def kv_apply_def kv_apply_delete_def kv_holder_def kv_gives_up_def kv_get_def
          dict_get_pop split: if_splits)
  next
    case (CExpire k' v)
    then show ?thesis using assms Pair
      by (auto simp: kv_step_def kv_apply_def kv_apply_expire_def kv_holder_def kv_gives_up_def kv_get_def
          dict_get_pop split: option.splits if_splits)
  qed
qed

interpretation rl: lease_lock kv_step "kv_holder k" "kv_gives_up k" for k
  by unfold_locales (rule kv_step_keeps)

text \<open>
  The commands that nodes submit for the lock while no operator removes the cluster or takes the lock by
  force: acquisitions of an absent key, refreshes and releases conditional on the own name, and expiry of
  entries that were due at the latest at time \<open>now\<close>.
\<close>

definition lock_protocol :: "string \<Rightarrow> time \<Rightarrow> kv_command \<Rightarrow> bool" where
  "lock_protocol k now cmd = (case cmd of
     CSet k' v c \<Rightarrow> k' = k \<longrightarrow> prevExist c = Some False \<or> prevValue c = Some (e_value v)
   | CDelete k' recursive c \<Rightarrow> (if recursive then \<not> starts_with k k' else k' = k \<longrightarrow> prevValue c \<noteq> None)
   | CExpire k' v \<Rightarrow> k' = k \<longrightarrow> (\<exists>t. e_expire v = Some t \<and> t \<le> now))"

lemma lock_commands_follow_protocol:
  "raft_attempt_to_acquire_leader now d local = Some cmd \<Longrightarrow> lock_protocol (leader_path d) t cmd"
  "raft_refresh_leader now d local = Some cmd \<Longrightarrow> lock_protocol (leader_path d) t cmd"
  "raft_delete_leader d local = Some cmd \<Longrightarrow> lock_protocol (leader_path d) t cmd"
  by (auto simp: raft_attempt_to_acquire_leader_def raft_refresh_leader_def raft_delete_leader_def kv_set_command_def
      kv_delete_command_def lock_protocol_def Let_def split: if_splits)

lemma expire_loop_due:
  "expire_loop now d limb = (limb', cmds) \<Longrightarrow> cmd \<in> set cmds \<Longrightarrow>
   \<exists>k v t. cmd = CExpire k v \<and> (k, v) \<in> set d \<and> e_expire v = Some t \<and> t \<le> now"
  by (induction d arbitrary: limb limb' cmds)
    (fastforce simp: due_def split: if_splits prod.splits option.splits)+

lemma expire_keys_follow_protocol: "expire_keys now s = (s', cmds) \<Longrightarrow> cmd \<in> set cmds \<Longrightarrow> now \<le> t \<Longrightarrow> lock_protocol k t cmd"
  using expire_loop_due [of now "kv_data s" "kv_limb s"]
  by (fastforce simp: expire_keys_def lock_protocol_def split: prod.splits)

text \<open>
  C24: the leader lock is exclusive. If a node holds the lock and after any sequence of acquisitions,
  refreshes, releases and expiries, by any nodes and interleaved with any other commands, it does not
  hold it any more, then it was released under that node's own name, or the lease as last
  refreshed had run out.
\<close>

theorem raft_lock_exclusive:
  assumes proto: "\<forall>p \<in> set cmds. lock_protocol k now (snd p)"
    and held: "kv_holder k s = Some n" "kv_holder k (fold kv_step cmds s) \<noteq> Some n"
  shows "\<exists>xs p ys. cmds = xs @ p # ys \<and> kv_holder k (fold kv_step xs s) = Some n
    \<and> ((\<exists>c. snd p = CDelete k False c \<and> prevValue c = Some n)
       \<or> (\<exists>v e t. snd p = CExpire k v \<and> kv_get (fold kv_step xs s) k = Some e \<and> e_expire e = Some t \<and> t \<le> now))"
proof -
  obtain xs p ys where split: "cmds = xs @ p # ys" "kv_holder k (fold kv_step xs s) = Some n"
    "kv_gives_up k n p (fold kv_step xs s)"
    using rl.lost_lock [OF held] by blast
  let ?s = "fold kv_step xs s"
  obtain e where e: "kv_get ?s k = Some e" "e_value e = n" using split(2) by (auto simp: kv_holder_def)
  have p: "lock_protocol k now (snd p)" using proto split(1) by simp
  have "(\<exists>c. snd p = CDelete k False c \<and> prevValue c = Some n)
       \<or> (\<exists>v e t. snd p = CExpire k v \<and> kv_get ?s k = Some e \<and> e_expire e = Some t \<and> t \<le> now)"
    using split(3) p e
    by (cases "snd p") (auto simp: kv_gives_up_def lock_protocol_def check_requirements_def values_match_def
        split: if_splits option.splits)
  then show ?thesis using split by blast
qed

theorem raft_lock_exclusive_witness:
  "\<exists>xs p ys. [(8, CExpire ''k'' (demo_entry 5))] = xs @ p # ys
     \<and> (\<exists>v e t. snd p = CExpire ''k'' v \<and> kv_get (fold kv_step xs \<lparr>kv_data = [(''k'', demo_entry 5)], kv_limb = []\<rparr>) ''k'' = Some e
          \<and> e_expire e = Some t \<and> t \<le> 40)"
proof -
  let ?s = "\<lparr>kv_data = [(''k'', demo_entry 5)], kv_limb = []\<rparr>" and ?l = "[(8, CExpire ''k'' (demo_entry 5))]"
  have "\<forall>p \<in> set ?l. lock_protocol ''k'' 40 (snd p)" by (simp add: lock_protocol_def demo_entry_def)
  moreover have "kv_holder ''k'' ?s = Some ''a''" "kv_holder ''k'' (fold kv_step ?l ?s) \<noteq> Some ''a''" by code_simp+
  ultimately obtain xs p ys where l: "?l = xs @ p # ys"
    and cs: "(\<exists>c. snd p = CDelete ''k'' False c \<and> prevValue c = Some ''a'')
       \<or> (\<exists>v e t. snd p = CExpire ''k'' v \<and> kv_get (fold kv_step xs ?s) ''k'' = Some e \<and> e_expire e = Some t \<and> t \<le> 40)"
    using raft_lock_exclusive [of ?l "''k''" 40 ?s "''a''"] by blast
  have "snd p = CExpire ''k'' (demo_entry 5)" using l by (cases xs) auto
  then have "\<not> (\<exists>c. snd p = CDelete ''k'' False c \<and> prevValue c = Some ''a'')" by simp
  then show ?thesis using l cs by blast
qed

section \<open>Conditional writes\<close>

text \<open>A key whose entry does not carry index \<open>i\<close>.\<close>

definition index_gone :: "string \<Rightarrow> int \<Rightarrow> kv_store \<Rightarrow> bool" where
  "index_gone k i s \<longleftrightarrow> (case kv_get s k of None \<Rightarrow> True | Some e \<Rightarrow> e_index e \<noteq> i)"

lemma index_gone_step:
  assumes "index_gone k i s" "fst p \<noteq> i"
  shows "index_gone k i (kv_step p s)"
proof (cases p)
  case (Pair idx cmd)
  show ?thesis
  proof (cases cmd)
    case (CSet k' v c)
    then show ?thesis using assms Pair
      by (simp add: kv_step_def kv_apply_def kv_apply_set_def index_gone_def Let_def kv_get_def dict_get_set)
  next
    case (CDelete k' r c)
    then show ?thesis using assms Pair map_of_filter_key [of "\<lambda>x. \<not> starts_with x k'" "kv_data s" k]
      by (simp add: kv_step_def kv_apply_def kv_apply_delete_def index_gone_def kv_get_def dict_get_pop)
  next
    case (CExpire k' v)
    then show ?thesis using assms Pair
      by (cases "k = k'") (simp_all add: kv_step_def kv_apply_def kv_apply_expire_def index_gone_def kv_get_def
          dict_get_pop split: option.splits)
  qed
qed

lemma index_gone_run: "index_gone k i s \<Longrightarrow> \<forall>p \<in> set cmds. fst p \<noteq> i \<Longrightarrow> index_gone k i (fold kv_step cmds s)"
  by (induction cmds arbitrary: s) (auto intro: index_gone_step)

text \<open>
  C25: conditional writes lose no update. When a write of a key conditional on version \<open>i\<close> has been accepted,
  every later write conditional on the same version is refused, whatever commands are applied in
  between, since positions in the log are not reused. So of two nodes that have read the same sync key only
  one can replace it.
\<close>

theorem raft_cas_once:
  assumes "fst (kv_apply j (CSet k v c) s) = REntry e" "prevIndex c = Some i" "i < j"
    and "\<forall>p \<in> set cmds. i < fst p" "prevIndex c' = Some i"
  shows "fst (kv_apply j' (CSet k v' c') (fold kv_step cmds (snd (kv_apply j (CSet k v c) s)))) = RFalse"
proof -
  let ?s = "snd (kv_apply j (CSet k v c) s)"
  have "index_gone k i ?s"
    using assms(1,3)
    by (cases "check_requirements (dict_get (kv_data s) k) c")
      (auto simp: kv_apply_def kv_apply_set_def index_gone_def Let_def)
  then have "index_gone k i (fold kv_step cmds ?s)" using assms(4) by (intro index_gone_run) auto
  then have "\<not> check_requirements (dict_get (kv_data (fold kv_step cmds ?s)) k) c'" using assms(5)
    by (simp add: index_gone_def kv_get_def check_requirements_def split: option.splits)
  then show ?thesis by (simp add: kv_apply_def kv_apply_set_def Let_def)
qed

theorem raft_cas_once_witness:
  "fst (kv_apply 9 (CSet ''k'' (demo_entry 0) (no_cond\<lparr>prevIndex := Some 5\<rparr>))
     (snd (kv_apply 8 (CSet ''k'' (demo_entry 0) (no_cond\<lparr>prevIndex := Some 5\<rparr>)) \<lparr>kv_data = [(''k'', demo_entry 5)], kv_limb = []\<rparr>))) = RFalse"
proof -
  let ?c = "no_cond\<lparr>prevIndex := Some 5\<rparr>" and ?s = "\<lparr>kv_data = [(''k'', demo_entry 5)], kv_limb = []\<rparr>"
  have "fst (kv_apply 8 (CSet ''k'' (demo_entry 0) ?c) ?s) = REntry (demo_entry 8)" by code_simp
  from raft_cas_once [OF this, of 5 "[]" ?c] show ?thesis by simp
qed

section \<open>A failed expiry is final\<close>

lemma expire_loop_limb:
  assumes "expire_loop now d limb = (limb', cmds)" "k \<notin> fst ` set d"
  shows "dict_get limb' k = dict_get limb k \<and> (\<forall>v. CExpire k v \<notin> set cmds)"
  using assms by (induction d arbitrary: limb limb' cmds) (auto simp: dict_get_set split: if_splits prod.splits)

lemma expire_loop_stuck:
  assumes "dict_get limb k = Some v" "map_of d k = Some v" "dict_wf d"
  shows "dict_get (fst (expire_loop now d limb)) k = Some v \<and> (\<forall>v. CExpire k v \<notin> set (snd (expire_loop now d limb)))"
  using assms
proof (induction d arbitrary: limb)
  case (Cons p d)
  obtain k' v' where p: "p = (k', v')" by (cases p)
  show ?case
  proof (cases "k' = k")
    case True
    then have "v' = v" "k \<notin> fst ` set d" using Cons.prems p by (auto simp: dict_wf_def)
    moreover have "\<not> due now limb (k, v)" using Cons.prems(1) by (simp add: due_def values_match_def)
    ultimately show ?thesis
      using expire_loop_limb [of now d limb "fst (expire_loop now d limb)" "snd (expire_loop now d limb)" k] Cons.prems(1) p True
      by simp
  next
    case False
    then have d: "map_of d k = Some v" "dict_wf d" using Cons.prems p by (auto simp: dict_wf_def)
    show ?thesis
    proof (cases "due now limb (k', v')")
      case True
      have "dict_get (dict_set k' v' limb) k = Some v" using Cons.prems(1) False by (simp add: dict_get_set)
      from Cons.IH [OF this d] show ?thesis using p True False by (auto split: prod.splits)
    qed (use Cons.IH [OF Cons.prems(1) d] p in simp)
  qed
qed simp

section \<open>Expiry over time\<close>

text \<open>
  What happens on the leader of the Raft cluster: it looks for expired keys, gets the answer to a command submitted by one of
  its looks, in any order and however late, and applies a replicated command. The run keeps the items each look went through, for the
  callbacks, and the commands submitted so far.
\<close>

datatype expire_event = Look time | Answer nat | Apply int kv_command

record expire_run =
  er_store :: kv_store
  er_looks :: "(string, kv_entry) dict list"
  er_submitted :: "kv_command list"

definition expire_event_step :: "expire_event \<Rightarrow> expire_run \<Rightarrow> expire_run" where
  "expire_event_step ev r = (case ev of
     Look now \<Rightarrow> (case expire_keys now (er_store r) of (s, cmds) \<Rightarrow>
       \<lparr>er_store = s, er_looks = er_looks r @ [kv_data (er_store r)], er_submitted = er_submitted r @ cmds\<rparr>)
   | Answer i \<Rightarrow> (if i < length (er_looks r) then r\<lparr>er_store := expire_callback (er_looks r ! i) (er_store r)\<rparr> else r)
   | Apply idx cmd \<Rightarrow> r\<lparr>er_store := kv_step (idx, cmd) (er_store r)\<rparr>)"

definition expires :: "string \<Rightarrow> kv_command list \<Rightarrow> kv_command list" where
  "expires k cmds = filter (\<lambda>c. case c of CExpire key _ \<Rightarrow> key = k | _ \<Rightarrow> False) cmds"

text \<open>Commands that leave the entry of a key as it is, and those that do not remove the key.\<close>

definition leaves :: "string \<Rightarrow> kv_command \<Rightarrow> bool" where
  "leaves k cmd = (case cmd of
     CSet key _ _ \<Rightarrow> key \<noteq> k
   | CDelete key recursive _ \<Rightarrow> if recursive then \<not> starts_with k key else key \<noteq> k
   | CExpire key _ \<Rightarrow> key \<noteq> k)"

definition keeps_key :: "string \<Rightarrow> kv_command \<Rightarrow> bool" where
  "keeps_key k cmd \<longleftrightarrow> leaves k cmd \<or> (\<exists>v c. cmd = CSet k v c)"

text \<open>The key \<open>z\<close> comes after \<open>k\<close> in the order of the dictionary.\<close>

definition behind :: "string \<Rightarrow> string \<Rightarrow> (string, 'v) dict \<Rightarrow> bool" where
  "behind k z d \<longleftrightarrow> k \<noteq> z \<and> z \<in> set (dropWhile (\<lambda>x. x \<noteq> k) (map fst d))"

lemma dropWhile_filter_mem:
  "P k \<Longrightarrow> P z \<Longrightarrow> z \<in> set (dropWhile (\<lambda>x. x \<noteq> k) xs) \<Longrightarrow> z \<in> set (dropWhile (\<lambda>x. x \<noteq> k) (filter P xs))"
  by (induction xs) (auto split: if_splits)

lemma dropWhile_append_mem: "z \<in> set (dropWhile Q xs) \<Longrightarrow> z \<in> set (dropWhile Q (xs @ ys))"
  by (induction xs) auto

lemma behind_filter: "P k \<Longrightarrow> P z \<Longrightarrow> behind k z d \<Longrightarrow> behind k z (filter (\<lambda>(x, v). P x) d)"
  using dropWhile_filter_mem [of P k z "map fst d"] by (simp add: behind_def filter_map comp_def case_prod_unfold)

lemma behind_set: "behind k z d \<Longrightarrow> behind k z (dict_set x v d)"
  using dropWhile_append_mem [of z _ "map fst d" "[x]"] by (simp add: behind_def update_keys)

lemma last_not_before: "z \<in> set (dropWhile (\<lambda>x. x \<noteq> k) xs) \<Longrightarrow> z \<noteq> k \<Longrightarrow> distinct xs \<Longrightarrow> last xs \<noteq> k"
  by (induction xs) (auto split: if_splits)

lemma behind_last: "behind k z d \<Longrightarrow> dict_wf d \<Longrightarrow> d \<noteq> [] \<and> fst (last d) \<noteq> k"
  using last_not_before [of z k "map fst d"] by (cases "d = []") (auto simp: behind_def dict_wf_def last_map)

lemma behind_pop: "x \<noteq> k \<Longrightarrow> x \<noteq> z \<Longrightarrow> behind k z d \<Longrightarrow> behind k z (dict_pop x d)"
  using behind_filter [of "\<lambda>y. x \<noteq> y" k z d] by (simp add: AList.delete_eq)

lemma kv_step_keeps_entry:
  assumes "leaves k cmd" "keeps_key z cmd" "dict_wf (kv_data s)" "kv_get s k = Some v" "behind k z (kv_data s)"
  shows "dict_wf (kv_data (kv_step (idx, cmd) s)) \<and> kv_get (kv_step (idx, cmd) s) k = Some v
    \<and> behind k z (kv_data (kv_step (idx, cmd) s)) \<and> kv_limb (kv_step (idx, cmd) s) = kv_limb s"
proof (cases cmd)
  case (CSet key val c)
  then show ?thesis using assms
    by (auto simp: kv_step_def kv_apply_def kv_apply_set_def Let_def kv_get_def leaves_def dict_get_set dict_wf_set behind_set)
next
  case (CDelete key recursive c)
  then have z: "if recursive then \<not> starts_with z key else key \<noteq> z" using assms(2) by (simp add: keeps_key_def leaves_def)
  show ?thesis
  proof (cases recursive)
    case True
    then show ?thesis
      using CDelete assms z map_of_filter_key [of "\<lambda>x. \<not> starts_with x key" "kv_data s" k]
        behind_filter [of "\<lambda>x. \<not> starts_with x key" k z "kv_data s"]
      by (simp add: kv_step_def kv_apply_def kv_apply_delete_def kv_get_def leaves_def dict_wf_filter)
  next
    case False
    then show ?thesis
      using CDelete assms z
      by (auto simp: kv_step_def kv_apply_def kv_apply_delete_def kv_get_def leaves_def dict_get_pop dict_wf_pop behind_pop)
  qed
next
  case (CExpire key val)
  then have "key \<noteq> k" "key \<noteq> z" using assms(1,2) by (simp_all add: leaves_def keeps_key_def)
  then show ?thesis using assms CExpire
    by (auto simp: kv_step_def kv_apply_def kv_apply_expire_def kv_get_def dict_get_pop dict_wf_pop behind_pop split: option.split)
qed

lemma expire_loop_once:
  assumes "dict_get limb k = None" "map_of d k = Some v" "dict_wf d"
  shows "case expire_loop now d limb of (limb', cmds) \<Rightarrow>
     expires k cmds = [] \<and> dict_get limb' k = None \<or> length (expires k cmds) = 1 \<and> dict_get limb' k = Some v"
  using assms
proof (induction d arbitrary: limb)
  case (Cons p d)
  obtain k' v' where p: "p = (k', v')" by (cases p)
  show ?case
  proof (cases "k' = k")
    case True
    then have v: "v' = v" "k \<notin> fst ` set d" using Cons.prems p by (auto simp: dict_wf_def)
    have none: "expires k cmds = []" if "\<forall>v. CExpire k v \<notin> set cmds" for cmds
      using that by (force simp: expires_def filter_empty_conv split: kv_command.splits)
    obtain l c where r: "expire_loop now d (if due now limb (k, v) then dict_set k v limb else limb) = (l, c)" by fastforce
    from expire_loop_limb [OF this v(2)] have "expires k c = []"
      "dict_get l k = dict_get (if due now limb (k, v) then dict_set k v limb else limb) k" using none by auto
    then show ?thesis using r p True v(1) Cons.prems(1) by (auto simp: expires_def dict_get_set split: if_splits)
  next
    case False
    then have d: "map_of d k = Some v" "dict_wf d" using Cons.prems p by (auto simp: dict_wf_def)
    have "dict_get (if due now limb (k', v') then dict_set k' v' limb else limb) k = None"
      using Cons.prems(1) False by (simp add: dict_get_set)
    from Cons.IH [OF this d] show ?thesis using p False by (auto simp: expires_def split: prod.splits if_splits)
  qed
qed simp

definition expiring :: "string \<Rightarrow> string \<Rightarrow> kv_entry \<Rightarrow> expire_run \<Rightarrow> bool" where
  "expiring k z v r \<longleftrightarrow> dict_wf (kv_data (er_store r)) \<and> kv_get (er_store r) k = Some v \<and> behind k z (kv_data (er_store r))
     \<and> (\<forall>d \<in> set (er_looks r). d \<noteq> [] \<and> fst (last d) \<noteq> k)
     \<and> (expires k (er_submitted r) = [] \<and> dict_get (kv_limb (er_store r)) k = None
        \<or> length (expires k (er_submitted r)) = 1 \<and> dict_get (kv_limb (er_store r)) k = Some v)"

lemma callback_limb:
  "d \<noteq> [] \<Longrightarrow> fst (last d) \<noteq> k \<Longrightarrow> dict_get (kv_limb (expire_callback d s)) k = dict_get (kv_limb s) k
     \<and> kv_data (expire_callback d s) = kv_data s"
  by (auto simp: expire_callback_def dict_get_pop split: list.splits prod.splits option.splits)

lemma expiring_step:
  assumes r: "expiring k z v r" and ok: "\<And>idx cmd. ev = Apply idx cmd \<Longrightarrow> leaves k cmd \<and> keeps_key z cmd"
  shows "expiring k z v (expire_event_step ev r)"
proof (cases ev)
  case (Look now)
  let ?s = "er_store r"
  obtain l c where l: "expire_loop now (kv_data ?s) (kv_limb ?s) = (l, c)" by fastforce
  have d: "dict_wf (kv_data ?s)" "map_of (kv_data ?s) k = Some v" "behind k z (kv_data ?s)"
    using r by (auto simp: expiring_def kv_get_def)
  have none: "expires k c = []" if "\<forall>v. CExpire k v \<notin> set c"
    using that by (force simp: expires_def filter_empty_conv split: kv_command.splits)
  have "expires k (er_submitted r @ c) = [] \<and> dict_get l k = None \<or> length (expires k (er_submitted r @ c)) = 1 \<and> dict_get l k = Some v"
    using r none expire_loop_stuck [OF _ d(2,1), of "kv_limb ?s" now] expire_loop_once [OF _ d(2,1), of "kv_limb ?s" now] l
    by (auto simp: expiring_def expires_def)
  then show ?thesis using Look r l behind_last [OF d(3,1)]
    by (auto simp: expiring_def expire_event_step_def expire_keys_def kv_get_def)
next
  case (Answer i)
  show ?thesis
  proof (cases "i < length (er_looks r)")
    case True
    then have "er_looks r ! i \<noteq> []" "fst (last (er_looks r ! i)) \<noteq> k" using r by (auto simp: expiring_def)
    from callback_limb [OF this, of "er_store r"] show ?thesis
      using Answer r True by (simp add: expiring_def expire_event_step_def kv_get_def)
  qed (use Answer r in \<open>simp add: expire_event_step_def\<close>)
next
  case (Apply idx cmd)
  with ok r kv_step_keeps_entry [of k cmd z "er_store r" v idx] show ?thesis
    by (simp add: expiring_def expire_event_step_def)
qed

lemma expiring_run:
  assumes "expiring k z v r" "\<forall>idx cmd. Apply idx cmd \<in> set evs \<longrightarrow> leaves k cmd \<and> keeps_key z cmd"
  shows "expiring k z v (fold expire_event_step evs r)"
  using assms
proof (induction evs arbitrary: r)
  case (Cons ev evs)
  have "expiring k z v (expire_event_step ev r)" using Cons.prems by (intro expiring_step) auto
  with Cons.IH Cons.prems(2) show ?case by simp
qed simp

text \<open>
  C40: the callback of an expire command looks at the wrong key, so a failed command is not repeated. Let a node be the leader of
  the Raft cluster during a run of looks for expired keys, answers to the commands they submitted and applied commands of
  others. Let the entry of \<open>k\<close> not be changed in this run (its expire command is not applied, either), and let some other key \<open>z\<close> that
  comes after \<open>k\<close> in the order of the store not be removed. Then at most one expire command is submitted for
  \<open>k\<close> in the whole run, whatever the answers and however long it has expired: if this command fails, a
  lost leader lock does not expire. (Once \<open>k\<close> is the last key of the store, an answer takes it out of limb again.)
\<close>

theorem failed_expire_not_retried:
  assumes "dict_wf (kv_data s)" "kv_get s k = Some v" "behind k z (kv_data s)" "dict_get (kv_limb s) k = None"
    and "\<forall>idx cmd. Apply idx cmd \<in> set evs \<longrightarrow> leaves k cmd \<and> keeps_key z cmd"
    and "r = fold expire_event_step evs \<lparr>er_store = s, er_looks = [], er_submitted = []\<rparr>"
  shows "length (expires k (er_submitted r)) \<le> 1 \<and> kv_get (er_store r) k = Some v"
proof -
  have "expiring k z v \<lparr>er_store = s, er_looks = [], er_submitted = []\<rparr>"
    using assms(1-4) by (simp add: expiring_def expires_def)
  from expiring_run [OF this assms(5)] show ?thesis unfolding assms(6) by (auto simp: expiring_def)
qed

theorem failed_expire_not_retried_witness:
  "length (expires ''k'' (er_submitted (fold expire_event_step
      [Look 35, Answer 0, Look 100, Apply 9 (CSet ''z'' (demo_entry 90) no_cond), Look 200, Answer 1, Look 300]
      \<lparr>er_store = \<lparr>kv_data = [(''k'', demo_entry 5), (''z'', demo_entry 6)], kv_limb = []\<rparr>, er_looks = [], er_submitted = []\<rparr>))) \<le> 1
   \<and> er_submitted (expire_event_step (Look 35)
      \<lparr>er_store = \<lparr>kv_data = [(''k'', demo_entry 5), (''z'', demo_entry 6)], kv_limb = []\<rparr>, er_looks = [], er_submitted = []\<rparr>)
     = [CExpire ''k'' (demo_entry 5), CExpire ''z'' (demo_entry 6)]"
proof
  let ?s = "\<lparr>kv_data = [(''k'', demo_entry 5), (''z'', demo_entry 6)], kv_limb = []\<rparr>"
  let ?evs = "[Look 35, Answer 0, Look 100, Apply 9 (CSet ''z'' (demo_entry 90) no_cond), Look 200, Answer 1, Look 300]"
  have e: "dict_wf (kv_data ?s)" "kv_get ?s ''k'' = Some (demo_entry 5)" "behind ''k'' ''z'' (kv_data ?s)" "dict_get (kv_limb ?s) ''k'' = None"
    by code_simp+
  have "\<forall>idx cmd. Apply idx cmd \<in> set ?evs \<longrightarrow> leaves ''k'' cmd \<and> keeps_key ''z'' cmd"
    by (auto simp: leaves_def keeps_key_def)
  from failed_expire_not_retried [OF e this refl]
  show "length (expires ''k'' (er_submitted (fold expire_event_step ?evs \<lparr>er_store = ?s, er_looks = [], er_submitted = []\<rparr>))) \<le> 1"
    by blast
qed code_simp

end
