(* ===== verification/RestHealth.thy ===== *)
theory RestHealth
  imports LeaderRace Rewind
begin

text \<open>
  The health checks of the REST API, \<^verbatim>\<open>patroni/api.py\<close>: the status document of the node
  (\<open>get_postgresql_status\<close>), the codes a load balancer reads from \<^verbatim>\<open>GET /primary\<close>, \<^verbatim>\<open>/replica\<close>,
  \<^verbatim>\<open>/sync\<close> and so on, and the liveness and readiness probes. The rows the database answers with are
  inputs, \<open>None\<close> where the query fails.
\<close>

section \<open>The node as the API sees it\<close>

text \<open>The columns of the status query; \<^verbatim>\<open>NULL\<close> is \<open>PNone\<close>.\<close>

record pg_row =
  row_start :: pyval
  row_timeline :: int
  row_location :: pyval
  row_replayed :: pyval
  row_received :: pyval
  row_paused :: pyval
  row_replayed_timestamp :: pyval
  row_latest_end :: pyval
  row_receiver_state :: pyval
  row_restore_command :: pyval
  row_written :: pyval
  row_replication :: pyval

text \<open>
  What \<open>_get_mysql_status\<close> reads: \<open>my_primary\<close> is \<^verbatim>\<open>is_primary()\<close>, \<open>None\<close> where one of the queries raises; the rows of
  \<^verbatim>\<open>SHOW MASTER STATUS\<close> and \<^verbatim>\<open>SHOW SLAVE STATUS\<close>; and the executed GTID set.
\<close>

record mysql_inputs =
  my_primary :: "bool option"
  my_master :: "pydict option"
  my_slave :: "pydict option"
  my_gtid :: string
  my_fork :: pyval
  my_replication_state :: pyval

text \<open>
  \<open>an_cluster\<close> is \<^verbatim>\<open>dcs.cluster\<close>, the cached view; \<open>an_global\<close> the process-wide configuration;
  \<open>an_query\<close> the answer to the status query with or without retries.
\<close>

record 'w api_node =
  an_db_type :: string
  an_state :: string
  an_role :: string
  an_name :: string
  an_major_version :: int
  an_server_version :: pyval
  an_restore_command :: pyval
  an_query :: "bool \<Rightarrow> pg_row option"
  an_mysql :: mysql_inputs
  an_replica_timeline :: "pyval \<Rightarrow> pyval"
  an_cluster :: "'w cluster option"
  an_global :: global_config
  an_failsafe_active :: bool
  an_last_seen :: int
  an_is_leader :: bool
  an_tags :: pydict
  an_is_running :: bool
  an_ttl :: int
  an_next_run :: time
  an_now :: time

definition cluster_truthy :: "'w cluster option \<Rightarrow> bool" where
  "cluster_truthy cluster \<longleftrightarrow> (case cluster of None \<Rightarrow> False | Some c \<Rightarrow> \<not> cluster_is_empty c)"

definition replication_state_from_parameters :: "int \<Rightarrow> pyval \<Rightarrow> bool \<Rightarrow> pyval \<Rightarrow> pyval \<Rightarrow> string option" where
  "replication_state_from_parameters major configured primary receiver_state restore_command =
     (if major \<ge> 90600 \<and> \<not> primary
      then (if receiver_state = PStr ''streaming'' then Some ''streaming''
            else if major < 120000 \<and> truthy configured \<or> truthy restore_command then Some ''in archive recovery''
            else None)
      else None)"

section \<open>The status document\<close>

definition sync_standby_key :: "'w api_node \<Rightarrow> global_config \<Rightarrow> string \<Rightarrow> pydict" where
  "sync_standby_key n config role =
     (if role = role_value REPLICA \<and> is_synchronous_mode config \<and> cluster_truthy (an_cluster n)
         \<and> sync_matches (c_sync (the (an_cluster n))) (Some (an_name n)) False
      then [(if is_quorum_commit_mode (an_global n) then ''quorum_standby'' else ''sync_standby'', PBool True)]
      else [])"

definition status_timeline :: "'w api_node \<Rightarrow> pg_row \<Rightarrow> pyval" where
  "status_timeline n r =
     (if row_timeline r > 0 then PInt (row_timeline r)
      else an_replica_timeline n
        (if \<not> cluster_truthy (an_cluster n) \<or> is_unlocked (the (an_cluster n)) then PNone
         else case c_leader (the (an_cluster n)) of None \<Rightarrow> PNone | Some l \<Rightarrow> leader_timeline l))"

definition optional_item :: "string \<Rightarrow> pyval \<Rightarrow> pydict" where
  "optional_item k v = (if truthy v then [(k, v)] else [])"

definition status_of_row :: "'w api_node \<Rightarrow> global_config \<Rightarrow> pg_row \<Rightarrow> pydict" where
  "status_of_row n config r =
     (let replica = (row_timeline r = 0);
          role = (if replica then if is_standby_cluster config then an_role n else role_value REPLICA
                  else role_value PRIMARY)
      in [(''state'', PStr (an_state n)), (''postmaster_start_time'', row_start r), (''role'', PStr role),
          (''server_version'', an_server_version n),
          (''xlog'', PDict (if replica
             then [(''received_location'', py_or (row_written r) (py_or (row_received r) (row_replayed r))),
                   (''replayed_location'', row_replayed r), (''replayed_timestamp'', row_replayed_timestamp r),
                   (''paused'', row_paused r)]
             else [(''location'', row_location r)]))]
         @ sync_standby_key n config role
         @ [(''timeline'', status_timeline n r)]
         @ optional_item ''latest_end_lsn'' (row_latest_end r)
         @ (case replication_state_from_parameters (an_major_version n) (an_restore_command n)
                   (row_timeline r > 0) (row_receiver_state r) (row_restore_command r) of
              None \<Rightarrow> [] | Some s \<Rightarrow> [(''replication_state'', PStr s)])
         @ optional_item ''replication'' (row_replication r))"

definition status_of_failure :: "'w api_node \<Rightarrow> pydict" where
  "status_of_failure n =
     [(''state'', PStr (if an_state n = state_value RUNNING then ''unknown'' else an_state n)), (''role'', PStr (an_role n))]"

definition int_field :: "pydict \<Rightarrow> string \<Rightarrow> py_error + pyval" where
  "int_field d k = map_sum id PInt (py_int (py_or (dict_get_default d k (PInt 0)) (PInt 0)))"

definition slave_items :: "pydict \<Rightarrow> py_error + pydict" where
  "slave_items d =
     bind_err (int_field d ''Read_Master_Log_Pos'') (\<lambda>rd.
     bind_err (int_field d ''Exec_Master_Log_Pos'') (\<lambda>ex.
     bind_err (int_field d ''Master_Port'') (\<lambda>port.
     bind_err (if pyget d ''Seconds_Behind_Master'' = PNone then Inr PNone
               else map_sum id PInt (py_int (pyget d ''Seconds_Behind_Master''))) (\<lambda>sbm.
       Inr [(''receive_binlog_position'', rd), (''replay_binlog_position'', ex),
            (''master_host'', dict_get_default d ''Master_Host'' (PStr [])), (''master_port'', port),
            (''slave_io_running'', dict_get_default d ''Slave_IO_Running'' (PStr [])),
            (''slave_sql_running'', dict_get_default d ''Slave_SQL_Running'' (PStr [])),
            (''seconds_behind_master'', sbm)]))))"

definition binlog_data :: "mysql_inputs \<Rightarrow> bool \<Rightarrow> py_error + pydict" where
  "binlog_data i primary =
     (let master = (case my_master i of None \<Rightarrow> [] | Some d \<Rightarrow> d);
          gtid = py_or (PStr (my_gtid i)) (dict_get_default master ''Executed_Gtid_Set'' (PStr []))
      in bind_err (py_int (dict_get_default master ''Position'' (PInt 0))) (\<lambda>pos.
         bind_err (if primary then Inr [(''binlog_file'', dict_get_default master ''File'' (PStr []))]
                   else case my_slave i of
                     None \<Rightarrow> Inr []
                   | Some d \<Rightarrow> if d = [] then Inr [] else slave_items d) (\<lambda>rest.
           Inr ((''location'', PInt pos) # optional_item ''gtid_set'' gtid @ rest))))"

definition get_mysql_status :: "'w api_node \<Rightarrow> pydict" where
  "get_mysql_status n = (let i = an_mysql n in
     (case (case my_primary i of None \<Rightarrow> Inl AttributeError
            | Some primary \<Rightarrow> map_sum id (\<lambda>b. (primary, b)) (binlog_data i primary)) of
        Inl _ \<Rightarrow> status_of_failure n
      | Inr (primary, b) \<Rightarrow>
          [(''state'', PStr (an_state n)),
           (''role'', PStr (if primary then ''primary''
              else if is_standby_cluster (an_global n) then an_role n else ''replica'')),
           (''server_version'', an_server_version n), (''binlog'', PDict b)]
          @ optional_item ''mgr_gtid_fork'' (my_fork i)
          @ optional_item ''replication_state'' (my_replication_state i)))"

definition get_postgresql_status :: "'w api_node \<Rightarrow> bool \<Rightarrow> pydict" where
  "get_postgresql_status n retry =
     (let config = from_cluster (an_global n) (an_cluster n);
          result = (if an_db_type n = ''mysql'' then get_mysql_status n
                    else if an_state n \<notin> {state_value RUNNING, state_value RESTARTING, state_value STARTING}
                    then status_of_failure n
                    else case an_query n retry of
                           None \<Rightarrow> status_of_failure n
                         | Some r \<Rightarrow> status_of_row n config r)
      in dict_set ''dcs_last_seen'' (PInt (an_last_seen n))
         ((if an_failsafe_active n then dict_set ''failsafe_mode_is_active'' (PBool True) else id)
          ((if \<not> cluster_truthy (an_cluster n) \<or> is_unlocked (the (an_cluster n))
            then dict_set ''cluster_unlocked'' (PBool True) else id)
           ((if is_paused config then dict_set ''pause'' (PBool True) else id) result))))"

section \<open>Codes of the health checks\<close>

definition maxsize :: int where
  "maxsize = 9223372036854775807"

text \<open>An operand of integer arithmetic; \<^verbatim>\<open>None\<close> raises.\<close>

definition as_int :: "pyval \<Rightarrow> py_error + int" where
  "as_int v = (case v of PInt k \<Rightarrow> Inr k | PBool b \<Rightarrow> Inr (if b then 1 else 0) | _ \<Rightarrow> Inl TypeError)"

type_synonym query_args = "(string, string list) dict"

definition query_arg :: "query_args \<Rightarrow> string \<Rightarrow> pyval \<Rightarrow> pyval" where
  "query_arg q k dflt = (case dict_get q k of Some (v # _) \<Rightarrow> PStr v | _ \<Rightarrow> dflt)"

definition leader_optime :: "'w api_node \<Rightarrow> pydict \<Rightarrow> py_error + int" where
  "leader_optime n response = map_sum id
     (max (if cluster_truthy (an_cluster n) then st_last_lsn (c_status (the (an_cluster n))) else 0))
     (as_int (dict_get_default response ''latest_end_lsn'' (PInt 0)))"

definition replica_lagging :: "'w api_node \<Rightarrow> query_args \<Rightarrow> pydict \<Rightarrow> py_error + bool" where
  "replica_lagging n q response =
     bind_err (leader_optime n response) (\<lambda>optime.
     bind_err (parse_int (query_arg q ''lag'' (PInt maxsize)) (Some ''B'')) (\<lambda>lag.
       let max_lag = (case lag of None \<Rightarrow> maxsize | Some k \<Rightarrow> k) in
       if optime = 0 then Inr False
       else bind_err (as_int (dict_get_default (as_dict (dict_get_default response ''xlog'' (PDict [])))
               ''replayed_location'' (PInt 0))) (\<lambda>replayed.
         Inr (optime > replayed + max_lag))))"

text \<open>Codes for \<^verbatim>\<open>leader\<close>, \<^verbatim>\<open>primary\<close>, \<^verbatim>\<open>standby_leader\<close> and \<^verbatim>\<open>replica\<close>; \<open>True\<close> is 200 and \<open>False\<close> 503.\<close>

record role_codes =
  rc_leader :: bool
  rc_primary :: bool
  rc_standby_leader :: bool
  rc_replica :: bool

definition replica_ready :: "'w api_node \<Rightarrow> bool \<Rightarrow> pydict \<Rightarrow> bool" where
  "replica_ready n lagging response \<longleftrightarrow> \<not> noloadbalance (an_tags n) \<and> \<not> lagging
     \<and> pyget response ''role'' = PStr (role_value REPLICA) \<and> pyget response ''state'' = PStr (state_value RUNNING)"

definition role_status_codes :: "'w api_node \<Rightarrow> bool \<Rightarrow> pydict \<Rightarrow> role_codes" where
  "role_status_codes n lagging response =
     (let config = from_cluster (an_global n) (an_cluster n);
          role = pyget response ''role'';
          replica = replica_ready n lagging response
      in if \<not> cluster_truthy (an_cluster n) \<and> truthy (pyget response ''pause'')
         then \<lparr>rc_leader = (role \<in> {PStr (role_value PRIMARY), PStr (role_value STANDBY_LEADER)}),
               rc_primary = (role = PStr (role_value PRIMARY)),
               rc_standby_leader = (role = PStr (role_value STANDBY_LEADER)), rc_replica = replica\<rparr>
         else if an_is_leader n
         then (if is_standby_cluster config
               then \<lparr>rc_leader = True, rc_primary = False,
                     rc_standby_leader = (role \<in> {PStr (role_value REPLICA), PStr (role_value STANDBY_LEADER)}),
                     rc_replica = False\<rparr>
               else \<lparr>rc_leader = True, rc_primary = True, rc_standby_leader = False, rc_replica = replica\<rparr>)
         else \<lparr>rc_leader = False, rc_primary = False, rc_standby_leader = False, rc_replica = replica\<rparr>)"

text \<open>The code for a path, and whether tags of the query are ignored.\<close>

definition path_code :: "'w api_node \<Rightarrow> string \<Rightarrow> role_codes \<Rightarrow> pydict \<Rightarrow> bool \<times> bool" where
  "path_code n path rc response =
     (let is_in = (\<lambda>p. str_in p path);
          writable = (rc_primary rc \<or> rc_standby_leader rc);
          quorum = truthy (pyget response ''quorum_standby'');
          sync = truthy (pyget response ''sync_standby'')
      in if is_in ''standby_leader'' \<or> is_in ''standby-leader'' then (rc_standby_leader rc, True)
         else if is_in ''leader'' then (rc_leader rc, True)
         else if is_in ''master'' \<or> is_in ''primary'' \<or> is_in ''read-write'' then (rc_primary rc, True)
         else if is_in ''replica'' then (rc_replica rc, False)
         else if is_in ''read-only'' \<and> \<not> is_in ''sync'' \<and> \<not> is_in ''quorum'' then (writable \<or> rc_replica rc, False)
         else if is_in ''health'' then (pyget response ''state'' = PStr (state_value RUNNING), False)
         else if \<not> cluster_truthy (an_cluster n) then (False, False)
         else if path \<in> {''/sync'', ''/synchronous''} \<and> sync then (rc_replica rc, False)
         else if path = ''/quorum'' \<and> quorum then (rc_replica rc, False)
         else if path \<in> {''/async'', ''/asynchronous''} \<and> \<not> sync \<and> \<not> quorum then (rc_replica rc, False)
         else if path = ''/read-only-quorum'' then (writable \<or> quorum \<and> rc_replica rc, False)
         else if path \<in> {''/read-only-sync'', ''/read-only-synchronous''} then (writable \<or> sync \<and> rc_replica rc, False)
         else (False, False))"

fun tags_match :: "pydict \<Rightarrow> query_args \<Rightarrow> bool" where
  "tags_match tags [] = True"
| "tags_match tags ((k, v) # q) =
     (if \<not> starts_with k ''tag_'' then tags_match tags q
      else case pyget tags (drop 4 k) of
        PNone \<Rightarrow> False
      | PStr s \<Rightarrow> s = hd v \<and> tags_match tags q
      | t \<Rightarrow> lower (py_str t) = hd v \<and> tags_match tags q)"

definition do_GET :: "'w api_node \<Rightarrow> string \<Rightarrow> query_args \<Rightarrow> py_error + int" where
  "do_GET n req_path q =
     (let path = (if req_path = ''/'' then ''/primary'' else req_path);
          response = get_postgresql_status n False
      in bind_err (replica_lagging n q response) (\<lambda>lagging.
           case path_code n path (role_status_codes n lagging response) response of
             (ok, ignore_tags) \<Rightarrow> Inr (if ok \<and> (ignore_tags \<or> tags_match (an_tags n) q) then 200 else 503)))"

section \<open>Liveness and readiness\<close>

definition do_GET_liveness :: "'w api_node \<Rightarrow> int" where
  "do_GET_liveness n =
     (let is_primary = (an_role n = role_value PRIMARY \<and> an_is_running n);
          threshold = an_ttl n * (if is_primary then 1 else 2)
      in if is_paused (an_global n) \<or> an_next_run n + of_int threshold > an_now n then 200 else 503)"

definition readiness_check :: "string \<Rightarrow> string \<Rightarrow> string \<Rightarrow> string option" where
  "readiness_check db_type state replication_state =
     (if db_type = ''mysql''
      then (if state \<noteq> ''running'' then Some ''MySQL is not running''
            else if replication_state \<noteq> ''streaming'' then Some (''MySQL replication state is '' @ replication_state)
            else None)
      else (if state \<noteq> ''running'' then Some ''PostgreSQL is not running''
            else if replication_state \<noteq> ''streaming'' then Some ''PostgreSQL replication state is not streaming''
            else None))"

definition lag_location :: "string \<Rightarrow> bool \<Rightarrow> string" where
  "lag_location db_type write_mode =
     (if db_type = ''mysql'' then if write_mode then ''receive_binlog_position'' else ''replay_binlog_position''
      else if write_mode then ''received_location'' else ''replayed_location'')"

definition readiness_lag :: "'w api_node \<Rightarrow> query_args \<Rightarrow> pydict \<Rightarrow> py_error + string option" where
  "readiness_lag n q status =
     bind_err (leader_optime n status) (\<lambda>optime.
       let write_mode = (query_arg q ''mode'' PNone = PStr ''write'');
           wal = as_dict (dict_get_default status ''xlog'' (dict_get_default status ''binlog'' (PDict [])))
       in bind_err (as_int (dict_get_default wal (lag_location (an_db_type n) write_mode) (PInt 0))) (\<lambda>pos.
          bind_err (parse_int (query_arg q ''lag'' PNone) (Some ''B'')) (\<lambda>lag.
          bind_err (case lag of None \<Rightarrow> maximum_lag_on_failover (an_global n) | Some k \<Rightarrow> Inr k) (\<lambda>max_lag.
            Inr (if optime - pos > max_lag
                 then Some (''Replication '' @ (if write_mode then ''write'' else ''apply'') @ '' lag '' @ show_int (optime - pos)
                        @ '' exceeds maximum allowable '' @ show_int max_lag)
                 else None)))))"

definition capitalize :: "string \<Rightarrow> string" where
  "capitalize s = (case s of [] \<Rightarrow> [] | c # cs \<Rightarrow>
     (if CHR ''a'' \<le> c \<and> c \<le> CHR ''z'' then char_of (of_char c - (32 :: nat)) else c) # lower cs)"

definition readiness :: "'w api_node \<Rightarrow> query_args \<Rightarrow> py_error + string option" where
  "readiness n q =
     (if an_is_leader n then Inr None
      else if an_state n \<noteq> ''running'' then Inr (Some (capitalize (an_db_type n) @ '' is not running''))
      else (let status = get_postgresql_status n True in
        case readiness_check (an_db_type n) (an_state n)
               (py_str (dict_get_default status ''replication_state'' (PStr []))) of
          Some e \<Rightarrow> Inr (Some e)
        | None \<Rightarrow>
            if \<not> cluster_truthy (an_cluster n) \<and> \<not> truthy (dict_get_default status ''latest_end_lsn'' (PInt 0))
            then Inr (if an_failsafe_active n then None else Some ''DCS is not accessible'')
            else readiness_lag n q status))"

definition do_GET_readiness :: "'w api_node \<Rightarrow> query_args \<Rightarrow> py_error + int" where
  "do_GET_readiness n q = map_sum id (\<lambda>r. case r of None \<Rightarrow> 200 | Some _ \<Rightarrow> 503) (readiness n q)"

section \<open>The codes agree with each other\<close>

lemma role_codes_consistent:
  "rc_primary (role_status_codes n l r) \<longrightarrow> rc_leader (role_status_codes n l r) \<and> \<not> rc_standby_leader (role_status_codes n l r)"
  "rc_standby_leader (role_status_codes n l r) \<longrightarrow> rc_leader (role_status_codes n l r) \<and> \<not> rc_replica (role_status_codes n l r)"
  "rc_primary (role_status_codes n l r) \<and> rc_replica (role_status_codes n l r)
     \<longrightarrow> an_is_leader n \<and> pyget r ''role'' = PStr (role_value REPLICA)"
  by (auto simp: role_status_codes_def Let_def replica_ready_def)

lemma path_words:
  "\<not> str_in ''standby_leader'' ''/primary''"
  "\<not> str_in ''standby-leader'' ''/primary''"
  "\<not> str_in ''leader'' ''/primary''"
  "\<not> str_in ''master'' ''/primary''"
  "str_in ''primary'' ''/primary''"
  "\<not> str_in ''standby_leader'' ''/leader''"
  "\<not> str_in ''standby-leader'' ''/leader''"
  "str_in ''leader'' ''/leader''"
  "\<not> str_in ''standby_leader'' ''/standby-leader''"
  "str_in ''standby-leader'' ''/standby-leader''"
  "\<not> str_in ''standby_leader'' ''/replica''"
  "\<not> str_in ''standby-leader'' ''/replica''"
  "\<not> str_in ''leader'' ''/replica''"
  "\<not> str_in ''master'' ''/replica''"
  "\<not> str_in ''primary'' ''/replica''"
  "\<not> str_in ''read-write'' ''/replica''"
  "str_in ''replica'' ''/replica''"
  "\<not> str_in ''standby_leader'' ''/read-only''"
  "\<not> str_in ''standby-leader'' ''/read-only''"
  "\<not> str_in ''leader'' ''/read-only''"
  "\<not> str_in ''master'' ''/read-only''"
  "\<not> str_in ''primary'' ''/read-only''"
  "\<not> str_in ''read-write'' ''/read-only''"
  "\<not> str_in ''replica'' ''/read-only''"
  "str_in ''read-only'' ''/read-only''"
  "\<not> str_in ''sync'' ''/read-only''"
  "\<not> str_in ''quorum'' ''/read-only''"
  "\<not> str_in ''standby_leader'' ''/sync''"
  "\<not> str_in ''standby-leader'' ''/sync''"
  "\<not> str_in ''leader'' ''/sync''"
  "\<not> str_in ''master'' ''/sync''"
  "\<not> str_in ''primary'' ''/sync''"
  "\<not> str_in ''read-write'' ''/sync''"
  "\<not> str_in ''replica'' ''/sync''"
  "\<not> str_in ''read-only'' ''/sync''"
  "\<not> str_in ''health'' ''/sync''"
  "\<not> str_in ''standby_leader'' ''/async''"
  "\<not> str_in ''standby-leader'' ''/async''"
  "\<not> str_in ''leader'' ''/async''"
  "\<not> str_in ''master'' ''/async''"
  "\<not> str_in ''primary'' ''/async''"
  "\<not> str_in ''read-write'' ''/async''"
  "\<not> str_in ''replica'' ''/async''"
  "\<not> str_in ''read-only'' ''/async''"
  "\<not> str_in ''health'' ''/async''"
  "\<not> str_in ''standby_leader'' ''/quorum''"
  "\<not> str_in ''standby-leader'' ''/quorum''"
  "\<not> str_in ''leader'' ''/quorum''"
  "\<not> str_in ''master'' ''/quorum''"
  "\<not> str_in ''primary'' ''/quorum''"
  "\<not> str_in ''read-write'' ''/quorum''"
  "\<not> str_in ''replica'' ''/quorum''"
  "\<not> str_in ''read-only'' ''/quorum''"
  "\<not> str_in ''health'' ''/quorum''"
  "\<not> str_in ''standby_leader'' ''/read-only-sync''"
  "\<not> str_in ''standby-leader'' ''/read-only-sync''"
  "\<not> str_in ''leader'' ''/read-only-sync''"
  "\<not> str_in ''master'' ''/read-only-sync''"
  "\<not> str_in ''primary'' ''/read-only-sync''"
  "\<not> str_in ''read-write'' ''/read-only-sync''"
  "\<not> str_in ''replica'' ''/read-only-sync''"
  "str_in ''read-only'' ''/read-only-sync''"
  "str_in ''sync'' ''/read-only-sync''"
  "\<not> str_in ''health'' ''/read-only-sync''"
  "\<not> str_in ''standby_leader'' ''/read-only-quorum''"
  "\<not> str_in ''standby-leader'' ''/read-only-quorum''"
  "\<not> str_in ''leader'' ''/read-only-quorum''"
  "\<not> str_in ''master'' ''/read-only-quorum''"
  "\<not> str_in ''primary'' ''/read-only-quorum''"
  "\<not> str_in ''read-write'' ''/read-only-quorum''"
  "\<not> str_in ''replica'' ''/read-only-quorum''"
  "str_in ''read-only'' ''/read-only-quorum''"
  "\<not> str_in ''sync'' ''/read-only-quorum''"
  "str_in ''quorum'' ''/read-only-quorum''"
  "\<not> str_in ''health'' ''/read-only-quorum''"
  by code_simp+

lemma path_code_fixed:
  "path_code n ''/primary'' rc r = (rc_primary rc, True)"
  "path_code n ''/leader'' rc r = (rc_leader rc, True)"
  "path_code n ''/standby-leader'' rc r = (rc_standby_leader rc, True)"
  "path_code n ''/replica'' rc r = (rc_replica rc, False)"
  "path_code n ''/read-only'' rc r = (rc_primary rc \<or> rc_standby_leader rc \<or> rc_replica rc, False)"
  "path_code n ''/sync'' rc r = (cluster_truthy (an_cluster n) \<and> truthy (pyget r ''sync_standby'') \<and> rc_replica rc, False)"
  "path_code n ''/quorum'' rc r = (cluster_truthy (an_cluster n) \<and> truthy (pyget r ''quorum_standby'') \<and> rc_replica rc, False)"
  "path_code n ''/async'' rc r = (cluster_truthy (an_cluster n) \<and> \<not> truthy (pyget r ''sync_standby'')
     \<and> \<not> truthy (pyget r ''quorum_standby'') \<and> rc_replica rc, False)"
  "path_code n ''/read-only-sync'' rc r = (cluster_truthy (an_cluster n) \<and> (rc_primary rc \<or> rc_standby_leader rc
     \<or> truthy (pyget r ''sync_standby'') \<and> rc_replica rc), False)"
  by (simp_all add: path_code_def path_words Let_def)

lemma do_GET_code:
  assumes "req_path \<noteq> ''/''"
  shows "do_GET n req_path q = Inr 200 \<longleftrightarrow> (\<exists>l. replica_lagging n q (get_postgresql_status n False) = Inr l
    \<and> (let c = path_code n req_path (role_status_codes n l (get_postgresql_status n False)) (get_postgresql_status n False)
       in fst c \<and> (snd c \<or> tags_match (an_tags n) q)))"
    "do_GET n req_path q = Inr 503 \<longleftrightarrow> (\<exists>l. replica_lagging n q (get_postgresql_status n False) = Inr l
    \<and> (let c = path_code n req_path (role_status_codes n l (get_postgresql_status n False)) (get_postgresql_status n False)
       in \<not> (fst c \<and> (snd c \<or> tags_match (an_tags n) q))))"
  using assms by (cases "replica_lagging n q (get_postgresql_status n False)"; simp add: do_GET_def Let_def case_prod_unfold)+

text \<open>A replica of a cluster with synchronous mode whose synchronous standby it is.\<close>

definition demo_status_row :: pg_row where
  "demo_status_row = \<lparr>row_start = PStr ''now'', row_timeline = 0, row_location = PInt 0, row_replayed = PInt 100,
     row_received = PInt 120, row_paused = PBool False, row_replayed_timestamp = PNone, row_latest_end = PInt 120,
     row_receiver_state = PStr ''streaming'', row_restore_command = PNone, row_written = PNone, row_replication = PNone\<rparr>"

definition demo_api_node :: "unit api_node" where
  "demo_api_node = \<lparr>an_db_type = ''postgresql'', an_state = ''running'', an_role = ''replica'', an_name = ''b'',
     an_major_version = 150000, an_server_version = PInt 150000, an_restore_command = PNone, an_query = (\<lambda>_. Some demo_status_row),
     an_mysql = \<lparr>my_primary = None, my_master = None, my_slave = None, my_gtid = [], my_fork = PNone, my_replication_state = PNone\<rparr>,
     an_replica_timeline = (\<lambda>t. t),
     an_cluster = Some (Cluster_empty\<lparr>c_initialize := Some ''1'', c_status := Status 110 None [],
       c_sync := SyncState (PInt 1) (Some ''a'') (Some ''b'') 0\<rparr>),
     an_global = [(''synchronous_mode'', PBool True)], an_failsafe_active = False, an_last_seen = 0, an_is_leader = False,
     an_tags = [], an_is_running = True, an_ttl = 30, an_next_run = 0, an_now = 0\<rparr>"

text \<open>
  C20: relations between the health checks of one node that are asked with the same query. A node healthy for \<^verbatim>\<open>/primary\<close> is
  healthy for \<^verbatim>\<open>/leader\<close> and not for \<^verbatim>\<open>/standby-leader\<close>, and while the cluster is known from DCS it holds the leader lock.
  If it is healthy for \<^verbatim>\<open>/replica\<close> as well, it is a replica that holds the leader lock, so its promotion is not finished.
  A node healthy for \<^verbatim>\<open>/standby-leader\<close> is healthy for \<^verbatim>\<open>/leader\<close>, not for \<^verbatim>\<open>/primary\<close> and not for \<^verbatim>\<open>/replica\<close>. A node healthy
  for \<^verbatim>\<open>/sync\<close> is healthy for \<^verbatim>\<open>/replica\<close> and \<^verbatim>\<open>/read-only-sync\<close> and not for \<^verbatim>\<open>/async\<close>; one healthy for \<^verbatim>\<open>/async\<close> is healthy
  for \<^verbatim>\<open>/replica\<close>, not for \<^verbatim>\<open>/sync\<close> and not for \<^verbatim>\<open>/quorum\<close>; and one healthy for \<^verbatim>\<open>/replica\<close> is healthy for \<^verbatim>\<open>/read-only\<close>.
\<close>

theorem health_checks_consistent:
  "(do_GET n ''/primary'' q = Inr 200 \<longrightarrow> do_GET n ''/leader'' q = Inr 200 \<and> do_GET n ''/standby-leader'' q = Inr 503
      \<and> (cluster_truthy (an_cluster n) \<longrightarrow> an_is_leader n)
      \<and> (do_GET n ''/replica'' q = Inr 200 \<longrightarrow>
           an_is_leader n \<and> pyget (get_postgresql_status n False) ''role'' = PStr (role_value REPLICA)))
   \<and> (do_GET n ''/standby-leader'' q = Inr 200 \<longrightarrow> do_GET n ''/leader'' q = Inr 200 \<and> do_GET n ''/primary'' q = Inr 503
      \<and> do_GET n ''/replica'' q = Inr 503)
   \<and> (do_GET n ''/sync'' q = Inr 200 \<longrightarrow> do_GET n ''/replica'' q = Inr 200 \<and> do_GET n ''/read-only-sync'' q = Inr 200
      \<and> do_GET n ''/async'' q = Inr 503)
   \<and> (do_GET n ''/async'' q = Inr 200 \<longrightarrow> do_GET n ''/replica'' q = Inr 200 \<and> do_GET n ''/sync'' q = Inr 503
      \<and> do_GET n ''/quorum'' q = Inr 503)
   \<and> (do_GET n ''/replica'' q = Inr 200 \<longrightarrow> do_GET n ''/read-only'' q = Inr 200)"
proof (intro conjI impI)
  let ?r = "get_postgresql_status n False"
  note codes = do_GET_code path_code_fixed Let_def and role = role_codes_consistent [of n _ ?r]
  show "do_GET n ''/leader'' q = Inr 200" "do_GET n ''/standby-leader'' q = Inr 503" if "do_GET n ''/primary'' q = Inr 200"
    using that role by (auto simp: codes)
  show "an_is_leader n" if "do_GET n ''/primary'' q = Inr 200" "cluster_truthy (an_cluster n)"
    using that by (auto simp: codes role_status_codes_def split: if_splits)
  show "an_is_leader n" "pyget ?r ''role'' = PStr (role_value REPLICA)"
    if "do_GET n ''/primary'' q = Inr 200" "do_GET n ''/replica'' q = Inr 200"
    using that role by (auto simp: codes)
  show "do_GET n ''/leader'' q = Inr 200" "do_GET n ''/primary'' q = Inr 503" "do_GET n ''/replica'' q = Inr 503"
    if "do_GET n ''/standby-leader'' q = Inr 200"
    using that role by (auto simp: codes)
  show "do_GET n ''/replica'' q = Inr 200" "do_GET n ''/read-only-sync'' q = Inr 200" "do_GET n ''/async'' q = Inr 503"
    if "do_GET n ''/sync'' q = Inr 200"
    using that by (auto simp: codes)
  show "do_GET n ''/replica'' q = Inr 200" "do_GET n ''/sync'' q = Inr 503" "do_GET n ''/quorum'' q = Inr 503"
    if "do_GET n ''/async'' q = Inr 200"
    using that by (auto simp: codes)
  show "do_GET n ''/read-only'' q = Inr 200" if "do_GET n ''/replica'' q = Inr 200"
    using that by (auto simp: codes)
qed

theorem health_checks_consistent_witness:
  "do_GET demo_api_node ''/sync'' [(''lag'', [''1kB''])] = Inr 200
   \<and> do_GET demo_api_node ''/replica'' [(''lag'', [''1kB''])] = Inr 200
   \<and> do_GET demo_api_node ''/async'' [(''lag'', [''1kB''])] = Inr 503"
proof -
  have "do_GET demo_api_node ''/sync'' [(''lag'', [''1kB''])] = Inr 200" by code_simp
  then show ?thesis using health_checks_consistent [of demo_api_node "[(''lag'', [''1kB''])]"] by simp
qed

text \<open>
  The documentation of \<open>do_GET\<close> promises 200 on \<^verbatim>\<open>/primary\<close> for a primary with the leader lock. The role is not
  looked at: between taking the lock and the end of the promotion the node is healthy both as primary and as replica.
\<close>

definition demo_promoting :: "unit api_node" where
  "demo_promoting = demo_api_node\<lparr>an_is_leader := True\<rparr>"

lemma primary_healthy_before_promotion:
  "do_GET demo_promoting ''/primary'' [] = Inr 200 \<and> do_GET demo_promoting ''/replica'' [] = Inr 200
   \<and> pyget (get_postgresql_status demo_promoting False) ''role'' = PStr ''replica''"
  by code_simp

section \<open>A synchronous standby is in the sync key\<close>

lemma status_lookup:
  "pyget (dict_set k v d) k' = (if k = k' then v else pyget d k')"
  by (simp add: pyget_def dict_get_default_def update_conv' split: option.splits)

lemma sync_standby_of_status:
  assumes pg: "an_db_type n = ''postgresql''"
    and sync: "truthy (pyget (get_postgresql_status n False) ''sync_standby'')"
  shows "\<exists>c. an_cluster n = Some c \<and> sync_matches (c_sync c) (Some (an_name n)) False
    \<and> is_synchronous_mode (from_cluster (an_global n) (Some c)) \<and> \<not> is_quorum_commit_mode (an_global n)"
proof -
  let ?config = "from_cluster (an_global n) (an_cluster n)"
  have other: "pyget (status_of_failure n) ''sync_standby'' = PNone"
    by (simp add: status_of_failure_def pyget_def dict_get_default_def)
  have opt: "map_of (optional_item k v) ''sync_standby'' = None" if "k \<noteq> ''sync_standby''" for k v
    using that by (simp add: optional_item_def)
  obtain r where "truthy (pyget (status_of_row n ?config r) ''sync_standby'')"
    using sync other by (auto simp: get_postgresql_status_def pg Let_def status_lookup split: if_splits option.splits)
  then obtain role where "dict_get (sync_standby_key n ?config role) ''sync_standby'' \<noteq> None"
    by (auto simp: status_of_row_def pyget_def dict_get_default_def Let_def opt map_add_def
        split: option.splits if_splits)
  then show ?thesis
    by (auto simp: sync_standby_key_def cluster_truthy_def split: if_splits option.splits)
qed

text \<open>
  C21: a load balancer that routes to nodes healthy for \<^verbatim>\<open>/sync\<close> reaches only synchronous standbys: a PostgreSQL
  node answers 200 there only if the cluster read from DCS names it in the sync key, synchronous mode is on and not
  in its quorum variant, and the node is a running replica without the \<^verbatim>\<open>noloadbalance\<close> tag.
\<close>

theorem sync_check_sound:
  assumes pg: "an_db_type n = ''postgresql''"
    and ok: "do_GET n ''/sync'' q = Inr 200"
  shows "\<exists>c. an_cluster n = Some c \<and> sync_matches (c_sync c) (Some (an_name n)) False
    \<and> is_synchronous_mode (from_cluster (an_global n) (Some c)) \<and> \<not> is_quorum_commit_mode (an_global n)
    \<and> pyget (get_postgresql_status n False) ''role'' = PStr (role_value REPLICA)
    \<and> pyget (get_postgresql_status n False) ''state'' = PStr (state_value RUNNING) \<and> \<not> noloadbalance (an_tags n)"
proof -
  let ?r = "get_postgresql_status n False"
  obtain l where l: "rc_replica (role_status_codes n l ?r)" "truthy (pyget ?r ''sync_standby'')"
    using ok by (auto simp: do_GET_code path_code_fixed Let_def)
  have "replica_ready n l ?r" using l(1) by (auto simp: role_status_codes_def Let_def split: if_splits)
  then show ?thesis using sync_standby_of_status [OF pg l(2)] by (auto simp: replica_ready_def)
qed

theorem sync_check_sound_witness:
  "\<exists>c. an_cluster demo_api_node = Some c \<and> sync_matches (c_sync c) (Some (an_name demo_api_node)) False
    \<and> is_synchronous_mode (from_cluster (an_global demo_api_node) (Some c)) \<and> \<not> is_quorum_commit_mode (an_global demo_api_node)
    \<and> pyget (get_postgresql_status demo_api_node False) ''role'' = PStr (role_value REPLICA)
    \<and> pyget (get_postgresql_status demo_api_node False) ''state'' = PStr (state_value RUNNING)
    \<and> \<not> noloadbalance (an_tags demo_api_node)"
proof (rule sync_check_sound [where q = "[]"])
  show "an_db_type demo_api_node = ''postgresql''" by (simp add: demo_api_node_def)
  show "do_GET demo_api_node ''/sync'' [] = Inr 200" by code_simp
qed

section \<open>Readiness\<close>

lemma readiness_check_None: "readiness_check t s r = None \<longleftrightarrow> s = ''running'' \<and> r = ''streaming''"
  by (auto simp: readiness_check_def)

lemma do_GET_readiness_ok: "do_GET_readiness n q = Inr 200 \<longleftrightarrow> readiness n q = Inr None"
  by (cases "readiness n q") (auto simp: do_GET_readiness_def split: option.splits)

text \<open>A replica that is ready streams, and its lag behind the leader known from DCS is within the limit asked for.\<close>

lemma readiness_sound:
  assumes "do_GET_readiness n q = Inr 200" "\<not> an_is_leader n" "an_cluster n = Some c" "\<not> cluster_is_empty c"
  shows "an_state n = ''running''"
    and "py_str (dict_get_default (get_postgresql_status n True) ''replication_state'' (PStr [])) = ''streaming''"
    and "readiness_lag n q (get_postgresql_status n True) = Inr None"
  using assms
  by (auto simp: do_GET_readiness_ok readiness_def Let_def cluster_truthy_def readiness_check_None
      split: if_splits option.splits sum.splits)

end
