(* ===== verification/RestApi.thy ===== *)
theory RestApi
  imports RestHealth
begin

text \<open>
  The requests of the REST API that change something, \<^verbatim>\<open>patroni/api.py\<close>: routing, the access check, the JSON body,
  and the handlers for the configuration, failover and switchover, restart, reinitialize, failsafe and MPP events. What a
  handler calls on DCS and on the HA loop is an \<open>action\<close>; the answers are inputs, and a handler returns the
  responses it writes and the actions it performs, in their order.
\<close>

section \<open>Requests and responses\<close>

datatype ip = IP nat int

text \<open>A network of \<^verbatim>\<open>ipaddress\<close>: version, number of host bits and the masked address.\<close>

record ip_net =
  net_version :: nat
  net_host_bits :: nat
  net_address :: int

definition in_net :: "ip \<Rightarrow> ip_net \<Rightarrow> bool" where
  "in_net a net = (case a of IP v x \<Rightarrow> v = net_version net
     \<and> x div 2 ^ net_host_bits net * 2 ^ net_host_bits net = net_address net)"

text \<open>
  \<open>rq_client_cert\<close> says that \<^verbatim>\<open>getpeercert()\<close> returns a certificate, \<open>rq_read\<close> decodes the first bytes of the
  body as UTF-8 and JSON, \<open>None\<close> where that raises.
\<close>

record http_request =
  rq_method :: string
  rq_path :: string
  rq_query :: query_args
  rq_ip :: ip
  rq_client_cert :: bool
  rq_authorization :: "string option"
  rq_content_length :: "string option"
  rq_read :: "int \<Rightarrow> pyval option"

text \<open>\<open>Crash\<close> is an exception that leaves the handler.\<close>

datatype reply = Text int string | Json int pyval | SendError int | StatusOnly int | Crash

datatype action = SetConfig pydict "pyval option" | FailoverKey pyval pyval "datetime option" "pyval option"
  | RestartNow pydict | ScheduleRestart pydict "datetime option" | DeleteRestart | Reinitialize bool bool
  | Reload | Sigterm | UpdateFailsafe pydict | MppEvent pydict

type_synonym api_outcome = "reply list \<times> action list"

text \<open>
  Settings of the server and the answers of DCS and of the HA loop. \<open>ev_resolve\<close> are the networks an \<^verbatim>\<open>api_url\<close> resolves to,
  \<open>ev_workers\<close> the members of a worker cluster, \<open>ev_get_cluster\<close> is \<open>None\<close> where \<^verbatim>\<open>get_cluster\<close> raises, \<open>ev_polls\<close>
  gives its answer on each poll, \<open>ev_restart\<close> is \<open>None\<close> where \<^verbatim>\<open>restart\<close> raises, and \<open>ev_report\<close> are the
  documents of \<^verbatim>\<open>GET\<close> requests that only print.
\<close>

record 'w api_env =
  ev_auth_key :: string
  ev_allowlist :: "ip_net list"
  ev_include_members :: bool
  ev_protocol :: string
  ev_verify_client :: "string option"
  ev_resolve :: "string \<Rightarrow> ip_net list"
  ev_workers :: "'w \<Rightarrow> member list"
  ev_health :: "'w api_node"
  ev_get_cluster :: "'w cluster option"
  ev_set_config :: "pydict \<Rightarrow> pyval option \<Rightarrow> bool"
  ev_set_failover :: bool
  ev_polls :: "nat \<Rightarrow> 'w cluster option"
  ev_loop_wait :: int
  ev_parse_date :: "pyval \<Rightarrow> py_error + datetime"
  ev_now :: int
  ev_node :: node
  ev_restart :: "pydict \<Rightarrow> (bool \<times> string) option"
  ev_schedule_restart :: bool
  ev_delete_restart :: bool
  ev_reinitialize :: "bool \<Rightarrow> bool \<Rightarrow> string option"
  ev_failsafe_mode :: bool
  ev_update_failsafe :: "pydict \<Rightarrow> py_error + (string + int option)"
  ev_failsafe_key :: "pydict option"
  ev_coordinator :: bool
  ev_behave_windows :: bool
  ev_report :: "string \<Rightarrow> reply"

abbreviation ev_global :: "'w api_env \<Rightarrow> global_config" where
  "ev_global env \<equiv> an_global (ev_health env)"

abbreviation ev_cached :: "'w api_env \<Rightarrow> 'w cluster option" where
  "ev_cached env \<equiv> an_cluster (ev_health env)"

section \<open>Access\<close>

definition check_auth_header :: "string \<Rightarrow> string option \<Rightarrow> string option" where
  "check_auth_header auth_key header =
     (if auth_key \<noteq> []
      then (case header of
              None \<Rightarrow> Some ''no auth header received''
            | Some h \<Rightarrow> if \<not> starts_with h ''Basic '' \<or> drop 6 h \<noteq> auth_key then Some ''not authenticated'' else None)
      else None)"

definition members_ips :: "'w api_env \<Rightarrow> ip_net list" where
  "members_ips env =
     (if ev_include_members env \<and> cluster_truthy (ev_cached env)
      then (let c = the (ev_cached env) in
        concat (map (\<lambda>m. if str_bool (api_url m) then ev_resolve env (str_or_empty (api_url m)) else [])
          (c_members c @ concat (map (ev_workers env \<circ> snd) (c_workers c)))))
      else [])"

text \<open>\<open>None\<close> where access is granted, else status and text of the refusal.\<close>

definition check_access :: "'w api_env \<Rightarrow> http_request \<Rightarrow> bool \<Rightarrow> (int \<times> string) option" where
  "check_access env rq allowlist_check_members =
     (let check_members = (allowlist_check_members \<and> ev_include_members env);
          members = (if check_members then members_ips env else [])
      in if (ev_allowlist env \<noteq> [] \<or> check_members) \<and> \<not> list_ex (in_net (rq_ip rq)) (ev_allowlist env @ members)
         then Some (403, ''Access is denied'')
         else if \<not> rq_client_cert rq \<and> ev_protocol env = ''https''
              \<and> ev_verify_client env \<in> {Some ''required'', Some ''optional''}
         then Some (403, ''client certificate required'')
         else map_option (\<lambda>reason. (401, reason)) (check_auth_header (ev_auth_key env) (rq_authorization rq)))"

text \<open>The decorator \<^verbatim>\<open>@check_access\<close>.\<close>

definition access_checked :: "'w api_env \<Rightarrow> http_request \<Rightarrow> bool \<Rightarrow> api_outcome \<Rightarrow> api_outcome" where
  "access_checked env rq allowlist_check_members out =
     (case check_access env rq allowlist_check_members of
        Some (code, msg) \<Rightarrow> ([Text code msg], [])
      | None \<Rightarrow> out)"

section \<open>The body\<close>

text \<open>\<open>_read_json_content\<close>: \<open>Inl\<close> where the method has sent an error and returns \<^verbatim>\<open>None\<close>.\<close>

definition read_json_content :: "http_request \<Rightarrow> bool \<Rightarrow> reply + pydict" where
  "read_json_content rq body_is_optional =
     (case rq_content_length rq of
        None \<Rightarrow> if body_is_optional then Inr [] else Inl (SendError 411)
      | Some h \<Rightarrow> (case (if h = [] then Inr 0 else py_int (PStr h)) of
          Inl _ \<Rightarrow> Inl (SendError 400)
        | Inr n \<Rightarrow> if n = 0 \<and> body_is_optional then Inr []
            else (case rq_read rq n of
               Some (PDict d) \<Rightarrow> if d \<noteq> [] \<or> body_is_optional then Inr d else Inl (SendError 400)
             | _ \<Rightarrow> Inl (SendError 400))))"

section \<open>Configuration\<close>

definition do_PATCH_config :: "'w api_env \<Rightarrow> http_request \<Rightarrow> api_outcome" where
  "do_PATCH_config env rq = (case read_json_content rq False of
     Inl e \<Rightarrow> ([e], [])
   | Inr request \<Rightarrow> (case ev_get_cluster env of
       None \<Rightarrow> ([Crash], [])
     | Some c \<Rightarrow> (case c_config c of
         None \<Rightarrow> ([SendError 503], [])
       | Some cc \<Rightarrow>
           if \<not> truthy (cc_modify_version cc) then ([SendError 503], [])
           else (case patch_config (cc_data cc) request of
             (data, changed) \<Rightarrow>
               if \<not> changed then ([Json 200 (PDict data)], [])
               else if ev_set_config env data (Some (cc_version cc))
               then ([Json 200 (PDict data)], [SetConfig data (Some (cc_version cc))])
               else ([SendError 409], [SetConfig data (Some (cc_version cc))])))))"

definition do_PUT_config :: "'w api_env \<Rightarrow> http_request \<Rightarrow> api_outcome" where
  "do_PUT_config env rq = (case read_json_content rq False of
     Inl e \<Rightarrow> ([e], [])
   | Inr request \<Rightarrow> (case ev_get_cluster env of
       None \<Rightarrow> ([Crash], [])
     | Some c \<Rightarrow>
         if (case c_config c of None \<Rightarrow> False | Some cc \<Rightarrow> deep_compare request (cc_data cc))
         then ([Json 200 (PDict request)], [])
         else if ev_set_config env request None then ([Json 200 (PDict request)], [SetConfig request None])
         else ([SendError 502], [SetConfig request None])))"

definition current_cluster :: "'w api_env \<Rightarrow> 'w cluster option" where
  "current_cluster env = (if cluster_truthy (ev_cached env) then ev_cached env else ev_get_cluster env)"

definition do_GET_config :: "'w api_env \<Rightarrow> reply" where
  "do_GET_config env = (case current_cluster env of
     None \<Rightarrow> Crash
   | Some c \<Rightarrow> (case c_config c of
       Some cc \<Rightarrow> if truthy (cc_modify_version cc) then Json 200 (PDict (cc_data cc)) else SendError 502
     | None \<Rightarrow> SendError 502))"

section \<open>Failsafe and MPP\<close>

definition do_GET_failsafe :: "'w api_env \<Rightarrow> reply" where
  "do_GET_failsafe env = (case ev_failsafe_key env of Some d \<Rightarrow> Json 200 (PDict d) | None \<Rightarrow> SendError 502)"

definition api_POST_failsafe :: "'w api_env \<Rightarrow> http_request \<Rightarrow> api_outcome" where
  "api_POST_failsafe env rq =
     (if ev_failsafe_mode env then (case read_json_content rq False of
          Inl e \<Rightarrow> ([e], [])
        | Inr request \<Rightarrow> ([case ev_update_failsafe env request of
              Inl _ \<Rightarrow> Crash
            | Inr (Inl text) \<Rightarrow> Text (if text = ''Accepted'' then 200 else 500) text
            | Inr (Inr _) \<Rightarrow> Text 200 ''Accepted''], [UpdateFailsafe request]))
      else ([SendError 502], []))"

definition do_POST_mpp :: "'w api_env \<Rightarrow> http_request \<Rightarrow> api_outcome" where
  "do_POST_mpp env rq = (case read_json_content rq False of
     Inl e \<Rightarrow> ([e], [])
   | Inr request \<Rightarrow>
       if ev_coordinator env \<and> an_is_leader (ev_health env)
       then (case ev_get_cluster env of
           None \<Rightarrow> ([Crash], [])
         | Some c \<Rightarrow> ([Text 200 ''OK''], [MppEvent request]))
       else ([Text 200 ''OK''], []))"

section \<open>Schedules and restarts\<close>

text \<open>Suggested status, message and parsed schedule of \<open>parse_schedule\<close>.\<close>

definition parse_schedule ::
  "'w api_env \<Rightarrow> pyval \<Rightarrow> string \<Rightarrow> py_error + (int option \<times> string option \<times> datetime option)" where
  "parse_schedule env schedule act = (case ev_parse_date env schedule of
     Inr (Naive t) \<Rightarrow> Inr (Some 400, Some (''Timezone information is mandatory for the scheduled '' @ act), Some (Naive t))
   | Inr (Aware t) \<Rightarrow>
       if t < ev_now env then Inr (Some 422, Some (''Cannot schedule '' @ act @ '' in the past''), Some (Aware t))
       else Inr (None, None, Some (Aware t))
   | Inl e \<Rightarrow> if e = ValueError \<or> e = TypeError
       then Inr (Some 422, Some ''Unable to parse scheduled timestamp. It should be in an unambiguous format, e.g. ISO 8601'', None)
       else Inl e)"

text \<open>
  The loop over the items of a restart request: a refusal, or the request with its timeout parsed and the schedule.
  The text of the exception for a bad version is shortened.
\<close>

fun restart_items :: "'w api_env \<Rightarrow> pydict \<Rightarrow> reply + (pydict \<times> datetime option)" where
  "restart_items env [] = Inr ([], None)"
| "restart_items env ((k, v) # rest) =
     (let continue = (\<lambda>v'. map_sum id (map_prod (Cons (k, v')) id) (restart_items env rest)) in
      if k = ''schedule'' then (case parse_schedule env v ''restart'' of
          Inl _ \<Rightarrow> Inl Crash
        | Inr (Some code, msg, _) \<Rightarrow> Inl (Text code (str_or_empty msg))
        | Inr (None, _, t) \<Rightarrow> map_sum id (\<lambda>(d, _). (d, t)) (continue v))
      else if k = ''role'' then
        (if v \<in> {PStr (role_value PRIMARY), PStr (role_value STANDBY_LEADER), PStr (role_value REPLICA)} then continue v
         else Inl (Text 400 ''PostgreSQL role should be either primary, standby_leader, or replica''))
      else if k = ''postgres_version'' then (case v of
          PStr s \<Rightarrow> (case postgres_version_to_int s of
              Inl PostgresException \<Rightarrow> Inl (Text 400 ''Invalid PostgreSQL version'')
            | Inl _ \<Rightarrow> Inl Crash
            | Inr _ \<Rightarrow> continue v)
        | _ \<Rightarrow> Inl Crash)
      else if k = ''timeout'' then (case parse_int v (Some ''s'') of
          Inl _ \<Rightarrow> Inl Crash
        | Inr None \<Rightarrow> Inl (Text 400 ''Timeout should be a positive number of seconds'')
        | Inr (Some n) \<Rightarrow> if n \<le> 0 then Inl (Text 400 ''Timeout should be a positive number of seconds'') else continue (PInt n))
      else if k \<noteq> ''restart_pending'' then Inl (Text 400 (''Unknown filter for the scheduled restart: '' @ k))
      else continue v)"

definition do_POST_restart :: "'w api_env \<Rightarrow> http_request \<Rightarrow> api_outcome" where
  "do_POST_restart env rq = (case read_json_content rq True of
     Inl e \<Rightarrow> (if ev_get_cluster env = None then [e, Crash] else [e], [])
   | Inr request \<Rightarrow> (case ev_get_cluster env of
       None \<Rightarrow> ([Crash], [])
     | Some c \<Rightarrow>
         if is_paused (from_cluster (ev_global env) (Some c)) \<and> dict_has request ''schedule''
         then ([Text 500 ''Can't schedule restart in the paused state''], [])
         else (case restart_items env request of
             Inl e \<Rightarrow> ([e], [])
           | Inr (filters, schedule) \<Rightarrow>
               if \<not> dict_has request ''schedule'' then
                 ([case ev_restart env filters of
                     None \<Rightarrow> Text 400 (state_value RESTART_FAILED)
                   | Some (ok, msg) \<Rightarrow> Text (if ok then 200 else 503) msg], [RestartNow filters])
               else if ev_schedule_restart env
               then ([Text 202 ''Restart scheduled''], [ScheduleRestart filters schedule])
               else ([Text 409 ''Another restart is already scheduled''], [ScheduleRestart filters schedule]))))"

definition do_DELETE_restart :: "'w api_env \<Rightarrow> api_outcome" where
  "do_DELETE_restart env =
     ([if ev_delete_restart env then Text 200 ''scheduled restart deleted'' else Text 404 ''no restarts are scheduled''],
      [DeleteRestart])"

definition do_DELETE_switchover :: "'w api_env \<Rightarrow> api_outcome" where
  "do_DELETE_switchover env = (case ev_get_cluster env of
     None \<Rightarrow> ([Crash], [])
   | Some c \<Rightarrow>
       if failover_bool (c_failover c) \<and> f_scheduled_at (the (c_failover c)) \<noteq> None
       then ([if ev_set_failover env then Text 200 ''scheduled switchover deleted'' else SendError 409],
             [FailoverKey (PStr []) (PStr []) None (Some (f_version (the (c_failover c))))])
       else ([Text 404 ''no switchover is scheduled''], []))"

text \<open>A body that cannot be read has been answered with an error, and the request goes on.\<close>

definition do_POST_reinitialize :: "'w api_env \<Rightarrow> http_request \<Rightarrow> api_outcome" where
  "do_POST_reinitialize env rq =
     (let (sent, request) = (case read_json_content rq True of Inl e \<Rightarrow> ([e], []) | Inr d \<Rightarrow> ([], d));
          force = (parse_bool (pyget request ''force'') = Some True);
          from_leader = (parse_bool (pyget request ''from_leader'') = Some True)
      in (sent @ [case ev_reinitialize env force from_leader of
                    None \<Rightarrow> Text 200 ''reinitialize started''
                  | Some e \<Rightarrow> Text 503 e], [Reinitialize force from_leader]))"

section \<open>Failover and switchover\<close>

definition quoted :: "string \<Rightarrow> string" where
  "quoted s = [CHR 0x22] @ s @ [CHR 0x22]"

text \<open>One poll: the result, or \<open>None\<close> to go on. The \<^verbatim>\<open>action[:-4]\<close> of the source is \<open>verb\<close>.\<close>

definition poll_step :: "string option \<Rightarrow> pyval \<Rightarrow> string \<Rightarrow> 'w cluster option \<Rightarrow> (int \<times> string) option" where
  "poll_step ldr candidate act answer = (let verb = take (length act - 4) act in case answer of
     None \<Rightarrow> None
   | Some c \<Rightarrow>
       (case c_leader c of
          Some l \<Rightarrow>
            if \<not> is_unlocked c \<and> Some (l_name l) \<noteq> ldr
            then Some (200, if \<not> truthy candidate \<or> candidate = PStr (l_name l)
                            then ''Successfully '' @ verb @ ''ed over to '' @ quoted (l_name l)
                            else capitalize verb @ ''ed over to '' @ quoted (l_name l) @ '' instead of ''
                                   @ quoted (py_str candidate))
            else if \<not> failover_bool (c_failover c) then Some (503, capitalize act @ '' failed'') else None
        | None \<Rightarrow> if \<not> failover_bool (c_failover c) then Some (503, capitalize act @ '' failed'') else None))"

fun poll_loop :: "(nat \<Rightarrow> 'w cluster option) \<Rightarrow> string option \<Rightarrow> pyval \<Rightarrow> string \<Rightarrow> nat list \<Rightarrow> int \<times> string" where
  "poll_loop polls ldr candidate act [] = (503, capitalize act @ '' status unknown'')"
| "poll_loop polls ldr candidate act (i # is) = (case poll_step ldr candidate act (polls i) of
     Some r \<Rightarrow> r
   | None \<Rightarrow> poll_loop polls ldr candidate act is)"

definition poll_failover_result :: "'w api_env \<Rightarrow> string option \<Rightarrow> pyval \<Rightarrow> string \<Rightarrow> int \<times> string" where
  "poll_failover_result env ldr candidate act =
     poll_loop (ev_polls env) ldr candidate act [0..<nat (max 10 (ev_loop_wait env) * 2)]"

text \<open>\<^verbatim>\<open>cluster.sync.matches\<close> with a value of a JSON document.\<close>

definition sync_matches_val :: "sync_state \<Rightarrow> pyval \<Rightarrow> py_error + bool" where
  "sync_matches_val s v = (case v of
     PStr name \<Rightarrow> Inr (sync_matches s (Some name) False)
   | _ \<Rightarrow> if truthy v \<and> \<not> sync_is_empty s then Inl AttributeError else Inr False)"

fun some_good :: "member_status list \<Rightarrow> py_error + bool" where
  "some_good [] = Inr False"
| "some_good (st # sts) = bind_err (failover_limitation st) (\<lambda>lim. if lim = None then Inr True else some_good sts)"

text \<open>The members asked, or the message that there are none.\<close>

definition failover_members ::
  "global_config \<Rightarrow> 'w cluster \<Rightarrow> pyval \<Rightarrow> string \<Rightarrow> py_error + (string + member list)" where
  "failover_members config c candidate act =
     (let sync_only = (is_synchronous_mode config \<and> \<not> is_quorum_commit_mode config) in
      if truthy candidate then
        bind_err (if act = ''switchover'' \<and> sync_only then sync_matches_val (c_sync c) candidate else Inr True) (\<lambda>ok.
          if \<not> ok then Inr (Inl ''candidate name does not match with sync_standby'')
          else (let ms = filter (\<lambda>m. PStr (m_name m) = candidate) (c_members c)
                in Inr (if ms = [] then Inl ''candidate does not exists'' else Inr ms)))
      else if sync_only then
        (let ms = filter (\<lambda>m. sync_matches (c_sync c) (Some (m_name m)) False) (c_members c)
         in Inr (if ms = [] then Inl (act @ '' is not possible: can not find sync_standby'') else Inr ms))
      else
        (let ms = filter (\<lambda>m. c_leader c = None \<or> Some (m_name m) \<noteq> leader_name c \<and> str_bool (api_url m)) (c_members c)
         in Inr (if ms = [] then Inl (act @ '' is not possible: cluster does not have members except leader'') else Inr ms)))"

definition api_is_failover_possible ::
  "'w api_env \<Rightarrow> 'w cluster \<Rightarrow> pyval \<Rightarrow> pyval \<Rightarrow> string \<Rightarrow> py_error + string option" where
  "api_is_failover_possible env c ldr candidate act =
     (let config = from_cluster (ev_global env) (Some c) in
      if truthy ldr \<and> (case c_leader c of None \<Rightarrow> True | Some l \<Rightarrow> PStr (l_name l) \<noteq> ldr)
      then Inr (Some ''leader name does not match'')
      else bind_err (failover_members config c candidate act) (\<lambda>r. case r of
          Inl msg \<Rightarrow> Inr (Some msg)
        | Inr ms \<Rightarrow> bind_err (some_good (fetch_nodes_statuses (ev_node env) ms)) (\<lambda>good.
            Inr (if good then None else Some (act @ '' is not possible: no good candidates have been found'')))))"

definition failover_missing :: "string \<Rightarrow> pyval \<Rightarrow> pyval \<Rightarrow> string" where
  "failover_missing act ldr candidate =
     (if act = ''failover'' \<and> \<not> truthy candidate then ''Failover could be performed only to a specific candidate''
      else if act = ''switchover'' \<and> \<not> truthy ldr then ''Switchover could be performed only from a specific leader''
      else [])"

text \<open>
  The handling of \<^verbatim>\<open>scheduled_at\<close>: status, message and schedule. The schedule of a refused request is not used again, and a
  value that counts as false, which the code passes on as it is, counts as none everywhere below.
\<close>

definition failover_schedule ::
  "'w api_env \<Rightarrow> global_config \<Rightarrow> string \<Rightarrow> string \<Rightarrow> pyval \<Rightarrow> py_error + (int option \<times> string \<times> datetime option)" where
  "failover_schedule env config act data scheduled_at =
     (if data = [] \<and> truthy scheduled_at
      then (if act = ''failover'' then Inr (Some 400, ''Failover can't be scheduled'', None)
            else if is_paused config then Inr (Some 400, ''Can't schedule switchover in the paused state'', None)
            else map_sum id (map_prod id (map_prod str_or_empty id)) (parse_schedule env scheduled_at act))
      else Inr (Some 400, data, None))"

text \<open>
  The checks before the key is written: the status and the message of a refusal, an empty message where there is none.
\<close>

definition failover_checks ::
  "'w api_env \<Rightarrow> 'w cluster \<Rightarrow> string \<Rightarrow> pyval \<Rightarrow> pyval \<Rightarrow> pyval \<Rightarrow> py_error + (int option \<times> string \<times> string \<times> datetime option)" where
  "failover_checks env c act ldr candidate scheduled_at =
     (let config = from_cluster (ev_global env) (Some c) in
      bind_err (failover_schedule env config act (failover_missing act ldr candidate) scheduled_at) (\<lambda>(code, data, schedule).
        let data = (if data = [] \<and> is_paused config \<and> \<not> truthy candidate
                    then ''Switchover is possible only to a specific candidate in a paused state'' else data);
            act = (if act = ''failover'' \<and> truthy ldr then ''switchover'' else act);
            data = (if data = [] \<and> ldr = candidate then ''Switchover target and source are the same'' else data)
        in if data = [] \<and> schedule = None
           then map_sum id (\<lambda>r. case r of None \<Rightarrow> (code, [], act, schedule) | Some msg \<Rightarrow> (Some 412, msg, act, schedule))
                  (api_is_failover_possible env c ldr candidate act)
           else Inr (code, data, act, schedule)))"

text \<open>\<^verbatim>\<open>write_response\<close> with no status raises in \<^verbatim>\<open>send_response\<close>.\<close>

definition do_POST_failover :: "'w api_env \<Rightarrow> http_request \<Rightarrow> string \<Rightarrow> api_outcome" where
  "do_POST_failover env rq act0 = (case read_json_content rq False of
     Inl e \<Rightarrow> ([e], [])
   | Inr request \<Rightarrow> (case ev_get_cluster env of
       None \<Rightarrow> ([Crash], [])
     | Some c \<Rightarrow>
         (let ldr = pyget request ''leader'';
              candidate = py_or (pyget request ''candidate'') (pyget request ''member'')
          in case failover_checks env c act0 ldr candidate (pyget request ''scheduled_at'') of
               Inl _ \<Rightarrow> ([Crash], [])
             | Inr (code, data, act, schedule) \<Rightarrow>
                 if data \<noteq> [] then ([case code of None \<Rightarrow> Crash | Some k \<Rightarrow> Text k data], [])
                 else ([if \<not> ev_set_failover env then Text 503 ''failed to write failover key into DCS''
                        else if schedule \<noteq> None then Text 202 (capitalize act @ '' scheduled'')
                        else case poll_failover_result env (leader_name c) candidate act of (k, msg) \<Rightarrow> Text k msg],
                       [FailoverKey ldr candidate schedule None]))))"

section \<open>Routing\<close>

text \<open>The \<^verbatim>\<open>do_\<close> methods of the handler.\<close>

definition handler_methods :: "string list" where
  "handler_methods = [''GET'', ''OPTIONS'', ''HEAD'', ''GET_liveness'', ''GET_readiness'', ''GET_patroni'', ''GET_cluster'',
     ''GET_history'', ''GET_config'', ''GET_metrics'', ''PATCH_config'', ''PUT_config'', ''POST_reload'', ''GET_failsafe'',
     ''POST_failsafe'', ''POST_sigterm'', ''POST_restart'', ''DELETE_restart'', ''DELETE_switchover'', ''POST_reinitialize'',
     ''POST_failover'', ''POST_switchover'', ''POST_citus'', ''POST_mpp'']"

definition parse_request :: "http_request \<Rightarrow> string" where
  "parse_request rq =
     (let part = hd (split_on (CHR ''/'') (dropWhile (\<lambda>ch. ch = CHR ''/'') (rq_path rq)));
          mname = rq_method rq @ (if part \<noteq> [] then ''_'' @ part else [])
      in if mname \<in> set handler_methods then mname else rq_method rq)"

definition do_GET_history :: "'w api_env \<Rightarrow> reply" where
  "do_GET_history env = (case current_cluster env of
     None \<Rightarrow> Crash
   | Some c \<Rightarrow> Json 200 (case c_history c of None \<Rightarrow> PList [] | Some h \<Rightarrow> PList (h_lines h)))"

definition status_reply :: "py_error + int \<Rightarrow> reply" where
  "status_reply r = (case r of Inl _ \<Rightarrow> Crash | Inr k \<Rightarrow> StatusOnly k)"

text \<open>Requests that only read; those of \<open>ev_report\<close> print a document.\<close>

definition handle_read :: "'w api_env \<Rightarrow> http_request \<Rightarrow> string \<Rightarrow> reply" where
  "handle_read env rq command =
     (if command \<in> {''GET'', ''OPTIONS'', ''HEAD''} then status_reply (do_GET (ev_health env) (rq_path rq) (rq_query rq))
      else if command = ''GET_liveness'' then StatusOnly (do_GET_liveness (ev_health env))
      else if command = ''GET_readiness'' then status_reply (do_GET_readiness (ev_health env) (rq_query rq))
      else if command = ''GET_history'' then do_GET_history env
      else if command = ''GET_config'' then do_GET_config env
      else if command = ''GET_failsafe'' then do_GET_failsafe env
      else if command \<in> set handler_methods then ev_report env command
      else SendError 501)"

definition handle_request :: "'w api_env \<Rightarrow> http_request \<Rightarrow> api_outcome" where
  "handle_request env rq = (let command = parse_request rq; g = access_checked env rq in
     if command = ''PATCH_config'' then g True (do_PATCH_config env rq)
     else if command = ''PUT_config'' then g True (do_PUT_config env rq)
     else if command = ''POST_reload'' then g True ([Text 202 ''reload scheduled''], [Reload])
     else if command = ''POST_failsafe'' then g False (api_POST_failsafe env rq)
     else if command = ''POST_sigterm''
     then g True ([Text 202 ''shutdown scheduled''], if ev_behave_windows env then [Sigterm] else [])
     else if command = ''POST_restart'' then g True (do_POST_restart env rq)
     else if command = ''DELETE_restart'' then g True (do_DELETE_restart env)
     else if command = ''DELETE_switchover'' then g True (do_DELETE_switchover env)
     else if command = ''POST_reinitialize'' then g True (do_POST_reinitialize env rq)
     else if command = ''POST_failover'' then g True (do_POST_failover env rq ''failover'')
     else if command = ''POST_switchover'' then g True (do_POST_failover env rq ''switchover'')
     else if command = ''POST_citus'' then g True (do_POST_mpp env rq)
     else if command = ''POST_mpp'' then do_POST_mpp env rq
     else ([handle_read env rq command], []))"

section \<open>Who may change something\<close>

lemma access_checked_actions: "a \<in> set (snd (access_checked env rq cm out)) \<Longrightarrow> check_access env rq cm = None \<and> a \<in> set (snd out)"
  by (auto simp: access_checked_def split: option.splits)

lemma check_access_authenticated:
  "check_access env rq cm = None \<Longrightarrow> ev_auth_key env \<noteq> [] \<Longrightarrow> rq_authorization rq = Some (''Basic '' @ ev_auth_key env)"
proof -
  assume "check_access env rq cm = None" "ev_auth_key env \<noteq> []"
  then obtain h where h: "rq_authorization rq = Some h" "starts_with h ''Basic ''" "drop 6 h = ev_auth_key env"
    by (auto simp: check_access_def check_auth_header_def Let_def split: if_splits option.splits)
  moreover have "take 6 h = ''Basic ''" using h(2) by (simp add: starts_with_def numeral_eq_Suc)
  ultimately show ?thesis by (metis append_take_drop_id)
qed

lemma check_access_address:
  "check_access env rq cm = None \<Longrightarrow> ev_allowlist env \<noteq> [] \<Longrightarrow>
   list_ex (in_net (rq_ip rq)) (ev_allowlist env @ (if cm then members_ips env else []))"
  by (auto simp: check_access_def Let_def split: if_splits)

lemma mpp_action: "a \<in> set (snd (do_POST_mpp env rq)) \<Longrightarrow> \<exists>d. a = MppEvent d"
  by (auto simp: do_POST_mpp_def split: sum.splits option.splits if_splits)

lemma action_checked:
  assumes "a \<in> set (snd (handle_request env rq))" "parse_request rq \<noteq> ''POST_mpp''"
  shows "\<exists>cm. check_access env rq cm = None \<and> (cm \<or> parse_request rq = ''POST_failsafe'')"
  using assms unfolding handle_request_def Let_def by (auto split: if_splits dest!: access_checked_actions)

text \<open>A server with a password in a cluster of \<open>a\<close>, the leader, and \<open>b\<close>, which answers; and a request to it.\<close>

definition demo_api_cluster :: "unit cluster" where
  "demo_api_cluster = Cluster_empty\<lparr>c_initialize := Some ''1'',
     c_leader := Some \<lparr>l_version = PInt 1, l_session = PNone, l_member = demo_peer ''a''\<rparr>,
     c_members := [demo_peer ''a'', demo_peer ''b'']\<rparr>"

definition demo_env :: "unit api_env" where
  "demo_env = \<lparr>ev_auth_key = ''secret'', ev_allowlist = [\<lparr>net_version = 4, net_host_bits = 8, net_address = 0\<rparr>],
     ev_include_members = False, ev_protocol = ''http'',
     ev_verify_client = None, ev_resolve = (\<lambda>_. []), ev_workers = (\<lambda>_. []), ev_health = demo_api_node\<lparr>an_global := [], an_is_leader := True\<rparr>,
     ev_get_cluster = Some demo_api_cluster, ev_set_config = (\<lambda>_ _. True), ev_set_failover = True,
     ev_polls = (\<lambda>_. Some (demo_api_cluster\<lparr>c_leader := Some \<lparr>l_version = PInt 2, l_session = PNone, l_member = demo_peer ''b''\<rparr>\<rparr>)),
     ev_loop_wait = 10, ev_parse_date = (\<lambda>_. Inr (Aware 100)), ev_now = 50, ev_node = demo_node, ev_restart = (\<lambda>_. None),
     ev_schedule_restart = True, ev_delete_restart = True, ev_reinitialize = (\<lambda>_ _. None), ev_failsafe_mode = False,
     ev_update_failsafe = (\<lambda>_. Inr (Inr None)), ev_failsafe_key = None, ev_coordinator = True, ev_behave_windows = False,
     ev_report = (\<lambda>_. Json 200 (PDict []))\<rparr>"

definition demo_request :: "string \<Rightarrow> string option \<Rightarrow> pydict \<Rightarrow> http_request" where
  "demo_request path auth body = \<lparr>rq_method = ''POST'', rq_path = path, rq_query = [], rq_ip = IP 4 0, rq_client_cert = False,
     rq_authorization = auth, rq_content_length = Some ''9'', rq_read = (\<lambda>_. Some (PDict body))\<rparr>"

definition demo_switchover :: pydict where
  "demo_switchover = [(''leader'', PStr ''a''), (''candidate'', PStr ''b'')]"

text \<open>
  C19: a request that changes something has been authenticated. If a password is configured then a request on which the
  server writes to DCS, restarts, reinitializes, reloads or enters the failsafe mode carries it in its header, and with an
  allow list its address is on the list or, where members may call, resolved from a member; \<^verbatim>\<open>POST /mpp\<close> is the exception.
\<close>

theorem actions_authenticated:
  assumes "a \<in> set (snd (handle_request env rq))" "parse_request rq \<noteq> ''POST_mpp''" "ev_auth_key env \<noteq> []"
  shows "rq_authorization rq = Some (''Basic '' @ ev_auth_key env)
    \<and> (ev_allowlist env \<noteq> [] \<longrightarrow> list_ex (in_net (rq_ip rq)) (ev_allowlist env @ members_ips env))"
proof -
  obtain cm where cm: "check_access env rq cm = None" using action_checked [OF assms(1,2)] by blast
  have "list_ex (in_net (rq_ip rq)) (ev_allowlist env @ members_ips env)" if "ev_allowlist env \<noteq> []"
    using check_access_address [OF cm that] by (auto split: if_splits)
  then show ?thesis using check_access_authenticated [OF cm assms(3)] by blast
qed

theorem actions_authenticated_witness:
  "rq_authorization (demo_request ''/switchover'' (Some ''Basic secret'') demo_switchover) = Some (''Basic '' @ ev_auth_key demo_env)
   \<and> list_ex (in_net (rq_ip (demo_request ''/switchover'' (Some ''Basic secret'') demo_switchover)))
        (ev_allowlist demo_env @ members_ips demo_env)"
proof -
  have "FailoverKey (PStr ''a'') (PStr ''b'') None None
      \<in> set (snd (handle_request demo_env (demo_request ''/switchover'' (Some ''Basic secret'') demo_switchover)))" by code_simp
  moreover have "parse_request (demo_request ''/switchover'' (Some ''Basic secret'') demo_switchover) \<noteq> ''POST_mpp''" by code_simp
  moreover have "ev_auth_key demo_env \<noteq> []" "ev_allowlist demo_env \<noteq> []" by (simp_all add: demo_env_def)
  ultimately show ?thesis using actions_authenticated by blast
qed

text \<open>
  \<open>do_POST_mpp\<close> lacks the access check that \<open>do_POST_citus\<close> has, so an event sent to \<^verbatim>\<open>/mpp\<close> with no
  password is handled by the coordinator, while the same event sent to \<^verbatim>\<open>/citus\<close> is refused with 401.
\<close>

lemma mpp_event_unauthenticated:
  "snd (handle_request demo_env (demo_request ''/mpp'' None [(''type'', PStr ''before_demote'')]))
     = [MppEvent [(''type'', PStr ''before_demote'')]]
   \<and> handle_request demo_env (demo_request ''/citus'' None [(''type'', PStr ''before_demote'')])
     = ([Text 401 ''no auth header received''], [])"
  by code_simp

section \<open>The failover key\<close>

lemma some_good_ex: "some_good sts = Inr True \<Longrightarrow> \<exists>st \<in> set sts. failover_limitation st = Inr None"
  by (induction sts) (auto simp: bind_err_Inr split: if_splits)

lemma possible_sound:
  assumes "api_is_failover_possible env c ldr candidate act = Inr None"
  shows "(truthy ldr \<longrightarrow> (\<exists>l. c_leader c = Some l \<and> PStr (l_name l) = ldr))
    \<and> (\<exists>ms. failover_members (from_cluster (ev_global env) (Some c)) c candidate act = Inr (Inr ms)
        \<and> (\<exists>st \<in> set (fetch_nodes_statuses (ev_node env) ms). failover_limitation st = Inr None))"
  using assms some_good_ex
  by (fastforce simp: api_is_failover_possible_def Let_def bind_err_Inr split: if_splits option.splits sum.splits)

lemma parse_schedule_ok:
  "parse_schedule env v act = Inr (code, msg, t) \<Longrightarrow> str_or_empty msg = [] \<Longrightarrow> \<exists>s. t = Some (Aware s) \<and> ev_now env \<le> s"
  by (auto simp: parse_schedule_def str_or_empty_def split: sum.splits datetime.splits if_splits)

lemma failover_schedule_ok:
  assumes "failover_schedule env config act data v = Inr (code, [], t)"
  shows "data = [] \<and> (t \<noteq> None \<longrightarrow> act \<noteq> ''failover'' \<and> \<not> is_paused config \<and> (\<exists>s. t = Some (Aware s) \<and> ev_now env \<le> s))"
proof (cases "data = [] \<and> truthy v \<and> act \<noteq> ''failover'' \<and> \<not> is_paused config")
  case True
  then obtain m where "parse_schedule env v act = Inr (code, m, t)" "str_or_empty m = []"
    using assms by (cases "parse_schedule env v act") (auto simp: failover_schedule_def)
  then show ?thesis using parse_schedule_ok True by blast
next
  case False
  then show ?thesis using assms by (auto simp: failover_schedule_def split: if_splits)
qed

lemma map_sum_InrE: "map_sum id f r = Inr y \<Longrightarrow> (\<And>x. r = Inr x \<Longrightarrow> y = f x \<Longrightarrow> P) \<Longrightarrow> P"
  by (cases r) auto

lemma possible_message: "api_is_failover_possible env c ldr candidate act \<noteq> Inr (Some [])"
proof -
  have "failover_members config c candidate act \<noteq> Inr (Inl [])" for config
    by (auto simp: failover_members_def Let_def bind_err_Inr split: if_splits)
  then show ?thesis
    by (auto simp: api_is_failover_possible_def Let_def bind_err_Inr split: if_splits sum.splits)
qed

lemma failover_checks_sound:
  assumes "failover_checks env c act ldr candidate v = Inr (code, [], act', t)"
  defines "config \<equiv> from_cluster (ev_global env) (Some c)"
  shows "failover_missing act ldr candidate = []" "ldr \<noteq> candidate" "is_paused config \<longrightarrow> truthy candidate"
    "t \<noteq> None \<longrightarrow> act \<noteq> ''failover'' \<and> \<not> is_paused config \<and> (\<exists>s. t = Some (Aware s) \<and> ev_now env \<le> s)"
    "act' = (if act = ''failover'' \<and> truthy ldr then ''switchover'' else act)"
    "t = None \<longrightarrow> api_is_failover_possible env c ldr candidate act' = Inr None"
proof -
  let ?missing = "failover_missing act ldr candidate"
  obtain code0 d0 t0 where s: "failover_schedule env config act ?missing v = Inr (code0, d0, t0)"
    using assms(1) by (cases "failover_schedule env config act ?missing v") (auto simp: failover_checks_def Let_def config_def)
  define d1 where "d1 = (if d0 = [] \<and> is_paused config \<and> \<not> truthy candidate
    then ''Switchover is possible only to a specific candidate in a paused state'' else d0)"
  define d2 where "d2 = (if d1 = [] \<and> ldr = candidate then ''Switchover target and source are the same'' else d1)"
  define act2 where "act2 = (if act = ''failover'' \<and> truthy ldr then ''switchover'' else act)"
  have u: "(if d2 = [] \<and> t0 = None
      then map_sum id (\<lambda>r. case r of None \<Rightarrow> (code0, [], act2, t0) | Some msg \<Rightarrow> (Some 412, msg, act2, t0))
             (api_is_failover_possible env c ldr candidate act2)
      else Inr (code0, d2, act2, t0)) = Inr (code, [], act', t)"
    using assms(1) unfolding failover_checks_def Let_def config_def [symmetric] s bind_err_simps prod.case
    by (simp only: d1_def d2_def act2_def)
  have d2: "d2 = []" and t: "t0 = t" and act': "act' = act2"
    using u by (auto split: if_splits sum.splits option.splits elim!: map_sum_InrE)
  have d1: "d1 = []" and neq: "ldr \<noteq> candidate" using d2 by (auto simp: d2_def split: if_splits)
  have d0: "d0 = []" and cand: "is_paused config \<longrightarrow> truthy candidate" using d1 by (auto simp: d1_def split: if_splits)
  show "?missing = []" "t \<noteq> None \<longrightarrow> act \<noteq> ''failover'' \<and> \<not> is_paused config \<and> (\<exists>s. t = Some (Aware s) \<and> ev_now env \<le> s)"
    using failover_schedule_ok [OF s [unfolded d0 t]] by blast+
  show "ldr \<noteq> candidate" "is_paused config \<longrightarrow> truthy candidate" by (rule neq, rule cand)
  show "act' = (if act = ''failover'' \<and> truthy ldr then ''switchover'' else act)" by (simp add: act' act2_def)
  show "t = None \<longrightarrow> api_is_failover_possible env c ldr candidate act' = Inr None"
    using u d2 t act' possible_message [of env c ldr candidate act2] by (auto elim!: map_sum_InrE split: if_splits option.splits)
qed

text \<open>
  C18: a failover key is written only after the checks. When a request for \<open>act\<close> writes leader \<open>l\<close>, candidate \<open>m\<close> and schedule \<open>t\<close>,
  then a failover has a candidate and a switchover a leader, the two differ, and in a paused cluster a candidate is named. A scheduled
  one is a switchover outside pause for a time with zone that is not in the past. An immediate one names the leader
  the cluster has, and a member it may go to answered and is allowed to promote.
\<close>

theorem failover_key_checked:
  assumes "FailoverKey l m t ver \<in> set (snd (do_POST_failover env rq act))" "ev_get_cluster env = Some c"
  defines "config \<equiv> from_cluster (ev_global env) (Some c)"
  shows "failover_missing act l m = [] \<and> l \<noteq> m \<and> (is_paused config \<longrightarrow> truthy m)
    \<and> (case t of
         Some dt \<Rightarrow> act \<noteq> ''failover'' \<and> \<not> is_paused config \<and> (\<exists>s. dt = Aware s \<and> ev_now env \<le> s)
       | None \<Rightarrow> (truthy l \<longrightarrow> (\<exists>ld. c_leader c = Some ld \<and> PStr (l_name ld) = l))
           \<and> (\<exists>ms. failover_members config c m (if act = ''failover'' \<and> truthy l then ''switchover'' else act) = Inr (Inr ms)
                \<and> (\<exists>st \<in> set (fetch_nodes_statuses (ev_node env) ms). failover_limitation st = Inr None)))"
proof -
  obtain v code act' where ok: "failover_checks env c act l m v = Inr (code, [], act', t)"
    using assms(1,2) by (auto simp: do_POST_failover_def Let_def split: sum.splits if_splits)
  note checks = failover_checks_sound [OF ok, folded config_def]
  show ?thesis
    using checks possible_sound [of env c l m act', folded config_def] by (cases t) auto
qed

theorem failover_key_checked_witness:
  "failover_missing ''switchover'' (PStr ''a'') (PStr ''b'') = [] \<and> PStr ''a'' \<noteq> PStr ''b''
   \<and> (\<exists>ld. c_leader demo_api_cluster = Some ld \<and> PStr (l_name ld) = PStr ''a'')"
proof -
  have "FailoverKey (PStr ''a'') (PStr ''b'') None None
      \<in> set (snd (do_POST_failover demo_env (demo_request ''/switchover'' None demo_switchover) ''switchover''))" by code_simp
  moreover have "ev_get_cluster demo_env = Some demo_api_cluster" by (simp add: demo_env_def)
  ultimately show ?thesis using failover_key_checked [of "PStr ''a''" "PStr ''b''" None None] by fastforce
qed

text \<open>
  C34: the status of a scheduled switchover from a leader to itself is never set. A schedule that is valid
  leaves the status \<^verbatim>\<open>None\<close>, the refusal that target and source are the same does not set it either, and writing the response raises, although
  the comment before \<open>write_response\<close> says that the status is always overwritten.
\<close>

theorem scheduled_switchover_to_itself_crashes:
  assumes "read_json_content rq False = Inr [(''leader'', PStr x), (''candidate'', PStr x), (''scheduled_at'', v)]"
    and "x \<noteq> []" "truthy v" "ev_parse_date env v = Inr (Aware s)" "ev_now env \<le> s"
    and "ev_get_cluster env = Some c" "\<not> is_paused (from_cluster (ev_global env) (Some c))"
  shows "do_POST_failover env rq ''switchover'' = ([Crash], [])"
  using assms
  by (simp add: do_POST_failover_def failover_checks_def failover_schedule_def failover_missing_def parse_schedule_def
      pyget_def dict_get_default_def py_or_def str_or_empty_def Let_def)

theorem scheduled_switchover_to_itself_crashes_witness:
  "do_POST_failover demo_env (demo_request ''/switchover'' None
     [(''leader'', PStr ''a''), (''candidate'', PStr ''a''), (''scheduled_at'', PStr ''2030-01-01'')]) ''switchover'' = ([Crash], [])"
proof (rule scheduled_switchover_to_itself_crashes [where s = 100])
  show "read_json_content (demo_request ''/switchover'' None
     [(''leader'', PStr ''a''), (''candidate'', PStr ''a''), (''scheduled_at'', PStr ''2030-01-01'')]) False
     = Inr [(''leader'', PStr ''a''), (''candidate'', PStr ''a''), (''scheduled_at'', PStr ''2030-01-01'')]" by code_simp
  show "\<not> is_paused (from_cluster (ev_global demo_env) (Some demo_api_cluster))" by code_simp
qed (simp_all add: demo_env_def)

text \<open>
  C35: \<open>do_POST_reinitialize\<close> does not stop at a body it cannot read: the error is sent, and the node is
  reinitialized all the same, with a second response. (\<open>do_POST_restart\<close> returns in that case.)
\<close>

theorem reinitialize_despite_bad_body:
  assumes "read_json_content rq True = Inl e"
  shows "do_POST_reinitialize env rq =
    ([e, case ev_reinitialize env False False of None \<Rightarrow> Text 200 ''reinitialize started'' | Some msg \<Rightarrow> Text 503 msg],
     [Reinitialize False False])
    \<and> snd (do_POST_restart env rq) = []"
proof -
  have "parse_bool PNone = None" by code_simp
  then show ?thesis
    using assms by (simp add: do_POST_reinitialize_def do_POST_restart_def pyget_def dict_get_default_def Let_def)
qed

theorem reinitialize_despite_bad_body_witness:
  "snd (do_POST_reinitialize demo_env ((demo_request ''/reinitialize'' None [])\<lparr>rq_read := (\<lambda>_. None)\<rparr>)) = [Reinitialize False False]"
proof -
  have "read_json_content ((demo_request ''/reinitialize'' None [])\<lparr>rq_read := (\<lambda>_. None)\<rparr>) True = Inl (SendError 400)"
    by code_simp
  from reinitialize_despite_bad_body [OF this, of demo_env] show ?thesis by simp
qed

section \<open>Polling\<close>

lemma poll_loop_result:
  "poll_loop polls ldr m act is = (k, msg) \<Longrightarrow>
   k = 200 \<and> (\<exists>i \<in> set is. \<exists>c l. polls i = Some c \<and> c_leader c = Some l \<and> Some (l_name l) \<noteq> ldr) \<or> k = 503"
  by (induction "is") (auto simp: poll_step_def Let_def split: option.splits if_splits)

text \<open>The answer is a success only if a cluster with a new leader has been seen, within twice \<open>max(10, loop_wait)\<close> polls.\<close>

lemma poll_failover_result_sound:
  assumes "poll_failover_result env ldr m act = (200, msg)"
  shows "\<exists>i c l. int i < 2 * max 10 (ev_loop_wait env) \<and> ev_polls env i = Some c \<and> c_leader c = Some l \<and> Some (l_name l) \<noteq> ldr"
  using poll_loop_result [OF assms [unfolded poll_failover_result_def]] by (fastforce simp: zless_nat_eq_int_zless mult.commute)

end
