(* ===== verification/Validator.thy ===== *)
theory Validator
  imports CaseInsensitive Rewind
begin

text \<open>
  Validation of the configuration, \<^verbatim>\<open>patroni/validator.py\<close>: schemas, the engine that walks a configuration along
  a schema and fills in defaults, the validators of values, and the schema of Patroni. What validators find in the
  file system and on the network is an input. The engine is compared with a declarative reading of schemas.
\<close>

section \<open>Schemas\<close>

datatype ptype = TStr | TInt | TFloat | TBool | TList | TDict

fun isinstance :: "pyval \<Rightarrow> ptype \<Rightarrow> bool" where
  "isinstance (PStr _) t = (t = TStr)"
| "isinstance (PInt _) t = (t = TInt)"
| "isinstance (PBool _) t = (t = TBool \<or> t = TInt)"
| "isinstance (PFloat _) t = (t = TFloat)"
| "isinstance (PList _) t = (t = TList)"
| "isinstance (PDict _) t = (t = TDict)"
| "isinstance PNone t = False"

text \<open>Keys of a dictionary of a schema; \<open>OptionalKey\<close> may have a default.\<close>

datatype vkey = Key string | OptionalKey string "pyval option" | OrKey "string list" | AtMostOne "string list"

text \<open>
  Validators. A string stands for any string (\<open>VStr\<close>), a callable has perhaps an \<^verbatim>\<open>expected_type\<close> and tells whether it
  returns without an exception, a list has at most one element that counts, and \<open>VDirectory\<close> gives the messages
  for a path. A \<open>Case\<close> is only ever the value of a key.
\<close>

datatype validator = VStr | VType ptype | VCall "ptype option" "pyval \<Rightarrow> bool" | VDict "(vkey \<times> entry) list"
  | VList "validator list" | VOr "validator list" | VDirectory "string \<Rightarrow> string list"
and entry = Plain validator | Case "(string \<times> validator) list"

text \<open>A result without the value it is about, which is only printed.\<close>

record result =
  r_status :: bool
  r_error :: string
  r_level :: nat
  r_path :: string

definition Result :: "bool \<Rightarrow> string \<Rightarrow> nat \<Rightarrow> string \<Rightarrow> result" where
  "Result st e l p = \<lparr>r_status = st, r_error = (if st then [] else e), r_level = l, r_path = p\<rparr>"

definition get_type_name :: "ptype \<Rightarrow> string" where
  "get_type_name t = (case t of TStr \<Rightarrow> ''a string'' | TInt \<Rightarrow> ''an integer'' | TFloat \<Rightarrow> ''a number''
     | TBool \<Rightarrow> ''a boolean'' | TList \<Rightarrow> ''an array'' | TDict \<Rightarrow> ''a dictionary'')"

section \<open>The engine\<close>

definition sub_path :: "string \<Rightarrow> result \<Rightarrow> result" where
  "sub_path d r = r\<lparr>r_path := d @ (if r_path r \<noteq> [] then ''.'' @ r_path r else [])\<rparr>"

text \<open>\<open>_data_key\<close>\<close>

definition data_key :: "vkey \<Rightarrow> pydict \<Rightarrow> string list" where
  "data_key k data = (case k of
     OptionalKey s _ \<Rightarrow> [s]
   | Key s \<Rightarrow> [s]
   | OrKey args \<Rightarrow> if list_ex (dict_has data) args then filter (dict_has data) args else args
   | AtMostOne args \<Rightarrow> filter (dict_has data) args)"

text \<open>The end of \<open>iter_or\<close>: the failures of the lowest level, unless one of the results is a success.\<close>

fun lowest_level :: "nat \<Rightarrow> result list \<Rightarrow> result list" where
  "lowest_level max_level [] = []"
| "lowest_level max_level (v # vs) = (if r_level v > max_level then [] else v # lowest_level (r_level v) vs)"

definition or_results :: "result list list \<Rightarrow> result list" where
  "or_results rs =
     (let results = concat (map (\<lambda>r. if list_ex r_status r \<and> \<not> list_all r_status r
                                     then filter (\<lambda>x. \<not> r_status x) r else r) rs)
      in if list_ex r_status results then [] else lowest_level 3 (sort_key r_level results))"

text \<open>
  The default of a missing option is written into the configuration, so the engine returns the results and the
  configuration. A name the \<open>Case\<close> does not have raises in the code and is reported as an error here; \<open>schema_ok\<close> below excludes it.
\<close>

definition wrong_type :: "string \<Rightarrow> result list" where
  "wrong_type what = [Result False (''is not '' @ what) 1 []]"

type_synonym check = "pyval \<Rightarrow> result list \<times> pyval"

definition default_of :: "vkey \<Rightarrow> pyval option" where
  "default_of k = (case k of OptionalKey _ v \<Rightarrow> v | _ \<Rightarrow> None)"

definition is_optional :: "vkey \<Rightarrow> bool" where
  "is_optional k = (case k of OptionalKey _ _ \<Rightarrow> True | _ \<Rightarrow> False)"

text \<open>The body of \<open>iter_dict\<close> for one key of the configuration.\<close>

definition iter_key :: "(string \<Rightarrow> check) \<Rightarrow> vkey \<Rightarrow> string \<Rightarrow> pydict \<Rightarrow> result list \<times> pydict" where
  "iter_key f k d data =
     (case (case dict_get data d of Some v \<Rightarrow> Some v | None \<Rightarrow> default_of k) of
        None \<Rightarrow> (if is_optional k then [] else [Result False ''is not defined.'' 0 d], data)
      | Some v \<Rightarrow> (case f d v of (rs, x) \<Rightarrow> (map (sub_path d) rs, dict_set d x data)))"

primrec iter_keys :: "(string \<Rightarrow> check) \<Rightarrow> vkey \<Rightarrow> string list \<Rightarrow> pydict \<Rightarrow> result list \<times> pydict" where
  "iter_keys f k [] data = ([], data)"
| "iter_keys f k (d # ds) data = (case iter_key f k d data of
     (rs, data1) \<Rightarrow> (case iter_keys f k ds data1 of (rs', data2) \<Rightarrow> (rs @ rs', data2)))"

definition too_many :: "vkey \<Rightarrow> pydict \<Rightarrow> bool" where
  "too_many k data = (case k of AtMostOne _ \<Rightarrow> length (data_key k data) > 1 | _ \<Rightarrow> False)"

fun iter_dict :: "(vkey \<times> (string \<Rightarrow> check)) list \<Rightarrow> pydict \<Rightarrow> result list \<times> pydict" where
  "iter_dict [] data = ([], data)"
| "iter_dict ((k, f) # vs) data =
     (case (if too_many k data then ([Result False ''Multiple provided'' 0 []], data)
            else iter_keys f k (data_key k data) data) of
        (rs, data1) \<Rightarrow> (case iter_dict vs data1 of (rs', data2) \<Rightarrow> (rs @ rs', data2)))"

primrec iter_list :: "check \<Rightarrow> nat \<Rightarrow> pyval list \<Rightarrow> result list \<times> pyval list" where
  "iter_list f n [] = ([], [])"
| "iter_list f n (x # xs) = (case f x of
     (rs, x') \<Rightarrow> (case iter_list f (Suc n) xs of (rs', xs') \<Rightarrow> (map (sub_path (show_int (int n))) rs @ rs', x' # xs')))"

primrec iter_or :: "check list \<Rightarrow> pyval \<Rightarrow> result list list \<times> pyval" where
  "iter_or [] data = ([], data)"
| "iter_or (f # fs) data = (case f data of
     (rs, data1) \<Rightarrow> (case iter_or fs data1 of (rss, data2) \<Rightarrow> (rs # rss, data2)))"

definition validate_call :: "ptype option \<Rightarrow> (pyval \<Rightarrow> bool) \<Rightarrow> check" where
  "validate_call expected f data =
     (case expected of
        Some t \<Rightarrow> if isinstance data t then [Result (f data) ''didn't pass validation'' 0 []] else wrong_type (get_type_name t)
      | None \<Rightarrow> [Result (f data) ''didn't pass validation'' 0 []], data)"

definition validate_dict :: "(vkey \<times> (string \<Rightarrow> check)) list \<Rightarrow> check" where
  "validate_dict vs data = (case data of
     PDict d \<Rightarrow> (case iter_dict vs d of (rs, d') \<Rightarrow> (rs, PDict d'))
   | _ \<Rightarrow> (wrong_type ''a dictionary'', data))"

definition validate_list :: "check list \<Rightarrow> check" where
  "validate_list vs data = (case data of
     PList xs \<Rightarrow>
       (let empty = (if xs = [] then [Result False ''is an empty list'' 0 []] else []) in
        case vs of [] \<Rightarrow> (empty, data)
        | f # _ \<Rightarrow> (case iter_list f 0 xs of (rs, xs') \<Rightarrow> (empty @ rs, PList xs')))
   | _ \<Rightarrow> (wrong_type ''a list'', data))"

primrec validate :: "validator \<Rightarrow> check" and validate_entry :: "entry \<Rightarrow> string \<Rightarrow> check" where
  "validate VStr = (\<lambda>data. ([Result (isinstance data TStr) ''is not a string'' 1 []], data))"
| "validate (VType t) = (\<lambda>data. ([Result (isinstance data t) (''is not '' @ get_type_name t) 1 []], data))"
| "validate (VCall expected f) = validate_call expected f"
| "validate (VDict vs) = validate_dict (map (map_prod id validate_entry) vs)"
| "validate (VList vs) = validate_list (map validate vs)"
| "validate (VOr vs) = (\<lambda>data. case iter_or (map validate vs) data of (rs, data') \<Rightarrow> (or_results rs, data'))"
| "validate (VDirectory f) = (\<lambda>data. case data of
     PStr path \<Rightarrow> (map (\<lambda>e. Result False e 0 []) (f path), data)
   | _ \<Rightarrow> ([], data))"
| "validate_entry (Plain v) = (\<lambda>d. validate v)"
| "validate_entry (Case cs) = (\<lambda>d data. case map_of (map (map_prod id validate) cs) d of
     Some f \<Rightarrow> f data
   | None \<Rightarrow> ([Result False ''KeyError'' 0 []], data))"

definition schema_call :: "validator \<Rightarrow> pyval \<Rightarrow> result list" where
  "schema_call v data = filter (\<lambda>r. \<not> r_status r) (fst (validate v data))"

section \<open>What a schema means\<close>

definition value_of :: "vkey \<Rightarrow> pydict \<Rightarrow> string \<Rightarrow> pyval option" where
  "value_of k data s = (case dict_get data s of Some v \<Rightarrow> Some v | None \<Rightarrow> default_of k)"

definition key_conforms :: "(string \<Rightarrow> pyval \<Rightarrow> bool) \<Rightarrow> vkey \<Rightarrow> pydict \<Rightarrow> bool" where
  "key_conforms p k data =
     (let fits = (\<lambda>s. case value_of k data s of None \<Rightarrow> True | Some v \<Rightarrow> p s v) in case k of
        Key s \<Rightarrow> dict_has data s \<and> fits s
      | OptionalKey s _ \<Rightarrow> fits s
      | OrKey args \<Rightarrow> list_ex (dict_has data) args \<and> list_all fits args
      | AtMostOne args \<Rightarrow> length (filter (dict_has data) args) \<le> 1 \<and> list_all fits args)"

primrec conforms :: "validator \<Rightarrow> pyval \<Rightarrow> bool" and conforms_entry :: "entry \<Rightarrow> string \<Rightarrow> pyval \<Rightarrow> bool" where
  "conforms VStr = (\<lambda>data. isinstance data TStr)"
| "conforms (VType t) = (\<lambda>data. isinstance data t)"
| "conforms (VCall expected f) = (\<lambda>data. (case expected of None \<Rightarrow> True | Some t \<Rightarrow> isinstance data t) \<and> f data)"
| "conforms (VDict vs) = (\<lambda>data. case data of
     PDict d \<Rightarrow> list_all (\<lambda>(k, p). key_conforms p k d) (map (map_prod id conforms_entry) vs)
   | _ \<Rightarrow> False)"
| "conforms (VList vs) = (\<lambda>data. case data of
     PList xs \<Rightarrow> xs \<noteq> [] \<and> (case map conforms vs of [] \<Rightarrow> True | p # _ \<Rightarrow> list_all p xs)
   | _ \<Rightarrow> False)"
| "conforms (VOr vs) = (\<lambda>data. list_ex (\<lambda>p. p data) (map conforms vs))"
| "conforms (VDirectory f) = (\<lambda>data. case data of PStr path \<Rightarrow> f path = [] | _ \<Rightarrow> True)"
| "conforms_entry (Plain v) = (\<lambda>d. conforms v)"
| "conforms_entry (Case cs) = (\<lambda>d data. case map_of (map (map_prod id conforms) cs) d of Some p \<Rightarrow> p data | None \<Rightarrow> False)"

definition key_names :: "vkey \<Rightarrow> string list" where
  "key_names k = (case k of Key s \<Rightarrow> [s] | OptionalKey s _ \<Rightarrow> [s] | OrKey args \<Rightarrow> args | AtMostOne args \<Rightarrow> args)"

text \<open>Validators that yield at least one result for any value and leave it as it is.\<close>

primrec plain :: "validator \<Rightarrow> bool" where
  "plain VStr = True"
| "plain (VType t) = True"
| "plain (VCall expected f) = True"
| "plain (VDict vs) = False"
| "plain (VList vs) = (case map plain vs of [] \<Rightarrow> False | b # _ \<Rightarrow> b)"
| "plain (VOr vs) = False"
| "plain (VDirectory f) = False"

definition key_ok :: "vkey \<Rightarrow> entry \<Rightarrow> bool" where
  "key_ok k e = (case e of
     Plain _ \<Rightarrow> key_names k \<noteq> []
   | Case cs \<Rightarrow> key_names k \<noteq> [] \<and> set (key_names k) \<subseteq> set (map fst cs)
       \<and> (case k of OrKey _ \<Rightarrow> True | AtMostOne _ \<Rightarrow> True | _ \<Rightarrow> False))"

text \<open>
  Names occur once in a dictionary, a \<open>Case\<close> belongs to a key that names its alternatives, and the alternatives of an \<open>Or\<close>
  are plain.
\<close>

primrec schema_ok :: "validator \<Rightarrow> bool" and entry_ok :: "entry \<Rightarrow> bool" where
  "schema_ok VStr = True"
| "schema_ok (VType t) = True"
| "schema_ok (VCall expected f) = True"
| "schema_ok (VDict vs) = (distinct (concat (map (key_names \<circ> fst) vs)) \<and> list_all (\<lambda>(k, e). key_ok k e) vs
     \<and> list_all snd (map (map_prod id entry_ok) vs))"
| "schema_ok (VList vs) = list_all id (map schema_ok vs)"
| "schema_ok (VOr vs) = (vs \<noteq> [] \<and> list_all plain vs \<and> list_all id (map schema_ok vs))"
| "schema_ok (VDirectory f) = True"
| "entry_ok (Plain v) = schema_ok v"
| "entry_ok (Case cs) = list_all snd (map (map_prod id schema_ok) cs)"

section \<open>The engine decides conformance\<close>

abbreviation passes :: "result list \<Rightarrow> bool" where
  "passes rs \<equiv> list_all r_status rs"

lemma sub_path_status [simp]: "r_status (sub_path d r) = r_status r"
  by (simp add: sub_path_def)

lemma sub_path_level [simp]: "r_level (sub_path d r) = r_level r"
  by (simp add: sub_path_def)

lemma Result_simps [simp]: "r_status (Result st e l p) = st" "r_level (Result st e l p) = l"
  by (simp_all add: Result_def)

lemma passes_sub_path [simp]: "passes (map (sub_path d) rs) = passes rs"
  by (induction rs) simp_all

lemma wrong_type_fails [simp]: "passes (wrong_type w) = False" "wrong_type w \<noteq> []" "r \<in> set (wrong_type w) \<Longrightarrow> r_level r = 1"
  by (auto simp: wrong_type_def)

lemma iter_key_correct:
  assumes "\<And>d v. passes (fst (f d v)) = p d v"
  shows "passes (fst (iter_key f k d data)) = (case value_of k data d of None \<Rightarrow> is_optional k | Some v \<Rightarrow> p d v)"
    and "s \<noteq> d \<Longrightarrow> dict_get (snd (iter_key f k d data)) s = dict_get data s"
  using assms
  by (auto simp: iter_key_def value_of_def list_all_iff update_conv' split: option.splits prod.splits) (metis fst_conv)+

lemma iter_keys_correct:
  assumes "\<And>d v. passes (fst (f d v)) = p d v" "distinct ds"
  shows "passes (fst (iter_keys f k ds data)) = (\<forall>d \<in> set ds. case value_of k data d of None \<Rightarrow> is_optional k | Some v \<Rightarrow> p d v)"
    and "s \<notin> set ds \<Longrightarrow> dict_get (snd (iter_keys f k ds data)) s = dict_get data s"
proof -
  have "passes (fst (iter_keys f k ds data)) = (\<forall>d \<in> set ds. case value_of k data d of None \<Rightarrow> is_optional k | Some v \<Rightarrow> p d v)
    \<and> (\<forall>s. s \<notin> set ds \<longrightarrow> dict_get (snd (iter_keys f k ds data)) s = dict_get data s)"
    using assms(2)
  proof (induction ds arbitrary: data)
    case (Cons d ds)
    obtain rs data1 where key: "iter_key f k d data = (rs, data1)" by (cases "iter_key f k d data")
    have rs: "passes rs = (case value_of k data d of None \<Rightarrow> is_optional k | Some v \<Rightarrow> p d v)"
      and same: "\<And>s. s \<noteq> d \<Longrightarrow> dict_get data1 s = dict_get data s"
      using iter_key_correct [of f p, OF assms(1)] key by (metis fst_conv, metis snd_conv)
    have "value_of k data1 s = value_of k data s" if "s \<in> set ds" for s
    proof -
      have "s \<noteq> d" using that Cons.prems by auto
      then show ?thesis by (simp add: value_of_def same)
    qed
    then show ?case
      using Cons.IH [of data1] Cons.prems rs same by (auto simp: key split: prod.splits)
  qed simp
  then show "passes (fst (iter_keys f k ds data)) = (\<forall>d \<in> set ds. case value_of k data d of None \<Rightarrow> is_optional k | Some v \<Rightarrow> p d v)"
    "s \<notin> set ds \<Longrightarrow> dict_get (snd (iter_keys f k ds data)) s = dict_get data s"
    by blast+
qed

text \<open>One key of a schema: the step of \<open>iter_dict\<close>.\<close>

definition dict_step :: "vkey \<times> (string \<Rightarrow> check) \<Rightarrow> pydict \<Rightarrow> result list \<times> pydict" where
  "dict_step kf data = (case kf of (k, f) \<Rightarrow>
     if too_many k data then ([Result False ''Multiple provided'' 0 []], data) else iter_keys f k (data_key k data) data)"

lemma iter_dict_step:
  "iter_dict (kf # vs) data = (case dict_step kf data of
     (rs, data1) \<Rightarrow> (case iter_dict vs data1 of (rs', data2) \<Rightarrow> (rs @ rs', data2)))"
  by (cases kf) (simp add: dict_step_def)

lemma dict_step_correct:
  assumes "\<And>d v. passes (fst (f d v)) = p d v" "distinct (key_names k)" "key_names k \<noteq> []"
  shows "passes (fst (dict_step (k, f) data)) = key_conforms p k data"
    and "s \<notin> set (key_names k) \<Longrightarrow> dict_get (snd (dict_step (k, f) data)) s = dict_get data s"
proof -
  have ds: "distinct (data_key k data)" "set (data_key k data) \<subseteq> set (key_names k)"
    using assms(2) by (auto simp: data_key_def key_names_def split: vkey.splits)
  note keys = iter_keys_correct [of f p, OF assms(1) ds(1)]
  show "dict_get (snd (dict_step (k, f) data)) s = dict_get data s" if "s \<notin> set (key_names k)"
    using keys(2) [of s] ds(2) that by (auto simp: dict_step_def)
  have "passes (fst (dict_step (k, f) data)) = (\<not> too_many k data
      \<and> (\<forall>d \<in> set (data_key k data). case value_of k data d of None \<Rightarrow> is_optional k | Some v \<Rightarrow> p d v))"
    by (simp add: dict_step_def keys(1))
  also have "\<dots> = key_conforms p k data"
  proof (cases k)
    case (OrKey args)
    then have "hd args \<in> set args" using assms(3) by (simp add: key_names_def)
    then show ?thesis
      by (auto simp: OrKey too_many_def key_conforms_def data_key_def value_of_def default_of_def is_optional_def
          dict_has_get list_all_iff list_ex_iff Let_def split: option.splits)
  qed (auto simp: too_many_def key_conforms_def data_key_def value_of_def default_of_def is_optional_def
      dict_has_get list_all_iff Let_def split: option.splits)
  finally show "passes (fst (dict_step (k, f) data)) = key_conforms p k data" .
qed

lemma key_conforms_cong:
  assumes "\<And>s. s \<in> set (key_names k) \<Longrightarrow> dict_get d s = dict_get d' s"
  shows "key_conforms p k d = key_conforms p k d'"
proof -
  have has: "dict_has d s = dict_has d' s" and val: "value_of k d s = value_of k d' s" if "s \<in> set (key_names k)" for s
    using assms [OF that] by (simp_all add: dict_has_get value_of_def)
  have "filter (dict_has d) (key_names k) = filter (dict_has d') (key_names k)"
    using has by (rule filter_cong [OF refl])
  then show ?thesis
    using has val by (cases k) (auto simp: key_conforms_def key_names_def list_all_iff list_ex_iff Let_def)
qed

lemma iter_dict_correct:
  assumes "\<And>k e d v. (k, e) \<in> set vs \<Longrightarrow> passes (fst (chk e d v)) = P e d v"
    and "distinct (concat (map (key_names \<circ> fst) vs))" "list_all (\<lambda>(k, e). key_names k \<noteq> []) vs"
  shows "passes (fst (iter_dict (map (map_prod id chk) vs) data)) = list_all (\<lambda>(k, p). key_conforms p k data) (map (map_prod id P) vs)"
  using assms
proof (induction vs arbitrary: data)
  case (Cons ke vs)
  obtain k e where ke: "ke = (k, e)" by (cases ke)
  obtain rs data1 where step: "dict_step (k, chk e) data = (rs, data1)" by (cases "dict_step (k, chk e) data")
  have names: "distinct (key_names k)" "key_names k \<noteq> []" using Cons.prems(2,3) ke by auto
  have f: "passes (fst (chk e d v)) = P e d v" for d v using Cons.prems(1) [of k e] ke by simp
  have rs: "passes rs = key_conforms (P e) k data"
    and same: "\<And>s. s \<notin> set (key_names k) \<Longrightarrow> dict_get data1 s = dict_get data s"
    using dict_step_correct [where f = "chk e" and p = "P e" and data = data, OF f names] step by (metis fst_conv, metis snd_conv)
  have "key_conforms (P e') k' data1 = key_conforms (P e') k' data" if "(k', e') \<in> set vs" for k' e'
  proof (rule key_conforms_cong)
    fix s assume "s \<in> set (key_names k')"
    then have "s \<notin> set (key_names k)" using Cons.prems(2) that ke by force
    then show "dict_get data1 s = dict_get data s" by (rule same)
  qed
  then have "list_all (\<lambda>(k, p). key_conforms p k data1) (map (map_prod id P) vs)
      = list_all (\<lambda>(k, p). key_conforms p k data) (map (map_prod id P) vs)"
    by (fastforce simp: list_all_iff)
  moreover have "passes (fst (iter_dict (map (map_prod id chk) vs) data1)) = list_all (\<lambda>(k, p). key_conforms p k data1) (map (map_prod id P) vs)"
    by (rule Cons.IH) (use Cons.prems in auto)
  ultimately have "passes (fst (iter_dict (map (map_prod id chk) vs) data1)) = list_all (\<lambda>(k, p). key_conforms p k data) (map (map_prod id P) vs)"
    by simp
  then show ?case
    by (simp add: ke iter_dict_step step rs case_prod_unfold id_def del: iter_dict.simps)
qed simp

lemma iter_list_correct:
  assumes "\<And>x. passes (fst (f x)) = p x"
  shows "passes (fst (iter_list f n xs)) = list_all p xs"
proof (induction xs arbitrary: n)
  case (Cons x xs)
  then show ?case using assms [of x] by (simp add: case_prod_unfold)
qed simp

lemma lowest_level_hd: "rs \<noteq> [] \<Longrightarrow> r_level (hd rs) \<le> n \<Longrightarrow> hd rs \<in> set (lowest_level n rs)"
  by (cases rs) auto

lemma lowest_level_subset: "set (lowest_level n rs) \<subseteq> set rs"
  by (induction n rs rule: lowest_level.induct) auto

lemma or_results_correct:
  assumes "rs \<noteq> []" "\<And>r. r \<in> set rs \<Longrightarrow> r \<noteq> []" "\<And>r x. r \<in> set rs \<Longrightarrow> x \<in> set r \<Longrightarrow> r_level x \<le> 1"
  shows "passes (or_results rs) = list_ex passes rs"
proof -
  define part where "part = (\<lambda>r. if list_ex r_status r \<and> \<not> passes r then filter (\<lambda>x. \<not> r_status x) r else r)"
  define results where "results = concat (map part rs)"
  have out: "or_results rs = (if list_ex r_status results then [] else lowest_level 3 (sort_key r_level results))"
    by (simp add: or_results_def results_def part_def Let_def)
  have part_ex: "list_ex r_status (part r) = passes r" if "r \<in> set rs" for r
    using assms(2) [OF that] by (cases r) (auto simp: part_def list_ex_iff list_all_iff)
  then have ex: "list_ex r_status results = list_ex passes rs"
    by (auto simp: results_def list_ex_iff)
  show ?thesis
  proof (cases "list_ex passes rs")
    case False
    have "part (hd rs) \<noteq> []" using assms(1) assms(2) [of "hd rs"]
      by (auto simp: part_def filter_empty_conv list_all_iff)
    then have ne: "sort_key r_level results \<noteq> []" using assms(1)
      by (cases rs) (auto simp: results_def simp flip: set_empty)
    have level: "r_level x \<le> 1" if "x \<in> set results" for x
      using that assms(3) by (auto simp: results_def part_def split: if_splits)
    let ?h = "hd (sort_key r_level results)"
    have h: "?h \<in> set results" using ne by (metis list.set_sel(1) set_sort)
    then have "?h \<in> set (lowest_level 3 (sort_key r_level results))"
      using lowest_level_hd [OF ne, of 3] level [OF h] by simp
    moreover have "\<not> r_status ?h" using h False ex by (auto simp: list_ex_iff)
    ultimately show ?thesis using False ex by (auto simp: out list_all_iff)
  qed (simp add: out ex)
qed

lemma plain_results:
  "plain v \<Longrightarrow> fst (validate v data) \<noteq> [] \<and> (\<forall>r \<in> set (fst (validate v data)). r_level r \<le> 1) \<and> snd (validate v data) = data"
proof (induction v arbitrary: data rule: validator.induct [where ?P2.0 = "\<lambda>_. True"])
  case (VList vs)
  then obtain v ws where vs: "vs = v # ws" "plain v" by (cases vs) auto
  have elem: "fst (validate v x) \<noteq> [] \<and> (\<forall>r \<in> set (fst (validate v x)). r_level r \<le> 1) \<and> snd (validate v x) = x" for x
    using VList.IH [of v] vs by simp
  have "snd (iter_list (validate v) n xs) = xs \<and> (\<forall>r \<in> set (fst (iter_list (validate v) n xs)). r_level r \<le> 1)
      \<and> (xs \<noteq> [] \<longrightarrow> fst (iter_list (validate v) n xs) \<noteq> [])" for n xs
    using elem by (induction xs arbitrary: n) (auto simp: case_prod_unfold)
  then show ?case
    by (cases data) (auto simp: vs validate_list_def Let_def case_prod_unfold)
qed (auto simp: validate_call_def split: option.splits if_splits)

lemma iter_or_plain:
  "list_all plain vs \<Longrightarrow> iter_or (map validate vs) data = (map (\<lambda>v. fst (validate v data)) vs, data)"
  by (induction vs) (simp_all add: case_prod_unfold plain_results)

lemma map_of_map_prod: "map_of (map (map_prod id f) xs) k = map_option f (map_of xs k)"
  by (induction xs) auto

text \<open>Both halves of the correctness by structural induction.\<close>

lemma validate_correct:
  "schema_ok v \<Longrightarrow> passes (fst (validate v data)) = conforms v data"
  "entry_ok e \<Longrightarrow> passes (fst (validate_entry e d data)) = conforms_entry e d data"
proof (induction v and e arbitrary: data and d data)
  case (VCall expected f)
  then show ?case by (auto simp: validate_call_def split: option.splits if_splits)
next
  case (VDict vs)
  have "passes (fst (validate_entry e d v)) = conforms_entry e d v" if "(k, e) \<in> set vs" for k e d v
  proof -
    have "entry_ok e" using VDict.prems that by (force simp: list_all_iff)
    then show ?thesis using VDict.IH [of "(k, e)" e] that by simp
  qed
  moreover have "list_all (\<lambda>(k, e). key_names k \<noteq> []) vs"
    using VDict.prems by (auto simp: list_all_iff key_ok_def split: entry.splits)
  ultimately have "passes (fst (iter_dict (map (map_prod id validate_entry) vs) dt))
      = list_all (\<lambda>(k, p). key_conforms p k dt) (map (map_prod id conforms_entry) vs)" for dt
    using VDict.prems by (intro iter_dict_correct) auto
  then show ?case
    by (cases data) (simp_all add: validate_dict_def case_prod_unfold)
next
  case (VList vs)
  show ?case
  proof (cases vs)
    case (Cons v ws)
    have "passes (fst (validate v x)) = conforms v x" for x using VList.IH [of v] VList.prems Cons by simp
    then have "passes (fst (iter_list (validate v) n xs)) = list_all (conforms v) xs" for n xs
      by (rule iter_list_correct)
    then show ?thesis
      by (cases data) (auto simp: Cons validate_list_def Let_def case_prod_unfold)
  qed (cases data; simp add: validate_list_def Let_def)
next
  case (VOr vs)
  let ?rs = "map (\<lambda>v. fst (validate v data)) vs"
  have p: "list_all plain vs" "vs \<noteq> []" using VOr.prems by auto
  have "passes (or_results ?rs) = list_ex passes ?rs"
    using p plain_results by (intro or_results_correct) (auto simp: list_all_iff)
  also have "\<dots> = list_ex (\<lambda>v. conforms v data) vs"
    using VOr.IH VOr.prems by (auto simp: list_ex_iff list_all_iff)
  finally show ?case using iter_or_plain [OF p(1), of data] by (simp add: list_ex_iff)
next
  case (VDirectory f)
  then show ?case by (cases data) (auto simp: list_all_iff)
next
  case (Case cs)
  show ?case
  proof (cases "map_of cs d")
    case (Some v)
    then have "(d, v) \<in> set cs" "schema_ok v" using Case.prems by (auto simp: list_all_iff dest!: map_of_SomeD)
    then show ?thesis using Case.IH [of "(d, v)" v] by (simp add: map_of_map_prod Some)
  qed (simp add: map_of_map_prod)
qed auto

section \<open>Validators of values\<close>

text \<open>\<^verbatim>\<open>split_host_port\<close> of \<^verbatim>\<open>patroni/utils.py\<close>\<close>

definition split_host_port :: "string \<Rightarrow> int option \<Rightarrow> py_error + (string \<times> int)" where
  "split_host_port v default_port =
     (let colon = (CHR '':'' \<in> set v);
          host = (if colon then fst (rsplit1 (CHR '':'') v) else v);
          port = (if colon then snd (rsplit1 (CHR '':'') v) else case default_port of None \<Rightarrow> ''None'' | Some n \<Rightarrow> show_int n);
          host = (if CHR '':'' \<in> set host
                  then join '','' (map (\<lambda>h. strip_chars ''[]'' (strip h)) (split_on (CHR '','') host)) else host)
      in map_sum id (\<lambda>n. (host, n)) (py_int (PStr port)))"

definition validate_connect_address :: "pyval \<Rightarrow> bool" where
  "validate_connect_address v = (case v of
     PStr address \<Rightarrow> (case split_host_port address (Some 1) of
         Inr (host, _) \<Rightarrow> host \<notin> {''127.0.0.1'', ''0.0.0.0'', ''*'', ''::1'', ''localhost''}
       | Inl _ \<Rightarrow> False)
   | _ \<Rightarrow> False)"

definition validate_log_field :: "pyval \<Rightarrow> bool" where
  "validate_log_field v = (case v of
     PStr _ \<Rightarrow> True
   | PDict d \<Rightarrow> length d = 1 \<and> isinstance (snd (hd d)) TStr
   | _ \<Rightarrow> False)"

definition validate_log_format :: "pyval \<Rightarrow> bool" where
  "validate_log_format v = (case v of
     PStr _ \<Rightarrow> True
   | PList xs \<Rightarrow> xs \<noteq> [] \<and> list_all validate_log_field xs
   | _ \<Rightarrow> False)"

text \<open>\<open>IntValidator\<close> with \<^verbatim>\<open>raise_assert\<close>: limits, base unit and alignment.\<close>

definition IntValidator :: "int option \<Rightarrow> int option \<Rightarrow> string option \<Rightarrow> int option \<Rightarrow> pyval \<Rightarrow> bool" where
  "IntValidator minimum maximum base_unit aligned v = (case parse_int v base_unit of
     Inr (Some n) \<Rightarrow> (case minimum of None \<Rightarrow> True | Some k \<Rightarrow> n \<ge> k) \<and> (case maximum of None \<Rightarrow> True | Some k \<Rightarrow> n \<le> k)
       \<and> (case aligned of None \<Rightarrow> True | Some k \<Rightarrow> n mod k = 0)
   | _ \<Rightarrow> False)"

definition EnumValidator :: "string list \<Rightarrow> bool \<Rightarrow> pyval \<Rightarrow> bool" where
  "EnumValidator allowed_values case_sensitive v = (case v of
     PStr s \<Rightarrow> if case_sensitive then s \<in> set allowed_values else lower s \<in> set (map lower allowed_values)
   | _ \<Rightarrow> False)"

definition validate_watchdog_mode :: "pyval \<Rightarrow> bool" where
  "validate_watchdog_mode v \<longleftrightarrow> v = PBool False \<or> v \<in> {PStr ''off'', PStr ''automatic'', PStr ''required''}"

text \<open>
  What is found in the system: \<open>sy_host_port listen multiple\<close> is \<^verbatim>\<open>validate_host_port\<close>, \<open>sy_bin_dir\<close> the messages of \<open>BinDirectory\<close>, and
  \<open>sy_dcs\<close> the modules in \<^verbatim>\<open>patroni/dcs\<close>.
\<close>

record system =
  sy_host_port :: "bool \<Rightarrow> bool \<Rightarrow> pyval \<Rightarrow> bool"
  sy_ipv4 :: "pyval \<Rightarrow> bool"
  sy_ipv6 :: "pyval \<Rightarrow> bool"
  sy_data_dir :: "pyval \<Rightarrow> bool"
  sy_binary_name :: "pyval \<Rightarrow> bool"
  sy_bin_dir :: "string \<Rightarrow> string list"
  sy_dcs :: "string list"

definition validate_host_port_list :: "system \<Rightarrow> pyval \<Rightarrow> bool" where
  "validate_host_port_list sys v = (case v of PList xs \<Rightarrow> list_all (sy_host_port sys False False) xs | _ \<Rightarrow> False)"

definition comma_separated_host_port :: "system \<Rightarrow> pyval \<Rightarrow> bool" where
  "comma_separated_host_port sys v = (case v of
     PStr s \<Rightarrow> validate_host_port_list sys (PList (map (PStr \<circ> strip) (split_on (CHR '','') s)))
   | _ \<Rightarrow> False)"

section \<open>The schema of Patroni\<close>

abbreviation opt :: "string \<Rightarrow> validator \<Rightarrow> vkey \<times> entry" where
  "opt s v \<equiv> (OptionalKey s None, Plain v)"

abbreviation req :: "string \<Rightarrow> validator \<Rightarrow> vkey \<times> entry" where
  "req s v \<equiv> (Key s, Plain v)"

abbreviation int_range :: "int option \<Rightarrow> int option \<Rightarrow> validator" where
  "int_range lo hi \<equiv> VCall None (IntValidator lo hi None None)"

abbreviation typed_range :: "int option \<Rightarrow> int option \<Rightarrow> validator" where
  "typed_range lo hi \<equiv> VCall (Some TInt) (IntValidator lo hi None None)"

abbreviation enum :: "string list \<Rightarrow> bool \<Rightarrow> validator" where
  "enum xs cs \<equiv> VCall None (EnumValidator xs cs)"

abbreviation strs :: "string list \<Rightarrow> (vkey \<times> entry) list" where
  "strs \<equiv> map (\<lambda>s. opt s (VType TStr))"

definition userattributes :: validator where
  "userattributes = VDict [req ''username'' VStr, opt ''password'' VStr]"

definition hosts_validator :: "system \<Rightarrow> validator" where
  "hosts_validator sys = VOr [VCall (Some TStr) (comma_separated_host_port sys), VList [VCall None (sy_host_port sys False False)]]"

definition connect_address :: validator where
  "connect_address = VCall (Some TStr) validate_connect_address"

definition listen_address :: "system \<Rightarrow> bool \<Rightarrow> validator" where
  "listen_address sys multiple = VCall (Some TStr) (sy_host_port sys True multiple)"

definition validate_etcd :: "system \<Rightarrow> validator" where
  "validate_etcd sys = VDict ((OrKey [''host'', ''hosts'', ''srv'', ''srv_suffix'', ''url'', ''proxy''],
     Case [(''host'', VCall None (sy_host_port sys False False)), (''hosts'', hosts_validator sys), (''srv'', VType TStr),
       (''srv_suffix'', VType TStr), (''url'', VType TStr), (''proxy'', VType TStr)])
     # strs [''protocol'', ''username'', ''password'', ''cacert'', ''cert'', ''key''])"

definition schema_log :: validator where
  "schema_log = VDict [opt ''type'' (enum [''plain'', ''json''] True),
     opt ''level'' (enum [''DEBUG'', ''INFO'', ''WARN'', ''WARNING'', ''ERROR'', ''FATAL'', ''CRITICAL''] True),
     opt ''traceback_level'' (enum [''DEBUG'', ''ERROR''] False), opt ''format'' (VCall None validate_log_format),
     opt ''dateformat'' (VType TStr), opt ''static_fields'' (VType TDict), opt ''max_queue_size'' (VType TInt), opt ''dir'' (VType TStr),
     opt ''file_num'' (VType TInt), opt ''file_size'' (VType TInt), opt ''mode'' (typed_range (Some 0) (Some 511)),
     opt ''loggers'' (VType TDict), opt ''deduplicate_heartbeat_logs'' (VType TBool)]"

definition schema_ctl :: validator where
  "schema_ctl = VDict (opt ''insecure'' (VType TBool) # strs [''cacert'', ''certfile'', ''keyfile'', ''keyfile_password''])"

definition schema_restapi :: "system \<Rightarrow> validator" where
  "schema_restapi sys = VDict ([opt ''thread_pool_size'' (typed_range (Some 5) None), req ''listen'' (listen_address sys False),
     req ''connect_address'' connect_address,
     opt ''authentication'' (VDict [req ''username'' (VType TStr), req ''password'' (VType TStr)])]
     @ strs [''certfile'', ''keyfile'', ''keyfile_password'', ''cafile'', ''ciphers''] @
     [opt ''verify_client'' (enum [''none'', ''optional'', ''required''] True), opt ''allowlist'' (VList [VType TStr]),
     opt ''allowlist_include_members'' (VType TBool), opt ''http_extra_headers'' (VType TDict), opt ''https_extra_headers'' (VType TDict),
     opt ''request_queue_size'' (typed_range (Some 0) (Some 4096)),
     opt ''server_tokens'' (enum [''minimal'', ''productonly'', ''original''] False)])"

definition schema_dcs_postgresql :: validator where
  "schema_dcs_postgresql = VDict [opt ''parameters'' (VDict [opt ''max_connections'' (int_range (Some 1) (Some 262143)),
       opt ''max_locks_per_transaction'' (int_range (Some 10) (Some 2147483647)),
       opt ''max_prepared_transactions'' (int_range (Some 0) (Some 262143)),
       opt ''max_replication_slots'' (int_range (Some 0) (Some 262143)),
       opt ''max_wal_senders'' (int_range (Some 0) (Some 262143)), opt ''max_worker_processes'' (int_range (Some 0) (Some 262143))]),
     opt ''use_pg_rewind'' (VType TBool), opt ''pg_hba'' (VList [VType TStr]), opt ''pg_ident'' (VList [VType TStr]),
     opt ''pg_ctl_timeout'' (int_range (Some 0) None), opt ''use_slots'' (VType TBool)]"

definition schema_standby_cluster :: validator where
  "schema_standby_cluster = VDict [(OrKey [''host'', ''port'', ''restore_command''],
       Case [(''host'', VType TStr), (''port'', typed_range None (Some 65535)), (''restore_command'', VType TStr)]),
     opt ''primary_slot_name'' (VType TStr), opt ''create_replica_methods'' (VList [VType TStr]),
     opt ''archive_cleanup_command'' (VType TStr), opt ''recovery_min_apply_delay'' (VType TStr)]"

definition schema_dcs :: validator where
  "schema_dcs = VDict [opt ''ttl'' (int_range (Some 20) None), opt ''loop_wait'' (int_range (Some 1) None),
     opt ''retry_timeout'' (int_range (Some 3) None), opt ''maximum_lag_on_failover'' (int_range (Some 0) None),
     opt ''maximum_lag_on_syncnode'' (int_range (Some (- 1)) None),
     opt ''member_slots_ttl'' (VCall None (IntValidator (Some 0) None (Some ''s'') None)),
     opt ''postgresql'' schema_dcs_postgresql, opt ''primary_start_timeout'' (int_range (Some 0) None),
     opt ''primary_stop_timeout'' (int_range (Some 0) None), opt ''standby_cluster'' schema_standby_cluster,
     opt ''synchronous_mode'' (VType TBool), opt ''synchronous_mode_strict'' (VType TBool),
     opt ''synchronous_node_count'' (int_range (Some 1) None)]"

definition schema_bootstrap :: validator where
  "schema_bootstrap = VDict [req ''dcs'' schema_dcs, opt ''initdb'' (VList [VOr [VType TStr, VType TDict]]), opt ''method'' (VType TStr)]"

definition schema_consul :: "system \<Rightarrow> validator" where
  "schema_consul sys = VDict ([(OrKey [''host'', ''url''], Case [(''host'', VCall None (sy_host_port sys False False)), (''url'', VType TStr)]),
     opt ''port'' (typed_range None (Some 65535)), opt ''scheme'' (VType TStr), opt ''token'' (VType TStr), opt ''verify'' (VType TBool)]
     @ strs [''cacert'', ''cert'', ''key'', ''dc''] @
     [opt ''checks'' (VList [VType TStr]), opt ''register_service'' (VType TBool), opt ''service_tags'' (VList [VType TStr]),
     opt ''service_check_interval'' (VType TStr), opt ''service_check_tls_server_name'' (VType TStr),
     opt ''consistency'' (enum [''default'', ''consistent'', ''stale''] True)])"

definition schema_kubernetes :: "system \<Rightarrow> validator" where
  "schema_kubernetes sys = VDict ([req ''labels'' (VDict []), opt ''bypass_api_service'' (VType TBool)]
     @ strs [''namespace'', ''scope_label'', ''role_label'', ''leader_label_value'', ''follower_label_value'',
         ''standby_leader_label_value'', ''tmp_role_label''] @
     [opt ''use_endpoints'' (VType TBool), opt ''pod_ip'' (VOr [VCall None (sy_ipv4 sys), VCall None (sy_ipv6 sys)]),
     opt ''ports'' (VList [VDict [req ''name'' (VType TStr), req ''port'' (typed_range None (Some 65535))]]),
     opt ''cacert'' (VType TStr), opt ''retriable_http_codes'' (VOr [VType TInt, VList [VType TInt]]),
     opt ''bootstrap_labels'' (VType TDict)])"

definition dcs_schemas :: "system \<Rightarrow> (string \<times> validator) list" where
  "dcs_schemas sys = [(''consul'', schema_consul sys), (''etcd'', validate_etcd sys), (''etcd3'', validate_etcd sys),
     (''exhibitor'', VDict [req ''hosts'' (VList [VType TStr]), req ''port'' (typed_range None (Some 65535)),
        opt ''poll_interval'' (typed_range (Some 1) None)]),
     (''raft'', VDict [req ''self_addr'' connect_address, opt ''bind_addr'' (listen_address sys False),
        req ''partner_addrs'' (VCall (Some TList) (validate_host_port_list sys)), opt ''data_dir'' (VType TStr), opt ''password'' (VType TStr)]),
     (''zookeeper'', VDict ([req ''hosts'' (hosts_validator sys), opt ''use_ssl'' (VType TBool)]
        @ strs [''cacert'', ''cert'', ''key'', ''key_password''] @
        [opt ''verify'' (VType TBool), opt ''set_acls'' (VType TDict), opt ''auth_data'' (VType TDict)])),
     (''kubernetes'', schema_kubernetes sys)]"

definition schema_postgresql :: "system \<Rightarrow> validator" where
  "schema_postgresql sys = VDict [req ''listen'' (listen_address sys True), req ''connect_address'' connect_address,
     opt ''proxy_address'' connect_address,
     req ''authentication'' (VDict [req ''replication'' userattributes, req ''superuser'' userattributes, opt ''rewind'' userattributes]),
     req ''data_dir'' (VCall (Some TStr) (sy_data_dir sys)),
     opt ''bin_name'' (VDict (map (\<lambda>s. opt s (VCall (Some TStr) (sy_binary_name sys)))
       [''pg_ctl'', ''initdb'', ''pg_controldata'', ''pg_basebackup'', ''postgres'', ''pg_isready'', ''pg_rewind''])),
     (OptionalKey ''bin_dir'' (Some (PStr [])), Plain (VDirectory (sy_bin_dir sys))),
     opt ''parameters'' (VDict [opt ''unix_socket_directories'' (VType TStr)]),
     opt ''pg_hba'' (VList [VType TStr]), opt ''pg_ident'' (VList [VType TStr]), opt ''pg_ctl_timeout'' (int_range (Some 0) None),
     opt ''use_pg_rewind'' (VType TBool)]"

definition schema_mysql :: "system \<Rightarrow> validator" where
  "schema_mysql sys = VDict ([req ''name'' (VType TStr), req ''listen'' (listen_address sys True), req ''connect_address'' connect_address]
     @ strs [''data_dir'', ''config_dir'', ''bin_dir''] @
     [opt ''parameters'' (VType TDict), opt ''port'' (typed_range (Some 0) (Some 65535)), opt ''server_id'' (typed_range (Some 0) None),
     opt ''authentication'' (VDict [req ''replication'' userattributes, req ''superuser'' userattributes])])"

definition schema_tags :: validator where
  "schema_tags = VDict [(AtMostOne [''nofailover'', ''failover_priority''],
       Case [(''nofailover'', VType TBool), (''failover_priority'', typed_range (Some 0) None)]),
     opt ''clonefrom'' (VType TBool), opt ''noloadbalance'' (VType TBool), opt ''replicatefrom'' (VType TStr),
     (AtMostOne [''nosync'', ''sync_priority''], Case [(''nosync'', VType TBool), (''sync_priority'', typed_range (Some 0) None)]),
     opt ''nostream'' (VType TBool)]"

definition thread_stack_size :: validator where
  "thread_stack_size = VCall (Some TInt) (IntValidator (Some 65536) None (Some ''B'') (Some 65535))"

definition schema :: "system \<Rightarrow> validator" where
  "schema sys = VDict [req ''name'' (VType TStr), req ''scope'' (VType TStr), opt ''thread_pool_size'' (typed_range (Some 5) None),
     opt ''thread_stack_size'' thread_stack_size, opt ''log'' schema_log, opt ''ctl'' schema_ctl, req ''restapi'' (schema_restapi sys),
     opt ''bootstrap'' schema_bootstrap, (OrKey (sy_dcs sys), Case (dcs_schemas sys)),
     opt ''database'' (VDict [req ''type'' (enum [''postgresql'', ''mysql''] True)]),
     opt ''citus'' (VDict [req ''database'' (VType TStr), req ''group'' (typed_range (Some 0) None)]),
     opt ''postgresql'' (schema_postgresql sys), opt ''mysql'' (schema_mysql sys),
     opt ''watchdog'' (VDict [opt ''mode'' (VCall None validate_watchdog_mode), opt ''device'' (VType TStr),
       opt ''safety_margin'' (typed_range (Some (- 1)) None)]),
     opt ''tags'' schema_tags]"

section \<open>The schema is decided correctly\<close>

lemma schema_call_correct: "schema_ok v \<Longrightarrow> schema_call v data = [] \<longleftrightarrow> conforms v data"
  using validate_correct(1) [of v data] by (simp add: schema_call_def filter_empty_conv list_all_iff)

lemma schema_parts_ok:
  "schema_ok userattributes" "schema_ok (hosts_validator sys)" "schema_ok connect_address" "schema_ok (listen_address sys b)"
  "schema_ok schema_log" "schema_ok schema_ctl" "schema_ok schema_dcs_postgresql" "schema_ok schema_standby_cluster"
  "schema_ok schema_tags" "schema_ok thread_stack_size"
  by (simp_all add: userattributes_def hosts_validator_def connect_address_def listen_address_def schema_log_def schema_ctl_def
      schema_dcs_postgresql_def schema_standby_cluster_def schema_tags_def thread_stack_size_def key_names_def key_ok_def)

lemma schema_sections_ok:
  "schema_ok (validate_etcd sys)" "schema_ok (schema_restapi sys)" "schema_ok schema_dcs" "schema_ok (schema_consul sys)"
  "schema_ok (schema_kubernetes sys)" "schema_ok (schema_mysql sys)" "schema_ok (schema_postgresql sys)"
  by (simp_all add: validate_etcd_def schema_restapi_def schema_dcs_def schema_consul_def schema_kubernetes_def schema_mysql_def
      schema_postgresql_def key_names_def key_ok_def schema_parts_ok)

lemma schema_bootstrap_ok: "schema_ok schema_bootstrap"
  by (simp add: schema_bootstrap_def key_names_def key_ok_def schema_sections_ok)

lemma dcs_schemas_ok: "entry_ok (Case (dcs_schemas sys))"
  by (simp add: dcs_schemas_def key_names_def key_ok_def schema_parts_ok schema_sections_ok)

definition dcs_names :: "string list" where
  "dcs_names = [''consul'', ''etcd'', ''etcd3'', ''exhibitor'', ''raft'', ''zookeeper'', ''kubernetes'']"

lemma patroni_schema_ok:
  assumes "sy_dcs sys \<noteq> []" "distinct (sy_dcs sys)" "set (sy_dcs sys) \<subseteq> set dcs_names"
  shows "schema_ok (schema sys)"
proof -
  have "set (map fst (dcs_schemas sys)) = set dcs_names" by (simp add: dcs_schemas_def dcs_names_def)
  then have "key_ok (OrKey (sy_dcs sys)) (Case (dcs_schemas sys))"
    using assms by (simp add: key_ok_def key_names_def)
  moreover have "s \<notin> set (sy_dcs sys)" if "s \<in> {''name'', ''scope'', ''thread_pool_size'', ''thread_stack_size'', ''log'', ''ctl'',
      ''restapi'', ''bootstrap'', ''database'', ''citus'', ''postgresql'', ''mysql'', ''watchdog'', ''tags''}" for s
    using that assms(3) by (auto simp: dcs_names_def)
  ultimately show ?thesis
    using assms(2) dcs_schemas_ok [of sys]
    by (simp add: schema_def key_names_def schema_parts_ok schema_sections_ok schema_bootstrap_ok) (simp add: key_ok_def key_names_def)
qed

text \<open>A system where every address and path is fine, and a configuration with the required options.\<close>

definition demo_system :: system where
  "demo_system = \<lparr>sy_host_port = (\<lambda>_ _ _. True), sy_ipv4 = (\<lambda>_. True), sy_ipv6 = (\<lambda>_. True), sy_data_dir = (\<lambda>_. True),
     sy_binary_name = (\<lambda>_. True), sy_bin_dir = (\<lambda>_. []), sy_dcs = dcs_names\<rparr>"

definition demo_config :: "pydict \<Rightarrow> pyval" where
  "demo_config extra = PDict ([(''name'', PStr ''a''), (''scope'', PStr ''c''), (''etcd'', PDict [(''host'', PStr ''10.0.0.9:2379'')]),
     (''restapi'', PDict [(''listen'', PStr ''0.0.0.0:8008''), (''connect_address'', PStr ''10.0.0.1:8008'')])] @ extra)"

text \<open>
  C22: the validation of a configuration is exact. With Patroni's schema and whatever modules are available in \<^verbatim>\<open>patroni/dcs\<close>,
  the engine, which walks the configuration, writes defaults into it and collects and filters the results of alternatives, reports no error
  exactly when the configuration conforms to the declarative reading of the schema.
\<close>

theorem config_validation_exact:
  assumes "sy_dcs sys \<noteq> []" "distinct (sy_dcs sys)" "set (sy_dcs sys) \<subseteq> set dcs_names"
  shows "schema_call (schema sys) config = [] \<longleftrightarrow> conforms (schema sys) config"
  by (intro schema_call_correct patroni_schema_ok assms)

theorem config_validation_exact_witness:
  "schema_call (schema demo_system) (demo_config [(''tags'', PDict [(''nofailover'', PBool True)])]) = []
   \<and> schema_call (schema demo_system) (demo_config [(''tags'', PDict [(''nofailover'', PBool True), (''failover_priority'', PInt 1)])]) \<noteq> []"
proof -
  have "sy_dcs demo_system \<noteq> []" "distinct (sy_dcs demo_system)" "set (sy_dcs demo_system) \<subseteq> set dcs_names"
    by (simp_all add: demo_system_def dcs_names_def)
  note exact = config_validation_exact [OF this]
  have "conforms (schema demo_system) (demo_config [(''tags'', PDict [(''nofailover'', PBool True)])])" by code_simp
  moreover have "\<not> conforms (schema demo_system) (demo_config [(''tags'', PDict [(''nofailover'', PBool True), (''failover_priority'', PInt 1)])])"
    by code_simp
  ultimately show ?thesis using exact by simp
qed

section \<open>Values the schema refuses\<close>

text \<open>
  C36: the schema refuses every sensible \<^verbatim>\<open>thread_stack_size\<close>. It asks for a multiple of 65535 that is at least
  65536, so no power of two is accepted, in particular neither the minimum itself nor the default of 524288 that
  \<^verbatim>\<open>patroni/daemon.py\<close> uses; and the value \<^verbatim>\<open>512kB\<close> of the documentation is refused because an integer is expected.
\<close>

theorem thread_stack_size_refused:
  "schema_call thread_stack_size (PInt (2 ^ k)) \<noteq> [] \<and> schema_call thread_stack_size (PStr ''512kB'') \<noteq> []"
proof -
  have "\<not> (65535 :: int) dvd 2 ^ k"
  proof
    assume "(65535 :: int) dvd 2 ^ k"
    then have "(3 :: int) dvd 2 ^ k" using dvd_trans [of "3 :: int" 65535 "2 ^ k"] by simp
    moreover have "coprime (3 :: int) (2 ^ k)" by simp
    ultimately show False using coprime_common_divisor_int [of 3 "2 ^ k" 3] by simp
  qed
  then have "\<not> IntValidator (Some 65536) None (Some ''B'') (Some 65535) (PInt (2 ^ k))"
    by (simp add: IntValidator_def parse_int_def strtol_int py_round_def strip_def lstrip_def dvd_eq_mod_eq_0)
  then show ?thesis
    by (simp add: schema_call_def thread_stack_size_def validate_call_def wrong_type_def)
qed

text \<open>The quorum variant of synchronous mode, documented for the dynamic configuration, is refused under \<^verbatim>\<open>bootstrap.dcs\<close>.\<close>

lemma synchronous_mode_quorum_refused:
  "schema_call schema_dcs (PDict [(''synchronous_mode'', PStr ''quorum'')]) \<noteq> []
   \<and> schema_call schema_dcs (PDict [(''synchronous_mode'', PBool True)]) = []"
  by code_simp

text \<open>
  An alternative of an \<open>Or\<close> that yields no result, such as a dictionary of optional keys that are all missing, does not count as a
  success: the failures of the other alternatives are reported. Patroni's schema has no such alternative (\<open>schema_ok\<close>).
\<close>

lemma silent_alternative_refused:
  "schema_call (VOr [VType TStr, VDict [opt ''a'' (VType TStr)]]) (PDict []) \<noteq> []
   \<and> conforms (VOr [VType TStr, VDict [opt ''a'' (VType TStr)]]) (PDict [])"
  by code_simp

text \<open>A directory that is not a string passes.\<close>

lemma directory_of_wrong_type: "schema_call (VDirectory f) (PInt n) = []"
  by (simp add: schema_call_def)

end
