(* ===== verification/Retry.thy ===== *)
theory Retry
  imports DcsOps
begin

text \<open>
  \<open>Retry\<close> of \<^verbatim>\<open>patroni/utils.py\<close>, which wraps queries to the database and to DCS: the number of attempts, the delays and the
  deadline. The clock, the jitter and the outcome of every attempt are inputs; the loop takes fuel, and it is shown how much is enough.
\<close>

text \<open>\<open>rt_max_jitter\<close> is in hundredths of a second, as the code keeps it.\<close>

record retry =
  rt_max_tries :: "int option"
  rt_delay :: time
  rt_backoff :: int
  rt_max_jitter :: int
  rt_max_delay :: time
  rt_deadline :: "time option"
  rt_attempts :: int
  rt_cur_delay :: time
  rt_stoptime :: "time option"

definition rt_reset :: "retry \<Rightarrow> retry" where
  "rt_reset r = r\<lparr>rt_attempts := 0, rt_cur_delay := rt_delay r, rt_stoptime := None\<rparr>"

definition update_delay :: "retry \<Rightarrow> retry" where
  "update_delay r = r\<lparr>rt_cur_delay := min (rt_cur_delay r * of_int (rt_backoff r)) (rt_max_delay r)\<rparr>"

definition stoptime :: "retry \<Rightarrow> time" where
  "stoptime r = (case rt_stoptime r of None \<Rightarrow> 0 | Some t \<Rightarrow> t)"

text \<open>\<open>None\<close> where \<^verbatim>\<open>raise_ex\<close> is raised.\<close>

definition ensure_deadline :: "time \<Rightarrow> time \<Rightarrow> bool \<Rightarrow> retry \<Rightarrow> bool option" where
  "ensure_deadline now timeout raise_ex r =
     (if stoptime r - now < timeout then if raise_ex then None else Some False else Some True)"

text \<open>\<open>jitter\<close> is the random number, at most \<open>rt_max_jitter\<close>; \<open>own\<close> the \<^verbatim>\<open>sleeptime\<close> attribute of the exception.\<close>

definition sleeptime :: "int \<Rightarrow> time option \<Rightarrow> retry \<Rightarrow> time" where
  "sleeptime jitter own r = (case own of Some t \<Rightarrow> t | None \<Rightarrow> rt_cur_delay r + of_int jitter / 100)"

text \<open>
  What happens during the call number \<open>n\<close>: the result of the function, an exception of \<^verbatim>\<open>retry_exceptions\<close> with its \<^verbatim>\<open>sleeptime\<close>, or
  another exception; the time before and after the call, and the jitter.
\<close>

datatype 'a attempt = Returns 'a | Retryable "time option" | Raises

datatype 'a retry_result = Returned 'a | OtherException | TooManyAttempts | DeadlineExceeded

record 'a attempts =
  at_outcome :: "nat \<Rightarrow> 'a attempt"
  at_before :: "nat \<Rightarrow> time"
  at_after :: "nat \<Rightarrow> time"
  at_jitter :: "nat \<Rightarrow> int"

definition start_clock :: "time \<Rightarrow> retry \<Rightarrow> retry" where
  "start_clock now r = (if rt_deadline r \<noteq> None \<and> rt_stoptime r = None then r\<lparr>rt_stoptime := Some (now + the (rt_deadline r))\<rparr> else r)"

text \<open>The loop with the number of the attempt; the result has the times slept.\<close>

fun retry_loop :: "nat \<Rightarrow> 'a attempts \<Rightarrow> nat \<Rightarrow> retry \<Rightarrow> ('a retry_result \<times> time list) option" where
  "retry_loop 0 env n r = None"
| "retry_loop (Suc fuel) env n r0 =
     (let r = start_clock (at_before env n) r0 in case at_outcome env n of
        Returns x \<Rightarrow> Some (Returned x, [])
      | Raises \<Rightarrow> Some (OtherException, [])
      | Retryable own \<Rightarrow>
          if rt_max_tries r = Some (rt_attempts r) then Some (TooManyAttempts, [])
          else (let s = sleeptime (at_jitter env n) own r in
            if rt_stoptime r \<noteq> None \<and> at_after env n + s \<ge> the (rt_stoptime r) then Some (DeadlineExceeded, [])
            else map_option (map_prod id (Cons s)) (retry_loop fuel env (Suc n) (update_delay (r\<lparr>rt_attempts := rt_attempts r + 1\<rparr>)))))"

definition retry_call :: "nat \<Rightarrow> 'a attempts \<Rightarrow> retry \<Rightarrow> ('a retry_result \<times> time list) option" where
  "retry_call fuel env r = retry_loop fuel env 0 (rt_reset r)"

section \<open>How often and how long\<close>

lemma start_clock_simps [simp]:
  "rt_max_tries (start_clock t r) = rt_max_tries r" "rt_attempts (start_clock t r) = rt_attempts r"
  "rt_cur_delay (start_clock t r) = rt_cur_delay r" "rt_backoff (start_clock t r) = rt_backoff r"
  "rt_max_delay (start_clock t r) = rt_max_delay r" "rt_deadline (start_clock t r) = rt_deadline r"
  by (simp_all add: start_clock_def)

lemma retry_loop_bounded:
  assumes "rt_max_tries r = Some m" "rt_attempts r \<le> m" "nat (m - rt_attempts r) < fuel"
  shows "\<exists>res ss. retry_loop fuel env n r = Some (res, ss) \<and> int (length ss) \<le> m - rt_attempts r"
  using assms
proof (induction fuel arbitrary: n r)
  case (Suc fuel)
  let ?r = "start_clock (at_before env n) r"
  let ?r' = "update_delay (?r\<lparr>rt_attempts := rt_attempts ?r + 1\<rparr>)"
  show ?case
  proof (cases "rt_attempts r = m")
    case True
    then show ?thesis using Suc.prems by (auto simp: Let_def split: attempt.splits)
  next
    case False
    then have "\<exists>res ss. retry_loop fuel env (Suc n) ?r' = Some (res, ss) \<and> int (length ss) \<le> m - rt_attempts ?r'"
      using Suc.prems by (intro Suc.IH) (auto simp: update_delay_def)
    then show ?thesis
      using Suc.prems by (auto simp: Let_def update_delay_def split: attempt.splits)
  qed
qed simp

text \<open>
  Delays never shrink: every sleep takes at least \<open>d\<close> when the delays, and the \<^verbatim>\<open>sleeptime\<close> an exception may carry, do,
  and the clock does not run backwards.
\<close>

definition steady_clock :: "time \<Rightarrow> 'a attempts \<Rightarrow> bool" where
  "steady_clock d env \<longleftrightarrow> (\<forall>n. at_before env n \<le> at_after env n \<and> at_after env n + d \<le> at_before env (Suc n) \<and> 0 \<le> at_jitter env n
     \<and> (\<forall>t. at_outcome env n = Retryable (Some t) \<longrightarrow> d \<le> t))"

definition delays_ok :: "time \<Rightarrow> retry \<Rightarrow> bool" where
  "delays_ok d r \<longleftrightarrow> d \<le> rt_cur_delay r \<and> d \<le> rt_max_delay r \<and> 1 \<le> rt_backoff r"

lemma delays_ok_update:
  assumes "delays_ok d r" "0 < d"
  shows "delays_ok d (update_delay r)"
proof -
  have "rt_cur_delay r * 1 \<le> rt_cur_delay r * of_int (rt_backoff r)"
    using assms by (intro mult_left_mono) (auto simp: delays_ok_def)
  moreover have "d \<le> rt_cur_delay r" using assms by (simp add: delays_ok_def)
  ultimately have "d \<le> rt_cur_delay r * of_int (rt_backoff r)" by linarith
  then show ?thesis using assms by (simp add: delays_ok_def update_delay_def)
qed

lemma sleeptime_ge:
  assumes "steady_clock d env" "delays_ok d r" "at_outcome env n = Retryable own"
  shows "d \<le> sleeptime (at_jitter env n) own r"
proof -
  have "0 \<le> at_jitter env n" "\<And>t. own = Some t \<Longrightarrow> d \<le> t" "d \<le> rt_cur_delay r"
    using assms by (auto simp: steady_clock_def delays_ok_def)
  moreover from this(1) have "(0 :: rat) \<le> of_int (at_jitter env n) / 100" by simp
  ultimately show ?thesis by (auto simp: sleeptime_def split: option.splits)
qed

lemma retry_loop_deadline:
  assumes env: "steady_clock d env" and d: "0 < d"
    and "rt_stoptime r = Some stop" "delays_ok d r" "stop - at_before env n < of_nat (Suc fuel) * d"
  shows "\<exists>res ss. retry_loop (Suc fuel) env n r = Some (res, ss)"
  using assms(3-5)
proof (induction fuel arbitrary: n r)
  case 0
  have r: "start_clock (at_before env n) r = r" using 0 by (simp add: start_clock_def)
  have "at_after env n + sleeptime (at_jitter env n) own r \<ge> stop" if "at_outcome env n = Retryable own" for own
  proof -
    have "at_before env n \<le> at_after env n" using env by (simp add: steady_clock_def)
    then show ?thesis using sleeptime_ge [OF env 0(2) that] 0(3) by simp
  qed
  then show ?case using 0 by (auto simp: r Let_def split: attempt.splits)
next
  case (Suc fuel)
  have r: "start_clock (at_before env n) r = r" using Suc.prems by (simp add: start_clock_def)
  let ?r' = "update_delay (r\<lparr>rt_attempts := rt_attempts r + 1\<rparr>)"
  have "at_before env n + d \<le> at_before env (Suc n)" 
  proof -
    have "at_before env n \<le> at_after env n" "at_after env n + d \<le> at_before env (Suc n)" using env by (auto simp: steady_clock_def)
    then show ?thesis by linarith
  qed
  then have "stop - at_before env (Suc n) < of_nat (Suc fuel) * d"
    using Suc.prems(3) by (simp add: algebra_simps)
  moreover have "delays_ok d ?r'" using delays_ok_update [OF _ d] Suc.prems(2) by (simp add: delays_ok_def)
  moreover have "rt_stoptime ?r' = Some stop" using Suc.prems(1) by (simp add: update_delay_def)
  ultimately have "\<exists>res ss. retry_loop (Suc fuel) env (Suc n) ?r' = Some (res, ss)" by (intro Suc.IH)
  then show ?case
    by (subst retry_loop.simps) (auto simp: r Let_def simp del: retry_loop.simps split: attempt.splits)
qed

text \<open>
  C28: a wrapped call ends. With \<open>max_tries = m\<close> the function is retried at most \<open>m\<close> times and then the call returns or raises.
  With a deadline \<open>D\<close> it ends although the number of tries is not limited: if every sleep takes at least \<open>d\<close>, as the
  configured delays guarantee, more than \<open>D / d\<close> rounds of the loop are never needed.
\<close>

theorem retry_returns:
  assumes "0 < d" "d \<le> rt_delay r" "d \<le> rt_max_delay r" "1 \<le> rt_backoff r" "steady_clock d env"
  shows "(\<forall>m \<ge> 0. rt_max_tries r = Some m \<longrightarrow> (\<exists>res ss. retry_call (Suc (nat m)) env r = Some (res, ss) \<and> int (length ss) \<le> m))
    \<and> (\<forall>D fuel. rt_deadline r = Some D \<longrightarrow> D < of_nat fuel * d \<longrightarrow> 0 < fuel \<longrightarrow> (\<exists>res ss. retry_call fuel env r = Some (res, ss)))"
proof (intro conjI allI impI)
  fix m :: int
  assume "0 \<le> m" "rt_max_tries r = Some m"
  then show "\<exists>res ss. retry_call (Suc (nat m)) env r = Some (res, ss) \<and> int (length ss) \<le> m"
    using retry_loop_bounded [of "rt_reset r" m "Suc (nat m)" env 0] by (simp add: retry_call_def rt_reset_def)
next
  fix D :: time and fuel :: nat
  assume D: "rt_deadline r = Some D" "D < of_nat fuel * d" "0 < fuel"
  then obtain f where f: "fuel = Suc f" by (cases fuel) auto
  let ?r = "start_clock (at_before env 0) (rt_reset r)"
  have "rt_stoptime ?r = Some (at_before env 0 + D)" using D by (simp add: start_clock_def rt_reset_def)
  moreover have "delays_ok d ?r" using assms by (simp add: delays_ok_def rt_reset_def)
  ultimately have "\<exists>res ss. retry_loop (Suc f) env 0 ?r = Some (res, ss)"
    using assms D f by (intro retry_loop_deadline) auto
  moreover have "retry_loop (Suc f) env 0 ?r = retry_loop (Suc f) env 0 (rt_reset r)"
    by (simp add: start_clock_def)
  ultimately show "\<exists>res ss. retry_call fuel env r = Some (res, ss)" by (simp add: retry_call_def f)
qed

text \<open>A deadline of 10 seconds, a delay of one second that doubles, and a function that never succeeds.\<close>

definition demo_retry :: retry where
  "demo_retry = \<lparr>rt_max_tries = Some (- 1), rt_delay = 1, rt_backoff = 2, rt_max_jitter = 80, rt_max_delay = 3600, rt_deadline = Some 10,
     rt_attempts = 0, rt_cur_delay = 1, rt_stoptime = None\<rparr>"

definition demo_attempts :: "unit attempts" where
  "demo_attempts = \<lparr>at_outcome = (\<lambda>_. Retryable None), at_before = (\<lambda>n. of_nat n * 5), at_after = (\<lambda>n. of_nat n * 5 + 1), at_jitter = (\<lambda>_. 0)\<rparr>"

theorem retry_returns_witness: "\<exists>res ss. retry_call 11 demo_attempts demo_retry = Some (res, ss)"
proof -
  have "steady_clock 1 demo_attempts" by (simp add: steady_clock_def demo_attempts_def algebra_simps)
  then show ?thesis
    using retry_returns [of 1 demo_retry demo_attempts] by (simp add: demo_retry_def)
qed

end
