(* ===== verification/Spec2Isabelle.thy ===== *)
theory Spec2Isabelle
  imports HaDemote AsyncExec Watchdog Rewind CitusSound CitusTasks QuorumConverge Raft RestApi Validator Retry
begin

text \<open>
  \<^bold>\<open>Patroni: a verified model of its coordination logic.\<close>

  Patroni keeps a PostgreSQL (or MySQL) cluster available. On every node the HA loop (\<^verbatim>\<open>patroni/ha.py\<close>)
  reads the state of the cluster from a distributed configuration store (DCS, \<^verbatim>\<open>patroni/dcs\<close>), decides
  whether the node should run as the leader, and adjusts replication; synchronous replication is
  registered both in PostgreSQL and in DCS and the order of changes matters.

  \<^bold>\<open>Theories, in the order of their imports.\<close>
  \<^item> \<open>Prelude\<close>: Python dictionaries as insertion-ordered association lists, case folding, slices, errors.
  \<^item> \<open>CaseInsensitive\<close>: \<^verbatim>\<open>patroni/collections.py\<close>; the sets are an interpretation of a locale for finite sets.
  \<^item> \<open>PyValue\<close>, \<open>Numbers\<close>: \<^verbatim>\<open>patroni/utils.py\<close>; JSON-like values with \<^verbatim>\<open>str\<close> and \<^verbatim>\<open>repr\<close>, \<open>deep_compare\<close> and
    \<open>patch_config\<close>, and the parsing of numbers with units on IEEE doubles.
  \<^item> \<open>Quorum\<close>, \<open>QuorumSound\<close>, \<open>QuorumConverge\<close>: \<^verbatim>\<open>patroni/quorum.py\<close>. Generators are functions from a
    state to the transitions yielded, the state left and the exception. \<open>QuorumSound\<close> proves that every
    yielded transition keeps the documented invariants, states the contract of the registries with
    the leader race as the locale \<open>quorum_registry\<close> and interprets it; \<open>QuorumConverge\<close> proves that from an
    optimal state with enough confirmed standbys the resolver reaches the optimal state of the active nodes, and where it fails.
  \<^item> \<open>Dcs\<close>: the data model of \<^verbatim>\<open>patroni/dcs/__init__.py\<close> with \<^verbatim>\<open>patroni/tags.py\<close> and
    \<^verbatim>\<open>patroni/global_config.py\<close>; \<open>PgMisc\<close>: \<^verbatim>\<open>patroni/postgresql/misc.py\<close>; \<open>Slots\<close>: the replication slots a
    cluster view asks for; \<open>DcsOps\<close>: the operations of \<open>AbstractDCS\<close>.
  \<^item> \<open>SyncRep\<close>: \<^verbatim>\<open>patroni/postgresql/sync.py\<close>, the tokenizer and parser of \<^verbatim>\<open>synchronous_standby_names\<close>, the list of
    replicas and the handler with its invariant.
  \<^item> \<open>LeaderRace\<close>: the part of \<^verbatim>\<open>patroni/ha.py\<close> that decides whether a node may take the leader lock.
  \<^item> \<open>HaSync\<close>: the part of \<^verbatim>\<open>patroni/ha.py\<close> that drives synchronous replication, as sequences of actions on
    the two registries with a small logic for them.
  \<^item> \<open>Failsafe\<close>: the failsafe mode of \<^verbatim>\<open>patroni/ha.py\<close>, both sides of the agreement of members.
  \<^item> \<open>HaState\<close>, \<open>HaOps\<close>, \<open>HaCycle\<close>: the rest of \<^verbatim>\<open>patroni/ha.py\<close>. A method is a function of the state of the loop and of
    the answers to its queries; it leaves a trace of all queries and commands to DCS, to the database, to the watchdog,
    to the rewind and to the background task, in their order. \<open>HaOps\<close> has the operations (locks, demotion, bootstrap,
    restart, following), \<open>HaCycle\<close> the cycle that composes them.
  \<^item> \<open>HaLogic\<close>, \<open>HaSafe\<close>, \<open>HaFrame\<close>, \<open>HaHalt\<close>, \<open>HaDemote\<close>: which queries each operation can issue; monitors over traces with
    rules for the operations of the monad; a database is started as a primary only with the lock; what operations leave
    unchanged; a primary without the lock is stopped; the lock is released only after the stop.
  \<^item> \<open>AsyncExec\<close>: \<^verbatim>\<open>patroni/async_executor.py\<close>, with the threads as a step relation over interleavings.
  \<^item> \<open>Watchdog\<close>: \<^verbatim>\<open>patroni/watchdog\<close>, a state monad over the answers of the device.
  \<^item> \<open>Rewind\<close>: \<^verbatim>\<open>patroni/postgresql/rewind.py\<close>, the comparison of timeline histories and the run of \<^verbatim>\<open>pg_rewind\<close>.
  \<^item> \<open>Citus\<close>, \<open>CitusSound\<close>, \<open>CitusTasks\<close>: \<^verbatim>\<open>patroni/postgresql/mpp/citus.py\<close>: topologies and their transitions, the proof that the
    constraints of the table hold after every single update, and the queue of tasks with its threads and transactions.
  \<^item> \<open>Raft\<close>: \<^verbatim>\<open>patroni/dcs/raft.py\<close>, the replicated key-value store with expiring keys; the locale \<open>lease_lock\<close> is the
    contract of the leader lock, interpreted on the store.
  \<^item> \<open>RestHealth\<close>, \<open>RestApi\<close>: \<^verbatim>\<open>patroni/api.py\<close>: the status document and the health checks; routing, the access check and
    every handler that changes something, as responses written and actions performed.
  \<^item> \<open>Validator\<close>: \<^verbatim>\<open>patroni/validator.py\<close>, schemas, the engine that validates a configuration, and Patroni's schema, compared with a
    declarative reading of schemas; \<open>Retry\<close>: the class of that name in \<^verbatim>\<open>patroni/utils.py\<close>.
  \<^item> This theory: properties that span components.

  \<^bold>\<open>How the model corresponds to the code.\<close> Definitions have the names of the functions and methods they
  translate (an underscore in front is dropped; records are in lower case). What a method reads from
  PostgreSQL, from other nodes, from the clock or from a DCS backend is an argument, so the theorems
  hold for every such input; what it writes is part of its result. Exceptions are values of \<open>py_error\<close>.
  Log messages are not modelled. Strings are ASCII. Times are exact rationals.

  \<^bold>\<open>Fuel and bounds.\<close> Two recursions over \<^verbatim>\<open>replicatefrom\<close> tags may not end in the code; they take fuel,
  and it is proved that the number of members plus one or two is enough whenever any fuel is, or that
  no fuel is. \<open>pg_rewind\<close> repeats while WAL files are restored and takes fuel; it is proved for which answers it
  returns. The loop of \<open>Retry\<close> takes fuel, and it is proved how much is enough for a
  number of tries or a deadline. The loop of \<open>_process_quorum_replication\<close> runs over a
  given list of rounds, the polls after a failover over the number the code computes. All other functions are total.

  \<^bold>\<open>What is shown.\<close> No quorum of voters can elect a leader that misses an acknowledged commit, at every step
  of the resolver, of its execution and of a promotion; the leader race counts votes correctly and in any
  order; without quorum commit every node of the sync key is a synchronous standby; the guards of a promotion;
  a primary is started or promoted only with the leader lock and a PostgreSQL primary is stopped when it loses
  the lock or DCS outside of pause and standby clusters, in every cycle and whatever fails; a member that agrees in failsafe mode is
  no primary and sees the one that asked as the leader; a rewind is done exactly when the node has diverged; updates of Citus
  groups respect the constraints of the table except in one case that is shown to lose a node; the REST API changes
  something only after its checks, and its health checks imply each other as stated; the validation of a configuration is exact; the parsers invert the printers; slots are retained
  and merged as documented. Where the code does not do what it means to, a theorem
  shows for which inputs.

  \<^bold>\<open>Not modelled.\<close> \<^verbatim>\<open>patronictl\<close>, reading configuration files and the environment, the clients of the other DCS
  services, the management of the PostgreSQL and MySQL processes and of their files, sockets and TLS of the REST API and the
  documents it only prints, logging and the backup scripts: they are I/O around the decisions modelled here.
  MySQL Group Replication elects its primary by itself: \<open>run_mgr_cycle\<close> is one opaque query of the HA loop and the
  properties of the lock do not speak of it. Strings are lists of 8-bit characters: names are taken to be ASCII, as host
  names are, where the code works on Unicode code points.
\<close>

section \<open>Failover keeps acknowledged commits\<close>

text \<open>The sync key holds what the resolver believes to be registered in DCS.\<close>

definition sync_key_of :: "qsr \<Rightarrow> sync_state \<Rightarrow> bool" where
  "sync_key_of s key \<longleftrightarrow> s_leader key = Some (qs_leader s) \<and> s_quorum key = qs_quorum s
     \<and> set (sync_voters key) = set (cis_iter (qs_voters s))"

text \<open>
  C3: the leader race and the resolver together lose no acknowledged commit. Let the primary have
  acknowledged a commit at position \<open>p\<close>: it has the commit itself and so have \<open>numsync\<close> of the nodes in
  \<^verbatim>\<open>synchronous_standby_names\<close>. If the sync key and that setting are in one of the states the
  resolver's invariants admit, and a node other than the leader named in the key wins the race in
  quorum commit mode, then that node has received the commit.
\<close>

theorem failover_keeps_commits:
  assumes inv: "invariants_ok s" "cis_bool (qs_voters s)" and key: "sync_key_of s (c_sync c)"
    and active: "quorum_commit_mode_is_active gc n c" and n: "race_gtid n = []" "answers_any_order n"
    and names: "names_unique n members" and won: "is_healthiest_among gc n c members lag ldr = Inr True"
    and other: "n_name n \<noteq> qs_leader s"
    and acked: "C \<in> confirming s"
      "lower (n_name n) \<in> C \<Longrightarrow> p \<le> n_last_operation n"
      "\<And>m. m \<in> set members \<Longrightarrow> lower (m_name m) \<in> C \<Longrightarrow> 0 < ms_wal_position (fetch_node_status n m) \<Longrightarrow>
         p \<le> ms_wal_position (fetch_node_status n m)"
  shows "p \<le> n_last_operation n"
proof -
  obtain W where W: "W \<subseteq> lower ` set (sync_members (c_sync c))" "s_quorum (c_sync c) + 1 \<le> int (card W)"
    and votes: "\<And>w. w \<in> W \<Longrightarrow> w = lower (n_name n)
         \<or> (\<exists>m \<in> set members. lower (m_name m) = w \<and> confirms n (fetch_node_status n m))"
    using race_won_votes [OF active n names won] key other by (auto simp: sync_key_of_def)
  have "sync_members (c_sync c) = qs_leader s # sync_voters (c_sync c)"
    using active key by (simp add: quorum_commit_mode_is_active_def sync_members_def sync_key_of_def str_or_empty_def)
  then have elect: "W \<in> electing s" using W inv key by (simp add: electing_def sync_key_of_def)
  have got: "p \<le> n_last_operation n" if "w \<in> W" "w \<in> C" for w
  proof (cases "w = lower (n_name n)")
    case False
    then obtain m where m: "m \<in> set members" "lower (m_name m) = w" "confirms n (fetch_node_status n m)"
      using votes \<open>w \<in> W\<close> by blast
    then have "p \<le> ms_wal_position (fetch_node_status n m)" using acked(3) that(2) by (simp add: confirms_def)
    then show ?thesis using m(3) by (simp add: confirms_def)
  qed (use acked(2) that in simp)
  show ?thesis
    by (rule qr.winner_has_commit [where position = "\<lambda>w. n_last_operation n", OF elect acked(1)])
      (simp, rule got)
qed

theorem failover_keeps_commits_witness: "(90 :: int) \<le> n_last_operation demo_node"
proof (rule failover_keeps_commits)
  let ?s = "QuorumStateResolver ''x'' 1 [''a'', ''b''] 1 [''a'', ''b''] 1 [''a'', ''b''] 1 ''x''"
  let ?c = "Cluster_empty\<lparr>c_sync := SyncState PNone (Some ''x'') (Some ''a,b'') 1\<rparr> :: unit cluster"
  let ?gc = "[(''synchronous_mode'', PStr ''quorum'')]"
  show "invariants_ok ?s" "cis_bool (qs_voters ?s)" "sync_key_of ?s (c_sync ?c)"
    "quorum_commit_mode_is_active ?gc demo_node ?c" "race_gtid demo_node = []" "names_unique demo_node [demo_peer ''b'']"
    "is_healthiest_among ?gc demo_node ?c [demo_peer ''b''] True None = Inr True" "n_name demo_node \<noteq> qs_leader ?s"
    by code_simp+
  show "answers_any_order demo_node" by (simp add: answers_any_order_def demo_node_def)
  have "lower (qs_leader_wanted ?s) = ''x''" "lower ` set (cis_iter (qs_sync ?s)) = {''a'', ''b''}" "qs_numsync ?s = 1"
    by code_simp+
  then show "{''x'', ''b''} \<in> confirming ?s"
    unfolding confirming_def by (intro image_eqI [where x = "{''b''}"]) auto
  show "lower (n_name demo_node) \<in> {''x'', ''b''} \<Longrightarrow> 90 \<le> n_last_operation demo_node" by code_simp
  fix m assume "m \<in> set [demo_peer ''b'']"
  then have "m = demo_peer ''b''" by simp
  moreover have "90 \<le> ms_wal_position (fetch_node_status demo_node (demo_peer ''b''))" by code_simp
  ultimately show "90 \<le> ms_wal_position (fetch_node_status demo_node m)" by simp
qed

text \<open>Nobody answers.\<close>

lemma race_loop_unknown:
  "\<forall>st \<in> set sts. \<not> ms_reachable st \<Longrightarrow> race_loop (race_step gc n c vs l) sts acc = Inr (Some acc)"
  by (induction sts) (simp_all add: race_step_def failover_limitation_def)

lemma former_leader_alone:
  assumes active: "quorum_commit_mode_is_active gc n c" and key: "s_leader (c_sync c) = Some (n_name n)"
    and race: "is_lagging gc c (n_last_operation n) = Inr False" "race_timeline_ok gc n c" "race_members gc n c members = Inr ms"
    and alone: "\<forall>m \<in> set ms. n_request n m = None" "answers_any_order n"
  shows "is_healthiest_among gc n c members lag ldr = Inr True"
proof -
  have "\<forall>st \<in> set (fetch_nodes_statuses n ms). \<not> ms_reachable st"
    using alone by (auto simp: fetch_nodes_statuses_def set_completed fetch_node_status_def unknown_def MemberStatus_def)
  then show ?thesis
    using race key by (simp add: is_healthiest_among_def race_loop_unknown race_verdict_def)
qed

text \<open>
  Acknowledgements without the former leader \<open>x\<close>: one of the voters has been promoted and replicates to all other nodes, while the
  sync key is still the one \<open>x\<close> has written.
\<close>

lemma acknowledged_without:
  assumes V: "finite V" "lower x \<notin> lower ` V" "inj_on lower V" and q: "1 \<le> q" "q < int (card V)" and vs: "set vs = V"
  shows "\<exists>s C. invariants_ok s \<and> qs_leader s = x \<and> qs_quorum s = q \<and> qs_voters s = cis_of vs \<and> C \<in> confirming s \<and> lower x \<notin> C"
proof -
  obtain a where a: "a \<in> V" using q by fastforce
  define s where "s = \<lparr>qs_leader = x, qs_quorum = q, qs_voters = cis_of vs, qs_numsync = int (card V) - q,
    qs_sync = cis_of (x # removeAll a vs), qs_numsync_confirmed = 0, qs_active = cis_of [], qs_sync_wanted = 1, qs_leader_wanted = a\<rparr>"
  have card: "card (lower ` V) = card V" using V(3) by (rule card_image)
  have abs: "cis_abs (qs_voters s) = lower ` V" "insert (lower a) (cis_abs (qs_sync s)) = insert (lower x) (lower ` V)"
    using vs a by (auto simp: s_def cis_simps)
  have inv: "invariants_ok s"
    using abs V(1,2) card by (subst invariants_ok_abs) (auto simp: s_def Let_def)
  have "nat (int (card V) - q) \<le> card (lower ` V - {lower a})" using q a V(1) card by simp
  then obtain B where B: "B \<subseteq> lower ` V - {lower a}" "card B = nat (int (card V) - q)"
    by (meson obtain_subset_with_card_n)
  have "lower ` set (cis_iter (qs_sync s)) = cis_abs (qs_sync s)" by (simp add: s_def lower_iter_abs)
  then have "insert (lower a) B \<in> confirming s"
    unfolding confirming_def using B q abs(2) by (intro image_eqI [where x = B]) (auto simp: s_def)
  moreover have "lower x \<notin> insert (lower a) B" using V(2) a B(1) by auto
  ultimately show ?thesis using inv by (intro exI [of _ s]) (auto simp: s_def)
qed

text \<open>
  C39: the exception for the leader named in the sync key is a real gap. Let a node be named as the leader in the
  sync key, with voters other than itself and a quorum of at least one and less than their number, and let no member
  answer it. Then it regards itself as the healthiest node without any vote, unless it lags or is on an old timeline. At
  the same time, for every position \<open>p\<close> past its own, there is a state that satisfies the invariants and agrees with this sync key,
  in which a commit at \<open>p\<close> can have been acknowledged by nodes that all have it: one of the voters was promoted, set its
  \<^verbatim>\<open>synchronous_standby_names\<close> and has not written its own name to the key yet.
\<close>

theorem former_leader_wins_alone:
  assumes active: "quorum_commit_mode_is_active gc n c" and key: "s_leader (c_sync c) = Some (n_name n)"
    and voters: "inj_on lower (set (sync_voters (c_sync c)))" "lower (n_name n) \<notin> lower ` set (sync_voters (c_sync c))"
      "1 \<le> s_quorum (c_sync c)" "s_quorum (c_sync c) < int (card (set (sync_voters (c_sync c))))"
    and race: "is_lagging gc c (n_last_operation n) = Inr False" "race_timeline_ok gc n c" "race_members gc n c members = Inr ms"
    and alone: "\<forall>m \<in> set ms. n_request n m = None" "answers_any_order n" and behind: "n_last_operation n < p"
  shows "is_healthiest_among gc n c members lag ldr = Inr True
    \<and> (\<exists>s C position. invariants_ok s \<and> sync_key_of s (c_sync c) \<and> C \<in> confirming s
         \<and> (\<forall>w \<in> C. p \<le> position w) \<and> position (lower (n_name n)) = n_last_operation n)"
proof -
  obtain s C where s: "invariants_ok s" "qs_leader s = n_name n" "qs_quorum s = s_quorum (c_sync c)"
      "qs_voters s = cis_of (sync_voters (c_sync c))" "C \<in> confirming s" "lower (n_name n) \<notin> C"
    using acknowledged_without [OF _ voters(2,1,3,4) refl] by blast
  let ?position = "\<lambda>w. if w \<in> C then p else n_last_operation n"
  have "sync_key_of s (c_sync c)" using s(2-4) key by (simp add: sync_key_of_def cis_iter_of [OF voters(1)])
  moreover have "(\<forall>w \<in> C. p \<le> ?position w) \<and> ?position (lower (n_name n)) = n_last_operation n" using s(6) by simp
  ultimately have "\<exists>s C position. invariants_ok s \<and> sync_key_of s (c_sync c) \<and> C \<in> confirming s
         \<and> (\<forall>w \<in> C. p \<le> position w) \<and> position (lower (n_name n)) = n_last_operation n"
    using s(1,5) by (intro exI [of _ s] exI [of _ C] exI [of _ ?position]) simp
  then show ?thesis using former_leader_alone [OF active key race alone] by blast
qed

theorem former_leader_wins_alone_witness:
  "is_healthiest_among [(''synchronous_mode'', PStr ''quorum'')] (demo_node\<lparr>n_name := ''x'', n_request := \<lambda>m. None\<rparr>)
       (Cluster_empty\<lparr>c_sync := SyncState PNone (Some ''x'') (Some ''a,b'') 1\<rparr> :: unit cluster)
       [demo_peer ''a'', demo_peer ''b''] True None = Inr True
   \<and> (\<exists>s C position. invariants_ok s \<and> sync_key_of s (SyncState PNone (Some ''x'') (Some ''a,b'') 1) \<and> C \<in> confirming s
         \<and> position ` C \<subseteq> {1000..} \<and> position ''x'' = n_last_operation demo_node)"
proof -
  let ?gc = "[(''synchronous_mode'', PStr ''quorum'')]"
  let ?n = "demo_node\<lparr>n_name := ''x'', n_request := \<lambda>m. None\<rparr>"
  let ?c = "Cluster_empty\<lparr>c_sync := SyncState PNone (Some ''x'') (Some ''a,b'') 1\<rparr> :: unit cluster"
  let ?ms = "[demo_peer ''a'', demo_peer ''b'']"
  have e: "quorum_commit_mode_is_active ?gc ?n ?c" "s_leader (c_sync ?c) = Some (n_name ?n)" "sync_voters (c_sync ?c) = [''a'', ''b'']"
    "is_lagging ?gc ?c (n_last_operation ?n) = Inr False" "race_timeline_ok ?gc ?n ?c" "race_members ?gc ?n ?c ?ms = Inr ?ms"
    "n_last_operation ?n < 1000" "lower ''x'' = ''x''" "lower ''a'' = ''a''" "lower ''b'' = ''b''" "s_quorum (c_sync ?c) = 1"
    by code_simp+
  have o: "answers_any_order ?n" by (simp add: answers_any_order_def demo_node_def)
  show ?thesis
    using former_leader_wins_alone [OF e(1,2) _ _ _ _ e(4-6) _ o e(7), of True None] e(3,8-11) by (auto simp: inj_on_def)
qed

end
